(* ===== verification/Prelude.thy ===== *)
theory Prelude
  imports Main "HOL-Library.Sublist" "HOL-Library.Char_ord" "HOL-Library.List_Lexorder"
    "HOL-Library.While_Combinator"
begin

text \<open>
  Shared vocabulary of the development: the byte strings of Go and the functions of Go's
  \<open>strings\<close>, \<open>strconv\<close> and \<open>sort\<close> packages the code uses, the application error type of
  \<open>platform/apperr\<close>, results as sums, and the generic lemmas and locales every component
  shares.  A Go string is a sequence of bytes, so it is modelled by \<^typ>\<open>string\<close> (a list of
  8-bit characters); the two places where Go decodes UTF-8 (\<open>TrimSpace\<close> and \<open>ToUpper\<close>) are
  written out on the byte sequences.
\<close>

named_theorems go_str \<open>facts about the Go string functions\<close>
named_theorems result_simps \<open>rules for results (sums) and their sequencing\<close>

subsection \<open>Identifiers and results\<close>

text \<open>UUIDs are opaque; \<open>uuid.Nil\<close> is 0.  Parsing and printing them is the third-party package
  \<open>google/uuid\<close>, so both are parameters where the code uses them.\<close>

type_synonym uuid = nat

abbreviation (input) uuid_nil :: uuid where "uuid_nil \<equiv> 0"

text \<open>\<open>apperr.Error\<close>: a kind, a message and, for a validation error, the offending field.\<close>

datatype apperr =
    Internal string
  | Invalid string string
  | NotFound string
  | Conflict string
  | Unauthorized string
  | Forbidden string

datatype kind = KindInternal | KindInvalid | KindNotFound | KindConflict | KindUnauthorized | KindForbidden

fun kindOf :: "apperr \<Rightarrow> kind" where
  "kindOf (Internal _) = KindInternal"
| "kindOf (Invalid _ _) = KindInvalid"
| "kindOf (NotFound _) = KindNotFound"
| "kindOf (Conflict _) = KindConflict"
| "kindOf (Unauthorized _) = KindUnauthorized"
| "kindOf (Forbidden _) = KindForbidden"

text \<open>Sequencing of fallible steps: the early \<open>return err\<close> of the Go code.\<close>

fun ebind :: "'e + 'a \<Rightarrow> ('a \<Rightarrow> 'e + 'b) \<Rightarrow> 'e + 'b" where
  "ebind (Inl e) f = Inl e"
| "ebind (Inr x) f = f x"

lemma ebind_Inr_iff [result_simps]: "ebind m f = Inr y \<longleftrightarrow> (\<exists>x. m = Inr x \<and> f x = Inr y)"
  by (cases m) auto

lemma ebind_Inl_iff [result_simps]:
  "ebind m f = Inl e \<longleftrightarrow> m = Inl e \<or> (\<exists>x. m = Inr x \<and> f x = Inl e)"
  by (cases m) auto

lemma not_isl_pair: "isl (fst p) = False \<Longrightarrow> \<exists>n s. p = (Inr n, s)"
  by (cases p; cases "fst p") auto

fun mapM :: "('a \<Rightarrow> 'e + 'b) \<Rightarrow> 'a list \<Rightarrow> 'e + 'b list" where
  "mapM f [] = Inr []"
| "mapM f (x # xs) = ebind (f x) (\<lambda>y. ebind (mapM f xs) (\<lambda>ys. Inr (y # ys)))"

lemma mapM_Inr_iff [result_simps]: "mapM f xs = Inr ys \<longleftrightarrow> list_all2 (\<lambda>x y. f x = Inr y) xs ys"
  by (induction xs arbitrary: ys) (auto simp: result_simps list_all2_Cons1)

lemma find_SomeD: "List.find P xs = Some x \<Longrightarrow> x \<in> set xs \<and> P x"
  by (auto simp: find_Some_iff)

lemma distinct_key: "distinct (map f xs) \<Longrightarrow> x \<in> set xs \<Longrightarrow> y \<in> set xs \<Longrightarrow> f x = f y \<Longrightarrow> x = y"
  by (metis distinct_map inj_onD)

lemma find_snoc: "List.find P xs = None \<Longrightarrow> List.find P (xs @ [x]) = (if P x then Some x else None)"
  by (induction xs) auto

lemma find_fresh: "\<forall>x \<in> set xs. \<not> P x \<Longrightarrow> P y \<Longrightarrow> List.find P (xs @ [y]) = Some y"
  by (simp add: find_snoc find_None_iff)

subsection \<open>Bytes and strings\<close>

abbreviation NL :: char where "NL \<equiv> CHR 0x0A"
abbreviation CR :: char where "CR \<equiv> CHR 0x0D"
abbreviation TAB :: char where "TAB \<equiv> CHR 0x09"
abbreviation SQ :: char where "SQ \<equiv> CHR 0x27"
abbreviation DQ :: char where "DQ \<equiv> CHR 0x22"
abbreviation BQ :: char where "BQ \<equiv> CHR 0x60"
abbreviation BSL :: char where "BSL \<equiv> CHR 0x5C"

definition isLowerByte :: "char \<Rightarrow> bool" where
  "isLowerByte c \<longleftrightarrow> CHR ''a'' \<le> c \<and> c \<le> CHR ''z''"

definition isUpperByte :: "char \<Rightarrow> bool" where
  "isUpperByte c \<longleftrightarrow> CHR ''A'' \<le> c \<and> c \<le> CHR ''Z''"

definition isDigitByte :: "char \<Rightarrow> bool" where
  "isDigitByte c \<longleftrightarrow> CHR ''0'' \<le> c \<and> c \<le> CHR ''9''"

definition upperByte :: "char \<Rightarrow> char" where
  "upperByte c = (if isLowerByte c then char_of (of_char c - (32::nat)) else c)"

definition lowerByte :: "char \<Rightarrow> char" where
  "lowerByte c = (if isUpperByte c then char_of (of_char c + (32::nat)) else c)"

text \<open>\<open>strings.HasPrefix\<close>, \<open>strings.Index\<close>, \<open>strings.IndexByte\<close>, \<open>strings.IndexAny\<close> (ASCII set),
  \<open>strings.Contains\<close>.\<close>

fun hasPrefix :: "string \<Rightarrow> string \<Rightarrow> bool" where
  "hasPrefix [] s = True"
| "hasPrefix (p # ps) [] = False"
| "hasPrefix (p # ps) (c # cs) = (p = c \<and> hasPrefix ps cs)"

fun strIndex :: "string \<Rightarrow> string \<Rightarrow> nat option" where
  "strIndex [] sub = (if sub = [] then Some 0 else None)"
| "strIndex (c # cs) sub = (if hasPrefix sub (c # cs) then Some 0 else map_option Suc (strIndex cs sub))"

fun indexAny :: "string \<Rightarrow> string \<Rightarrow> nat option" where
  "indexAny [] cset = None"
| "indexAny (c # cs) cset = (if c \<in> set cset then Some 0 else map_option Suc (indexAny cs cset))"

abbreviation indexByte :: "string \<Rightarrow> char \<Rightarrow> nat option" where
  "indexByte s c \<equiv> indexAny s [c]"

definition strContains :: "string \<Rightarrow> string \<Rightarrow> bool" where
  "strContains s sub \<longleftrightarrow> strIndex s sub \<noteq> None"

lemma hasPrefix_iff [go_str]: "hasPrefix p s \<longleftrightarrow> prefix p s"
  by (induction p s rule: hasPrefix.induct) auto

lemma strIndex_Some:
  "strIndex s sub = Some j \<Longrightarrow> j + length sub \<le> length s \<and> prefix sub (drop j s)"
proof (induction s arbitrary: j)
  case Nil
  then show ?case by (simp split: if_splits)
next
  case (Cons c s)
  then show ?case by (fastforce simp: go_str dest: prefix_length_le split: if_splits)
qed

lemma strIndex_least:
  "strIndex s sub = Some j \<Longrightarrow> i < j \<Longrightarrow> \<not> prefix sub (drop i s)"
proof (induction s arbitrary: i j)
  case Nil
  then show ?case by (simp split: if_splits)
next
  case (Cons c s)
  then show ?case by (cases i) (auto simp: go_str split: if_splits)
qed

lemma strIndex_None: "strIndex s sub = None \<Longrightarrow> \<not> prefix sub (drop i s)"
proof (induction s arbitrary: i)
  case Nil
  then show ?case by (simp split: if_splits)
next
  case (Cons c s)
  then show ?case by (cases i) (auto simp: go_str split: if_splits)
qed

lemma indexAny_Some: "indexAny s cs = Some j \<Longrightarrow> j < length s \<and> s ! j \<in> set cs"
  by (induction s arbitrary: j) (fastforce split: if_splits)+

lemma indexAny_None: "indexAny s cs = None \<longleftrightarrow> (\<forall>c \<in> set s. c \<notin> set cs)"
  by (induction s) auto

text \<open>\<open>strings.TrimLeft\<close> with an ASCII cutset.\<close>

definition trimLeftSet :: "string \<Rightarrow> string \<Rightarrow> string" where
  "trimLeftSet cset s = dropWhile (\<lambda>c. c \<in> set cset) s"

lemma length_trimLeftSet [go_str]: "length (trimLeftSet cset s) \<le> length s"
  by (simp add: trimLeftSet_def length_dropWhile_le)

text \<open>
  \<open>strings.TrimSpace\<close> removes Unicode white space: the six ASCII characters and the UTF-8
  encodings of U+0085, U+00A0, U+1680, U+2000 to U+200A, U+2028, U+2029, U+202F, U+205F, U+3000.
\<close>

definition spaceSeqs :: "string list" where
  "spaceSeqs = map (\<lambda>c. [c]) [CHR 0x20, TAB, NL, CHR 0x0B, CHR 0x0C, CR]
     @ [[CHR 0xC2, CHR 0x85], [CHR 0xC2, CHR 0xA0], [CHR 0xE1, CHR 0x9A, CHR 0x80],
        [CHR 0xE3, CHR 0x80, CHR 0x80], [CHR 0xE2, CHR 0x81, CHR 0x9F]]
     @ map (\<lambda>c. [CHR 0xE2, CHR 0x80, c])
        [CHR 0x80, CHR 0x81, CHR 0x82, CHR 0x83, CHR 0x84, CHR 0x85, CHR 0x86, CHR 0x87,
         CHR 0x88, CHR 0x89, CHR 0x8A, CHR 0xA8, CHR 0xA9, CHR 0xAF]"

function stripSeqs :: "string list \<Rightarrow> string \<Rightarrow> string" where
  "stripSeqs us s =
     (case List.find (\<lambda>u. u \<noteq> [] \<and> hasPrefix u s) us of
        None \<Rightarrow> s
      | Some u \<Rightarrow> stripSeqs us (drop (length u) s))"
  by pat_completeness auto
termination
proof (relation "measure (\<lambda>(us, s). length s)", goal_cases)
  case (2 us s u)
  then have "u \<noteq> []" "prefix u s" by (auto simp: find_Some_iff go_str)
  then have "0 < length u" "length u \<le> length s" by (simp_all add: prefix_length_le)
  then have "length s - length u < length s" by linarith
  then show ?case by simp
qed simp

declare stripSeqs.simps [simp del]

definition trimLeftSpace :: "string \<Rightarrow> string" where
  "trimLeftSpace s = stripSeqs spaceSeqs s"

definition trimRightSpace :: "string \<Rightarrow> string" where
  "trimRightSpace s = rev (stripSeqs (map rev spaceSeqs) (rev s))"

definition trimSpace :: "string \<Rightarrow> string" where
  "trimSpace s = trimRightSpace (trimLeftSpace s)"

lemma stripSeqs_suffix: "suffix (stripSeqs us s) s"
proof (induction us s rule: stripSeqs.induct)
  case (1 us s)
  show ?case
  proof (cases "List.find (\<lambda>u. u \<noteq> [] \<and> hasPrefix u s) us")
    case None
    then show ?thesis by (simp add: stripSeqs.simps [of us s])
  next
    case (Some u)
    with "1.IH" have "suffix (stripSeqs us (drop (length u) s)) (drop (length u) s)" by blast
    with Some show ?thesis
      by (simp add: stripSeqs.simps [of us s]) (meson suffix_drop suffix_order.trans)
  qed
qed

lemma stripSeqs_stripped: "u \<in> set us \<Longrightarrow> u \<noteq> [] \<Longrightarrow> \<not> prefix u (stripSeqs us s)"
proof (induction us s rule: stripSeqs.induct)
  case (1 us s)
  then show ?case
    by (subst stripSeqs.simps) (auto simp: find_None_iff go_str split: option.splits)
qed

lemma stripSeqs_idle: "(\<And>u. u \<in> set us \<Longrightarrow> u \<noteq> [] \<Longrightarrow> \<not> prefix u s) \<Longrightarrow> stripSeqs us s = s"
  by (subst stripSeqs.simps) (auto simp: find_Some_iff go_str split: option.splits)

lemma trimRightSpace_prefix: "prefix (trimRightSpace s) s"
  using stripSeqs_suffix [of "map rev spaceSeqs" "rev s"]
  by (simp add: trimRightSpace_def suffix_to_prefix)

lemma trimSpace_sublist: "sublist (trimSpace s) s"
proof -
  have "prefix (trimSpace s) (trimLeftSpace s)"
    by (simp add: trimSpace_def trimRightSpace_prefix)
  moreover have "suffix (trimLeftSpace s) s"
    by (simp add: trimLeftSpace_def stripSeqs_suffix)
  ultimately show ?thesis
    by (meson prefix_imp_sublist suffix_imp_sublist sublist_order.order.trans)
qed

lemma trimSpace_idem [simp]: "trimSpace (trimSpace s) = trimSpace s"
proof -
  let ?t = "trimSpace s"
  have "\<not> prefix u ?t" if "u \<in> set spaceSeqs" "u \<noteq> []" for u
    using that stripSeqs_stripped [of u spaceSeqs s] trimRightSpace_prefix [of "trimLeftSpace s"]
    by (auto simp: trimSpace_def trimLeftSpace_def intro: prefix_order.trans)
  then have "trimLeftSpace ?t = ?t"
    unfolding trimLeftSpace_def by (rule stripSeqs_idle)
  moreover have "trimRightSpace ?t = ?t"
    using stripSeqs_idle [of "map rev spaceSeqs" "rev ?t"]
      stripSeqs_stripped [of _ "map rev spaceSeqs" "rev (trimLeftSpace s)"]
    by (simp add: trimSpace_def trimRightSpace_def)
  ultimately show ?thesis by (metis trimSpace_def)
qed

lemma trimSpace_Nil [simp]: "trimSpace [] = []"
  using trimSpace_sublist [of "[]"] by simp

subsection \<open>Rendering\<close>

text \<open>\<open>strings.Join\<close>, \<open>strings.ReplaceAll\<close> (of one byte), \<open>strconv.Itoa\<close> and the ASCII part of
  \<open>strings.ToUpper\<close>, \<open>strings.ToLower\<close>.\<close>

fun joinStr :: "string \<Rightarrow> string list \<Rightarrow> string" where
  "joinStr sep [] = []"
| "joinStr sep [x] = x"
| "joinStr sep (x # y # ys) = x @ sep @ joinStr sep (y # ys)"

lemma joinStr_Cons: "joinStr sep (x # xs) = x @ (if xs = [] then [] else sep @ joinStr sep xs)"
  by (cases xs) auto

text \<open>\<open>strings.Split\<close> with a separator of one byte.\<close>

fun splitByte :: "char \<Rightarrow> string \<Rightarrow> string list" where
  "splitByte d [] = [[]]"
| "splitByte d (c # s) =
     (if c = d then [] # splitByte d s
      else case splitByte d s of [] \<Rightarrow> [[c]] | x # xs \<Rightarrow> (c # x) # xs)"

definition replaceByte :: "char \<Rightarrow> string \<Rightarrow> string \<Rightarrow> string" where
  "replaceByte c new s = concat (map (\<lambda>x. if x = c then new else [x]) s)"

lemma replaceByte_simps [simp]:
  "replaceByte c new [] = []"
  "replaceByte c new (x # s) = (if x = c then new else [x]) @ replaceByte c new s"
  by (simp_all add: replaceByte_def)

function replaceAll :: "string \<Rightarrow> string \<Rightarrow> string \<Rightarrow> string" where
  "replaceAll s old new =
     (case s of [] \<Rightarrow> []
      | c # cs \<Rightarrow> if old \<noteq> [] \<and> hasPrefix old s then new @ replaceAll (drop (length old) s) old new
                 else c # replaceAll cs old new)"
  by pat_completeness auto
termination
  by (relation "measure (\<lambda>(s, old, new). length s)") (auto simp: go_str)

declare replaceAll.simps [simp del]

definition digitChar :: "nat \<Rightarrow> char" where
  "digitChar n = char_of (48 + n)"

fun natStr :: "nat \<Rightarrow> string" where
  "natStr n = (if n < 10 then [digitChar n] else natStr (n div 10) @ [digitChar (n mod 10)])"

declare natStr.simps [simp del]

definition itoa :: "int \<Rightarrow> string" where
  "itoa i = (if i < 0 then CHR ''-'' # natStr (nat (- i)) else natStr (nat i))"

definition toLowerAscii :: "string \<Rightarrow> string" where
  "toLowerAscii s = map lowerByte s"

text \<open>\<open>%q\<close> (\<open>strconv.Quote\<close>) on ASCII text; bytes from 0x80 on are copied, which is what it does
  for printable UTF-8 text.\<close>

definition hexDigit :: "nat \<Rightarrow> char" where
  "hexDigit n = (if n < 10 then char_of (48 + n) else char_of (87 + n))"

definition quoteByte :: "char \<Rightarrow> string" where
  "quoteByte c =
     (if c = DQ \<or> c = BSL then [BSL, c]
      else if c = NL then [BSL, CHR ''n'']
      else if c = CR then [BSL, CHR ''r'']
      else if c = TAB then [BSL, CHR ''t'']
      else if c = CHR 0x07 then [BSL, CHR ''a'']
      else if c = CHR 0x08 then [BSL, CHR ''b'']
      else if c = CHR 0x0C then [BSL, CHR ''f'']
      else if c = CHR 0x0B then [BSL, CHR ''v'']
      else if c < CHR 0x20 \<or> c = CHR 0x7F
        then [BSL, CHR ''x'', hexDigit (of_char c div 16), hexDigit (of_char c mod 16)]
      else [c])"

definition goQuote :: "string \<Rightarrow> string" where
  "goQuote s = DQ # concat (map quoteByte s) @ [DQ]"

subsection \<open>Things that settle\<close>

text \<open>A store stepping under an invariant, and facts about it that, once true, stay true.\<close>

locale settling =
  fixes step :: "'s \<Rightarrow> 's \<Rightarrow> bool" and inv :: "'s \<Rightarrow> bool" and settled :: "'x \<Rightarrow> 's \<Rightarrow> bool"
  assumes inv_step: "inv s \<Longrightarrow> step s s' \<Longrightarrow> inv s'"
    and settled_step: "inv s \<Longrightarrow> step s s' \<Longrightarrow> settled x s \<Longrightarrow> settled x s'"
begin

lemma inv_steps: "step\<^sup>*\<^sup>* s s' \<Longrightarrow> inv s \<Longrightarrow> inv s'"
  by (induction rule: rtranclp_induct) (auto intro: inv_step)

lemma settled_steps: "step\<^sup>*\<^sup>* s s' \<Longrightarrow> inv s \<Longrightarrow> settled x s \<Longrightarrow> settled x s'"
  by (induction rule: rtranclp_induct) (auto intro: settled_step inv_steps)

end

end
