(* ===== verification/SqlText.thy ===== *)
theory SqlText
  imports Prelude
begin

text \<open>
  The SQL scanner of the console: \<open>platform/engine/sqlsplit.go\<close> (splitting a script into
  statements) and the classification part of \<open>platform/engine/admin_shared.go\<close> (leading
  keyword, read-only statements, the check of a console batch).  A position in the script is an
  index into the byte string, as in the source; a loop over the script is a \<^const>\<open>while\<close> over
  the record of its local variables, and its termination is a theorem.
\<close>

subsection \<open>Words and the leading keyword\<close>

definition isWordByte :: "char \<Rightarrow> bool" where
  "isWordByte b \<longleftrightarrow> b = CHR ''_'' \<or> isLowerByte b \<or> isUpperByte b \<or> isDigitByte b"

text \<open>The comment-skipping loop of \<open>leadingKeyword\<close>: \<^const>\<open>None\<close> is its \<open>return ""\<close> on an
  unterminated comment.\<close>

function skipComments :: "string \<Rightarrow> string option" where
  "skipComments sqlText =
     (let s = trimLeftSet [CHR '' '', TAB, CR, NL, CHR ''(''] sqlText in
      if hasPrefix ''--'' s \<or> hasPrefix ''#'' s then
        (case indexAny s [CR, NL] of
           Some i \<Rightarrow> skipComments (drop (i + 1) s)
         | None \<Rightarrow> None)
      else if hasPrefix ''/*'' s then
        (case strIndex s ''*/'' of
           Some i \<Rightarrow> skipComments (drop (i + 2) s)
         | None \<Rightarrow> None)
      else Some s)"
  by pat_completeness auto
termination
proof (relation "measure length", goal_cases)
  case (2 t s i)
  then have "i < length s" by (simp add: indexAny_Some)
  moreover have "length s \<le> length t" using 2 by (simp add: go_str)
  ultimately show ?case by simp
next
  case (3 t s i)
  then have "i + 2 \<le> length s" by (auto dest: strIndex_Some)
  moreover have "length s \<le> length t" using 3 by (simp add: go_str)
  ultimately show ?case by simp
qed simp

declare skipComments.simps [simp del]

definition leadingKeyword :: "string \<Rightarrow> string" where
  "leadingKeyword sqlText =
     (case skipComments sqlText of
        None \<Rightarrow> []
      | Some s \<Rightarrow> map upperByte (takeWhile isWordByte s))"

subsection \<open>Read-only statements\<close>

definition readOnlyLeadingKeywords :: "string list" where
  "readOnlyLeadingKeywords =
     [''SELECT'', ''SHOW'', ''DESCRIBE'', ''DESC'', ''EXPLAIN'', ''WITH'', ''TABLE'']"

text \<open>
  \<open>strings.ToUpper\<close> as \<open>containsWord\<close> sees it: ASCII letters are mapped, and the only two
  non-ASCII characters whose upper case is ASCII (U+0131 to \<open>I\<close> and U+017F to \<open>S\<close>) become that
  letter.  Other non-ASCII bytes are kept: whatever they become is again a non-ASCII byte, which
  is neither part of the word searched for nor a word byte.
\<close>

fun toUpperText :: "string \<Rightarrow> string" where
  "toUpperText [] = []"
| "toUpperText [c] = [upperByte c]"
| "toUpperText (c # d # s) =
     (if c = CHR 0xC4 \<and> d = CHR 0xB1 then CHR ''I'' # toUpperText s
      else if c = CHR 0xC5 \<and> d = CHR 0xBF then CHR ''S'' # toUpperText s
      else upperByte c # toUpperText (d # s))"

text \<open>\<open>containsWord\<close>: the loop variable \<open>i\<close> is where the next search starts.  The word searched
  for is never empty; the model stops on an empty one, where the source would not.\<close>

function containsWordFrom :: "string \<Rightarrow> string \<Rightarrow> nat \<Rightarrow> bool" where
  "containsWordFrom upper w i =
     (if w = [] then False else
      case strIndex (drop i upper) w of
        None \<Rightarrow> False
      | Some k \<Rightarrow>
          let j = k + i;
              before = (j = 0 \<or> \<not> isWordByte (upper ! (j - 1)));
              after = (j + length w = length upper \<or> \<not> isWordByte (upper ! (j + length w)))
          in if before \<and> after then True else containsWordFrom upper w (j + length w))"
  by pat_completeness auto
termination
proof (relation "measure (\<lambda>(upper, w, i). length upper - i)", goal_cases)
  case (2 upper w i k j before after)
  then have k: "k + length w \<le> length upper - i" using strIndex_Some [of "drop i upper" w k] by simp
  from 2 have "0 < length w" by simp
  with k have "length upper - (k + i + length w) < length upper - i" by linarith
  with 2 show ?case by simp
qed simp

declare containsWordFrom.simps [simp del]

definition containsWord :: "string \<Rightarrow> string \<Rightarrow> bool" where
  "containsWord upper w = containsWordFrom upper w 0"

definition isReadOnlyStmt :: "string \<Rightarrow> bool" where
  "isReadOnlyStmt sqlText =
     (let kw = leadingKeyword sqlText in
      if kw \<notin> set readOnlyLeadingKeywords then False
      else if kw = ''EXPLAIN'' \<or> kw = ''DESC'' \<or> kw = ''DESCRIBE''
        then \<not> containsWord (toUpperText sqlText) ''ANALYZE''
      else True)"

subsection \<open>Checking a console batch\<close>

datatype batch_error =
    QueryEmpty
  | TooManyStatements
  | StatementEmpty nat
  | StatementWrites nat

definition maxBatchStatements :: nat where
  "maxBatchStatements = 100"

fun checkBatchFrom :: "nat \<Rightarrow> bool \<Rightarrow> string list \<Rightarrow> batch_error option" where
  "checkBatchFrom i allowWrite [] = None"
| "checkBatchFrom i allowWrite (s # ss) =
     (let s' = trimSpace s in
      if s' = [] then Some (StatementEmpty (i + 1))
      else if \<not> allowWrite \<and> \<not> isReadOnlyStmt s' then Some (StatementWrites (i + 1))
      else checkBatchFrom (i + 1) allowWrite ss)"

text \<open>\<^const>\<open>None\<close> is the \<open>nil\<close> error.\<close>

definition checkBatch :: "string list \<Rightarrow> bool \<Rightarrow> batch_error option" where
  "checkBatch stmts allowWrite =
     (if length stmts = 0 then Some QueryEmpty
      else if length stmts > maxBatchStatements then Some TooManyStatements
      else checkBatchFrom 0 allowWrite stmts)"

subsection \<open>Literals, dollar quotes and DELIMITER lines\<close>

text \<open>The loop of \<open>skipQuoted\<close> on the bytes after the opening quote: how many of them it
  consumes.\<close>

fun skipBody :: "char \<Rightarrow> string \<Rightarrow> nat" where
  "skipBody q [] = 0"
| "skipBody q [c] = 1"
| "skipBody q (c # d # s) =
     (if c = BSL \<and> q = SQ then 2 + skipBody q s
      else if c = q then (if d = q then 2 + skipBody q s else 1)
      else 1 + skipBody q (d # s))"

definition skipQuoted :: "string \<Rightarrow> nat \<Rightarrow> char \<Rightarrow> nat" where
  "skipQuoted s i q = i + 1 + skipBody q (drop (i + 1) s)"

definition isTagByte :: "nat \<Rightarrow> char \<Rightarrow> bool" where
  "isTagByte j c \<longleftrightarrow> c = CHR ''_'' \<or> isLowerByte c \<or> isUpperByte c \<or> (1 < j \<and> isDigitByte c)"

function dollarTagEnd :: "string \<Rightarrow> nat \<Rightarrow> nat" where
  "dollarTagEnd s j = (if j < length s \<and> isTagByte j (s ! j) then dollarTagEnd s (j + 1) else j)"
  by pat_completeness auto
termination by (relation "measure (\<lambda>(s, j). length s - j)") auto

declare dollarTagEnd.simps [simp del]

definition dollarTag :: "string \<Rightarrow> string option" where
  "dollarTag s =
     (if length s < 2 then None
      else if s ! 1 = CHR ''$'' then Some ''$$''
      else let j = dollarTagEnd s 1 in
        if 1 < j \<and> j < length s \<and> s ! j = CHR ''$'' then Some (take (j + 1) s) else None)"

definition delimiterDirective :: "string \<Rightarrow> (string \<times> nat) option" where
  "delimiterDirective s =
     (let t = trimLeftSet [CHR '' '', TAB] s; skipped = length s - length t in
      if length t < 10 \<or> map upperByte (take 9 t) \<noteq> ''DELIMITER''
          \<or> (t ! 9 \<noteq> CHR '' '' \<and> t ! 9 \<noteq> TAB) then None
      else
        let n = indexByte t NL;
            line = (case n of Some k \<Rightarrow> take k t | None \<Rightarrow> t);
            tok = trimSpace (drop 9 line)
        in if tok = [] \<or> indexAny tok [CHR '' '', TAB] \<noteq> None then None
           else Some (tok, skipped + length line + (if n \<noteq> None then 1 else 0)))"

subsection \<open>SplitStatements\<close>

text \<open>The local variables of \<open>SplitStatements\<close>.\<close>

record splitter =
  sp_i :: nat
  sp_delim :: string
  sp_cur :: string
  sp_out :: "string list"

text \<open>The closure \<open>flush\<close>.\<close>

definition splitFlush :: "splitter \<Rightarrow> splitter" where
  "splitFlush st =
     (let stmt = trimSpace (sp_cur st) in
      st\<lparr>sp_cur := [],
         sp_out := (if stmt \<noteq> [] \<and> leadingKeyword stmt \<noteq> [] then sp_out st @ [stmt] else sp_out st)\<rparr>)"

text \<open>\<open>cur.WriteString(s[i:j]); i = j\<close>.\<close>

definition splitCopy :: "string \<Rightarrow> nat \<Rightarrow> splitter \<Rightarrow> splitter" where
  "splitCopy s j st =
     st\<lparr>sp_cur := sp_cur st @ take (j - sp_i st) (drop (sp_i st) s), sp_i := j\<rparr>"

text \<open>One pass of the \<open>for\<close> loop.\<close>

definition splitStep :: "string \<Rightarrow> splitter \<Rightarrow> splitter" where
  "splitStep s st =
     (let i = sp_i st; rest = drop i s; c = s ! i in
      case (if (i = 0 \<or> s ! (i - 1) = NL) \<and> leadingKeyword (sp_cur st) = []
            then delimiterDirective rest else None) of
        Some (d, n) \<Rightarrow> st\<lparr>sp_cur := [], sp_delim := d, sp_i := i + n\<rparr>
      | None \<Rightarrow>
          if hasPrefix (sp_delim st) rest then (splitFlush st)\<lparr>sp_i := i + length (sp_delim st)\<rparr>
          else if c = SQ \<or> c = DQ \<or> c = BQ then splitCopy s (skipQuoted s i c) st
          else if c = CHR ''-'' \<and> hasPrefix ''--'' rest \<or> c = CHR ''#'' then
            splitCopy s (case indexByte rest NL of Some j \<Rightarrow> i + j | None \<Rightarrow> length s) st
          else if c = CHR ''/'' \<and> hasPrefix ''/*'' rest then
            splitCopy s (case strIndex (drop 2 rest) ''*/'' of
                           Some j \<Rightarrow> i + 2 + j + 2 | None \<Rightarrow> length s) st
          else
            case (if c = CHR ''$'' then dollarTag rest else None) of
              Some tag \<Rightarrow>
                splitCopy s (case strIndex (drop (length tag) rest) tag of
                               Some e \<Rightarrow> i + length tag + e + length tag | None \<Rightarrow> length s) st
            | None \<Rightarrow> splitCopy s (i + 1) st)"

definition splitInit :: splitter where
  "splitInit = \<lparr>sp_i = 0, sp_delim = '';'', sp_cur = [], sp_out = []\<rparr>"

definition splitLoop :: "string \<Rightarrow> splitter \<Rightarrow> splitter" where
  "splitLoop s = while (\<lambda>st. sp_i st < length s) (splitStep s)"

definition splitStatements :: "string \<Rightarrow> string list" where
  "splitStatements script = sp_out (splitFlush (splitLoop script splitInit))"

subsection \<open>Every pass of the loop makes progress\<close>

lemma skipBody_le: "skipBody q s \<le> length s"
  by (induction q s rule: skipBody.induct) auto

lemma skipQuoted_bounds: "i < length s \<Longrightarrow> i < skipQuoted s i q \<and> skipQuoted s i q \<le> length s"
  using skipBody_le [of q "drop (i + 1) s"] by (auto simp: skipQuoted_def)

lemma dollarTag_Some: "dollarTag s = Some tag \<Longrightarrow> s ! 0 = CHR ''$'' \<Longrightarrow> prefix tag s \<and> tag \<noteq> []"
proof (cases "s ! 1 = CHR ''$''")
  case True
  assume "dollarTag s = Some tag" "s ! 0 = CHR ''$''"
  with True show ?thesis
    by (cases s; cases "tl s") (auto simp: dollarTag_def split: if_splits)
next
  case False
  assume "dollarTag s = Some tag"
  with False show ?thesis by (auto simp: dollarTag_def Let_def take_is_prefix split: if_splits)
qed

lemma delimiterDirective_Some:
  assumes "delimiterDirective s = Some (d, n)"
  shows "d \<noteq> []" and "0 < n" and "n \<le> length s"
proof -
  define t where "t = trimLeftSet [CHR '' '', TAB] s"
  have t: "length t \<le> length s" by (simp add: t_def go_str)
  have len: "10 \<le> length t"
    using assms by (auto simp: delimiterDirective_def Let_def t_def split: if_splits)
  from assms show "d \<noteq> []"
    by (auto simp: delimiterDirective_def Let_def split: if_splits)
  from assms len t show "n \<le> length s"
    by (auto simp: delimiterDirective_def Let_def t_def [symmetric] split: if_splits option.splits
        dest!: indexAny_Some)
  show "0 < n"
  proof (cases "indexByte t NL")
    case None
    with assms len show ?thesis
      by (auto simp: delimiterDirective_def Let_def t_def [symmetric] split: if_splits)
  next
    case (Some k)
    with assms show ?thesis
      by (auto simp: delimiterDirective_def Let_def t_def [symmetric] split: if_splits)
  qed
qed

text \<open>The three kinds of step: a delimiter line, the end of a statement, a copied token.\<close>

lemma splitStep_cases [consumes 2, case_names directive flush copy]:
  assumes "sp_i st < length s" and "sp_delim st \<noteq> []"
  obtains (directive) d n where
      "splitStep s st = st\<lparr>sp_cur := [], sp_delim := d, sp_i := sp_i st + n\<rparr>"
      "d \<noteq> []" "0 < n" "sp_i st + n \<le> length s"
  | (flush) "splitStep s st = (splitFlush st)\<lparr>sp_i := sp_i st + length (sp_delim st)\<rparr>"
      "sp_i st + length (sp_delim st) \<le> length s"
  | (copy) j where "splitStep s st = splitCopy s j st" "sp_i st < j" "j \<le> length s"
proof -
  let ?i = "sp_i st" and ?rest = "drop (sp_i st) s" and ?c = "s ! sp_i st"
  let ?dir = "if (?i = 0 \<or> s ! (?i - 1) = NL) \<and> leadingKeyword (sp_cur st) = []
              then delimiterDirective ?rest else None"
  have rest0: "?rest ! 0 = ?c" using assms by simp
  show thesis
  proof (cases ?dir)
    case (Some dn)
    obtain d n where dn: "dn = (d, n)" by force
    with Some have dd: "delimiterDirective ?rest = Some (d, n)" by (auto split: if_splits)
    have "splitStep s st = st\<lparr>sp_cur := [], sp_delim := d, sp_i := ?i + n\<rparr>"
      using Some dn by (simp only: splitStep_def Let_def option.case prod.case)
    then show thesis using delimiterDirective_Some [OF dd] assms by (intro directive) auto
  next
    case None
    note step = splitStep_def [of s st, unfolded Let_def None option.case]
    consider (delim) "hasPrefix (sp_delim st) ?rest"
      | (quote) "\<not> hasPrefix (sp_delim st) ?rest" "?c = SQ \<or> ?c = DQ \<or> ?c = BQ"
      | (line) "\<not> hasPrefix (sp_delim st) ?rest" "\<not> (?c = SQ \<or> ?c = DQ \<or> ?c = BQ)"
          "?c = CHR ''-'' \<and> hasPrefix ''--'' ?rest \<or> ?c = CHR ''#''"
      | (block) "\<not> hasPrefix (sp_delim st) ?rest" "\<not> (?c = SQ \<or> ?c = DQ \<or> ?c = BQ)"
          "\<not> (?c = CHR ''-'' \<and> hasPrefix ''--'' ?rest \<or> ?c = CHR ''#'')"
          "?c = CHR ''/'' \<and> hasPrefix ''/*'' ?rest"
      | (other) "\<not> hasPrefix (sp_delim st) ?rest" "\<not> (?c = SQ \<or> ?c = DQ \<or> ?c = BQ)"
          "\<not> (?c = CHR ''-'' \<and> hasPrefix ''--'' ?rest \<or> ?c = CHR ''#'')"
          "\<not> (?c = CHR ''/'' \<and> hasPrefix ''/*'' ?rest)"
      by blast
    then show thesis
    proof cases
      case delim
      then have "length (sp_delim st) \<le> length ?rest"
        unfolding hasPrefix_iff by (rule prefix_length_le)
      with delim show thesis using assms by (intro flush) (simp_all add: step)
    next
      case quote
      have "?i < skipQuoted s ?i ?c" "skipQuoted s ?i ?c \<le> length s"
        using skipQuoted_bounds [of ?i s ?c] assms by auto
      with quote show thesis by (intro copy [of "skipQuoted s ?i ?c"]) (simp_all only: step if_True if_False)
    next
      case line
      have "case indexByte ?rest NL of Some j \<Rightarrow> 0 < j \<and> ?i + j \<le> length s | None \<Rightarrow> True"
      proof (cases "indexByte ?rest NL")
        case (Some j)
        then have "j < length ?rest" "?rest ! j = NL" by (auto dest: indexAny_Some)
        with line rest0 show ?thesis using Some by (cases j) auto
      qed simp
      then show thesis using line assms
        by (intro copy [of "case indexByte ?rest NL of Some j \<Rightarrow> ?i + j | None \<Rightarrow> length s"])
          (simp_all add: step split: option.splits)
    next
      case block
      have "?i + 2 + j + 2 \<le> length s" if "strIndex (drop 2 ?rest) ''*/'' = Some j" for j
        using strIndex_Some [OF that] by auto
      then show thesis using block assms
        by (intro copy [of "case strIndex (drop 2 ?rest) ''*/'' of Some j \<Rightarrow> ?i + 2 + j + 2 | None \<Rightarrow> length s"])
          (simp_all add: step split: option.splits)
    next
      case other
      note step' = step [unfolded if_not_P [OF other(1)] if_not_P [OF other(2)]
          if_not_P [OF other(3)] if_not_P [OF other(4)]]
      show thesis
      proof (cases "if ?c = CHR ''$'' then dollarTag ?rest else None")
        case None
        then show thesis using assms by (intro copy [of "?i + 1"]) (simp_all add: step')
      next
        case (Some tag)
        then have tag: "prefix tag ?rest" "tag \<noteq> []"
          using dollarTag_Some [of ?rest tag] rest0 by (auto split: if_splits)
        have "?i + length tag + e + length tag \<le> length s"
          if "strIndex (drop (length tag) ?rest) tag = Some e" for e
          using strIndex_Some [OF that] prefix_length_le [OF tag(1)] assms(1) by auto
        then show thesis using assms tag Some
          by (intro copy [of "case strIndex (drop (length tag) ?rest) tag of
                 Some e \<Rightarrow> ?i + length tag + e + length tag | None \<Rightarrow> length s"])
            (simp_all add: step' split: option.splits)
      qed
    qed
  qed
qed

subsection \<open>The result: the statements, in order\<close>

text \<open>\<open>inOrder xs s\<close>: the strings \<open>xs\<close> occur in \<open>s\<close> one after the other, without overlap.\<close>

fun inOrder :: "string list \<Rightarrow> string \<Rightarrow> bool" where
  "inOrder [] s = True"
| "inOrder (x # xs) s = (\<exists>a b. s = a @ x @ b \<and> inOrder xs b)"

lemma inOrder_append: "inOrder xs s \<Longrightarrow> inOrder xs (s @ r)"
  by (induction xs arbitrary: s) (auto, metis append_assoc)

lemma inOrder_snoc: "inOrder xs s \<Longrightarrow> sublist x q \<Longrightarrow> inOrder (xs @ [x]) (s @ q)"
proof (induction xs arbitrary: s)
  case Nil
  then show ?case by (auto simp: sublist_def) (metis append_assoc)
next
  case (Cons y ys)
  then obtain a b where "s = a @ y @ b" and "inOrder ys b" by auto
  with Cons have "s @ q = a @ y @ (b @ q)" and "inOrder (ys @ [x]) (b @ q)" by auto
  then show ?case by (metis append_Cons inOrder.simps(2))
qed

lemma inOrder_sublist: "inOrder xs s \<Longrightarrow> x \<in> set xs \<Longrightarrow> sublist x s"
proof (induction xs arbitrary: s)
  case (Cons y ys)
  then obtain a b where s: "s = a @ y @ b" and "inOrder ys b" by auto
  with Cons have "x = y \<or> sublist x b" by auto
  moreover have "sublist y s" "sublist b s"
    unfolding s by (simp_all add: sublist_def) (metis append_assoc append_Nil2)+
  ultimately show ?case by (meson sublist_order.order.trans)
qed simp

text \<open>The loop invariant: \<open>cur\<close> is the text copied since \<open>k\<close>, and the statements found so far lie
  before it.\<close>

definition splitInv :: "string \<Rightarrow> splitter \<Rightarrow> bool" where
  "splitInv s st \<longleftrightarrow> sp_delim st \<noteq> [] \<and> sp_i st \<le> length s
     \<and> (\<exists>k \<le> sp_i st. sp_cur st = take (sp_i st - k) (drop k s) \<and> inOrder (sp_out st) (take k s))
     \<and> (\<forall>x \<in> set (sp_out st). x \<noteq> [] \<and> trimSpace x = x \<and> leadingKeyword x \<noteq> [])"

lemma take_drop_split: "k \<le> i \<Longrightarrow> take i s = take k s @ take (i - k) (drop k s)"
  by (metis le_add_diff_inverse take_add)

lemma splitInv_flush:
  assumes "splitInv s st" and "sp_i st \<le> j" and "j \<le> length s"
  shows "splitInv s ((splitFlush st)\<lparr>sp_i := j\<rparr>)"
proof -
  let ?i = "sp_i st"
  from assms obtain k where k: "k \<le> ?i" "sp_cur st = take (?i - k) (drop k s)"
      "inOrder (sp_out st) (take k s)" by (auto simp: splitInv_def)
  have "inOrder (sp_out st) (take j s)"
    using inOrder_append [OF k(3), of "take (j - k) (drop k s)"] k(1) assms(2)
    by (simp add: take_drop_split [of k j])
  moreover have "inOrder (sp_out st @ [trimSpace (sp_cur st)]) (take j s)"
  proof -
    have "inOrder (sp_out st @ [trimSpace (sp_cur st)]) (take k s @ sp_cur st)"
      using k(3) trimSpace_sublist by (rule inOrder_snoc)
    then have "inOrder (sp_out st @ [trimSpace (sp_cur st)]) (take ?i s)"
      using k by (simp add: take_drop_split)
    from inOrder_append [OF this, of "take (j - ?i) (drop ?i s)"] show ?thesis
      using assms(2) by (simp add: take_drop_split [of ?i j])
  qed
  ultimately show ?thesis using assms
    by (auto simp: splitInv_def splitFlush_def Let_def intro!: exI [of _ j])
qed

lemma splitInv_step:
  assumes "splitInv s st" and "sp_i st < length s"
  shows "splitInv s (splitStep s st)" and "sp_i st < sp_i (splitStep s st)"
proof -
  from assms have d: "sp_delim st \<noteq> []" by (simp add: splitInv_def)
  from assms obtain k where k: "k \<le> sp_i st" "sp_cur st = take (sp_i st - k) (drop k s)"
      "inOrder (sp_out st) (take k s)" by (auto simp: splitInv_def)
  have "splitInv s (splitStep s st) \<and> sp_i st < sp_i (splitStep s st)"
    using assms(2) d
  proof (cases rule: splitStep_cases)
    case (directive d n)
    have "inOrder (sp_out st) (take (sp_i st + n) s)"
      using inOrder_append [OF k(3), of "take (sp_i st + n - k) (drop k s)"] k(1)
      by (simp add: take_drop_split [of k "sp_i st + n"])
    with directive assms(1) show ?thesis
      by (auto simp: splitInv_def intro!: exI [of _ "sp_i st + n"])
  next
    case flush
    with splitInv_flush [OF assms(1), of "sp_i st + length (sp_delim st)"] d show ?thesis by simp
  next
    case (copy j)
    have "sp_cur st @ take (j - sp_i st) (drop (sp_i st) s) = take (j - k) (drop k s)"
      using k copy by (simp add: take_drop_split [of "sp_i st - k" "j - k"])
    with copy k assms(1) show ?thesis
      by (auto simp: splitInv_def splitCopy_def intro!: exI [of _ k])
  qed
  then show "splitInv s (splitStep s st)" and "sp_i st < sp_i (splitStep s st)" by auto
qed

lemma splitInv_init: "splitInv s splitInit"
  by (simp add: splitInv_def splitInit_def)

lemma splitInv_loop: "splitInv s st \<Longrightarrow> splitInv s (splitLoop s st) \<and> \<not> sp_i (splitLoop s st) < length s"
  unfolding splitLoop_def
  by (rule while_rule [where P = "splitInv s" and r = "measure (\<lambda>st. length s - sp_i st)"])
    (auto intro!: splitInv_step diff_less_mono2)

lemma splitLoop_terminates:
  "splitInv s st \<Longrightarrow> \<exists>st'. while_option (\<lambda>st. sp_i st < length s) (splitStep s) st = Some st'"
  by (rule measure_while_option_Some [where P = "splitInv s" and f = "\<lambda>st. length s - sp_i st"])
    (auto intro!: splitInv_step diff_less_mono2)

subsection \<open>Statements the splitter keeps whole\<close>

text \<open>The body of a literal in which every quote is doubled.\<close>

definition doubleQuotes :: "char \<Rightarrow> string \<Rightarrow> string" where
  "doubleQuotes q b = replaceByte q [q, q] b"

lemma doubleQuotes_simps [simp]:
  "doubleQuotes q [] = []"
  "doubleQuotes q (c # b) = (if c = q then [q, q] else [c]) @ doubleQuotes q b"
  by (simp_all add: doubleQuotes_def)

text \<open>A doubled body closes exactly at its quote; in single quotes this needs a body without
  backslashes, because \<open>skipQuoted\<close> takes them as escapes.\<close>

lemma skipBody_Cons:
  "skipBody q (c # s) =
     (if s = [] then 1
      else if c = BSL \<and> q = SQ then 2 + skipBody q (tl s)
      else if c = q then (if hd s = q then 2 + skipBody q (tl s) else 1)
      else 1 + skipBody q s)"
  by (cases s) auto

lemma skipBody_doubleQuotes:
  assumes "q = SQ \<longrightarrow> BSL \<notin> set b" and "t = [] \<or> hd t \<noteq> q"
  shows "skipBody q (doubleQuotes q b @ q # t) = length (doubleQuotes q b) + 1"
  using assms(1)
proof (induction b)
  case Nil
  then show ?case using assms(2) by (cases "q = SQ") (auto simp: skipBody_Cons)
next
  case (Cons c b)
  then have "doubleQuotes q b @ q # t \<noteq> []" by simp
  with Cons show ?case by (auto simp: skipBody_Cons)
qed

lemma strIndex_append: "strIndex a sub = Some j \<Longrightarrow> strIndex (a @ b) sub = Some j"
proof (induction a arbitrary: j)
  case Nil
  then show ?case by (cases b) (auto split: if_splits)
next
  case (Cons c a)
  show ?case
  proof (cases "prefix sub (c # a)")
    case True
    then have "prefix sub (c # a @ b)" by (metis append_Cons prefix_prefix)
    with True Cons.prems show ?thesis by (simp add: go_str)
  next
    case False
    with Cons.prems obtain k where k: "strIndex a sub = Some k" "j = Suc k" by (auto simp: go_str)
    then have "length sub \<le> length (c # a)" using strIndex_Some [OF k(1)] by simp
    with False have "\<not> prefix sub ((c # a) @ b)"
      by (meson prefixI prefix_length_prefix)
    with k Cons.IH show ?thesis by (simp add: go_str)
  qed
qed

inductive opaque :: "string \<Rightarrow> bool" where
  opaque_nil: "opaque []"
| opaque_plain: "opaque t \<Longrightarrow> c \<notin> {CHR '';'', SQ, DQ, BQ, CHR ''#'', CHR ''$'', NL} \<Longrightarrow>
    \<not> prefix ''--'' (c # t) \<Longrightarrow> \<not> prefix ''/*'' (c # t) \<Longrightarrow> opaque (c # t)"
| opaque_quoted: "opaque t \<Longrightarrow> q \<in> {SQ, DQ, BQ} \<Longrightarrow> (q = SQ \<longrightarrow> BSL \<notin> set b) \<Longrightarrow> t = [] \<or> hd t \<noteq> q \<Longrightarrow>
    opaque (q # doubleQuotes q b @ q # t)"
| opaque_comment: "opaque t \<Longrightarrow> strIndex (w @ ''*/'') ''*/'' = Some (length w) \<Longrightarrow>
    opaque (''/*'' @ w @ ''*/'' @ t)"
| opaque_dollar: "opaque t \<Longrightarrow> strIndex (w @ ''$$'') ''$$'' = Some (length w) \<Longrightarrow>
    opaque (''$$'' @ w @ ''$$'' @ t)"

text \<open>At the start of a token: the splitter is at \<open>i\<close>, no delimiter line begins there, and what
  is left is the token, the rest of the statement and what follows it.\<close>

definition atToken :: "string \<Rightarrow> splitter \<Rightarrow> string \<Rightarrow> bool" where
  "atToken s st rest \<longleftrightarrow> sp_delim st = '';'' \<and> drop (sp_i st) s = rest
     \<and> (sp_i st = 0 \<and> delimiterDirective s = None \<or> sp_i st \<noteq> 0 \<and> s ! (sp_i st - 1) \<noteq> NL)"

lemma splitLoop_step: "sp_i st < length s \<Longrightarrow> splitLoop s st = splitLoop s (splitStep s st)"
  unfolding splitLoop_def by (subst while_unfold) simp

lemma splitLoop_stop: "\<not> sp_i st < length s \<Longrightarrow> splitLoop s st = st"
  unfolding splitLoop_def by (subst while_unfold) simp

lemma atToken_nth: "atToken s st (c # r) \<Longrightarrow> sp_i st < length s \<and> s ! sp_i st = c"
proof -
  assume a: "atToken s st (c # r)"
  then have d: "drop (sp_i st) s = c # r" by (simp add: atToken_def)
  then have "sp_i st < length s" by (metis drop_all leI list.distinct(1))
  with d show ?thesis by (metis hd_drop_conv_nth list.sel(1))
qed

lemma atToken_copy:
  assumes "atToken s st (tok @ r)" and "tok \<noteq> []" and "last tok \<noteq> NL"
  shows "splitCopy s (sp_i st + length tok) st
           = st\<lparr>sp_cur := sp_cur st @ tok, sp_i := sp_i st + length tok\<rparr>"
    and "atToken s (st\<lparr>sp_cur := sp_cur st @ tok, sp_i := sp_i st + length tok\<rparr>) r"
proof -
  let ?i = "sp_i st"
  from assms have d: "drop ?i s = tok @ r" by (simp add: atToken_def)
  then show "splitCopy s (?i + length tok) st
      = st\<lparr>sp_cur := sp_cur st @ tok, sp_i := ?i + length tok\<rparr>"
    by (simp add: splitCopy_def)
  have i: "?i < length s" using d assms(2) by (metis append_is_Nil_conv drop_all leI)
  have "s ! (?i + (length tok - 1)) = (tok @ r) ! (length tok - 1)"
    using d i by (metis nth_drop less_imp_le)
  moreover have "?i + length tok - 1 = ?i + (length tok - 1)" using assms(2) by (cases tok) auto
  ultimately have "s ! (?i + length tok - 1) = last tok"
    using assms(2) by (simp add: nth_append last_conv_nth)
  with d assms show "atToken s (st\<lparr>sp_cur := sp_cur st @ tok, sp_i := ?i + length tok\<rparr>) r"
    by (auto simp: atToken_def add.commute simp flip: drop_drop)
qed

lemma splitStep_atToken:
  assumes "atToken s st (c # r)"
  shows "splitStep s st =
    (if c = CHR '';'' then (splitFlush st)\<lparr>sp_i := sp_i st + 1\<rparr>
     else if c = SQ \<or> c = DQ \<or> c = BQ then splitCopy s (sp_i st + 1 + skipBody c r) st
     else if c = CHR ''-'' \<and> prefix ''-'' r \<or> c = CHR ''#'' then
       splitCopy s (case indexByte (c # r) NL of Some j \<Rightarrow> sp_i st + j | None \<Rightarrow> length s) st
     else if c = CHR ''/'' \<and> prefix ''*'' r then
       splitCopy s (case strIndex (drop 1 r) ''*/'' of Some j \<Rightarrow> sp_i st + 2 + j + 2 | None \<Rightarrow> length s) st
     else case (if c = CHR ''$'' then dollarTag (c # r) else None) of
            Some tag \<Rightarrow> splitCopy s (case strIndex (drop (length tag) (c # r)) tag of
                Some e \<Rightarrow> sp_i st + length tag + e + length tag | None \<Rightarrow> length s) st
          | None \<Rightarrow> splitCopy s (sp_i st + 1) st)"
proof -
  let ?i = "sp_i st"
  have c: "s ! ?i = c" and d: "drop ?i s = c # r" and del: "sp_delim st = '';''"
    using assms atToken_nth [OF assms] by (auto simp: atToken_def)
  have r: "drop (Suc ?i) s = r" using d by (metis drop_Suc drop_tl list.sel(3))
  have "(if (?i = 0 \<or> s ! (?i - 1) = NL) \<and> leadingKeyword (sp_cur st) = []
         then delimiterDirective (drop ?i s) else None) = None"
    using assms by (auto simp: atToken_def)
  moreover have "hasPrefix '';'' (c # r) = (c = CHR '';'')" by auto
  moreover have "hasPrefix ''--'' (c # r) = (c = CHR ''-'' \<and> prefix ''-'' r)" by (auto simp: go_str)
  moreover have "hasPrefix ''/*'' (c # r) = (c = CHR ''/'' \<and> prefix ''*'' r)" by (auto simp: go_str)
  moreover have "skipQuoted s ?i c = ?i + 1 + skipBody c r" by (simp add: skipQuoted_def r)
  moreover have "drop 2 (c # r) = drop 1 r" by (simp add: numeral_2_eq_2)
  moreover have "length '';'' = 1" by simp
  ultimately show ?thesis
    by (simp only: splitStep_def Let_def c d del option.case conj_left_absorb)
qed

lemma splitLoop_opaque:
  assumes "opaque x" and "post = [] \<or> hd post = CHR '';''" and "atToken s st (x @ post)"
  shows "splitLoop s st = splitLoop s (st\<lparr>sp_cur := sp_cur st @ x, sp_i := sp_i st + length x\<rparr>)
         \<and> atToken s (st\<lparr>sp_cur := sp_cur st @ x, sp_i := sp_i st + length x\<rparr>) post"
  using assms(1,3)
proof (induction arbitrary: st)
  case opaque_nil
  then show ?case by (simp add: atToken_def)
next
  case (opaque_plain t c)
  let ?st = "st\<lparr>sp_cur := sp_cur st @ [c], sp_i := sp_i st + 1\<rparr>"
  have a: "atToken s st ([c] @ t @ post)" using opaque_plain by simp
  have nopre: "\<not> (c = CHR ''-'' \<and> prefix ''-'' (t @ post))" "\<not> (c = CHR ''/'' \<and> prefix ''*'' (t @ post))"
    using opaque_plain.hyps assms(2) by (cases t; cases post; auto)+
  have "splitStep s st = ?st"
    using splitStep_atToken [of s st c "t @ post"] a opaque_plain.hyps nopre
      atToken_copy(1) [OF a] by auto
  moreover have "atToken s ?st (t @ post)"
    using atToken_copy(2) [OF a] opaque_plain.hyps by auto
  moreover have "sp_i st < length s" using a atToken_nth by fastforce
  ultimately show ?case using splitLoop_step [of st s] opaque_plain.IH [of ?st] by simp
next
  case (opaque_quoted t q b)
  let ?tok = "q # doubleQuotes q b @ [q]"
  let ?st = "st\<lparr>sp_cur := sp_cur st @ ?tok, sp_i := sp_i st + length ?tok\<rparr>"
  have a: "atToken s st (?tok @ t @ post)" using opaque_quoted by simp
  have "t @ post = [] \<or> hd (t @ post) \<noteq> q" using opaque_quoted.hyps assms(2) by (cases t) auto
  then have "skipBody q (doubleQuotes q b @ q # t @ post) = length (doubleQuotes q b) + 1"
    using opaque_quoted.hyps by (intro skipBody_doubleQuotes) auto
  then have "splitStep s st = ?st"
    using splitStep_atToken [of s st q "doubleQuotes q b @ q # t @ post"] a opaque_quoted.hyps
      atToken_copy(1) [OF a] by auto
  moreover have "atToken s ?st (t @ post)"
    using atToken_copy(2) [OF a] opaque_quoted.hyps by auto
  moreover have "sp_i st < length s" using a atToken_nth by fastforce
  ultimately show ?case using splitLoop_step [of st s] opaque_quoted.IH [of ?st] by (simp add: add.assoc)
next
  case (opaque_comment t w)
  let ?tok = "''/*'' @ w @ ''*/''"
  let ?st = "st\<lparr>sp_cur := sp_cur st @ ?tok, sp_i := sp_i st + length ?tok\<rparr>"
  have a: "atToken s st (?tok @ t @ post)" using opaque_comment by simp
  have "strIndex (w @ ''*/'' @ t @ post) ''*/'' = Some (length w)"
    using strIndex_append [OF opaque_comment.hyps(2), of "t @ post"] by simp
  then have "splitStep s st = ?st"
    using splitStep_atToken [of s st "CHR ''/''" "''*'' @ w @ ''*/'' @ t @ post"] a
      atToken_copy(1) [OF a] by auto
  moreover have "atToken s ?st (t @ post)"
    using atToken_copy(2) [OF a] by auto
  moreover have "sp_i st < length s" using a atToken_nth by fastforce
  ultimately show ?case using splitLoop_step [of st s] opaque_comment.IH [of ?st] by (simp add: add.assoc)
next
  case (opaque_dollar t w)
  let ?tok = "''$$'' @ w @ ''$$''"
  let ?st = "st\<lparr>sp_cur := sp_cur st @ ?tok, sp_i := sp_i st + length ?tok\<rparr>"
  have a: "atToken s st (?tok @ t @ post)" using opaque_dollar by simp
  have "strIndex (w @ ''$$'' @ t @ post) ''$$'' = Some (length w)"
    using strIndex_append [OF opaque_dollar.hyps(2), of "t @ post"] by simp
  then have "splitStep s st = ?st"
    using splitStep_atToken [of s st "CHR ''$''" "''$'' @ w @ ''$$'' @ t @ post"] a
      atToken_copy(1) [OF a] by (auto simp: dollarTag_def)
  moreover have "atToken s ?st (t @ post)"
    using atToken_copy(2) [OF a] by auto
  moreover have "sp_i st < length s" using a atToken_nth by fastforce
  ultimately show ?case using splitLoop_step [of st s] opaque_dollar.IH [of ?st] by (simp add: add.assoc)
qed

lemma splitLoop_join:
  assumes "\<forall>x \<in> set xs. opaque x \<and> trimSpace x = x \<and> leadingKeyword x \<noteq> []"
    and "sp_cur st = []" and "atToken s st (joinStr '';'' xs)"
  shows "sp_out (splitFlush (splitLoop s st)) = sp_out st @ xs"
  using assms
proof (induction xs arbitrary: st)
  case Nil
  then have "\<not> sp_i st < length s" by (simp add: atToken_def)
  with Nil show ?case by (simp add: splitLoop_stop splitFlush_def Let_def)
next
  case (Cons x xs)
  let ?post = "if xs = [] then [] else '';'' @ joinStr '';'' xs"
  let ?st = "st\<lparr>sp_cur := sp_cur st @ x, sp_i := sp_i st + length x\<rparr>"
  have x: "opaque x" "trimSpace x = x" "leadingKeyword x \<noteq> []" "x \<noteq> []"
    using Cons.prems(1) by (auto simp: leadingKeyword_def skipComments.simps trimLeftSet_def)
  have loop: "splitLoop s st = splitLoop s ?st" and at: "atToken s ?st ?post"
    using splitLoop_opaque [OF x(1), of ?post s st] Cons.prems(3)
    by (simp_all add: joinStr_Cons split: if_splits)
  have flush: "splitFlush ?st = st\<lparr>sp_i := sp_i st + length x, sp_cur := [], sp_out := sp_out st @ [x]\<rparr>"
    using x Cons.prems(2) by (simp add: splitFlush_def Let_def)
  show ?case
  proof (cases "xs = []")
    case True
    with at have "\<not> sp_i ?st < length s" by (simp add: atToken_def)
    then show ?thesis using loop flush True by (simp add: splitLoop_stop)
  next
    case False
    let ?st' = "st\<lparr>sp_i := sp_i st + length x + 1, sp_cur := [], sp_out := sp_out st @ [x]\<rparr>"
    have at': "atToken s ?st (CHR '';'' # joinStr '';'' xs)" using at False by simp
    from atToken_nth [OF at'] have i: "sp_i ?st < length s" "s ! sp_i ?st = CHR '';''" by auto
    have "splitStep s ?st = ?st'"
      using splitStep_atToken [OF at'] flush by simp
    then have "splitLoop s st = splitLoop s ?st'"
      using loop splitLoop_step [OF i(1)] by simp
    moreover have "atToken s ?st' (joinStr '';'' xs)"
      using at' i(2) by (auto simp: atToken_def drop_Suc drop_tl)
    ultimately show ?thesis using Cons.IH [of ?st'] Cons.prems(1) by simp
  qed
qed

text \<open>C30. Joining whole statements with semicolons and splitting the script again gives the
  statements back: a semicolon inside a literal, a quoted identifier, a block comment or a
  dollar-quoted body never ends a statement, and one between statements always does.\<close>

theorem split_join_roundtrip:
  assumes "\<forall>x \<in> set xs. opaque x \<and> trimSpace x = x \<and> leadingKeyword x \<noteq> []"
    and "delimiterDirective (joinStr '';'' xs) = None"
  shows "splitStatements (joinStr '';'' xs) = xs"
  using splitLoop_join [of xs splitInit "joinStr '';'' xs"] assms
  by (simp add: splitStatements_def splitInit_def atToken_def)

lemma opaque_append:
  "opaque t \<Longrightarrow> \<forall>c \<in> set w. c \<notin> {CHR '';'', SQ, DQ, BQ, CHR ''#'', CHR ''$'', NL, CHR ''-'', CHR ''/''}
    \<Longrightarrow> opaque (w @ t)"
proof (induction w)
  case (Cons c w)
  then have "opaque (w @ t)" by simp
  then have "opaque (c # w @ t)" by (rule opaque_plain) (use Cons.prems in auto)
  then show ?case by simp
qed simp

lemma opaque_example:
  "opaque (''SELECT '' @ [SQ] @ ''a;b'' @ [SQ])" "opaque (''INSERT /*;*/ x'')"
proof -
  have "opaque (SQ # doubleQuotes SQ ''a;b'' @ SQ # [])"
    by (rule opaque_quoted) (auto intro: opaque_nil)
  from opaque_append [OF this, of "''SELECT ''"]
  show "opaque (''SELECT '' @ [SQ] @ ''a;b'' @ [SQ])" by simp
  have "opaque ('' x'' @ [])" by (rule opaque_append [OF opaque_nil]) simp
  then have "opaque (''/*'' @ '';'' @ ''*/'' @ '' x'')" by (intro opaque_comment) simp_all
  from opaque_append [OF this, of "''INSERT ''"] show "opaque (''INSERT /*;*/ x'')" by simp
qed

theorem split_join_roundtrip_witness:
  "splitStatements (joinStr '';'' [''SELECT '' @ [SQ] @ ''a;b'' @ [SQ], ''INSERT /*;*/ x''])
     = [''SELECT '' @ [SQ] @ ''a;b'' @ [SQ], ''INSERT /*;*/ x'']"
proof (rule split_join_roundtrip)
  have "trimSpace (''SELECT '' @ [SQ] @ ''a;b'' @ [SQ]) = ''SELECT '' @ [SQ] @ ''a;b'' @ [SQ]"
    "leadingKeyword (''SELECT '' @ [SQ] @ ''a;b'' @ [SQ]) \<noteq> []"
    "trimSpace ''INSERT /*;*/ x'' = ''INSERT /*;*/ x''" "leadingKeyword ''INSERT /*;*/ x'' \<noteq> []"
    by code_simp+
  then show "\<forall>x \<in> set [''SELECT '' @ [SQ] @ ''a;b'' @ [SQ], ''INSERT /*;*/ x''].
      opaque x \<and> trimSpace x = x \<and> leadingKeyword x \<noteq> []"
    using opaque_example by simp
  show "delimiterDirective (joinStr '';'' [''SELECT '' @ [SQ] @ ''a;b'' @ [SQ], ''INSERT /*;*/ x'']) = None"
    by code_simp
qed

text \<open>C31. The scan always ends, and what it returns is faithful to the script: every statement is
  a trimmed, non-empty piece of the script with a leading keyword, and the statements occur in
  the script one after the other, without overlap.\<close>

theorem split_statements_sound:
  "(\<exists>st. while_option (\<lambda>st. sp_i st < length s) (splitStep s) splitInit = Some st
        \<and> splitStatements s = sp_out (splitFlush st))
   \<and> inOrder (splitStatements s) s
   \<and> list_all (\<lambda>x. x \<noteq> [] \<and> trimSpace x = x \<and> leadingKeyword x \<noteq> []) (splitStatements s)"
proof -
  let ?st = "splitLoop s splitInit"
  from splitLoop_terminates [OF splitInv_init] obtain st where
    st: "while_option (\<lambda>st. sp_i st < length s) (splitStep s) splitInit = Some st" by blast
  then have "splitStatements s = sp_out (splitFlush st)"
    by (simp add: splitStatements_def splitLoop_def while_def)
  moreover have inv: "splitInv s ?st" and i: "sp_i ?st \<le> length s"
    using splitInv_loop [OF splitInv_init] by (auto simp: splitInv_def)
  moreover have "splitInv s ((splitFlush ?st)\<lparr>sp_i := length s\<rparr>)"
    using inv i by (intro splitInv_flush) simp_all
  then obtain k where "k \<le> length s" "inOrder (splitStatements s) (take k s)"
      "\<forall>x \<in> set (splitStatements s). x \<noteq> [] \<and> trimSpace x = x \<and> leadingKeyword x \<noteq> []"
    by (auto simp: splitInv_def splitStatements_def)
  moreover from this have "inOrder (splitStatements s) s"
    using inOrder_append by (metis append_take_drop_id)
  ultimately show ?thesis using st by (auto simp: list_all_iff)
qed

subsection \<open>Whole words, batches and comments\<close>

text \<open>\<open>w\<close> stands at \<open>j\<close> as a whole word.\<close>

definition wordAt :: "string \<Rightarrow> string \<Rightarrow> nat \<Rightarrow> bool" where
  "wordAt s w j \<longleftrightarrow> j \<le> length s \<and> prefix w (drop j s)
     \<and> (j = 0 \<or> \<not> isWordByte (s ! (j - 1)))
     \<and> (j + length w = length s \<or> \<not> isWordByte (s ! (j + length w)))"

lemma wordAt_not_inside:
  assumes "list_all isWordByte w" and "prefix w (drop j s)" and "j \<le> length s"
    and "j < p" and "p \<le> j + length w"
  shows "\<not> (p = 0 \<or> \<not> isWordByte (s ! (p - 1)))"
proof -
  from assms obtain r where r: "drop j s = w @ r" by (auto simp: prefix_def)
  have "s ! (j + (p - 1 - j)) = (w @ r) ! (p - 1 - j)"
    using assms(3) r by (metis nth_drop)
  moreover have "p - 1 - j < length w" "j + (p - 1 - j) = p - 1" using assms(4,5) by auto
  ultimately show ?thesis using assms(1,4) by (auto simp: nth_append list_all_length)
qed

lemma containsWordFrom_iff:
  assumes "w \<noteq> []" and "list_all isWordByte w"
  shows "containsWordFrom s w i \<longleftrightarrow> (\<exists>j \<ge> i. wordAt s w j)"
  using assms
proof (induction s w i rule: containsWordFrom.induct)
  case (1 s w i)
  show ?case
  proof (cases "strIndex (drop i s) w")
    case None
    then have "\<not> prefix w (drop j s)" if "i \<le> j" for j
      using strIndex_None [OF None, of "j - i"] that by simp
    with None "1.prems" show ?thesis by (subst containsWordFrom.simps) (auto simp: wordAt_def)
  next
    case (Some k)
    let ?j = "k + i"
    have j: "prefix w (drop ?j s)" "?j \<le> length s"
    proof -
      have *: "k + length w \<le> length s - i" "prefix w (drop ?j s)"
        using strIndex_Some [OF Some] by (simp_all add: add.commute)
      moreover have "0 < length w" using 1(2) by simp
      ultimately show "prefix w (drop ?j s)" "?j \<le> length s" by linarith+
    qed
    have least: "\<not> wordAt s w p" if "i \<le> p" "p < ?j" for p
      using strIndex_least [OF Some, of "p - i"] that by (auto simp: wordAt_def)
    show ?thesis
    proof (cases "wordAt s w ?j")
      case True
      with Some j 1(2) have "containsWordFrom s w i"
        by (subst containsWordFrom.simps) (auto simp: wordAt_def Let_def)
      with True show ?thesis by (auto intro!: exI [of _ ?j])
    next
      case False
      with Some j 1(2) have "containsWordFrom s w i = containsWordFrom s w (?j + length w)"
        by (subst containsWordFrom.simps) (auto simp: wordAt_def Let_def)
      also have "\<dots> \<longleftrightarrow> (\<exists>p \<ge> ?j + length w. wordAt s w p)"
        using "1.IH" [OF 1(2) Some refl refl refl] False j 1(2,3) by (auto simp: wordAt_def)
      also have "\<dots> \<longleftrightarrow> (\<exists>p \<ge> i. wordAt s w p)"
      proof -
        have "\<not> wordAt s w p" if "i \<le> p" "p < ?j + length w" for p
          using that least [of p] False wordAt_not_inside [OF 1(3) j, of p]
          by (cases "p < ?j"; cases "p = ?j") (auto simp: wordAt_def)
        then show ?thesis by (meson le_add1 le_add2 le_trans not_le)
      qed
      finally show ?thesis .
    qed
  qed
qed

text \<open>Searching for a word by jumping behind every occurrence misses nothing: \<open>containsWord\<close>
  finds a word made of word bytes exactly when it stands somewhere in the text with no word byte
  next to it.\<close>

theorem containsWord_spec:
  assumes "w \<noteq> []" and "list_all isWordByte w"
  shows "containsWord s w \<longleftrightarrow> (\<exists>j \<le> length s. wordAt s w j)"
  using containsWordFrom_iff [OF assms, of s 0]
  by (auto simp: containsWord_def wordAt_def)

theorem containsWord_spec_witness:
  "containsWord ''EXPLAIN (ANALYZE) X'' ''ANALYZE'' \<and> \<not> containsWord ''ANALYZER'' ''ANALYZE''
   \<and> (\<exists>j \<le> length ''EXPLAIN (ANALYZE) X''. wordAt ''EXPLAIN (ANALYZE) X'' ''ANALYZE'' j)"
proof -
  have h: "''ANALYZE'' \<noteq> []" "list_all isWordByte ''ANALYZE''" by code_simp+
  have e: "containsWord ''EXPLAIN (ANALYZE) X'' ''ANALYZE''" "\<not> containsWord ''ANALYZER'' ''ANALYZE''"
    by code_simp+
  with containsWord_spec [OF h] show ?thesis by blast
qed

lemma checkBatchFrom_None:
  "checkBatchFrom i aw ss = None \<longleftrightarrow>
     (\<forall>s \<in> set ss. trimSpace s \<noteq> [] \<and> (aw \<or> isReadOnlyStmt (trimSpace s)))"
  by (induction ss arbitrary: i) (auto simp: Let_def)

lemma checkBatchFrom_writes:
  "checkBatchFrom i aw ss = Some (StatementWrites n) \<Longrightarrow>
     \<not> aw \<and> i < n \<and> n \<le> i + length ss \<and> \<not> isReadOnlyStmt (trimSpace (ss ! (n - i - 1)))
     \<and> (\<forall>k < n - i - 1. trimSpace (ss ! k) \<noteq> [] \<and> isReadOnlyStmt (trimSpace (ss ! k)))"
proof (induction ss arbitrary: i)
  case (Cons s ss)
  show ?case
  proof (cases "checkBatchFrom i aw [s] = None")
    case True
    with Cons.prems have rec: "checkBatchFrom (i + 1) aw ss = Some (StatementWrites n)"
      by (auto simp: Let_def split: if_splits)
    from Cons.IH [OF this] have IH: "\<not> aw" "i + 1 < n" "n \<le> i + 1 + length ss"
      "\<not> isReadOnlyStmt (trimSpace (ss ! (n - (i + 1) - 1)))"
      "\<forall>k < n - (i + 1) - 1. trimSpace (ss ! k) \<noteq> [] \<and> isReadOnlyStmt (trimSpace (ss ! k))" by auto
    have n: "n - i - 1 = Suc (n - (i + 1) - 1)" using IH(2) by simp
    have "trimSpace ((s # ss) ! k) \<noteq> [] \<and> isReadOnlyStmt (trimSpace ((s # ss) ! k))"
      if "k < n - i - 1" for k
      using that True IH(1,5) n by (cases k) (auto simp: Let_def split: if_splits)
    with IH n show ?thesis by auto
  next
    case False
    with Cons.prems show ?thesis by (auto simp: Let_def split: if_splits)
  qed
qed simp

text \<open>C34. A batch is checked before anything runs: without write permission it passes exactly when
  it has between 1 and 100 statements, all of them non-blank and classified as reads, and a
  refusal for a write names the first statement that is one.\<close>

theorem checkBatch_readonly:
  "(checkBatch ss False = None \<longleftrightarrow>
      1 \<le> length ss \<and> length ss \<le> 100 \<and> list_all (\<lambda>s. trimSpace s \<noteq> [] \<and> isReadOnlyStmt (trimSpace s)) ss)
   \<and> (\<forall>n. checkBatch ss False = Some (StatementWrites n) \<longrightarrow>
        1 \<le> n \<and> n \<le> length ss \<and> \<not> isReadOnlyStmt (trimSpace (ss ! (n - 1)))
        \<and> list_all (\<lambda>s. isReadOnlyStmt (trimSpace s)) (take (n - 1) ss))"
proof (intro conjI allI impI)
  show "checkBatch ss False = None \<longleftrightarrow> 1 \<le> length ss \<and> length ss \<le> 100
      \<and> list_all (\<lambda>s. trimSpace s \<noteq> [] \<and> isReadOnlyStmt (trimSpace s)) ss"
    by (auto simp: checkBatch_def maxBatchStatements_def checkBatchFrom_None list_all_iff Suc_le_eq)
next
  fix n assume "checkBatch ss False = Some (StatementWrites n)"
  then have "checkBatchFrom 0 False ss = Some (StatementWrites n)"
    by (auto simp: checkBatch_def split: if_splits)
  from checkBatchFrom_writes [OF this]
  show "1 \<le> n" "n \<le> length ss" "\<not> isReadOnlyStmt (trimSpace (ss ! (n - 1)))"
    "list_all (\<lambda>s. isReadOnlyStmt (trimSpace s)) (take (n - 1) ss)"
    by (auto simp: list_all_length)
qed

theorem checkBatch_readonly_witness:
  "checkBatch [''SELECT 1'', '' show tables''] False = None
   \<and> list_all (\<lambda>s. isReadOnlyStmt (trimSpace s)) (take 1 [''SELECT 1'', ''DROP TABLE t''])"
proof -
  have "checkBatch [''SELECT 1'', ''DROP TABLE t''] False = Some (StatementWrites 2)" by code_simp
  with checkBatch_readonly [of "[''SELECT 1'', ''DROP TABLE t'']"]
  have "list_all (\<lambda>s. isReadOnlyStmt (trimSpace s)) (take (2 - 1) [''SELECT 1'', ''DROP TABLE t''])"
    by blast
  moreover have "checkBatch [''SELECT 1'', '' show tables''] False = None" by code_simp
  ultimately show ?thesis by simp
qed

text \<open>What precedes the first keyword does not matter: a line comment, a closed block comment,
  white space and opening parentheses are skipped.\<close>

lemma skipComments_line: "NL \<notin> set w \<Longrightarrow> CR \<notin> set w \<Longrightarrow>
  skipComments (''--'' @ w @ NL # s) = skipComments s"
proof -
  assume w: "NL \<notin> set w" "CR \<notin> set w"
  then have "indexAny (w @ NL # s) [CR, NL] = Some (length w)" by (induction w) auto
  then show ?thesis
    by (subst skipComments.simps) (simp add: trimLeftSet_def)
qed

text \<open>The two scanners of the engine package disagree on \<open>/*/\<close>: for the statement
  \<open>/*/ SELECT */ DROP TABLE t\<close> the splitter (and the database) sees a comment followed by
  \<open>DROP\<close>, while \<open>leadingKeyword\<close> takes \<open>/*/\<close> for a complete comment, so the statement counts as
  a read and passes the check of a batch without write permission.\<close>

theorem comment_scanner_mismatch:
  "splitStatements ''/*/ SELECT */ DROP TABLE t'' = [''/*/ SELECT */ DROP TABLE t'']
   \<and> leadingKeyword ''/*/ SELECT */ DROP TABLE t'' = ''SELECT''
   \<and> checkBatch (splitStatements ''/*/ SELECT */ DROP TABLE t'') False = None"
  by code_simp

text \<open>Taking a backslash as an escape in every single-quoted string is not harmless for
  PostgreSQL: with standard strings \<open>'C:\\'\<close> is a complete literal, but the splitter reads on, so
  \<open>SELECT 'C:\\'; DELETE FROM t\<close> stays one statement and is classified as a read.\<close>

theorem backslash_hides_write:
  "splitStatements (''SELECT '' @ [SQ] @ ''C:'' @ [BSL, SQ] @ ''; DELETE FROM t'')
     = [''SELECT '' @ [SQ] @ ''C:'' @ [BSL, SQ] @ ''; DELETE FROM t'']
   \<and> checkBatch (splitStatements (''SELECT '' @ [SQ] @ ''C:'' @ [BSL, SQ] @ ''; DELETE FROM t'')) False = None"
  by code_simp

end
