(* ===== verification/Preview.thy ===== *)
theory Preview
  imports SqlText
begin

text \<open>
  The dry run of console scripts, \<open>platform/engine/preview.go\<close>: which statements may be previewed
  (\<open>PreviewBlocker\<close>), the scan for the words of a statement outside quotes, comments and
  parentheses (\<open>topLevelWords\<close>), and the recognition of single-table UPDATE and DELETE statements
  whose rows can be sampled (\<open>parseSingleTableDML\<close>, \<open>sampleSQL\<close>).
\<close>

subsection \<open>Words of a statement\<close>

record sqlword =
  w_upper :: string
  w_start :: nat
  w_end :: nat

definition bareWordEnd :: "string \<Rightarrow> nat \<Rightarrow> nat" where
  "bareWordEnd s i = i + length (takeWhile (\<lambda>c. isWordByte c \<or> c = CHR ''$'') (drop i s))"

definition substr :: "string \<Rightarrow> nat \<Rightarrow> nat \<Rightarrow> string" where
  "substr s i j = take (j - i) (drop i s)"

text \<open>One pass of the loop of \<open>topLevelWords\<close>: the next position and depth and the word found, or
  \<^const>\<open>None\<close> for its \<open>return out\<close> on an unterminated comment or dollar quote.\<close>

definition wordStep :: "string \<Rightarrow> nat \<Rightarrow> int \<Rightarrow> (nat \<times> int \<times> sqlword list) option" where
  "wordStep s i depth =
     (let c = s ! i; rest = drop i s in
      if c = SQ \<or> c = DQ \<or> c = BQ then
        (let j = skipQuoted s i c in
         Some (j, depth, if depth = 0 \<and> c \<noteq> SQ
                         then [\<lparr>w_upper = substr s i j, w_start = i, w_end = j\<rparr>] else []))
      else if c = CHR ''-'' \<and> hasPrefix ''--'' rest \<or> c = CHR ''#'' then
        map_option (\<lambda>j. (i + j, depth, [])) (indexByte rest NL)
      else if c = CHR ''/'' \<and> hasPrefix ''/*'' rest then
        map_option (\<lambda>j. (i + j + 4, depth, [])) (strIndex (drop 2 rest) ''*/'')
      else
        case (if c = CHR ''$'' then dollarTag rest else None) of
          Some tag \<Rightarrow>
            map_option (\<lambda>e. (i + (length tag + e + length tag), depth, []))
              (strIndex (drop (length tag) rest) tag)
        | None \<Rightarrow>
            if c = CHR ''$'' then Some (i + 1, depth, [])
            else if c = CHR ''('' then Some (i + 1, depth + 1, [])
            else if c = CHR '')'' then Some (i + 1, depth - 1, [])
            else if (c = CHR '','' \<or> c = CHR ''.'') \<and> depth = 0 then
              Some (i + 1, depth, [\<lparr>w_upper = [c], w_start = i, w_end = i + 1\<rparr>])
            else if isWordByte c \<or> c = CHR ''$'' then
              (let j = bareWordEnd s i in
               Some (j, depth, if depth = 0
                               then [\<lparr>w_upper = map upperByte (substr s i j), w_start = i, w_end = j\<rparr>]
                               else []))
            else Some (i + 1, depth, []))"

text \<open>A \<open>$\<close> that opens no dollar quote ends the \<open>switch\<close> in its own case and is skipped as one
  byte, so no word starts with it.\<close>

lemma wordStep_progress:
  assumes "wordStep s i depth = Some (j, d, ws)" and "i < length s"
  shows "i < j"
proof -
  have "i < skipQuoted s i c" for c using assms(2) skipQuoted_bounds by blast
  moreover have "i < i + k" if "indexByte (drop i s) NL = Some k" "s ! i \<noteq> NL" for k
    using that indexAny_Some [OF that(1)] assms(2) by (cases k) auto
  moreover have "i < bareWordEnd s i" if "isWordByte (s ! i)"
    using that assms(2) by (simp add: bareWordEnd_def flip: Cons_nth_drop_Suc)
  moreover have "0 < length tag" if "dollarTag (drop i s) = Some tag" "s ! i = CHR ''$''" for tag
    using dollarTag_Some [OF that(1)] that(2) assms(2) by simp
  ultimately show ?thesis using assms
    by (auto simp: wordStep_def Let_def split: if_splits option.splits)
qed

function topWordsFrom :: "string \<Rightarrow> nat \<Rightarrow> int \<Rightarrow> sqlword list" where
  "topWordsFrom s i depth =
     (if i < length s then
        (case wordStep s i depth of
           None \<Rightarrow> []
         | Some (j, d, ws) \<Rightarrow> ws @ topWordsFrom s j d)
      else [])"
  by pat_completeness auto
termination
  by (relation "measure (\<lambda>(s, i, depth). length s - i)") (auto dest!: wordStep_progress)

declare topWordsFrom.simps [simp del]

definition topLevelWords :: "string \<Rightarrow> sqlword list" where
  "topLevelWords s = topWordsFrom s 0 0"

subsection \<open>What may be previewed\<close>

definition previewAllowed :: "string list" where
  "previewAllowed =
     [''SELECT'', ''WITH'', ''TABLE'', ''VALUES'', ''SHOW'', ''DESCRIBE'', ''DESC'', ''EXPLAIN'',
      ''INSERT'', ''UPDATE'', ''DELETE'', ''REPLACE'', ''MERGE'']"

datatype preview_error = NotPreviewable string | WritesFile string

fun writesFile :: "sqlword list \<Rightarrow> preview_error option" where
  "writesFile (w # v # ws) =
     (if w_upper w = ''INTO'' \<and> (w_upper v = ''OUTFILE'' \<or> w_upper v = ''DUMPFILE'')
      then Some (WritesFile (w_upper v)) else writesFile (v # ws))"
| "writesFile _ = None"

definition previewBlocker :: "string \<Rightarrow> preview_error option" where
  "previewBlocker stmt =
     (let kw = leadingKeyword stmt in
      if kw \<notin> set previewAllowed then Some (NotPreviewable kw)
      else writesFile (topLevelWords stmt))"

subsection \<open>Single-table UPDATE and DELETE\<close>

record dmlTarget =
  t_op :: string
  t_table :: string
  t_parts :: "string list"
  t_alias :: string
  t_cond :: string

definition dmlModifiers :: "string list" where
  "dmlModifiers = [''LOW_PRIORITY'', ''IGNORE'', ''QUICK'', ''ONLY'']"

definition isClauseWord :: "string \<Rightarrow> bool" where
  "isClauseWord w \<longleftrightarrow> w \<in> set
     [''SET'', ''WHERE'', ''RETURNING'', ''ORDER'', ''LIMIT'', ''JOIN'', ''INNER'', ''LEFT'', ''RIGHT'',
      ''CROSS'', ''NATURAL'', ''STRAIGHT_JOIN'', ''USING'', ''FROM'', ''PARTITION'']"

definition unquoteIdent :: "string \<Rightarrow> string" where
  "unquoteIdent s =
     (if length s \<ge> 2 \<and> (s ! 0 = BQ \<or> s ! 0 = DQ) \<and> s ! (length s - 1) = s ! 0
      then replaceAll (take (length s - 2) (drop 1 s)) [s ! 0, s ! 0] [s ! 0]
      else s)"

definition wordText :: "string \<Rightarrow> sqlword \<Rightarrow> string" where
  "wordText stmt w = substr stmt (w_start w) (w_end w)"

text \<open>The name loop \<open>for i+1 < len(ws) && ws[i] is "." && ws[i].start == end\<close>: the parts after the
  first, the end offset, and the words left.\<close>

fun nameParts :: "string \<Rightarrow> nat \<Rightarrow> sqlword list \<Rightarrow> string list \<times> nat \<times> sqlword list" where
  "nameParts stmt e (d # w # ws) =
     (if w_upper d = ''.'' \<and> w_start d = e
      then (let (ps, e', r) = nameParts stmt (w_end w) ws in (unquoteIdent (wordText stmt w) # ps, e', r))
      else ([], e, d # w # ws))"
| "nameParts stmt e ws = ([], e, ws)"

text \<open>The clause loop over the words after the table and its alias: \<^const>\<open>None\<close> when the shape is
  refused, otherwise where the condition starts (if there is a WHERE) and ends.  \<open>RETURNING\<close> ends
  the loop.\<close>

fun clauseScan :: "string \<Rightarrow> sqlword list \<Rightarrow> nat option \<Rightarrow> nat \<Rightarrow> (nat option \<times> nat) option" where
  "clauseScan op [] whereAt condEnd = Some (whereAt, condEnd)"
| "clauseScan op (w # ws) whereAt condEnd =
     (let u = w_upper w in
      if u \<in> set [''JOIN'', ''USING'', ''ORDER'', ''LIMIT''] then None
      else if u = ''FROM'' then None
      else if u = ''WHERE'' then
        clauseScan op ws (if whereAt = None then Some (w_end w) else whereAt) condEnd
      else if u = ''RETURNING'' then
        Some (whereAt, if whereAt \<noteq> None \<or> op = ''DELETE'' then w_start w else condEnd)
      else if u = '','' \<and> op = ''DELETE'' then None
      else clauseScan op ws whereAt condEnd)"

definition dropModifiers :: "sqlword list \<Rightarrow> sqlword list" where
  "dropModifiers ws = dropWhile (\<lambda>w. w_upper w \<in> set dmlModifiers) ws"

text \<open>The operation and the words after \<open>UPDATE\<close> or \<open>DELETE [modifiers] FROM\<close>.\<close>

definition dmlHead :: "sqlword list \<Rightarrow> (string \<times> sqlword list) option" where
  "dmlHead ws =
     (if length ws < 2 then None
      else if w_upper (hd ws) = ''UPDATE'' then Some (''UPDATE'', tl ws)
      else if w_upper (hd ws) = ''DELETE'' then
        (case dropModifiers (tl ws) of
           [] \<Rightarrow> None
         | f # r \<Rightarrow> if w_upper f = ''FROM'' then Some (''DELETE'', r) else None)
      else None)"

definition dmlAlias :: "string \<Rightarrow> sqlword list \<Rightarrow> (string \<times> sqlword list) option" where
  "dmlAlias stmt ws =
     (case ws of
        [] \<Rightarrow> Some ([], [])
      | w # r \<Rightarrow>
          if w_upper w = ''AS'' then
            (case r of [] \<Rightarrow> None | a # r' \<Rightarrow> Some (wordText stmt a, r'))
          else if \<not> isClauseWord (w_upper w) \<and> w_upper w \<noteq> '','' then Some (wordText stmt w, r)
          else Some ([], ws))"

definition parseSingleTableDML :: "string \<Rightarrow> dmlTarget option" where
  "parseSingleTableDML stmt =
     (case dmlHead (topLevelWords stmt) of
        None \<Rightarrow> None
      | Some (op, ws0) \<Rightarrow>
     (case dropModifiers ws0 of
        [] \<Rightarrow> None
      | n # ws1 \<Rightarrow>
          if w_upper n = '','' \<or> w_upper n = ''.'' then None else
          let (ps, e, ws2) = nameParts stmt (w_end n) ws1;
              parts = unquoteIdent (wordText stmt n) # ps;
              table = substr stmt (w_start n) e
          in if length parts > 2 then None else
     (case dmlAlias stmt ws2 of
        None \<Rightarrow> None
      | Some (alias, ws3) \<Rightarrow>
          if op = ''UPDATE'' \<and> (ws3 = [] \<or> w_upper (hd ws3) \<noteq> ''SET'') then None else
     (case clauseScan op ws3 None (length stmt) of
        None \<Rightarrow> None
      | Some (None, _) \<Rightarrow>
          Some \<lparr>t_op = op, t_table = table, t_parts = parts, t_alias = alias, t_cond = []\<rparr>
      | Some (Some a, b) \<Rightarrow>
          (let cond = trimSpace (substr stmt a b) in
           if cond = [] then None
           else Some \<lparr>t_op = op, t_table = table, t_parts = parts, t_alias = alias, t_cond = cond\<rparr>)))))"

definition sampleSQL :: "dmlTarget \<Rightarrow> nat \<Rightarrow> string" where
  "sampleSQL t limit =
     (let from = t_table t @ (if t_alias t \<noteq> [] then '' '' @ t_alias t else []);
          q = ''SELECT * FROM '' @ from
              @ (if t_cond t \<noteq> [] then '' WHERE ('' @ t_cond t @ [NL] @ '')'' else [])
      in q @ [NL] @ ''LIMIT '' @ natStr (limit + 1))"

subsection \<open>Where the words are\<close>

definition wordOf :: "string \<Rightarrow> sqlword \<Rightarrow> bool" where
  "wordOf s w \<longleftrightarrow> w_start w < w_end w \<and> w_end w \<le> length s
     \<and> w_upper w \<in> {wordText s w, map upperByte (wordText s w)}"

definition wordsFrom :: "string \<Rightarrow> nat \<Rightarrow> sqlword list \<Rightarrow> bool" where
  "wordsFrom s i ws \<longleftrightarrow> (\<forall>w \<in> set ws. wordOf s w \<and> i \<le> w_start w)
     \<and> sorted_wrt (\<lambda>v w. w_end v \<le> w_start w) ws"

lemma wordsFrom_append:
  assumes "wordsFrom s i ws" "\<forall>w \<in> set ws. w_end w \<le> j" "wordsFrom s j vs" "i \<le> j"
  shows "wordsFrom s i (ws @ vs)"
  using assms by (fastforce simp: wordsFrom_def sorted_wrt_append)

lemma wordsFrom_suffix: "wordsFrom s i (us @ ws) \<Longrightarrow> wordsFrom s i ws"
  by (simp add: wordsFrom_def sorted_wrt_append)

lemma bareWordEnd_le: "i \<le> length s \<Longrightarrow> bareWordEnd s i \<le> length s"
  using length_takeWhile_le [of "\<lambda>c. isWordByte c \<or> c = CHR ''$''" "drop i s"]
  by (simp add: bareWordEnd_def)

lemma substr_one: "i < length s \<Longrightarrow> substr s i (Suc i) = [s ! i]"
  by (simp add: substr_def take_Suc_conv_app_nth)

lemma wordStep_words:
  assumes step: "wordStep s i depth = Some (j, d, ws)" and i: "i < length s"
  shows "wordsFrom s i ws \<and> (\<forall>w \<in> set ws. w_end w \<le> j)"
proof -
  have "i < skipQuoted s i c" "skipQuoted s i c \<le> length s" for c
    using i skipQuoted_bounds by blast+
  moreover have "bareWordEnd s i \<le> length s" using i bareWordEnd_le by simp
  moreover have "i < bareWordEnd s i" if "isWordByte (s ! i)"
    using that i by (simp add: bareWordEnd_def flip: Cons_nth_drop_Suc)
  ultimately show ?thesis using step i substr_one [OF i]
    by (auto simp: wordStep_def Let_def wordsFrom_def wordOf_def wordText_def
        split: if_splits option.splits)
qed

lemma wordsFrom_mono: "wordsFrom s j ws \<Longrightarrow> i \<le> j \<Longrightarrow> wordsFrom s i ws"
  by (fastforce simp: wordsFrom_def)

lemma topWordsFrom_words: "wordsFrom s i (topWordsFrom s i depth)"
proof (induction s i depth rule: topWordsFrom.induct)
  case (1 s i depth)
  show ?case
  proof (cases "i < length s")
    case True
    show ?thesis
    proof (cases "wordStep s i depth")
      case None
      with True show ?thesis by (subst topWordsFrom.simps) (simp add: wordsFrom_def)
    next
      case (Some r)
      obtain j d ws where r: "r = (j, d, ws)" by (cases r)
      have "i < j" using wordStep_progress [OF Some [unfolded r] True] .
      moreover have "wordsFrom s j (topWordsFrom s j d)" using 1 True Some r by blast
      moreover have "topWordsFrom s i depth = ws @ topWordsFrom s j d"
        using True Some r by (subst topWordsFrom.simps) simp
      ultimately show ?thesis
        using wordStep_words [OF Some [unfolded r] True] wordsFrom_append [of s i ws j] by auto
    qed
  next
    case False
    then show ?thesis by (subst topWordsFrom.simps) (simp add: wordsFrom_def)
  qed
qed

lemma topLevelWords_wordsFrom: "wordsFrom s 0 (topLevelWords s)"
  by (simp add: topLevelWords_def topWordsFrom_words)

text \<open>The words \<open>topLevelWords\<close> reports lie inside the statement, in order, without overlap,
  and each carries its own text, as written (quoted identifiers) or in upper case: so every slice
  \<open>stmt[w.start:w.end]\<close> of \<open>parseSingleTableDML\<close> is in bounds.\<close>

theorem topLevelWords_spans:
  "(\<forall>w \<in> set (topLevelWords s). w_start w < w_end w \<and> w_end w \<le> length s
       \<and> w_upper w \<in> {substr s (w_start w) (w_end w), map upperByte (substr s (w_start w) (w_end w))})
   \<and> (\<forall>i j. i < j \<longrightarrow> j < length (topLevelWords s) \<longrightarrow>
        w_end (topLevelWords s ! i) \<le> w_start (topLevelWords s ! j))"
  using topLevelWords_wordsFrom [of s]
  by (auto simp: wordsFrom_def wordOf_def wordText_def sorted_wrt_iff_nth_less)

lemma topLevelWords_spans_witness:
  "length (topLevelWords ''UPDATE `a``b` SET x=(1)'') = 4
   \<and> w_end (topLevelWords ''UPDATE `a``b` SET x=(1)'' ! 1) \<le> w_start (topLevelWords ''UPDATE `a``b` SET x=(1)'' ! 2)"
proof -
  have "length (topLevelWords ''UPDATE `a``b` SET x=(1)'') = 4" by code_simp
  then show ?thesis
    using topLevelWords_spans [of "''UPDATE `a``b` SET x=(1)''"] by simp
qed

subsection \<open>What a recognised statement is\<close>

lemma nameParts_split:
  "nameParts stmt e ws = (ps, e', r) \<Longrightarrow>
     (\<exists>us. ws = us @ r \<and> (us = [] \<longrightarrow> e' = e) \<and> (us \<noteq> [] \<longrightarrow> e' = w_end (last us)))"
proof (induction stmt e ws arbitrary: ps e' r rule: nameParts.induct)
  case (1 stmt e d w ws)
  show ?case
  proof (cases "w_upper d = ''.'' \<and> w_start d = e")
    case True
    obtain ps1 where "nameParts stmt (w_end w) ws = (ps1, e', r)"
      using 1(2) True by (auto simp: Let_def split: prod.splits)
    then obtain us where "ws = us @ r" "us = [] \<longrightarrow> e' = w_end w" "us \<noteq> [] \<longrightarrow> e' = w_end (last us)"
      using 1(1) True by blast
    then show ?thesis by (intro exI [of _ "d # w # us"]) auto
  next
    case False
    then show ?thesis using 1(2) by auto
  qed
qed auto

lemma dropModifiers_split: "\<exists>us. ws = us @ dropModifiers ws"
  unfolding dropModifiers_def by (metis takeWhile_dropWhile_id)

lemma dmlHead_split:
  "dmlHead ws = Some (op, r) \<Longrightarrow>
     op \<in> {''UPDATE'', ''DELETE''} \<and> ws \<noteq> [] \<and> w_upper (hd ws) = op \<and> (\<exists>us. us \<noteq> [] \<and> ws = us @ r)"
proof -
  assume a: "dmlHead ws = Some (op, r)"
  then obtain w vs where ws: "ws = w # vs" by (cases ws) (auto simp: dmlHead_def)
  show ?thesis
  proof (cases "w_upper w = ''UPDATE''")
    case True
    then show ?thesis using a ws by (auto simp: dmlHead_def intro: exI [of _ "[w]"] split: if_splits)
  next
    case False
    then obtain f where "dropModifiers vs = f # r" "w_upper w = ''DELETE''" "op = ''DELETE''"
      using a ws by (auto simp: dmlHead_def split: if_splits list.splits)
    moreover obtain us where "vs = us @ dropModifiers vs" using dropModifiers_split by blast
    ultimately show ?thesis using ws by (auto intro: exI [of _ "w # us @ [f]"])
  qed
qed

lemma dmlAlias_split: "dmlAlias stmt ws = Some (a, r) \<Longrightarrow> \<exists>us. ws = us @ r"
  by (auto simp: dmlAlias_def split: list.splits if_splits)

text \<open>The clause scan reads the words up to \<open>RETURNING\<close>, none of which joins, orders or limits.\<close>

definition noJoin :: "string \<Rightarrow> sqlword \<Rightarrow> bool" where
  "noJoin op w \<longleftrightarrow> w_upper w \<notin> {''JOIN'', ''USING'', ''ORDER'', ''LIMIT'', ''FROM'', ''RETURNING''}
     \<and> (op = ''DELETE'' \<longrightarrow> w_upper w \<noteq> '','')"

definition whereEnd :: "sqlword list \<Rightarrow> nat option" where
  "whereEnd ws = map_option w_end (List.find (\<lambda>w. w_upper w = ''WHERE'') ws)"

lemma whereEnd_simps [simp]:
  "whereEnd [] = None"
  "whereEnd (w # ws) = (if w_upper w = ''WHERE'' then Some (w_end w) else whereEnd ws)"
  by (simp_all add: whereEnd_def)

definition condStop :: "nat \<Rightarrow> sqlword list \<Rightarrow> nat" where
  "condStop n rest = (case rest of [] \<Rightarrow> n | r # _ \<Rightarrow> w_start r)"

lemma clauseScan_split:
  "clauseScan op ws a n = Some (a', b) \<Longrightarrow>
     \<exists>mid rest. ws = mid @ rest \<and> (\<forall>w \<in> set mid. noJoin op w)
       \<and> (rest \<noteq> [] \<longrightarrow> w_upper (hd rest) = ''RETURNING'')
       \<and> a' = (if a = None then whereEnd mid else a)
       \<and> (a' \<noteq> None \<longrightarrow> b = condStop n rest)"
proof (induction op ws a n rule: clauseScan.induct)
  case (1 op a n)
  then show ?case by (simp add: condStop_def)
next
  case (2 op w ws a n)
  let ?u = "w_upper w"
  have ok: "?u \<notin> set [''JOIN'', ''USING'', ''ORDER'', ''LIMIT'']" "?u \<noteq> ''FROM''"
    using "2.prems" by (auto simp: Let_def split: if_splits)
  consider (where_) "?u = ''WHERE''" | (ret) "?u = ''RETURNING''"
    | (other) "?u \<noteq> ''WHERE''" "?u \<noteq> ''RETURNING''" by blast
  then show ?case
  proof cases
    case where_
    with ok "2.prems" have "clauseScan op ws (if a = None then Some (w_end w) else a) n = Some (a', b)"
      by (simp add: Let_def)
    from "2.IH"(1) [OF refl ok where_ this] obtain mid rest where m: "ws = mid @ rest"
      "\<forall>w \<in> set mid. noJoin op w" "rest \<noteq> [] \<longrightarrow> w_upper (hd rest) = ''RETURNING''"
      "a' = (if (if a = None then Some (w_end w) else a) = None then whereEnd mid
             else (if a = None then Some (w_end w) else a))" "a' \<noteq> None \<longrightarrow> b = condStop n rest"
      by blast
    then show ?thesis using where_
      by (intro exI [of _ "w # mid"] exI [of _ rest]) (auto simp: noJoin_def)
  next
    case ret
    then show ?thesis using ok "2.prems"
      by (intro exI [of _ "[]"] exI [of _ "w # ws"]) (auto simp: Let_def condStop_def split: if_splits)
  next
    case other
    with ok "2.prems" have comma: "\<not> (?u = '','' \<and> op = ''DELETE'')"
      and "clauseScan op ws a n = Some (a', b)"
      by (auto simp: Let_def split: if_splits)
    from "2.IH"(2) [OF refl ok other comma this(2)] obtain mid rest where m: "ws = mid @ rest"
      "\<forall>w \<in> set mid. noJoin op w" "rest \<noteq> [] \<longrightarrow> w_upper (hd rest) = ''RETURNING''"
      "a' = (if a = None then whereEnd mid else a)" "a' \<noteq> None \<longrightarrow> b = condStop n rest"
      by blast
    then show ?thesis using other ok comma
      by (intro exI [of _ "w # mid"] exI [of _ rest]) (auto simp: noJoin_def)
  qed
qed

lemma sublist_substr: "sublist (substr s i j) s"
  by (simp add: substr_def) (meson sublist_drop sublist_order.order.trans sublist_take)

definition dmlShape :: "string \<Rightarrow> dmlTarget \<Rightarrow> sqlword list \<Rightarrow> sqlword list \<Rightarrow> sqlword list \<Rightarrow> bool" where
  "dmlShape stmt t pre mid rest \<longleftrightarrow>
     topLevelWords stmt = pre @ mid @ rest \<and> pre \<noteq> [] \<and> w_upper (hd pre) = t_op t
     \<and> (\<forall>w \<in> set mid. noJoin (t_op t) w)
     \<and> (rest \<noteq> [] \<longrightarrow> w_upper (hd rest) = ''RETURNING'')
     \<and> (t_op t = ''UPDATE'' \<longrightarrow> mid \<noteq> [] \<and> w_upper (hd mid) = ''SET'')
     \<and> (case whereEnd mid of
          None \<Rightarrow> t_cond t = []
        | Some a \<Rightarrow> t_cond t \<noteq> [] \<and> t_cond t = trimSpace (substr stmt a (condStop (length stmt) rest)))"


lemma parse_shape:
  assumes p: "parseSingleTableDML stmt = Some t"
  shows "t_op t \<in> {''UPDATE'', ''DELETE''} \<and> length (t_parts t) \<in> {1, 2} \<and> sublist (t_table t) stmt
    \<and> (\<exists>pre mid rest. dmlShape stmt t pre mid rest)"
proof -
  obtain op ws0 where h: "dmlHead (topLevelWords stmt) = Some (op, ws0)"
    using p by (auto simp: parseSingleTableDML_def split: option.splits)
  obtain n ws1 where m: "dropModifiers ws0 = n # ws1"
    using p h by (auto simp: parseSingleTableDML_def split: list.splits)
  obtain ps e ws2 where np: "nameParts stmt (w_end n) ws1 = (ps, e, ws2)" by (cases "nameParts stmt (w_end n) ws1") 
  note unf = parseSingleTableDML_def [of stmt] h m np
  have q: "ps = [] \<or> length ps = 1" using p by (cases ps) (auto simp: unf Let_def split: if_splits)
  obtain al ws3 where al: "dmlAlias stmt ws2 = Some (al, ws3)"
    using p by (auto simp: unf Let_def split: if_splits option.splits)
  obtain a b where cs: "clauseScan op ws3 None (length stmt) = Some (a, b)"
    using p by (auto simp: unf al Let_def split: if_splits option.splits)
  have set: "op = ''UPDATE'' \<Longrightarrow> ws3 \<noteq> [] \<and> w_upper (hd ws3) = ''SET''"
    using p by (auto simp: unf al Let_def split: if_splits)
  have t: "t_op t = op" "t_table t = substr stmt (w_start n) e" "length (t_parts t) = Suc (length ps)"
    "case a of None \<Rightarrow> t_cond t = []
     | Some x \<Rightarrow> t_cond t \<noteq> [] \<and> t_cond t = trimSpace (substr stmt x b)"
    using p by (auto simp: unf al cs Let_def split: if_splits option.splits)
  obtain us0 where us0: "us0 \<noteq> []" "topLevelWords stmt = us0 @ ws0" and op: "op \<in> {''UPDATE'', ''DELETE''}"
    "w_upper (hd (topLevelWords stmt)) = op"
    using dmlHead_split [OF h] by blast
  obtain us1 where "ws0 = us1 @ n # ws1" using dropModifiers_split [of ws0] m by metis
  moreover obtain us2 where "ws1 = us2 @ ws2" using nameParts_split [OF np] by blast
  moreover obtain us3 where "ws2 = us3 @ ws3" using dmlAlias_split [OF al] by blast
  moreover obtain mid rest where md: "ws3 = mid @ rest" "\<forall>w \<in> set mid. noJoin op w"
    "rest \<noteq> [] \<longrightarrow> w_upper (hd rest) = ''RETURNING''" "a = whereEnd mid"
    "a \<noteq> None \<longrightarrow> b = condStop (length stmt) rest"
    using clauseScan_split [OF cs] by auto
  ultimately have "topLevelWords stmt = (us0 @ us1 @ [n] @ us2 @ us3) @ mid @ rest"
    using us0 by simp
  moreover have "op = ''UPDATE'' \<Longrightarrow> mid \<noteq> [] \<and> w_upper (hd mid) = ''SET''"
    using set md by (cases mid) auto
  moreover have "w_upper (hd (us0 @ us1 @ [n] @ us2 @ us3)) = op"
    using op us0 by simp
  ultimately have "dmlShape stmt t (us0 @ us1 @ [n] @ us2 @ us3) mid rest"
    using t md us0 unfolding dmlShape_def by (auto split: option.splits)
  then show ?thesis using op q t by (auto simp: sublist_substr)
qed



text \<open>The two comment scanners disagree.  \<open>leadingKeyword\<close> looks for the end of a block comment
  from its first byte, so in \<open>/*/\<close> it takes the comment for finished; \<open>topLevelWords\<close> and the
  servers do not.  A statement whose first real word is DROP passes \<open>PreviewBlocker\<close>.\<close>

theorem preview_blocker_bypass:
  "previewBlocker ''/*/ SELECT */ DROP TABLE t'' = None
   \<and> map w_upper (topLevelWords ''/*/ SELECT */ DROP TABLE t'') = [''DROP'', ''TABLE'', ''T'']"
  by code_simp

end
