(* ===== verification/Quoting.thy ===== *)
theory Quoting
  imports Preview
begin

text \<open>
  Identifier and literal quoting: the functions of \<open>platform/engine\<close> and \<open>platform/schemadiff\<close>
  that put a name between quotes and double the quotes inside it.  What every user of a quoted
  name relies on is stated once, in the locale \<open>quoter\<close>: the scanner of \<open>sqlsplit.go\<close> reads
  exactly the quoted name as one token, and the name can be read back.
\<close>

definition quoteMySQLIdent :: "string \<Rightarrow> string" where
  "quoteMySQLIdent name = [BQ] @ replaceByte BQ [BQ, BQ] name @ [BQ]"

definition quotePGIdent :: "string \<Rightarrow> string" where
  "quotePGIdent name = [DQ] @ replaceByte DQ [DQ, DQ] name @ [DQ]"

subsection \<open>The contract of a quoting function\<close>

locale quoter =
  fixes quoteName :: "string \<Rightarrow> string" and q :: char
  assumes quoted: "quoteName n = q # doubleQuotes q n @ [q]"
    and ident_quote: "q = BQ \<or> q = DQ"
begin

lemma one_token:
  assumes "post = [] \<or> hd post \<noteq> q"
  shows "skipQuoted (pre @ quoteName n @ post) (length pre) q = length pre + length (quoteName n)"
proof -
  have "skipBody q (doubleQuotes q n @ q # post) = length (doubleQuotes q n) + 1"
    using ident_quote assms by (intro skipBody_doubleQuotes) auto
  then show ?thesis by (simp add: skipQuoted_def quoted)
qed

lemma replaceAll_double: "replaceAll (doubleQuotes q n) [q, q] [q] = n"
proof (induction n)
  case Nil
  then show ?case by (subst replaceAll.simps) simp
next
  case (Cons c n)
  show ?case
  proof (cases "c = q")
    case True
    with Cons show ?thesis by (subst replaceAll.simps) simp
  next
    case False
    with Cons show ?thesis by (subst replaceAll.simps) simp
  qed
qed

lemma unquote: "unquoteIdent (quoteName n) = n"
proof -
  have "q = BQ \<or> q = DQ" "(q # doubleQuotes q n @ [q]) ! (length (q # doubleQuotes q n @ [q]) - 1) = q"
    using ident_quote by (simp_all add: nth_append)
  then show ?thesis using replaceAll_double by (auto simp: unquoteIdent_def quoted)
qed

lemma quote_inj: "quoteName a = quoteName b \<Longrightarrow> a = b"
  by (metis unquote)

lemma quote_opaque:
  assumes "opaque t" "t = [] \<or> hd t \<noteq> q"
  shows "opaque (quoteName n @ t)"
proof -
  have "opaque (q # doubleQuotes q n @ q # t)"
    using ident_quote assms by (intro opaque_quoted) auto
  then show ?thesis by (simp add: quoted)
qed

end

interpretation mysqlq: quoter quoteMySQLIdent BQ
  by unfold_locales (simp_all add: quoteMySQLIdent_def doubleQuotes_def)

interpretation pgq: quoter quotePGIdent DQ
  by unfold_locales (simp_all add: quotePGIdent_def doubleQuotes_def)

text \<open>C40. A quoted identifier is one token: whatever the name is, the scanner that skips quotes jumps
  from its first byte to just behind its last one when the text after it does not start with the
  same quote, and unquoting returns the name.  So a name cannot break out of its quotes.\<close>

theorem quoted_identifier_is_one_token:
  assumes "post = [] \<or> hd post \<notin> {BQ, DQ}"
  shows "skipQuoted (pre @ quoteMySQLIdent n @ post) (length pre) BQ = length pre + length (quoteMySQLIdent n)
    \<and> skipQuoted (pre @ quotePGIdent n @ post) (length pre) DQ = length pre + length (quotePGIdent n)
    \<and> unquoteIdent (quoteMySQLIdent n) = n \<and> unquoteIdent (quotePGIdent n) = n"
  using assms mysqlq.one_token [of post pre n] pgq.one_token [of post pre n] mysqlq.unquote pgq.unquote
  by auto

lemma quoted_identifier_is_one_token_witness:
  "skipQuoted (''DROP TABLE '' @ quoteMySQLIdent ''a`; DROP DATABASE b; --'' @ '' CASCADE'')
     (length ''DROP TABLE '') BQ
   = length ''DROP TABLE '' + length (quoteMySQLIdent ''a`; DROP DATABASE b; --'')"
proof -
  have "'' CASCADE'' = [] \<or> hd '' CASCADE'' \<notin> {BQ, DQ}" by simp
  from quoted_identifier_is_one_token [OF this, of "''DROP TABLE ''" "''a`; DROP DATABASE b; --''"]
  show ?thesis by blast
qed

end
