(* ===== verification/RowData.thy ===== *)
theory RowData
  imports Quoting "HOL-Library.Finite_Map"
begin

text \<open>
  The data browser's SQL, \<open>platform/engine/data.go\<close> with the dialects of \<open>mariadb_data.go\<close> and
  \<open>postgres_data.go\<close>: a table's metadata and row key, the builders of the WHERE, ORDER BY, INSERT,
  UPDATE and DELETE texts with their bind arguments, and the CSV import.  \<open>RowValues\<close> (a Go map from
  column to nullable text) is a finite map.  The rows of the catalog queries and the records the
  CSV reader yields are arguments.
\<close>

subsection \<open>Columns and row keys\<close>

type_synonym rowvalues = "(string, string option) fmap"

record column =
  co_name :: string
  co_type :: string
  co_nullable :: bool
  co_hasDefault :: bool
  co_generated :: bool
  co_identityAlways :: bool
  co_autoIncrement :: bool

definition zeroColumn :: column where
  "zeroColumn = \<lparr>co_name = [], co_type = [], co_nullable = False, co_hasDefault = False,
     co_generated = False, co_identityAlways = False, co_autoIncrement = False\<rparr>"

definition typedColumn :: "string \<Rightarrow> column" where
  "typedColumn t = zeroColumn\<lparr>co_type := t\<rparr>"

record tableMeta =
  tm_qualified :: string
  tm_columns :: "column list"
  tm_byName :: "string \<Rightarrow> column option"
  tm_key :: "string list"

definition columnsByName :: "column list \<Rightarrow> string \<Rightarrow> column option" where
  "columnsByName cols = map_of (rev (map (\<lambda>c. (co_name c, c)) cols))"

definition newTableMeta :: "string \<Rightarrow> column list \<Rightarrow> string list \<Rightarrow> tableMeta" where
  "newTableMeta qualified cols key =
     \<lparr>tm_qualified = qualified, tm_columns = cols, tm_byName = columnsByName cols, tm_key = key\<rparr>"

text \<open>\<open>m.byName[k]\<close> read as a value: the zero column when there is none.\<close>

definition colOf :: "tableMeta \<Rightarrow> string \<Rightarrow> column" where
  "colOf m k = (case tm_byName m k of None \<Rightarrow> zeroColumn | Some c \<Rightarrow> c)"

fun chooseKey :: "string list list \<Rightarrow> (string \<Rightarrow> column option) \<Rightarrow> string list" where
  "chooseKey [] cols = []"
| "chooseKey (k # ks) cols =
     (if k \<noteq> [] \<and> list_all (\<lambda>c. case cols c of None \<Rightarrow> False | Some col \<Rightarrow> \<not> co_nullable col) k
      then k else chooseKey ks cols)"

text \<open>The loop of \<open>mysqlMeta\<close> over the rows \<open>(INDEX_NAME, COLUMN_NAME)\<close> of
  \<open>information_schema.STATISTICS\<close>: the columns of each unique index, indexes in order of
  appearance.\<close>

definition addIndexRow :: "(string \<times> string list) list \<Rightarrow> string \<times> string \<Rightarrow> (string \<times> string list) list" where
  "addIndexRow ks r =
     (case map_of ks (fst r) of
        None \<Rightarrow> ks @ [(fst r, [snd r])]
      | Some _ \<Rightarrow> map (\<lambda>(i, cs). if i = fst r then (i, cs @ [snd r]) else (i, cs)) ks)"

definition indexCandidates :: "(string \<times> string) list \<Rightarrow> string list list" where
  "indexCandidates rows = map snd (foldl addIndexRow [] rows)"

subsection \<open>Dialects\<close>

record dialect =
  d_quote :: "string \<Rightarrow> string"
  d_param :: "nat \<Rightarrow> column \<Rightarrow> string"
  d_text :: "string \<Rightarrow> string"
  d_like :: string
  d_concat :: "string list \<Rightarrow> string"
  d_positional :: bool

definition mysqlDialect :: dialect where
  "mysqlDialect =
     \<lparr>d_quote = quoteMySQLIdent, d_param = (\<lambda>_ _. ''?''),
      d_text = (\<lambda>q. ''CAST('' @ q @ '' AS CHAR)''), d_like = ''LIKE'',
      d_concat = (\<lambda>parts. ''CONCAT('' @ joinStr '', '' parts @ '')''), d_positional = True\<rparr>"

definition pgDialect :: dialect where
  "pgDialect =
     \<lparr>d_quote = quotePGIdent,
      d_param = (\<lambda>n c. ''($'' @ natStr n @ ''::text)::'' @ (if co_type c = [] then ''text'' else co_type c)),
      d_text = (\<lambda>q. q @ ''::text''), d_like = ''ILIKE'',
      d_concat = (\<lambda>parts. ''('' @ joinStr '' || '' parts @ '')''), d_positional = False\<rparr>"

subsection \<open>Browse requests\<close>

datatype filterOp =
    OpEq | OpNe | OpLt | OpLte | OpGt | OpGte
  | OpContains | OpStartsWith | OpEndsWith | OpNotContains
  | OpIn | OpNotIn | OpBetween | OpIsNull | OpNotNull
  | OpUnknown string

record rowFilter =
  f_column :: string
  f_op :: filterOp
  f_value :: "string option"
  f_values :: "string list"

record sortKey =
  s_column :: string
  s_desc :: bool

record browseRequest =
  br_filters :: "rowFilter list"
  br_sort :: "sortKey list"
  br_search :: string
  br_limit :: int
  br_offset :: int

datatype data_error =
    UnknownColumn
  | UnknownFilterColumn string
  | UnknownSortColumn string
  | FilterNeedsValue string
  | FilterNeedsValues string
  | FilterNeedsTwoValues string
  | UnsupportedOperator
  | ErrNoRowKey
  | RowKeyMustBe "string list"
  | NoValuesToInsert
  | NoValuesToUpdate
  | NoRowMatched
  | KeyMatched int
  | ErrRowChanged
  | ErrStructureChanged
  | UnknownChange string
  | DbError string

type_synonym args = "string option list"

definition maxFilterValues :: nat where "maxFilterValues = 1000"

definition escapeByte :: "char \<Rightarrow> string" where
  "escapeByte c = (if c = BSL then [BSL, BSL] else if c = CHR ''%'' then [BSL, c]
                   else if c = CHR ''_'' then [BSL, c] else [c])"

definition escapeLike :: "string \<Rightarrow> string" where
  "escapeLike s = concat (map escapeByte s)"

definition anyText :: string where "anyText = [SQ, CHR ''%'', SQ]"

fun opSQL :: "filterOp \<Rightarrow> string option" where
  "opSQL OpEq = Some ''=''"
| "opSQL OpNe = Some ''<>''"
| "opSQL OpLt = Some ''<''"
| "opSQL OpLte = Some ''<=''"
| "opSQL OpGt = Some ''>''"
| "opSQL OpGte = Some ''>=''"
| "opSQL _ = None"

text \<open>The value list of an IN filter: the placeholders and the arguments appended.\<close>

fun inParams :: "dialect \<Rightarrow> column \<Rightarrow> string list \<Rightarrow> args \<Rightarrow> string list \<times> args" where
  "inParams d col [] as = ([], as)"
| "inParams d col (v # vs) as =
     (let as' = as @ [Some v]; (ps, r) = inParams d col vs as'
      in (d_param d (length as') col # ps, r))"

definition likeOps :: "filterOp list" where
  "likeOps = [OpContains, OpStartsWith, OpEndsWith, OpNotContains]"

definition filterCond :: "dialect \<Rightarrow> tableMeta \<Rightarrow> rowFilter \<Rightarrow> args \<Rightarrow> data_error + (string \<times> args)" where
  "filterCond d m f as =
     (case tm_byName m (f_column f) of
        None \<Rightarrow> Inl (UnknownFilterColumn (f_column f))
      | Some col \<Rightarrow>
     (let q = d_quote d (co_name col) in
      if f_op f = OpIsNull then Inr (q @ '' IS NULL'', as)
      else if f_op f = OpNotNull then Inr (q @ '' IS NOT NULL'', as)
      else if f_op f \<in> set likeOps then
        (case f_value f of
           None \<Rightarrow> Inl (FilterNeedsValue (f_column f))
         | Some v \<Rightarrow>
             (let as' = as @ [Some (escapeLike v)];
                  p = d_param d (length as') (typedColumn ''text'');
                  pattern = (if f_op f = OpStartsWith then d_concat d [p, anyText]
                             else if f_op f = OpEndsWith then d_concat d [anyText, p]
                             else d_concat d [anyText, p, anyText])
              in Inr (d_text d q @ '' '' @ (if f_op f = OpNotContains then ''NOT '' else [])
                        @ d_like d @ '' '' @ pattern, as')))
      else if f_op f = OpIn \<or> f_op f = OpNotIn then
        (if f_values f = [] \<or> length (f_values f) > maxFilterValues
         then Inl (FilterNeedsValues (f_column f))
         else let (ps, as') = inParams d col (f_values f) as in
           Inr (q @ '' '' @ (if f_op f = OpNotIn then ''NOT IN'' else ''IN'')
                  @ '' ('' @ joinStr '', '' ps @ '')'', as'))
      else if f_op f = OpBetween then
        (case f_values f of
           [a, b] \<Rightarrow>
             (let lo = d_param d (length as + 1) col; hi = d_param d (length as + 2) col
              in Inr (q @ '' BETWEEN '' @ lo @ '' AND '' @ hi, as @ [Some a, Some b]))
         | _ \<Rightarrow> Inl (FilterNeedsTwoValues (f_column f)))
      else
        (case opSQL (f_op f) of
           None \<Rightarrow> Inl UnsupportedOperator
         | Some op \<Rightarrow>
             (case f_value f of
                None \<Rightarrow> Inl (FilterNeedsValue (f_column f))
              | Some v \<Rightarrow> Inr (q @ '' '' @ op @ '' '' @ d_param d (length as + 1) col, as @ [Some v])))))"

fun filterConds :: "dialect \<Rightarrow> tableMeta \<Rightarrow> rowFilter list \<Rightarrow> args \<Rightarrow> data_error + (string list \<times> args)" where
  "filterConds d m [] as = Inr ([], as)"
| "filterConds d m (f # fs) as =
     ebind (filterCond d m f as) (\<lambda>(c, as'). ebind (filterConds d m fs as') (\<lambda>(cs, r). Inr (c # cs, r)))"

text \<open>The loop over the columns of a search: \<open>n\<close> is the placeholder in use.\<close>

fun searchConds :: "dialect \<Rightarrow> string \<Rightarrow> column list \<Rightarrow> bool \<Rightarrow> nat \<Rightarrow> args \<Rightarrow> string list \<times> args" where
  "searchConds d term [] notFirst n as = ([], as)"
| "searchConds d term (c # cs) notFirst n as =
     (let as' = (if d_positional d \<and> notFirst then as @ [Some term] else as);
          n' = (if d_positional d \<and> notFirst then length as' else n);
          pattern = d_concat d [anyText, d_param d n' (typedColumn ''text''), anyText];
          (ors, r) = searchConds d term cs True n' as'
      in ((d_text d (d_quote d (co_name c)) @ '' '' @ d_like d @ '' '' @ pattern) # ors, r))"

definition whereClause :: "dialect \<Rightarrow> tableMeta \<Rightarrow> browseRequest \<Rightarrow> args \<Rightarrow> data_error + (string \<times> args)" where
  "whereClause d m req as =
     ebind (filterConds d m (br_filters req) as) (\<lambda>(conds, as1).
     let s = trimSpace (br_search req);
         (conds', as2) =
           (if s \<noteq> [] then
              (let term = escapeLike s;
                   (ors, r) = searchConds d term (tm_columns m) False (length as1 + 1) (as1 @ [Some term])
               in (if ors \<noteq> [] then conds @ [''('' @ joinStr '' OR '' ors @ '')''] else conds, r))
            else (conds, as1))
     in Inr (if conds' = [] then ([], as2) else ('' WHERE '' @ joinStr '' AND '' conds', as2)))"

definition orderBy :: "dialect \<Rightarrow> tableMeta \<Rightarrow> sortKey list \<Rightarrow> data_error + string" where
  "orderBy d m srt =
     (case List.find (\<lambda>s. tm_byName m (s_column s) = None) srt of
        Some s \<Rightarrow> Inl (UnknownSortColumn (s_column s))
      | None \<Rightarrow>
          (let parts = map (\<lambda>s. d_quote d (s_column s) @ '' '' @ (if s_desc s then ''DESC'' else ''ASC'')) srt
                 @ map (\<lambda>k. d_quote d k @ '' ASC'') (filter (\<lambda>k. k \<notin> s_column ` set srt) (tm_key m))
           in Inr (if parts = [] then [] else '' ORDER BY '' @ joinStr '', '' parts)))"

definition clampBrowse :: "browseRequest \<Rightarrow> browseRequest" where
  "clampBrowse req =
     (let l = (if br_limit req \<le> 0 then 50 else br_limit req)
      in req\<lparr>br_limit := (if l > 500 then 500 else l),
             br_offset := (if br_offset req < 0 then 0 else br_offset req)\<rparr>)"

definition filtered :: "browseRequest \<Rightarrow> bool" where
  "filtered req \<longleftrightarrow> br_filters req \<noteq> [] \<or> trimSpace (br_search req) \<noteq> []"

subsection \<open>Row statements\<close>

fun keyConds :: "dialect \<Rightarrow> tableMeta \<Rightarrow> string list \<Rightarrow> rowvalues \<Rightarrow> args \<Rightarrow> data_error + (string list \<times> args)" where
  "keyConds d m [] key as = Inr ([], as)"
| "keyConds d m (k # ks) key as =
     (case fmlookup key k of
        Some (Some v) \<Rightarrow>
          (let as' = as @ [Some v] in
           ebind (keyConds d m ks key as')
             (\<lambda>(cs, r). Inr ((d_quote d k @ '' = '' @ d_param d (length as') (colOf m k)) # cs, r)))
      | _ \<Rightarrow> Inl (RowKeyMustBe (tm_key m)))"

definition keyWhere :: "dialect \<Rightarrow> tableMeta \<Rightarrow> rowvalues \<Rightarrow> args \<Rightarrow> data_error + (string \<times> args)" where
  "keyWhere d m key as =
     (if tm_key m = [] then Inl ErrNoRowKey
      else if fcard (fmdom key) \<noteq> length (tm_key m) then Inl (RowKeyMustBe (tm_key m))
      else ebind (keyConds d m (tm_key m) key as) (\<lambda>(cs, r). Inr (joinStr '' AND '' cs, r)))"

definition sortedColumns :: "tableMeta \<Rightarrow> rowvalues \<Rightarrow> data_error + column list" where
  "sortedColumns m values =
     (if \<not> fmpred (\<lambda>name _. tm_byName m name \<noteq> None) values then Inl UnknownColumn
      else Inr (filter (\<lambda>c. fmlookup values (co_name c) \<noteq> None) (tm_columns m)))"

definition valueOf :: "rowvalues \<Rightarrow> string \<Rightarrow> string option" where
  "valueOf values c = (case fmlookup values c of None \<Rightarrow> None | Some v \<Rightarrow> v)"

definition insertSQL :: "dialect \<Rightarrow> tableMeta \<Rightarrow> rowvalues \<Rightarrow> data_error + (string \<times> args)" where
  "insertSQL d m values =
     ebind (sortedColumns m values) (\<lambda>cols.
       if cols = [] then Inl NoValuesToInsert
       else Inr (''INSERT INTO '' @ tm_qualified m @ '' ('' @ joinStr '', '' (map (\<lambda>c. d_quote d (co_name c)) cols)
                   @ '') VALUES ('' @ joinStr '', '' (map (\<lambda>(i, c). d_param d (i + 1) c) (enumerate 0 cols)) @ '')'',
                 map (\<lambda>c. valueOf values (co_name c)) cols))"

definition updateSQL :: "dialect \<Rightarrow> tableMeta \<Rightarrow> rowvalues \<Rightarrow> rowvalues \<Rightarrow> data_error + (string \<times> args)" where
  "updateSQL d m key values =
     ebind (sortedColumns m values) (\<lambda>cols.
       if cols = [] then Inl NoValuesToUpdate
       else
         (let sets = map (\<lambda>(i, c). d_quote d (co_name c) @ '' = '' @ d_param d (i + 1) c) (enumerate 0 cols);
              as = map (\<lambda>c. valueOf values (co_name c)) cols
          in ebind (keyWhere d m key as) (\<lambda>(w, as').
               Inr (''UPDATE '' @ tm_qualified m @ '' SET '' @ joinStr '', '' sets @ '' WHERE '' @ w, as'))))"

definition deleteSQL :: "dialect \<Rightarrow> tableMeta \<Rightarrow> rowvalues \<Rightarrow> data_error + (string \<times> args)" where
  "deleteSQL d m key =
     ebind (keyWhere d m key []) (\<lambda>(w, as). Inr (''DELETE FROM '' @ tm_qualified m @ '' WHERE '' @ w, as))"

definition exactlyOne :: "int \<Rightarrow> data_error option" where
  "exactlyOne n = (if n = 1 then None else if n = 0 then Some NoRowMatched else Some (KeyMatched n))"

text \<open>One row of \<open>batchInsertSQL\<close>: its placeholders, from argument \<open>n\<close> on.  The rows are as long as
  \<open>cols\<close>, which \<open>csvBatches\<close> checks.\<close>

definition batchRow :: "dialect \<Rightarrow> column list \<Rightarrow> nat \<Rightarrow> string" where
  "batchRow d cols n = ''('' @ joinStr '', '' (map (\<lambda>(i, c). d_param d (i + 1) c) (enumerate n cols)) @ '')''"

definition batchInsertSQL :: "dialect \<Rightarrow> tableMeta \<Rightarrow> column list \<Rightarrow> string option list list \<Rightarrow> string \<times> args" where
  "batchInsertSQL d m cols rows =
     (''INSERT INTO '' @ tm_qualified m @ '' ('' @ joinStr '', '' (map (\<lambda>c. d_quote d (co_name c)) cols)
        @ '') VALUES '' @ joinStr '', '' (map (\<lambda>(r, row). batchRow d cols (r * length cols)) (enumerate 0 rows)),
      concat (map (\<lambda>row. map (\<lambda>i. row ! i) [0..<length cols]) rows))"

subsection \<open>CSV import\<close>

text \<open>The reader is the sequence of results of \<open>cr.Read()\<close> before the end of the file; \<open>insert\<close> is the
  callback that runs a batch in the transaction, whose state is threaded.\<close>

datatype csv_error =
    CsvEmpty
  | CsvHeader string
  | CsvNoColumn string
  | CsvTwice string
  | CsvLine nat string
  | CsvFields nat nat nat
  | CsvInsert nat data_error

definition bom :: string where "bom = [CHR 0xEF, CHR 0xBB, CHR 0xBF]"

definition trimBom :: "string \<Rightarrow> string" where
  "trimBom h = (if hasPrefix bom h then drop 3 h else h)"

fun csvHeader :: "tableMeta \<Rightarrow> string list \<Rightarrow> string list \<Rightarrow> csv_error + column list" where
  "csvHeader m seen [] = Inr []"
| "csvHeader m seen (h # hs) =
     (let n = trimSpace (trimBom h) in
      case tm_byName m n of
        None \<Rightarrow> Inl (CsvNoColumn n)
      | Some c \<Rightarrow> if n \<in> set seen then Inl (CsvTwice n)
                  else ebind (csvHeader m (n # seen) hs) (\<lambda>cs. Inr (c # cs)))"

definition csvRow :: "bool \<Rightarrow> string list \<Rightarrow> string option list" where
  "csvRow emptyAsNull rec =
     map (\<lambda>v. if v = [BSL, CHR ''N''] \<or> (emptyAsNull \<and> v = []) then None else Some v) rec"

definition batchSize :: "nat \<Rightarrow> nat" where
  "batchSize ncols =
     (let b = 30000 div ncols; b' = (if b > 500 then 500 else b) in if b' < 1 then 1 else b')"

type_synonym 's inserter = "column list \<Rightarrow> string option list list \<Rightarrow> 's \<Rightarrow> data_error + 's"

text \<open>The read loop: \<open>line\<close>, \<open>rows\<close> and \<open>tot\<close> are its variables.\<close>

fun csvLoop :: "column list \<Rightarrow> bool \<Rightarrow> nat \<Rightarrow> 's inserter \<Rightarrow> (string + string list) list
    \<Rightarrow> nat \<Rightarrow> string option list list \<Rightarrow> nat \<Rightarrow> 's \<Rightarrow> csv_error + (nat \<times> 's)" where
  "csvLoop cols en batch ins [] line rows tot s =
     (if rows \<noteq> [] then
        (case ins cols rows s of
           Inl e \<Rightarrow> Inl (CsvInsert line e)
         | Inr s' \<Rightarrow> Inr (tot + length rows, s'))
      else Inr (tot, s))"
| "csvLoop cols en batch ins (Inl e # rs) line rows tot s = Inl (CsvLine (line + 1) e)"
| "csvLoop cols en batch ins (Inr rec # rs) line rows tot s =
     (if length rec \<noteq> length cols then Inl (CsvFields (line + 1) (length rec) (length cols))
      else
        (let rows' = rows @ [csvRow en rec] in
         if length rows' = batch then
           (case ins cols rows' s of
              Inl e \<Rightarrow> Inl (CsvInsert (line + 1) e)
            | Inr s' \<Rightarrow> csvLoop cols en batch ins rs (line + 1) [] (tot + length rows') s')
         else csvLoop cols en batch ins rs (line + 1) rows' tot s))"

definition csvBatches :: "tableMeta \<Rightarrow> bool \<Rightarrow> 's inserter \<Rightarrow> (string + string list) list \<Rightarrow> 's
    \<Rightarrow> csv_error + (nat \<times> 's)" where
  "csvBatches m en ins rd s =
     (case rd of
        [] \<Rightarrow> Inl CsvEmpty
      | Inl e # _ \<Rightarrow> Inl (CsvHeader e)
      | Inr header # recs \<Rightarrow>
          ebind (csvHeader m [] header) (\<lambda>cols.
            csvLoop cols en (batchSize (length cols)) ins recs 1 [] 0 s))"

text \<open>\<open>ImportCSV\<close> runs the batches in one transaction, rolled back on an error; \<open>batchExec\<close> is the
  callback it passes.\<close>

definition batchExec :: "dialect \<Rightarrow> (string \<Rightarrow> args \<Rightarrow> 's \<Rightarrow> data_error + 's) \<Rightarrow> tableMeta \<Rightarrow> 's inserter" where
  "batchExec d exec m cols rows = (let (q, as) = batchInsertSQL d m cols rows in exec q as)"

definition importCSV :: "dialect \<Rightarrow> tableMeta \<Rightarrow> bool \<Rightarrow> (string \<Rightarrow> args \<Rightarrow> 's \<Rightarrow> data_error + 's)
    \<Rightarrow> (string + string list) list \<Rightarrow> 's \<Rightarrow> (csv_error + nat) \<times> 's" where
  "importCSV d m en exec rd s =
     (case csvBatches m en (batchExec d exec m) rd s of
        Inl e \<Rightarrow> (Inl e, s)
      | Inr (n, s') \<Rightarrow> (Inr n, s'))"

subsection \<open>A row key addresses a row exactly\<close>

lemma fcard_set: "fcard A = card (fset A)"
  by (simp add: fcard.rep_eq)

lemma keyConds_ok:
  "(\<forall>k \<in> set ks. \<exists>v. fmlookup key k = Some (Some v)) \<Longrightarrow>
   keyConds d m ks key as =
     Inr (map (\<lambda>(i, k). d_quote d k @ '' = '' @ d_param d (i + 1) (colOf m k)) (enumerate (length as) ks),
          as @ map (valueOf key) ks)"
proof (induction ks arbitrary: as)
  case (Cons k ks)
  then obtain v where "fmlookup key k = Some (Some v)" by auto
  with Cons show ?case by (simp add: valueOf_def)
qed simp

lemma keyConds_bad:
  "k \<in> set ks \<Longrightarrow> \<not> (\<exists>v. fmlookup key k = Some (Some v)) \<Longrightarrow>
   keyConds d m ks key as = Inl (RowKeyMustBe (tm_key m))"
  by (induction ks arbitrary: as) (auto split: option.splits)

lemma key_dom_eq:
  assumes "distinct ks" "fcard (fmdom key) = length ks" "\<forall>k \<in> set ks. \<exists>v. fmlookup key k = Some (Some v)"
  shows "fset (fmdom key) = set ks"
proof -
  have "set ks \<subseteq> fset (fmdom key)" using assms(3) by (auto intro: fmdomI)
  moreover have "card (set ks) = card (fset (fmdom key))"
    using assms by (simp add: distinct_card fcard_set)
  ultimately show ?thesis using card_subset_eq [of "fset (fmdom key)" "set ks"] by simp
qed

text \<open>\<open>keyWhere\<close> accepts a row key exactly when it names every key column, no other column, and
  no NULL; the condition then compares each key column, in key order, with its own placeholder,
  and the arguments behind the earlier ones are the key's values in the same order.\<close>

theorem keyWhere_exact:
  assumes "tm_key m \<noteq> []" and "distinct (tm_key m)"
  shows "keyWhere d m key as =
    (if fset (fmdom key) = set (tm_key m) \<and> (\<forall>k \<in> set (tm_key m). fmlookup key k \<noteq> Some None)
     then Inr (joinStr '' AND ''
                 (map (\<lambda>(i, k). d_quote d k @ '' = '' @ d_param d (i + 1) (colOf m k))
                    (enumerate (length as) (tm_key m))),
               as @ map (valueOf key) (tm_key m))
     else Inl (RowKeyMustBe (tm_key m)))"
proof (cases "\<forall>k \<in> set (tm_key m). \<exists>v. fmlookup key k = Some (Some v)")
  case True
  then have n: "\<forall>k \<in> set (tm_key m). fmlookup key k \<noteq> Some None" by auto
  show ?thesis
  proof (cases "fcard (fmdom key) = length (tm_key m)")
    case c: True
    then show ?thesis using True n assms key_dom_eq [OF assms(2) c True]
      by (simp add: keyWhere_def keyConds_ok)
  next
    case False
    then have "fset (fmdom key) \<noteq> set (tm_key m)" using assms(2) by (auto simp: fcard_set distinct_card)
    with False assms show ?thesis by (simp add: keyWhere_def)
  qed
next
  case False
  then obtain k where k: "k \<in> set (tm_key m)" "\<not> (\<exists>v. fmlookup key k = Some (Some v))" by blast
  have "\<not> (fset (fmdom key) = set (tm_key m) \<and> (\<forall>k \<in> set (tm_key m). fmlookup key k \<noteq> Some None))"
  proof
    assume a: "fset (fmdom key) = set (tm_key m) \<and> (\<forall>k \<in> set (tm_key m). fmlookup key k \<noteq> Some None)"
    then have "k \<in> fset (fmdom key)" using k by simp
    then obtain v where "fmlookup key k = Some v" by (auto simp: fmlookup_dom_iff)
    with a k show False by (cases v) auto
  qed
  then show ?thesis using assms keyConds_bad [OF k] by (auto simp: keyWhere_def)
qed

definition usersMeta :: tableMeta where
  "usersMeta = newTableMeta ''\"users\"''
     [typedColumn ''bigint''\<lparr>co_name := ''id''\<rparr>, typedColumn ''text''\<lparr>co_name := ''email'', co_nullable := True\<rparr>]
     [''id'']"

lemma keyWhere_exact_witness:
  "keyWhere pgDialect usersMeta (fmap_of_list [(''email'', Some ''x'')]) [] = Inl (RowKeyMustBe [''id''])"
  using keyWhere_exact [of usersMeta pgDialect "fmap_of_list [(''email'', Some ''x'')]" "[]"]
  by (simp add: usersMeta_def newTableMeta_def)

subsection \<open>Values never reach the SQL text\<close>

lemma keyConds_text:
  "keyConds d m ks key as = Inr (cs, as1) \<Longrightarrow> keyConds d m ks key' as' = Inr (cs', as1') \<Longrightarrow>
   length as = length as' \<Longrightarrow> cs = cs' \<and> length as1 = length as1'"
proof (induction ks arbitrary: as as' cs cs' as1 as1')
  case (Cons k ks)
  then show ?case by (fastforce simp: result_simps split: option.splits)
qed simp

lemma keyWhere_text:
  "keyWhere d m key as = Inr (w, as1) \<Longrightarrow> keyWhere d m key' as' = Inr (w', as1') \<Longrightarrow>
   length as = length as' \<Longrightarrow> w = w' \<and> length as1 = length as1'"
  using keyConds_text [of d m "tm_key m" key as _ as1 key' as' _ as1']
  by (fastforce simp: keyWhere_def result_simps split: if_splits)

lemma sortedColumns_text:
  "fmdom v = fmdom v' \<Longrightarrow> sortedColumns m v = sortedColumns m v'"
proof -
  assume a: "fmdom v = fmdom v'"
  have "fmlookup v x \<noteq> None \<longleftrightarrow> x |\<in>| fmdom v" for x and v :: rowvalues
    by (auto simp: fmlookup_dom_iff)
  with a show ?thesis by (simp add: sortedColumns_def fmpred_alt_def)
qed

definition sameShape :: "rowFilter \<Rightarrow> rowFilter \<Rightarrow> bool" where
  "sameShape f g \<longleftrightarrow> f_column f = f_column g \<and> f_op f = f_op g
     \<and> length (f_values f) = length (f_values g)"

lemma inParams_text:
  "length vs = length vs' \<Longrightarrow> length as = length as' \<Longrightarrow>
   fst (inParams d c vs as) = fst (inParams d c vs' as')
   \<and> length (snd (inParams d c vs as)) = length (snd (inParams d c vs' as'))"
proof (induction vs vs' arbitrary: as as' rule: list_induct2)
  case (Cons v vs v' vs')
  from Cons.IH [of "as @ [Some v]" "as' @ [Some v']"] Cons.prems show ?case
    by (auto simp: Let_def split: prod.splits)
qed simp

lemma searchConds_text:
  "length as = length as' \<Longrightarrow>
   fst (searchConds d t cs b n as) = fst (searchConds d t' cs b n as')
   \<and> length (snd (searchConds d t cs b n as)) = length (snd (searchConds d t' cs b n as'))"
proof (induction cs arbitrary: b n as as')
  case (Cons c cs)
  let ?f = "\<lambda>t as. if d_positional d \<and> b then as @ [Some t] else as"
  have "length (?f t as) = length (?f t' as')" using Cons.prems by simp
  from Cons.IH [OF this, of True "if d_positional d \<and> b then length (?f t as) else n"] this show ?case
    by (auto simp: Let_def split: prod.splits)
qed simp

lemma filterCond_text:
  assumes "filterCond d m f as = Inr (c, r)" "filterCond d m g as' = Inr (c', r')"
    and "sameShape f g" "length as = length as'"
  shows "c = c' \<and> length r = length r'"
proof -
  obtain col where col: "tm_byName m (f_column f) = Some col"
    using assms(1) by (auto simp: filterCond_def split: option.splits)
  have eq: "f_column g = f_column f" "f_op g = f_op f" "length (f_values g) = length (f_values f)"
    using assms(3) by (auto simp: sameShape_def)
  note unf = filterCond_def col option.case Let_def eq
  show ?thesis
  proof (cases "f_op f = OpIn \<or> f_op f = OpNotIn")
    case True
    then show ?thesis
      using assms inParams_text [of "f_values f" "f_values g" as as' d col] eq
      by (auto simp: unf likeOps_def split: if_splits prod.splits)
  next
    case False
    then show ?thesis using assms(1,2,4)
      by (auto simp: unf likeOps_def split: if_splits option.splits list.splits)
  qed
qed

lemma filterConds_text:
  "filterConds d m fs as = Inr (cs, r) \<Longrightarrow> filterConds d m gs as' = Inr (cs', r') \<Longrightarrow>
   list_all2 sameShape fs gs \<Longrightarrow> length as = length as' \<Longrightarrow> cs = cs' \<and> length r = length r'"
proof (induction fs arbitrary: gs as as' cs cs' r r')
  case (Cons f fs)
  from Cons.prems(3) obtain g gs1 where g: "gs = g # gs1" "sameShape f g" "list_all2 sameShape fs gs1"
    by (auto simp: list_all2_Cons1)
  obtain c1 a1 cs1 where f: "filterCond d m f as = Inr (c1, a1)" "filterConds d m fs a1 = Inr (cs1, r)" "cs = c1 # cs1"
    using Cons.prems(1) by (auto simp: result_simps)
  obtain c2 a2 cs2 where f': "filterCond d m g as' = Inr (c2, a2)" "filterConds d m gs1 a2 = Inr (cs2, r')" "cs' = c2 # cs2"
    using Cons.prems(2) g by (auto simp: result_simps)
  have "c1 = c2 \<and> length a1 = length a2" using filterCond_text [OF f(1) f'(1) g(2) Cons.prems(4)] .
  then show ?case using Cons.IH [OF f(2) f'(2) g(3)] f f' by simp
qed simp

text \<open>Every value is a bind parameter: the text of an UPDATE depends on the table and on which
  columns are set, never on the values or on the key's values, and neither does the number of its
  arguments.\<close>

theorem update_text_value_free:
  assumes "updateSQL d m k v = Inr (q, as)" and "updateSQL d m k' v' = Inr (q', as')"
    and "fmdom v = fmdom v'"
  shows "q = q' \<and> length as = length as'"
proof -
  have s: "sortedColumns m v' = sortedColumns m v" using assms(3) sortedColumns_text by metis
  obtain cols w where "sortedColumns m v = Inr cols"
    and w: "keyWhere d m k (map (\<lambda>c. valueOf v (co_name c)) cols) = Inr (w, as)"
    and q: "q = ''UPDATE '' @ tm_qualified m @ '' SET '' @ joinStr '', ''
      (map (\<lambda>(i, c). d_quote d (co_name c) @ '' = '' @ d_param d (i + 1) c) (enumerate 0 cols)) @ '' WHERE '' @ w"
    using assms(1) by (auto simp: updateSQL_def result_simps Let_def split: if_splits)
  moreover from this obtain w' where
    w': "keyWhere d m k' (map (\<lambda>c. valueOf v' (co_name c)) cols) = Inr (w', as')"
    and q': "q' = ''UPDATE '' @ tm_qualified m @ '' SET '' @ joinStr '', ''
      (map (\<lambda>(i, c). d_quote d (co_name c) @ '' = '' @ d_param d (i + 1) c) (enumerate 0 cols)) @ '' WHERE '' @ w'"
    using assms(2) s by (auto simp: updateSQL_def result_simps Let_def split: if_splits)
  moreover have "w = w' \<and> length as = length as'" by (rule keyWhere_text [OF w w']) simp
  ultimately show ?thesis by simp
qed

lemma update_text_value_free_witness:
  "\<exists>q as q' as'. updateSQL pgDialect usersMeta (fmap_of_list [(''id'', Some ''7'')]) (fmap_of_list [(''email'', None)]) = Inr (q, as)
     \<and> updateSQL pgDialect usersMeta (fmap_of_list [(''id'', Some [SQ])])
         (fmap_of_list [(''email'', Some ''x;DROP'')]) = Inr (q', as') \<and> q = q'"
proof -
  let ?k = "fmap_of_list [(''id'', Some ''7'')] :: rowvalues" and ?v = "fmap_of_list [(''email'', None)] :: rowvalues"
  let ?k' = "fmap_of_list [(''id'', Some [SQ])] :: rowvalues"
  let ?v' = "fmap_of_list [(''email'', Some ''x;DROP'')] :: rowvalues"
  have "isl (updateSQL pgDialect usersMeta ?k ?v) = False" "isl (updateSQL pgDialect usersMeta ?k' ?v') = False"
    by code_simp+
  then obtain q as q' as' where u: "updateSQL pgDialect usersMeta ?k ?v = Inr (q, as)"
    "updateSQL pgDialect usersMeta ?k' ?v' = Inr (q', as')"
    by (metis isl_def obj_sumE surj_pair)
  have "fmdom ?v = fmdom ?v'" by (simp add: fmdom_fmap_of_list)
  from update_text_value_free [OF u this] u show ?thesis by blast
qed

text \<open>The WHERE clause of a browse request depends on its columns, operators and number of values
  only: two requests whose filters differ in their values, and that both search or both do not,
  give the same text with as many arguments.\<close>

theorem where_text_value_free:
  assumes "whereClause d m r [] = Inr (w, bs)" and "whereClause d m r' [] = Inr (w', bs')"
    and "list_all2 sameShape (br_filters r) (br_filters r')"
    and "trimSpace (br_search r) = [] \<longleftrightarrow> trimSpace (br_search r') = []"
  shows "w = w' \<and> length bs = length bs'"
proof -
  obtain cs a where f: "filterConds d m (br_filters r) [] = Inr (cs, a)"
    using assms(1) by (auto simp: whereClause_def result_simps)
  obtain cs' a' where f': "filterConds d m (br_filters r') [] = Inr (cs', a')"
    using assms(2) by (auto simp: whereClause_def result_simps)
  have e: "cs = cs'" "length a = length a'" using filterConds_text [OF f f' assms(3)] by simp_all
  show ?thesis
  proof (cases "trimSpace (br_search r) = []")
    case True
    with assms f f' e show ?thesis by (auto simp: whereClause_def split: if_splits)
  next
    case False
    let ?t = "escapeLike (trimSpace (br_search r))" and ?t' = "escapeLike (trimSpace (br_search r'))"
    have "fst (searchConds d ?t (tm_columns m) False (length a + 1) (a @ [Some ?t]))
        = fst (searchConds d ?t' (tm_columns m) False (length a' + 1) (a' @ [Some ?t']))
      \<and> length (snd (searchConds d ?t (tm_columns m) False (length a + 1) (a @ [Some ?t])))
        = length (snd (searchConds d ?t' (tm_columns m) False (length a' + 1) (a' @ [Some ?t'])))"
      using searchConds_text [of "a @ [Some ?t]" "a' @ [Some ?t']"] e by simp
    with False assms f f' e show ?thesis
      by (auto simp: whereClause_def Let_def split: if_splits prod.splits)
  qed
qed

definition emailLike :: "string \<Rightarrow> string \<Rightarrow> browseRequest" where
  "emailLike v s = \<lparr>br_filters = [\<lparr>f_column = ''email'', f_op = OpContains, f_value = Some v, f_values = []\<rparr>],
     br_sort = [], br_search = s, br_limit = 50, br_offset = 0\<rparr>"

lemma where_text_value_free_witness:
  "\<exists>w bs w' bs'. whereClause mysqlDialect usersMeta (emailLike ''a'' ''b'') [] = Inr (w, bs)
     \<and> whereClause mysqlDialect usersMeta (emailLike ''%'' ''?'') [] = Inr (w', bs') \<and> w = w'"
proof -
  have "isl (whereClause mysqlDialect usersMeta (emailLike ''a'' ''b'') []) = False"
    "isl (whereClause mysqlDialect usersMeta (emailLike ''%'' ''?'') []) = False" by code_simp+
  then obtain w bs w' bs' where u: "whereClause mysqlDialect usersMeta (emailLike ''a'' ''b'') [] = Inr (w, bs)"
    "whereClause mysqlDialect usersMeta (emailLike ''%'' ''?'') [] = Inr (w', bs')"
    by (metis isl_def obj_sumE surj_pair)
  have "list_all2 sameShape (br_filters (emailLike ''a'' ''b'')) (br_filters (emailLike ''%'' ''?''))"
    by (simp add: emailLike_def sameShape_def)
  moreover have "trimSpace (br_search (emailLike ''a'' ''b'')) = [] \<longleftrightarrow> trimSpace (br_search (emailLike ''%'' ''?'')) = []"
    by code_simp
  ultimately show ?thesis using where_text_value_free [OF u] u by blast
qed

subsection \<open>LIKE patterns\<close>

text \<open>\<open>LIKE\<close> with the default escape character, as both servers document it.\<close>

function likeMatch :: "string \<Rightarrow> string \<Rightarrow> bool" where
  "likeMatch [] t = (t = [])"
| "likeMatch (p # ps) t =
     (if p = CHR ''%'' then (\<exists>k \<in> set [0..<Suc (length t)]. likeMatch ps (drop k t))
      else if p = CHR ''_'' then t \<noteq> [] \<and> likeMatch ps (tl t)
      else if p = BSL \<and> ps \<noteq> [] then t \<noteq> [] \<and> hd t = hd ps \<and> likeMatch (tl ps) (tl t)
      else t \<noteq> [] \<and> hd t = p \<and> likeMatch ps (tl t))"
  by pat_completeness auto
termination
  by (relation "measure (\<lambda>(p, t). length p)") auto

declare likeMatch.simps(2) [simp del]

lemma likeMatch_escape: "likeMatch (escapeLike v @ p) t \<longleftrightarrow> (\<exists>r. t = v @ r \<and> likeMatch p r)"
proof (induction v arbitrary: t)
  case Nil
  then show ?case by (simp add: escapeLike_def)
next
  case (Cons c v)
  have "likeMatch (escapeByte c @ escapeLike v @ p) t \<longleftrightarrow> t \<noteq> [] \<and> hd t = c \<and> likeMatch (escapeLike v @ p) (tl t)"
    by (auto simp: escapeByte_def likeMatch.simps(2))
  also have "\<dots> \<longleftrightarrow> (\<exists>r. t = (c # v) @ r \<and> likeMatch p r)"
    using Cons by (cases t) auto
  finally show ?case by (simp add: escapeLike_def)
qed

lemma likeMatch_percent: "likeMatch (CHR ''%'' # p) t \<longleftrightarrow> (\<exists>a b. t = a @ b \<and> likeMatch p b)"
proof -
  have "(\<exists>k \<in> set [0..<Suc (length t)]. likeMatch p (drop k t)) \<longleftrightarrow> (\<exists>a b. t = a @ b \<and> likeMatch p b)"
  proof
    assume "\<exists>a b. t = a @ b \<and> likeMatch p b"
    then obtain a b where "t = a @ b" "likeMatch p b" by blast
    then show "\<exists>k \<in> set [0..<Suc (length t)]. likeMatch p (drop k t)"
      by (intro bexI [of _ "length a"]) auto
  next
    assume "\<exists>k \<in> set [0..<Suc (length t)]. likeMatch p (drop k t)"
    then show "\<exists>a b. t = a @ b \<and> likeMatch p b" by (metis append_take_drop_id)
  qed
  then show ?thesis by (simp add: likeMatch.simps(2))
qed

text \<open>A search for text is literal: the pattern built from \<open>escapeLike\<close> by the contains, starts-with
  and ends-with filters matches exactly the values that contain the text, start with it, end with
  it, whatever percent signs, underscores and backslashes it holds.\<close>

theorem escapeLike_literal:
  "likeMatch (''%'' @ escapeLike v @ ''%'') t = sublist v t
   \<and> likeMatch (escapeLike v @ ''%'') t = prefix v t
   \<and> likeMatch (''%'' @ escapeLike v) t = suffix v t"
proof -
  have "likeMatch (''%'' @ escapeLike v @ ''%'') t \<longleftrightarrow> (\<exists>a b r. t = a @ b \<and> b = v @ r \<and> likeMatch ''%'' r)"
    using likeMatch_percent [of "escapeLike v @ ''%''" t] by (auto simp: likeMatch_escape)
  moreover have any: "likeMatch ''%'' r" for r using likeMatch_percent [of "[]" r] by simp
  moreover have "likeMatch (''%'' @ escapeLike v) t \<longleftrightarrow> (\<exists>a b. t = a @ b \<and> (\<exists>r. b = v @ r \<and> r = []))"
    using likeMatch_percent [of "escapeLike v" t] likeMatch_escape [of v "[]"] by simp
  ultimately show ?thesis
    using likeMatch_escape [of v "''%''" t] by (auto simp: sublist_def prefix_def suffix_def)
qed

subsection \<open>CSV import\<close>

fun runBatches :: "'s inserter \<Rightarrow> column list \<Rightarrow> string option list list list \<Rightarrow> 's \<Rightarrow> data_error + 's" where
  "runBatches ins cols [] s = Inr s"
| "runBatches ins cols (b # bs) s = ebind (ins cols b s) (runBatches ins cols bs)"

lemma csvLoop_ok:
  assumes "csvLoop cols en batch ins rd line rows tot s = Inr (n, s')" and "length rows < batch"
  shows "\<exists>recs bs. rd = map Inr recs \<and> (\<forall>r \<in> set recs. length r = length cols)
    \<and> concat bs = rows @ map (csvRow en) recs \<and> (\<forall>b \<in> set bs. b \<noteq> [] \<and> length b \<le> batch)
    \<and> runBatches ins cols bs s = Inr s' \<and> n = tot + length rows + length recs"
  using assms
proof (induction cols en batch ins rd line rows tot s rule: csvLoop.induct)
  case (1 cols en batch ins line rows tot s)
  show ?case
  proof (cases "rows = []")
    case True
    with 1 show ?thesis by (intro exI [of _ "[]"]) simp
  next
    case False
    with 1 show ?thesis
      by (intro exI [of _ "[]"] exI [of _ "[rows]"]) (auto split: sum.splits)
  qed
next
  case (2 cols en batch ins e rs line rows tot s)
  then show ?case by simp
next
  case (3 cols en batch ins rec rs line rows tot s)
  let ?rows = "rows @ [csvRow en rec]"
  have len: "length rec = length cols" using "3.prems" by (auto split: if_splits)
  show ?case
  proof (cases "length ?rows = batch")
    case True
    obtain s1 where s1: "ins cols ?rows s = Inr s1"
      using "3.prems" len True by (auto simp: Let_def split: sum.splits if_splits)
    then have c: "csvLoop cols en batch ins rs (line + 1) [] (tot + length ?rows) s1 = Inr (n, s')"
      using "3.prems" len True by (simp add: Let_def)
    have "length ([] :: string option list list) < batch" using True by simp
    from "3.IH"(1) [OF _ refl True s1 c this] len obtain recs bs where
      "rs = map Inr recs" "\<forall>r \<in> set recs. length r = length cols" "concat bs = map (csvRow en) recs"
      "\<forall>b \<in> set bs. b \<noteq> [] \<and> length b \<le> batch" "runBatches ins cols bs s1 = Inr s'"
      "n = tot + length ?rows + length recs" by auto
    then show ?thesis using len s1 True
      by (intro exI [of _ "rec # recs"] exI [of _ "?rows # bs"]) auto
  next
    case False
    then have c: "csvLoop cols en batch ins rs (line + 1) ?rows tot s = Inr (n, s')"
      using "3.prems" len by (simp add: Let_def split: if_splits)
    have "length ?rows < batch" using "3.prems"(2) False by simp
    from "3.IH"(2) [OF _ refl False c this] len obtain recs bs where
      "rs = map Inr recs" "\<forall>r \<in> set recs. length r = length cols"
      "concat bs = ?rows @ map (csvRow en) recs"
      "\<forall>b \<in> set bs. b \<noteq> [] \<and> length b \<le> batch" "runBatches ins cols bs s = Inr s'"
      "n = tot + length ?rows + length recs" by auto
    then show ?thesis using len
      by (intro exI [of _ "rec # recs"] exI [of _ bs]) auto
  qed
qed

lemma csvHeader_ok:
  "csvHeader m seen hs = Inr cols \<Longrightarrow>
     list_all2 (\<lambda>h c. tm_byName m (trimSpace (trimBom h)) = Some c) hs cols
     \<and> distinct (map (\<lambda>h. trimSpace (trimBom h)) hs)
     \<and> set (map (\<lambda>h. trimSpace (trimBom h)) hs) \<inter> set seen = {}"
  by (induction m seen hs arbitrary: cols rule: csvHeader.induct)
    (fastforce simp: Let_def result_simps split: option.splits if_splits)+

lemma batchSize_bounds: "0 < batchSize n \<and> batchSize n \<le> 500 \<and> (n \<le> 30000 \<longrightarrow> n * batchSize n \<le> 30000)"
proof -
  have "n * (30000 div n) \<le> 30000" by (simp add: mult.commute div_times_less_eq_dividend)
  moreover have "batchSize n = (if 30000 div n > 500 then 500 else if 30000 div n < 1 then 1 else 30000 div n)"
    by (simp add: batchSize_def Let_def)
  moreover have "n * 500 \<le> 30000" if "30000 div n > 500"
    using mult_le_mono2 [of 500 "30000 div n" n] that calculation(1) by linarith
  ultimately show ?thesis by auto
qed



end
