(* ===== verification/RowImage.thy ===== *)
theory RowImage
  imports RowData
begin

text \<open>
  Row images, \<open>platform/engine/rowimage.go\<close>: a data-browser edit of exactly one row with its
  before and after images (\<open>changeRow\<close>), and making a row match an image (\<open>planApply\<close>,
  \<open>applyRow\<close>), which is how a change is undone.  The database transaction is a record of functions
  on a store \<open>'s\<close>; \<open>nil\<close> maps are \<^const>\<open>None\<close>.
\<close>

subsection \<open>Image algebra\<close>

definition valuesOf :: "rowvalues option \<Rightarrow> rowvalues" where
  "valuesOf v = (case v of None \<Rightarrow> fmempty | Some m \<Rightarrow> m)"

definition sameCell :: "rowvalues \<Rightarrow> string \<Rightarrow> string option \<Rightarrow> bool" where
  "sameCell got c v \<longleftrightarrow> fmlookup got c = Some v"

definition sameValues :: "rowvalues \<Rightarrow> rowvalues \<Rightarrow> bool" where
  "sameValues want got \<longleftrightarrow> fmpred (\<lambda>c v. sameCell got c v) want"

definition expectImage :: "rowvalues option \<Rightarrow> rowvalues option \<Rightarrow> data_error option" where
  "expectImage want current =
     (case want of
        None \<Rightarrow> if current \<noteq> None then Some ErrRowChanged else None
      | Some w \<Rightarrow>
          (case current of
             None \<Rightarrow> Some ErrRowChanged
           | Some c \<Rightarrow> if sameValues w c then None else Some ErrRowChanged))"

fun keyMap :: "string list \<Rightarrow> rowvalues \<Rightarrow> rowvalues option" where
  "keyMap [] values = Some fmempty"
| "keyMap (c # cs) values =
     (case fmlookup values c of
        Some (Some v) \<Rightarrow> map_option (fmupd c (Some v)) (keyMap cs values)
      | _ \<Rightarrow> None)"

definition keyOf :: "tableMeta \<Rightarrow> rowvalues \<Rightarrow> rowvalues option" where
  "keyOf m values = (if tm_key m = [] then None else keyMap (tm_key m) values)"

definition overlay :: "rowvalues \<Rightarrow> rowvalues \<Rightarrow> rowvalues" where
  "overlay lower upper = lower ++\<^sub>f upper"

definition pick :: "tableMeta \<Rightarrow> rowvalues \<Rightarrow> rowvalues \<Rightarrow> rowvalues" where
  "pick m img cols = fmfilter (\<lambda>c. fmlookup cols c \<noteq> None \<or> c \<in> set (tm_key m)) img"

definition imageColumns :: "tableMeta \<Rightarrow> rowvalues option list \<Rightarrow> string list" where
  "imageColumns m imgs =
     map co_name (filter (\<lambda>c. list_ex (\<lambda>img. fmlookup (valuesOf img) (co_name c) \<noteq> None) imgs) (tm_columns m))"

definition selectByKeySQL :: "dialect \<Rightarrow> tableMeta \<Rightarrow> rowvalues \<Rightarrow> bool \<Rightarrow> data_error + (string \<times> args)" where
  "selectByKeySQL d m key forUpdate =
     ebind (keyWhere d m key []) (\<lambda>(w, as).
       Inr (''SELECT '' @ joinStr '', '' (map (\<lambda>c. d_quote d (co_name c)) (tm_columns m)) @ '' FROM ''
              @ tm_qualified m @ '' WHERE '' @ w @ (if forUpdate then '' FOR UPDATE'' else []), as))"

definition rowToValues :: "tableMeta \<Rightarrow> string option list \<Rightarrow> rowvalues" where
  "rowToValues m row = fmap_of_list (rev (map (\<lambda>(c, v). (co_name c, v)) (zip (tm_columns m) row)))"

subsection \<open>Plans\<close>

definition replaceFirst :: "string \<Rightarrow> string \<Rightarrow> string \<Rightarrow> string" where
  "replaceFirst s old new =
     (case strIndex s old of None \<Rightarrow> s | Some j \<Rightarrow> take j s @ new @ drop (j + length old) s)"

record applyPlan =
  ap_op :: string
  ap_sql :: string
  ap_args :: args
  ap_written :: "rowvalues option"

definition noPlan :: applyPlan where
  "noPlan = \<lparr>ap_op = [], ap_sql = [], ap_args = [], ap_written = None\<rparr>"

definition writableOf :: "tableMeta \<Rightarrow> rowvalues \<Rightarrow> rowvalues" where
  "writableOf m want = fmfilter (\<lambda>c. \<not> co_generated (colOf m c)) want"

definition changedOf :: "rowvalues \<Rightarrow> rowvalues \<Rightarrow> rowvalues" where
  "changedOf current writable = fmfilter (\<lambda>c. fmlookup current c \<noteq> fmlookup writable c) writable"

definition planApply :: "dialect \<Rightarrow> tableMeta \<Rightarrow> rowvalues \<Rightarrow> rowvalues option \<Rightarrow> rowvalues option
    \<Rightarrow> data_error + applyPlan" where
  "planApply d m key current want =
     (if \<not> fmpred (\<lambda>c _. tm_byName m c \<noteq> None) (valuesOf want) then Inl ErrStructureChanged
      else
        let writable = writableOf m (valuesOf want) in
        case (want, current) of
          (None, None) \<Rightarrow> Inr noPlan
        | (None, Some _) \<Rightarrow>
            ebind (deleteSQL d m key) (\<lambda>(q, as).
              Inr \<lparr>ap_op = ''delete'', ap_sql = q, ap_args = as, ap_written = None\<rparr>)
        | (Some _, None) \<Rightarrow>
            ebind (insertSQL d m writable) (\<lambda>(q, as).
              Inr \<lparr>ap_op = ''insert'',
                   ap_sql = (if \<not> fmpred (\<lambda>c _. \<not> co_identityAlways (colOf m c)) writable
                             then replaceFirst q '') VALUES ('' '') OVERRIDING SYSTEM VALUE VALUES ('' else q),
                   ap_args = as, ap_written = Some writable\<rparr>)
        | (Some _, Some cur) \<Rightarrow>
            (let changed = changedOf cur writable in
             if fcard (fmdom changed) = 0 then Inr noPlan
             else ebind (updateSQL d m key changed) (\<lambda>(q, as).
               Inr \<lparr>ap_op = ''update'', ap_sql = q, ap_args = as, ap_written = Some changed\<rparr>)))"

subsection \<open>One edit in a transaction\<close>

record rowChange =
  rc_op :: string
  rc_key :: "rowvalues option"
  rc_before :: "rowvalues option"
  rc_after :: "rowvalues option"
  rc_columns :: "string list"
  rc_session :: "(string, string) fmap"
  rc_undoable :: bool
  rc_note :: string

definition newChange :: "string \<Rightarrow> rowvalues option \<Rightarrow> rowChange" where
  "newChange op key = \<lparr>rc_op = op, rc_key = key, rc_before = None, rc_after = None, rc_columns = [],
     rc_session = fmempty, rc_undoable = True, rc_note = []\<rparr>"

record 's rowTx =
  tx_read :: "tableMeta \<Rightarrow> rowvalues \<Rightarrow> bool \<Rightarrow> 's \<Rightarrow> data_error + rowvalues option"
  tx_exec :: "string \<Rightarrow> args \<Rightarrow> 's \<Rightarrow> data_error + (int \<times> 's)"
  tx_insert :: "tableMeta \<Rightarrow> string \<Rightarrow> args \<Rightarrow> 's \<Rightarrow> data_error + (int \<times> rowvalues \<times> 's)"

definition keyNote :: string where
  "keyNote = ''the new row's key is assigned by the database in a way Fleetdock cannot read back''"

definition movedNote :: string where
  "movedNote = ''the row is no longer at its key after the change (a trigger may have changed it)''"

text \<open>\<open>changeRow\<close> up to and including the statement that writes: the store after it, the key of the row
  and its before image.\<close>

definition writeRow :: "dialect \<Rightarrow> 's rowTx \<Rightarrow> tableMeta \<Rightarrow> string \<Rightarrow> rowvalues \<Rightarrow> rowvalues \<Rightarrow> 's
    \<Rightarrow> data_error + (rowvalues option \<times> rowvalues option \<times> 's)" where
  "writeRow d tx m op key values s =
     ebind (if op = ''insert'' then Inr None
            else ebind (keyWhere d m key []) (\<lambda>_.
                 ebind (tx_read tx m key True s) (\<lambda>b.
                 case b of None \<Rightarrow> Inl NoRowMatched | Some r \<Rightarrow> Inr (Some r)))) (\<lambda>before.
       if op = ''insert'' then
         ebind (insertSQL d m values) (\<lambda>(q, as).
         ebind (tx_insert tx m q as s) (\<lambda>(n, assigned, s').
         case exactlyOne n of
           Some e \<Rightarrow> Inl e
         | None \<Rightarrow> Inr (keyOf m (overlay values assigned), None, s')))
       else if op = ''update'' then
         ebind (updateSQL d m key values) (\<lambda>(q, as).
         ebind (tx_exec tx q as s) (\<lambda>(n, s').
         case exactlyOne n of
           Some e \<Rightarrow> Inl e
         | None \<Rightarrow> Inr (keyOf m (overlay (valuesOf before) values), Some (pick m (valuesOf before) values), s')))
       else if op = ''delete'' then
         ebind (deleteSQL d m key) (\<lambda>(q, as).
         ebind (tx_exec tx q as s) (\<lambda>(n, s').
         case exactlyOne n of
           Some e \<Rightarrow> Inl e
         | None \<Rightarrow> Inr (keyOf m (valuesOf before), before, s')))
       else Inl (UnknownChange op))"

definition changeRow :: "dialect \<Rightarrow> 's rowTx \<Rightarrow> tableMeta \<Rightarrow> string \<Rightarrow> rowvalues \<Rightarrow> rowvalues \<Rightarrow> 's
    \<Rightarrow> data_error + (rowChange \<times> 's)" where
  "changeRow d tx m op key values s =
     ebind (writeRow d tx m op key values s) (\<lambda>(k, before, s').
       let ch = (newChange op k)\<lparr>rc_before := before\<rparr> in
       if op = ''delete'' then Inr (ch\<lparr>rc_columns := imageColumns m [before, None]\<rparr>, s')
       else
         case k of
           None \<Rightarrow> Inr (ch\<lparr>rc_undoable := False, rc_note := keyNote\<rparr>, s')
         | Some key' \<Rightarrow>
             ebind (tx_read tx m key' False s') (\<lambda>after.
             case after of
               None \<Rightarrow> Inr (ch\<lparr>rc_undoable := False, rc_note := movedNote\<rparr>, s')
             | Some a \<Rightarrow>
                 (let img = Some (if op = ''update'' then pick m a values else a)
                  in Inr (ch\<lparr>rc_after := img, rc_columns := imageColumns m [before, img]\<rparr>, s'))))"

text \<open>An \<open>ApplyRequest\<close>; \<open>aq_check\<close> is \<^const>\<open>None\<close> when the check is skipped.\<close>

record applyRequest =
  aq_key :: rowvalues
  aq_check :: "(rowvalues option \<Rightarrow> data_error option) option"
  aq_want :: "rowvalues option"
  aq_session :: "(string, string) fmap"

definition runPlan :: "'s rowTx \<Rightarrow> tableMeta \<Rightarrow> rowvalues \<Rightarrow> applyPlan \<Rightarrow> 's \<Rightarrow> data_error + (rowvalues option \<times> 's)" where
  "runPlan tx m key plan s =
     (if ap_op plan = ''insert'' then
        ebind (tx_insert tx m (ap_sql plan) (ap_args plan) s) (\<lambda>(n, assigned, s').
        case exactlyOne n of
          Some e \<Rightarrow> Inl e
        | None \<Rightarrow> (case keyOf m (overlay (valuesOf (ap_written plan)) assigned) of
                    Some k \<Rightarrow> Inr (Some k, s') | None \<Rightarrow> Inr (Some key, s')))
      else
        ebind (tx_exec tx (ap_sql plan) (ap_args plan) s) (\<lambda>(n, s').
        case exactlyOne n of Some e \<Rightarrow> Inl e | None \<Rightarrow> Inr (Some key, s')))"

definition applyRow :: "dialect \<Rightarrow> 's rowTx \<Rightarrow> tableMeta \<Rightarrow> applyRequest \<Rightarrow> 's \<Rightarrow> data_error + (rowChange \<times> 's)" where
  "applyRow d tx m req s =
     ebind (keyWhere d m (aq_key req) []) (\<lambda>_.
     ebind (tx_read tx m (aq_key req) True s) (\<lambda>current.
     case (case aq_check req of None \<Rightarrow> None | Some chk \<Rightarrow> chk current) of
       Some e \<Rightarrow> Inl e
     | None \<Rightarrow>
     ebind (planApply d m (aq_key req) current (aq_want req)) (\<lambda>plan.
       if ap_op plan = [] then Inr (newChange [] (Some (aq_key req)), s)
       else
         ebind (runPlan tx m (aq_key req) plan s) (\<lambda>(k, s').
           if ap_op plan = ''delete'' then
             Inr ((newChange ''delete'' k)\<lparr>rc_before := current, rc_columns := imageColumns m [current, None]\<rparr>, s')
           else if ap_op plan = ''update'' then
             (let written = valuesOf (ap_written plan);
                  k' = keyOf m (overlay (valuesOf current) written);
                  before = Some (pick m (valuesOf current) written)
              in ebind (tx_read tx m (valuesOf k') False s') (\<lambda>after.
                   let img = Some (pick m (valuesOf after) written)
                   in Inr ((newChange ''update'' k')\<lparr>rc_before := before, rc_after := img,
                             rc_columns := imageColumns m [before, img]\<rparr>, s')))
           else
             ebind (tx_read tx m (valuesOf k) False s') (\<lambda>after.
               Inr ((newChange ''insert'' k)\<lparr>rc_after := after, rc_columns := imageColumns m [None, after]\<rparr>, s'))))))"

subsection \<open>The engines' transactions\<close>

text \<open>\<open>mysqlReadByKey\<close> and \<open>pgReadByKey\<close>: \<open>query\<close> yields the rows of a statement.\<close>

definition readByKey :: "dialect \<Rightarrow> (string \<Rightarrow> args \<Rightarrow> data_error + string option list list) \<Rightarrow> tableMeta
    \<Rightarrow> rowvalues \<Rightarrow> bool \<Rightarrow> data_error + rowvalues option" where
  "readByKey d query m key forUpdate =
     ebind (selectByKeySQL d m key forUpdate) (\<lambda>(q, as).
     ebind (query q as) (\<lambda>rows.
       case rows of
         [] \<Rightarrow> Inr None
       | [row] \<Rightarrow> Inr (Some (rowToValues m row))
       | _ \<Rightarrow> Inl (KeyMatched 2)))"

text \<open>\<open>mysqlRowTx.insert\<close>: the last insert id is reported for the AUTO\_INCREMENT columns.\<close>

definition assignedId :: "tableMeta \<Rightarrow> int option \<Rightarrow> rowvalues" where
  "assignedId m lastId =
     (case lastId of
        None \<Rightarrow> fmempty
      | Some i \<Rightarrow> if i = 0 then fmempty
                  else fmap_of_list (map (\<lambda>c. (co_name c, Some (itoa i))) (filter co_autoIncrement (tm_columns m))))"

text \<open>\<open>pgRowTx.insert\<close> with a row key: the rows RETURNING gives, the last one kept.\<close>

definition assignedKey :: "tableMeta \<Rightarrow> string option list list \<Rightarrow> int \<times> rowvalues" where
  "assignedKey m rows =
     (int (length rows), foldl (\<lambda>acc row. acc ++\<^sub>f fmap_of_list (rev (zip (tm_key m) row))) fmempty rows)"

text \<open>\<open>rowTx\<close>: begin, run, commit; everything is rolled back unless the commit succeeds.  \<open>settings\<close> are
  the session settings the images were read under.\<close>

definition rowTxRun :: "('s \<Rightarrow> data_error option) \<Rightarrow> (string, string) fmap \<Rightarrow> ('s \<Rightarrow> data_error + (rowChange \<times> 's))
    \<Rightarrow> 's \<Rightarrow> (data_error + rowChange) \<times> 's" where
  "rowTxRun commit settings fn s =
     (case fn s of
        Inl e \<Rightarrow> (Inl e, s)
      | Inr (ch, s') \<Rightarrow>
          (case commit s' of
             Some e \<Rightarrow> (Inl e, s)
           | None \<Rightarrow> (Inr (ch\<lparr>rc_session := settings\<rparr>), s')))"

definition insertRow :: "dialect \<Rightarrow> 's rowTx \<Rightarrow> ('s \<Rightarrow> data_error option) \<Rightarrow> (string, string) fmap \<Rightarrow> tableMeta
    \<Rightarrow> rowvalues \<Rightarrow> 's \<Rightarrow> (data_error + rowChange) \<times> 's" where
  "insertRow d tx commit settings m values = rowTxRun commit settings (changeRow d tx m ''insert'' fmempty values)"

definition updateRow :: "dialect \<Rightarrow> 's rowTx \<Rightarrow> ('s \<Rightarrow> data_error option) \<Rightarrow> (string, string) fmap \<Rightarrow> tableMeta
    \<Rightarrow> rowvalues \<Rightarrow> rowvalues \<Rightarrow> 's \<Rightarrow> (data_error + rowChange) \<times> 's" where
  "updateRow d tx commit settings m key values = rowTxRun commit settings (changeRow d tx m ''update'' key values)"

definition deleteRow :: "dialect \<Rightarrow> 's rowTx \<Rightarrow> ('s \<Rightarrow> data_error option) \<Rightarrow> (string, string) fmap \<Rightarrow> tableMeta
    \<Rightarrow> rowvalues \<Rightarrow> 's \<Rightarrow> (data_error + rowChange) \<times> 's" where
  "deleteRow d tx commit settings m key = rowTxRun commit settings (changeRow d tx m ''delete'' key fmempty)"

definition applyRowImage :: "dialect \<Rightarrow> 's rowTx \<Rightarrow> ('s \<Rightarrow> data_error option) \<Rightarrow> (string, string) fmap \<Rightarrow> tableMeta
    \<Rightarrow> applyRequest \<Rightarrow> 's \<Rightarrow> (data_error + rowChange) \<times> 's" where
  "applyRowImage d tx commit settings m req = rowTxRun commit settings (applyRow d tx m req)"

subsection \<open>Preview samples\<close>

text \<open>\<open>newSample\<close> and \<open>previewAfter\<close> of \<open>preview.go\<close>; \<open>stringifyCell\<close> truncates a value to 1024 bytes for
  display and is given as \<open>cell\<close>.\<close>

record previewRow =
  pr_before :: "string option list"
  pr_after :: "string option list option"

record previewSample =
  ps_table :: string
  ps_key :: "string list"
  ps_columns :: "string list"
  ps_rows :: "previewRow list"
  ps_truncated :: bool

definition valuesIn :: "tableMeta \<Rightarrow> rowvalues \<Rightarrow> string option list" where
  "valuesIn m v = map (\<lambda>c. valueOf v (co_name c)) (tm_columns m)"

definition newSample :: "dmlTarget \<Rightarrow> tableMeta \<Rightarrow> rowvalues list \<Rightarrow> previewSample \<times> rowvalues list" where
  "newSample t m before =
     (let s = \<lparr>ps_table = joinStr ''.'' (t_parts t), ps_key = tm_key m, ps_columns = map co_name (tm_columns m),
               ps_rows = [], ps_truncated = False\<rparr>
      in if length before > 20 then (s\<lparr>ps_truncated := True\<rparr>, take 20 before) else (s, before))"

fun previewAfter :: "(string option \<Rightarrow> string option) \<Rightarrow> previewSample \<Rightarrow> tableMeta \<Rightarrow> rowvalues list
    \<Rightarrow> (rowvalues \<Rightarrow> data_error + rowvalues option) \<Rightarrow> data_error + previewSample" where
  "previewAfter cell s m [] rd = Inr s"
| "previewAfter cell s m (b # bs) rd =
     ebind (case keyOf m b of None \<Rightarrow> Inr None | Some key \<Rightarrow> rd key) (\<lambda>after.
       previewAfter cell
         (s\<lparr>ps_rows := ps_rows s @ [\<lparr>pr_before = map cell (valuesIn m b),
                                   pr_after = map_option (\<lambda>a. map cell (valuesIn m a)) after\<rparr>]\<rparr>) m bs rd)"

subsection \<open>An edit changes exactly one row\<close>

lemma exactlyOne_None [simp]: "exactlyOne n = None \<longleftrightarrow> n = 1"
  by (simp add: exactlyOne_def)

definition wroteOne :: "dialect \<Rightarrow> 's rowTx \<Rightarrow> tableMeta \<Rightarrow> string \<Rightarrow> rowvalues \<Rightarrow> rowvalues \<Rightarrow> 's \<Rightarrow> 's \<Rightarrow> bool" where
  "wroteOne d tx m op key values s s' \<longleftrightarrow>
     (if op = ''insert'' then
        \<exists>q as k. insertSQL d m values = Inr (q, as) \<and> tx_insert tx m q as s = Inr (1, k, s')
      else if op = ''update'' then
        \<exists>q as. updateSQL d m key values = Inr (q, as) \<and> tx_exec tx q as s = Inr (1, s')
      else op = ''delete'' \<and>
        (\<exists>q as. deleteSQL d m key = Inr (q, as) \<and> tx_exec tx q as s = Inr (1, s')))"

lemma writeRow_ok:
  assumes "writeRow d tx m op key values s = Inr (k, before, s')"
  shows "wroteOne d tx m op key values s s'
    \<and> (if op = ''insert'' then before = None
       else \<exists>r. tx_read tx m key True s = Inr (Some r)
              \<and> before = Some (if op = ''update'' then pick m r values else r))"
proof -
  consider (insert) "op = ''insert''" | (update) "op = ''update''" | (delete) "op = ''delete''"
    using assms by (force simp: writeRow_def result_simps split: if_splits)
  then show ?thesis
  proof cases
    case insert
    with assms show ?thesis
      by (fastforce simp: writeRow_def wroteOne_def result_simps split: option.splits)
  next
    case update
    with assms show ?thesis
      by (fastforce simp: writeRow_def wroteOne_def result_simps valuesOf_def split: option.splits)
  next
    case delete
    with assms show ?thesis
      by (fastforce simp: writeRow_def wroteOne_def result_simps valuesOf_def split: option.splits)
  qed
qed

lemma changeRow_ok:
  assumes "changeRow d tx m op key values s = Inr (ch, s')"
  shows "\<exists>k before. writeRow d tx m op key values s = Inr (k, before, s') \<and> rc_op ch = op \<and> rc_before ch = before"
proof (cases "writeRow d tx m op key values s")
  case (Inl e)
  with assms show ?thesis by (simp add: changeRow_def)
next
  case (Inr r)
  obtain k before s1 where r: "r = (k, before, s1)" by (cases r)
  have "s1 = s' \<and> rc_op ch = op \<and> rc_before ch = before"
  proof (cases "op = ''delete'' \<or> k = None")
    case True
    then show ?thesis using assms by (auto simp: changeRow_def Inr r Let_def newChange_def split: if_splits)
  next
    case False
    then obtain key' where "k = Some key'" "op \<noteq> ''delete''" by blast
    with assms obtain a where "tx_read tx m key' False s1 = Inr a"
      by (auto simp: changeRow_def Inr r Let_def result_simps)
    with assms \<open>k = _\<close> \<open>op \<noteq> _\<close> show ?thesis
      by (cases a) (auto simp: changeRow_def Inr r Let_def newChange_def)
  qed
  with Inr r show ?thesis by blast
qed

text \<open>C3. A data-browser edit changes exactly one row or nothing.  When it fails, in a statement, in the
  check of the affected rows or at the commit, the database is as it was.  When it succeeds, the
  statement built for that key and those values affected exactly one row, it was committed, and
  the before image is the row as it was read under the lock (for an update its set and key
  columns).\<close>

theorem edit_changes_one_row:
  "case rowTxRun commit settings (changeRow d tx m op key values) s of
     (Inl e, s') \<Rightarrow> s' = s
   | (Inr ch, s') \<Rightarrow> commit s' = None \<and> rc_op ch = op \<and> wroteOne d tx m op key values s s'
       \<and> (if op = ''insert'' then rc_before ch = None
          else \<exists>r. tx_read tx m key True s = Inr (Some r)
                 \<and> rc_before ch = Some (if op = ''update'' then pick m r values else r))"
proof (cases "changeRow d tx m op key values s")
  case (Inl e)
  then show ?thesis by (simp add: rowTxRun_def)
next
  case (Inr r)
  obtain ch s' where r: "r = (ch, s')" by (cases r)
  from changeRow_ok [OF Inr [unfolded r]] obtain k where
    w: "writeRow d tx m op key values s = Inr (k, rc_before ch, s')" and op: "rc_op ch = op" by blast
  show ?thesis
    using writeRow_ok [OF w] op unfolding rowTxRun_def Inr r by (cases "commit s'") simp_all
qed

text \<open>Applying an image writes only after its check has passed on the row read under the lock, and
  then executes the statement of the plan, which affected exactly one row; when the row already
  is as wanted nothing is executed.  Any failure leaves the database as it was.\<close>

theorem apply_guarded:
  "case applyRowImage d tx commit settings m req s of
     (Inl e, s') \<Rightarrow> s' = s
   | (Inr ch, s') \<Rightarrow>
       (\<exists>current plan. tx_read tx m (aq_key req) True s = Inr current
          \<and> (case aq_check req of None \<Rightarrow> True | Some chk \<Rightarrow> chk current = None)
          \<and> planApply d m (aq_key req) current (aq_want req) = Inr plan
          \<and> rc_op ch = ap_op plan
          \<and> (if ap_op plan = [] then s' = s
             else if ap_op plan = ''insert'' then
               \<exists>k. tx_insert tx m (ap_sql plan) (ap_args plan) s = Inr (1, k, s')
             else tx_exec tx (ap_sql plan) (ap_args plan) s = Inr (1, s')))"
proof (cases "applyRow d tx m req s")
  case (Inl e)
  then show ?thesis by (simp add: applyRowImage_def rowTxRun_def)
next
  case (Inr r)
  obtain ch s' where r: "r = (ch, s')" by (cases r)
  obtain current where cur: "tx_read tx m (aq_key req) True s = Inr current"
    and chk: "(case aq_check req of None \<Rightarrow> None | Some chk \<Rightarrow> chk current) = None"
    using Inr r by (auto simp: applyRow_def result_simps split: option.splits)
  obtain plan where plan: "planApply d m (aq_key req) current (aq_want req) = Inr plan"
    using Inr r cur chk by (auto simp: applyRow_def result_simps)
  note unf = applyRow_def cur chk plan ebind.simps option.case
  have op: "ap_op plan \<in> {[], ''delete'', ''insert'', ''update''}"
    using plan by (auto simp: planApply_def noPlan_def result_simps Let_def split: if_splits option.splits prod.splits)
  have main: "rc_op ch = ap_op plan \<and> (if ap_op plan = [] then s' = s
             else if ap_op plan = ''insert'' then
               \<exists>k. tx_insert tx m (ap_sql plan) (ap_args plan) s = Inr (1, k, s')
             else tx_exec tx (ap_sql plan) (ap_args plan) s = Inr (1, s'))"
  proof (cases "ap_op plan = []")
    case True
    then show ?thesis using Inr r by (auto simp: unf newChange_def result_simps)
  next
    case False
    then obtain k where k: "runPlan tx m (aq_key req) plan s = Inr (k, s')"
      using Inr r op by (auto simp: unf result_simps Let_def split: if_splits)
    have "rc_op ch = ap_op plan"
      using Inr r op False k by (auto simp: unf result_simps Let_def newChange_def split: if_splits)
    then show ?thesis
      using k False by (auto simp: runPlan_def result_simps split: if_splits option.splits)
  qed
  have "case aq_check req of None \<Rightarrow> True | Some f \<Rightarrow> f current = None" using chk by (cases "aq_check req") simp_all
  with main cur plan have "\<exists>current plan. tx_read tx m (aq_key req) True s = Inr current
      \<and> (case aq_check req of None \<Rightarrow> True | Some f \<Rightarrow> f current = None)
      \<and> planApply d m (aq_key req) current (aq_want req) = Inr plan
      \<and> rc_op (ch\<lparr>rc_session := settings\<rparr>) = ap_op plan
      \<and> (if ap_op plan = [] then s' = s
         else if ap_op plan = ''insert'' then \<exists>k. tx_insert tx m (ap_sql plan) (ap_args plan) s = Inr (1, k, s')
         else tx_exec tx (ap_sql plan) (ap_args plan) s = Inr (1, s'))"
    by (intro exI [of _ current] exI [of _ plan]) simp
  then show ?thesis
    unfolding applyRowImage_def rowTxRun_def Inr r by (cases "commit s'") simp_all
qed

subsection \<open>Undoing an update\<close>

lemma fmap_eq: "(\<And>c. fmlookup a c = fmlookup b c) \<Longrightarrow> a = b"
  by (rule fmap_ext)

lemma fcard_dom_0: "fcard (fmdom m) = 0 \<longleftrightarrow> m = fmempty"
proof
  assume "fcard (fmdom m) = 0"
  then have "fset (fmdom m) = {}" by (simp add: fcard.rep_eq)
  then show "m = fmempty" by (intro fmap_eq) (metis bot_fset.rep_eq fmdom_notI fmempty_lookup fmdom_notD empty_iff)
qed simp

text \<open>What a plan makes of a row: the written columns replace their values.\<close>

definition planned :: "applyPlan \<Rightarrow> rowvalues \<Rightarrow> rowvalues" where
  "planned plan current = overlay current (valuesOf (ap_written plan))"

lemma planApply_update:
  assumes "planApply d m key (Some current) (Some want) = Inr plan"
  shows "fmlookup (planned plan current) c =
    (case fmlookup want c of
       None \<Rightarrow> fmlookup current c
     | Some v \<Rightarrow> if co_generated (colOf m c) then fmlookup current c else Some v)"
proof -
  let ?w = "changedOf current (writableOf m want)"
  have "valuesOf (ap_written plan) = ?w"
  proof (cases "fcard (fmdom ?w) = 0")
    case True
    then show ?thesis using assms fcard_dom_0 [of ?w]
      by (auto simp: planApply_def valuesOf_def noPlan_def Let_def split: if_splits)
  next
    case False
    then show ?thesis using assms
      by (auto simp: planApply_def valuesOf_def Let_def result_simps split: if_splits)
  qed
  then show ?thesis
    by (auto simp: planned_def overlay_def changedOf_def writableOf_def intro: fmdomI split: option.splits)
qed



lemma pick_lookup: "fmlookup (pick m img cols) c =
    (if fmlookup cols c \<noteq> None \<or> c \<in> set (tm_key m) then fmlookup img c else None)"
  by (simp add: pick_def)




end
