(* ===== verification/Inventory.thy ===== *)
theory Inventory
  imports Prelude
begin

text \<open>
  The inventory of the control plane: database servers (\<open>domain/instance/instance.go\<close>) and the databases
  tracked on them (\<open>domain/database/database.go\<close>, \<open>infra/postgres/database_repository.go\<close>,
  \<open>database_repository_status.go\<close>, the status writes of \<open>instance_repository.go\<close>), with the
  reconciliation of the tracked databases with what a probe saw.  Rows are kept in insertion order and
  a deleted row stays with its flag set; the unique index on (server, name) of the live rows is the
  conflict of \<open>dbCreate\<close>.  Failures of the store itself (lost connections) are left out.
\<close>

subsection \<open>Instances\<close>

datatype engineName = EngineMariaDB | EngineMySQL | EnginePostgres

datatype engineFamily = FamilyMySQL | FamilyPostgres

fun engFamily :: "engineName \<Rightarrow> engineFamily" where
  "engFamily EnginePostgres = FamilyPostgres"
| "engFamily _ = FamilyMySQL"

fun defaultPort :: "engineName \<Rightarrow> int" where
  "defaultPort EnginePostgres = 5432"
| "defaultPort _ = 3306"

fun adminUser :: "engineName \<Rightarrow> string" where
  "adminUser EnginePostgres = ''postgres''"
| "adminUser _ = ''root''"

fun dumpTool :: "engineName \<Rightarrow> string" where
  "dumpTool EnginePostgres = ''pg_dump''"
| "dumpTool EngineMySQL = ''mysqldump''"
| "dumpTool EngineMariaDB = ''mariadb-dump''"

definition dumpFamily :: "string \<Rightarrow> engineFamily" where
  "dumpFamily tool = (if tool = ''pg_dump'' \<or> tool = ''postgres'' then FamilyPostgres else FamilyMySQL)"

lemma dumpFamily_dumpTool [simp]: "dumpFamily (dumpTool e) = engFamily e"
  by (cases e) (simp_all add: dumpFamily_def)

definition isSystemDatabase :: "engineName \<Rightarrow> string \<Rightarrow> bool" where
  "isSystemDatabase e name =
     (if e = EnginePostgres then name = ''postgres'' else name = ''mysql'' \<or> name = ''sys'')"

datatype instKind = KindManaged | KindExternal

datatype instStatus = InstProvisioning | InstRunning | InstStopped | InstError | InstDeleting

record inst =
  in_id :: uuid
  in_serverId :: "uuid option"
  in_name :: string
  in_engine :: engineName
  in_kind :: instKind
  in_port :: int
  in_username :: "string option"
  in_rootSecretRef :: "string option"
  in_containerId :: "string option"
  in_status :: instStatus
  in_deleted :: bool

definition hasCredentials :: "inst \<Rightarrow> bool" where
  "hasCredentials i \<longleftrightarrow> in_username i \<noteq> None \<and> in_username i \<noteq> Some [] \<and> in_rootSecretRef i \<noteq> None"

definition provisioned :: "inst \<Rightarrow> bool" where
  "provisioned i \<longleftrightarrow> in_kind i = KindManaged \<and> in_containerId i \<noteq> None \<and> in_containerId i \<noteq> Some []"

text \<open>\<open>executorFor\<close>: managed instances run on their server's agent, external ones on the control plane.\<close>

definition executorFor :: "inst \<Rightarrow> uuid option" where
  "executorFor i = (if in_kind i = KindManaged then in_serverId i else None)"

subsection \<open>Databases\<close>

datatype dbStatus = StCreating | StActive | StLocked | StMigrating | StDeleting | StError | StMissing

fun dbStatusValid :: "dbStatus \<Rightarrow> bool" where
  "dbStatusValid StMissing = False"
| "dbStatusValid _ = True"

record dbrow =
  dr_id :: uuid
  dr_instanceId :: uuid
  dr_name :: string
  dr_charset :: string
  dr_collation :: string
  dr_status :: dbStatus
  dr_system :: bool
  dr_sizeBytes :: int
  dr_connections :: int
  dr_lockedAt :: "int option"
  dr_lockedBy :: "uuid option"
  dr_missingSince :: "int option"
  dr_lastSeenAt :: "int option"
  dr_labels :: "(string \<times> string) list"
  dr_createdAt :: int
  dr_deletedAt :: "int option"
  dr_version :: nat

definition isHexLower :: "char \<Rightarrow> bool" where
  "isHexLower c \<longleftrightarrow> isDigitByte c \<or> (CHR ''a'' \<le> c \<and> c \<le> CHR ''f'')"

text \<open>\<open>scratchNameRe\<close>.\<close>

definition isScratchName :: "string \<Rightarrow> bool" where
  "isScratchName s \<longleftrightarrow> length s = 20 \<and> (take 4 s = ''fdv_'' \<or> take 4 s = ''fds_'') \<and> list_all isHexLower (drop 4 s)"

text \<open>\<open>ScratchName\<close>; \<open>idText\<close> is the printed UUID.\<close>

definition scratchName :: "string \<Rightarrow> string \<Rightarrow> string" where
  "scratchName pfx idText = pfx @ ''_'' @ take 16 (filter (\<lambda>c. c \<noteq> CHR ''-'') idText)"

definition nameByteOk :: "nat \<times> char \<Rightarrow> bool" where
  "nameByteOk p = (case p of (i, c) \<Rightarrow> isLowerByte c \<or> isUpperByte c \<or> isDigitByte c \<or> c = CHR ''_'' \<or> c = CHR ''$''
     \<or> (c = CHR ''-'' \<and> i > 0))"

definition ellipsis :: string where
  "ellipsis = [CHR 0xE2, CHR 0x80, CHR 0xA6]"

definition validateName :: "string \<Rightarrow> apperr option" where
  "validateName name =
     (if name = [] then Some (Invalid ''name'' ''name is required'')
      else if isScratchName name then Some (Invalid ''name''
        (''names like fdv_'' @ ellipsis @ '' and fds_'' @ ellipsis @ '' with 16 hex digits are reserved for Fleetdock's temporary backup restores''))
      else if length name > 64 then Some (Invalid ''name'' ''name must be at most 64 characters'')
      else if \<not> list_all nameByteOk (enumerate 0 name)
        then Some (Invalid ''name'' ''name may only contain letters, digits, '_', '$' and '-' (not first)'')
      else None)"

text \<open>\<open>NewDatabase\<close>; \<open>i\<close> is the fresh UUID.\<close>

definition newDatabase :: "uuid \<Rightarrow> uuid \<Rightarrow> string \<Rightarrow> string \<Rightarrow> string \<Rightarrow> (string \<times> string) list \<Rightarrow> apperr + dbrow" where
  "newDatabase i instanceId name charset collation labels =
     (case validateName (trimSpace name) of
        Some e \<Rightarrow> Inl e
      | None \<Rightarrow> Inr \<lparr>dr_id = i, dr_instanceId = instanceId, dr_name = trimSpace name,
          dr_charset = (if charset = [] then ''utf8mb4'' else charset),
          dr_collation = (if collation = [] then ''utf8mb4_unicode_ci'' else collation),
          dr_status = StActive, dr_system = False, dr_sizeBytes = 0, dr_connections = 0,
          dr_lockedAt = None, dr_lockedBy = None, dr_missingSince = None, dr_lastSeenAt = None,
          dr_labels = labels, dr_createdAt = 0, dr_deletedAt = None, dr_version = 0\<rparr>)"

subsection \<open>The repositories\<close>

record inventory =
  iv_instances :: "inst list"
  iv_databases :: "dbrow list"

definition instGet :: "uuid \<Rightarrow> 'a inventory_scheme \<Rightarrow> apperr + inst" where
  "instGet i v = (case List.find (\<lambda>x. in_id x = i \<and> \<not> in_deleted x) (iv_instances v) of
     None \<Rightarrow> Inl (NotFound ''instance not found'') | Some x \<Rightarrow> Inr x)"

definition instUpdate :: "uuid \<Rightarrow> (inst \<Rightarrow> inst) \<Rightarrow> 'a inventory_scheme \<Rightarrow> 'a inventory_scheme" where
  "instUpdate i f v =
     v\<lparr>iv_instances := map (\<lambda>x. if in_id x = i \<and> \<not> in_deleted x then f x else x) (iv_instances v)\<rparr>"

definition instSetStatus :: "uuid \<Rightarrow> instStatus \<Rightarrow> 'a inventory_scheme \<Rightarrow> apperr + 'a inventory_scheme" where
  "instSetStatus i st v =
     (if list_ex (\<lambda>x. in_id x = i \<and> \<not> in_deleted x) (iv_instances v)
      then Inr (instUpdate i (\<lambda>x. x\<lparr>in_status := st\<rparr>) v) else Inl (NotFound ''instance not found''))"

definition instSetContainerID :: "uuid \<Rightarrow> string \<Rightarrow> 'a inventory_scheme \<Rightarrow> 'a inventory_scheme" where
  "instSetContainerID i cid v = instUpdate i (\<lambda>x. x\<lparr>in_containerId := Some cid\<rparr>) v"

definition instSoftDelete :: "uuid \<Rightarrow> 'a inventory_scheme \<Rightarrow> apperr + 'a inventory_scheme" where
  "instSoftDelete i v =
     (if list_ex (\<lambda>x. in_id x = i \<and> \<not> in_deleted x) (iv_instances v)
      then Inr (instUpdate i (\<lambda>x. x\<lparr>in_deleted := True, in_status := InstDeleting\<rparr>) v)
      else Inl (NotFound ''instance not found''))"

definition dbLive :: "dbrow \<Rightarrow> bool" where
  "dbLive d \<longleftrightarrow> dr_deletedAt d = None"

definition dbNamed :: "uuid \<Rightarrow> string \<Rightarrow> dbrow \<Rightarrow> bool" where
  "dbNamed inst name d \<longleftrightarrow> dr_instanceId d = inst \<and> dr_name d = name"

definition dbCreate :: "int \<Rightarrow> dbrow \<Rightarrow> 'a inventory_scheme \<Rightarrow> apperr + 'a inventory_scheme" where
  "dbCreate now d v =
     (if list_ex (\<lambda>x. dbLive x \<and> dbNamed (dr_instanceId d) (dr_name d) x) (iv_databases v)
      then Inl (Conflict ''a database with this name already exists on the instance'')
      else if \<not> list_ex (\<lambda>i. in_id i = dr_instanceId d) (iv_instances v)
      then Inl (Invalid ''instance_id'' ''instance does not exist'')
      else Inr (v\<lparr>iv_databases := iv_databases v @ [d\<lparr>dr_createdAt := now\<rparr>]\<rparr>))"

definition dbGet :: "uuid \<Rightarrow> 'a inventory_scheme \<Rightarrow> apperr + dbrow" where
  "dbGet i v =
     (case List.find (\<lambda>d. dr_id d = i \<and> dbLive d
             \<and> list_ex (\<lambda>x. in_id x = dr_instanceId d \<and> \<not> in_deleted x) (iv_instances v)) (iv_databases v) of
        None \<Rightarrow> Inl (NotFound ''database not found'') | Some d \<Rightarrow> Inr d)"

definition dbUpdate :: "uuid \<Rightarrow> (dbrow \<Rightarrow> dbrow) \<Rightarrow> 'a inventory_scheme \<Rightarrow> apperr + 'a inventory_scheme" where
  "dbUpdate i f v =
     (if list_ex (\<lambda>d. dr_id d = i \<and> dbLive d) (iv_databases v)
      then Inr (v\<lparr>iv_databases := map (\<lambda>d. if dr_id d = i \<and> dbLive d
                   then (f d)\<lparr>dr_version := dr_version d + 1\<rparr> else d) (iv_databases v)\<rparr>)
      else Inl (NotFound ''database not found''))"

definition dbLock :: "int \<Rightarrow> uuid \<Rightarrow> uuid \<Rightarrow> 'a inventory_scheme \<Rightarrow> apperr + 'a inventory_scheme" where
  "dbLock now i user = dbUpdate i (\<lambda>d. d\<lparr>dr_status := StLocked, dr_lockedAt := Some now, dr_lockedBy := Some user\<rparr>)"

definition dbUnlock :: "uuid \<Rightarrow> 'a inventory_scheme \<Rightarrow> apperr + 'a inventory_scheme" where
  "dbUnlock i = dbUpdate i (\<lambda>d. d\<lparr>dr_status := StActive, dr_lockedAt := None, dr_lockedBy := None\<rparr>)"

definition dbSoftDelete :: "int \<Rightarrow> uuid \<Rightarrow> 'a inventory_scheme \<Rightarrow> apperr + 'a inventory_scheme" where
  "dbSoftDelete now i = dbUpdate i (\<lambda>d. d\<lparr>dr_status := StDeleting, dr_deletedAt := Some now\<rparr>)"

definition dbSetStatus :: "uuid \<Rightarrow> dbStatus \<Rightarrow> 'a inventory_scheme \<Rightarrow> apperr + 'a inventory_scheme" where
  "dbSetStatus i st = dbUpdate i (\<lambda>d. d\<lparr>dr_status := st\<rparr>)"

subsection \<open>Reconciliation\<close>

record observed =
  ob_name :: string
  ob_charset :: string
  ob_collation :: string
  ob_system :: bool
  ob_sizeBytes :: int
  ob_connections :: int

record reconcileResult =
  rr_added :: "string list"
  rr_missing :: "string list"
  rr_reappeared :: "string list"

definition secondNs :: int where "secondNs = 1000000000"

definition missingAfter :: int where "missingAfter = 180 * secondNs"

definition rediscoverAfter :: int where "rediscoverAfter = 7 * 24 * 3600 * secondNs"

definition recentlyRemoved :: "uuid \<Rightarrow> int \<Rightarrow> string \<Rightarrow> dbrow list \<Rightarrow> bool" where
  "recentlyRemoved inst now name ds \<longleftrightarrow>
     list_ex (\<lambda>d. dbNamed inst name d
       \<and> (case dr_deletedAt d of None \<Rightarrow> False | Some t \<Rightarrow> now - rediscoverAfter < t)) ds"

text \<open>The branch for a database seen for the first time, and the one for a tracked database.  \<open>nxt\<close> is
  the next fresh UUID.\<close>

definition discover :: "uuid \<Rightarrow> int \<Rightarrow> observed \<Rightarrow> uuid \<times> dbrow list \<times> reconcileResult \<Rightarrow> uuid \<times> dbrow list \<times> reconcileResult" where
  "discover inst now ob st = (case st of (nxt, ds, res) \<Rightarrow>
     if recentlyRemoved inst now (ob_name ob) ds then st
     else
       case newDatabase nxt inst (ob_name ob) (ob_charset ob) (ob_collation ob) [(''discovered'', ''true'')] of
         Inl _ \<Rightarrow> st
       | Inr d \<Rightarrow>
           (nxt + 1,
            (if list_ex (\<lambda>x. dbLive x \<and> dbNamed inst (dr_name d) x) ds then ds
             else ds @ [d\<lparr>dr_system := ob_system ob, dr_sizeBytes := ob_sizeBytes ob, dr_connections := ob_connections ob,
                          dr_lastSeenAt := Some now, dr_createdAt := now\<rparr>]),
            res\<lparr>rr_added := rr_added res @ [ob_name ob]\<rparr>))"

definition refresh :: "int \<Rightarrow> observed \<Rightarrow> dbrow \<Rightarrow> dbrow" where
  "refresh now ob d = d\<lparr>dr_sizeBytes := ob_sizeBytes ob, dr_connections := ob_connections ob, dr_lastSeenAt := Some now,
     dr_status := (if dr_status d = StMissing then StActive else dr_status d),
     dr_missingSince := (if dr_status d = StMissing then None else dr_missingSince d)\<rparr>"

definition reconcileOne :: "uuid \<Rightarrow> int \<Rightarrow> observed \<Rightarrow> uuid \<times> dbrow list \<times> reconcileResult
    \<Rightarrow> uuid \<times> dbrow list \<times> reconcileResult" where
  "reconcileOne inst now ob st = (case st of (nxt, ds, res) \<Rightarrow>
     case List.find (\<lambda>d. dbLive d \<and> dbNamed inst (ob_name ob) d) ds of
       None \<Rightarrow> discover inst now ob st
     | Some d \<Rightarrow>
         (nxt, map (\<lambda>x. if dr_id x = dr_id d then refresh now ob x else x) ds,
          (if dr_status d = StMissing then res\<lparr>rr_reappeared := rr_reappeared res @ [ob_name ob]\<rparr> else res)))"

definition goneMissing :: "uuid \<Rightarrow> int \<Rightarrow> string list \<Rightarrow> dbrow \<Rightarrow> bool" where
  "goneMissing inst now names d \<longleftrightarrow> dr_instanceId d = inst \<and> dbLive d \<and> dr_status d = StActive
     \<and> dr_name d \<notin> set names
     \<and> (case dr_lastSeenAt d of Some t \<Rightarrow> t | None \<Rightarrow> dr_createdAt d) < now - missingAfter"

definition markGone :: "uuid \<Rightarrow> int \<Rightarrow> string list \<Rightarrow> dbrow \<Rightarrow> dbrow" where
  "markGone inst now names d = (if goneMissing inst now names d
     then d\<lparr>dr_status := StMissing, dr_missingSince := Some now, dr_version := dr_version d + 1\<rparr> else d)"

definition reconcile :: "uuid \<Rightarrow> observed list \<Rightarrow> int \<Rightarrow> uuid \<Rightarrow> 'a inventory_scheme
    \<Rightarrow> reconcileResult \<times> uuid \<times> 'a inventory_scheme" where
  "reconcile inst seen now nxt v =
     (let (nxt', ds, res) = fold (reconcileOne inst now) seen
            (nxt, iv_databases v, \<lparr>rr_added = [], rr_missing = [], rr_reappeared = []\<rparr>);
          names = map ob_name seen
      in (res\<lparr>rr_missing := map dr_name (filter (goneMissing inst now names) ds)\<rparr>, nxt',
          v\<lparr>iv_databases := map (markGone inst now names) ds\<rparr>))"

subsection \<open>Well-formed inventories\<close>

definition dbKey :: "dbrow \<Rightarrow> uuid \<times> string" where
  "dbKey d = (dr_instanceId d, dr_name d)"

text \<open>No two live rows of a server share a name, and no row has the name of a temporary restore.\<close>

definition dbsOk :: "dbrow list \<Rightarrow> bool" where
  "dbsOk ds \<longleftrightarrow> distinct (map dbKey (filter dbLive ds)) \<and> (\<forall>d \<in> set ds. \<not> isScratchName (dr_name d))"

lemma dbsOk_Nil [simp]: "dbsOk []"
  by (simp add: dbsOk_def)

lemma dbNamed_key: "dbNamed i n d \<longleftrightarrow> dbKey d = (i, n)"
  by (auto simp: dbNamed_def dbKey_def)

lemma dbLive_upd [simp]:
  "dbLive (d\<lparr>dr_version := n\<rparr>) = dbLive d" "dbLive (d\<lparr>dr_status := s\<rparr>) = dbLive d"
  "dbLive (d\<lparr>dr_createdAt := t\<rparr>) = dbLive d" "dbLive (refresh now ob d) = dbLive d"
  by (simp_all add: dbLive_def refresh_def)

lemma markGone_simps [simp]:
  "dbKey (markGone inst now names d) = dbKey d" "dbLive (markGone inst now names d) = dbLive d"
  "dr_id (markGone inst now names d) = dr_id d" "dr_name (markGone inst now names d) = dr_name d"
  "dr_labels (markGone inst now names d) = dr_labels d" "dr_instanceId (markGone inst now names d) = dr_instanceId d"
  by (simp_all add: markGone_def dbKey_def dbLive_def)

lemma distinct_live_map:
  assumes "\<And>d. dbKey (f d) = dbKey d" "\<And>d. dbLive (f d) \<Longrightarrow> dbLive d"
    and "distinct (map dbKey (filter dbLive ds))"
  shows "distinct (map dbKey (filter dbLive (map f ds)))"
proof -
  have "subseq (map dbKey (filter dbLive (map f ds))) (map dbKey (filter dbLive ds))"
  proof (induction ds)
    case (Cons d ds)
    then show ?case
      by (cases "dbLive (f d)"; cases "dbLive d") (auto simp: assms(1) dest: assms(2))
  qed simp
  then show ?thesis using assms(3) by (metis subseq_conv_nths distinct_nthsI)
qed

lemma dbsOk_map:
  assumes "\<And>d. dbKey (f d) = dbKey d" "\<And>d. dbLive (f d) \<Longrightarrow> dbLive d" "dbsOk ds"
  shows "dbsOk (map f ds)"
proof -
  from assms(1) have "dr_name (f d) = dr_name d" for d by (simp add: dbKey_def)
  with distinct_live_map [of f ds] assms show ?thesis by (auto simp: dbsOk_def)
qed

lemma dbsOk_append:
  assumes "dbsOk ds" "\<not> list_ex (\<lambda>x. dbLive x \<and> dbNamed (dr_instanceId d) (dr_name d) x) ds"
    and "\<not> isScratchName (dr_name d)"
  shows "dbsOk (ds @ [d])"
  using assms by (auto simp: dbsOk_def dbNamed_def dbKey_def list_ex_iff)

lemma newDatabase_Inr:
  assumes "newDatabase i inst name cs co ls = Inr d"
  shows "dr_id d = i" "dr_instanceId d = inst" "dr_name d = trimSpace name" "dr_status d = StActive"
    "dr_deletedAt d = None" "\<not> isScratchName (dr_name d)" "dr_labels d = ls"
  using assms by (auto simp: newDatabase_def validateName_def split: option.splits if_splits)

lemma dbCreate_ok:
  assumes "dbCreate now d v = Inr v'" "dbsOk (iv_databases v)" "\<not> isScratchName (dr_name d)"
  shows "dbsOk (iv_databases v')"
proof -
  from assms(1) have nex: "\<not> list_ex (\<lambda>x. dbLive x \<and> dbNamed (dr_instanceId d) (dr_name d) x) (iv_databases v)"
    and v': "iv_databases v' = iv_databases v @ [d\<lparr>dr_createdAt := now\<rparr>]"
    by (auto simp: dbCreate_def split: if_splits)
  show ?thesis
    unfolding v' by (rule dbsOk_append) (use assms nex in simp_all)
qed

lemma dbUpdate_ok:
  assumes "dbUpdate i f v = Inr v'" "dbsOk (iv_databases v)"
    and "\<And>d. dbKey (f d) = dbKey d"
  shows "dbsOk (iv_databases v')"
proof -
  let ?g = "\<lambda>d. if dr_id d = i \<and> dbLive d then (f d)\<lparr>dr_version := dr_version d + 1\<rparr> else d"
  from assms(1) have v': "iv_databases v' = map ?g (iv_databases v)"
    by (auto simp: dbUpdate_def split: if_splits)
  have "dbKey (d\<lparr>dr_version := n\<rparr>) = dbKey d" for d n by (simp add: dbKey_def)
  then show ?thesis unfolding v' by (intro dbsOk_map) (use assms in \<open>auto split: if_splits\<close>)
qed

text \<open>What is relied on of a printed UUID: 32 lower-case hexadecimal digits, and dashes.\<close>

definition uuidText :: "string \<Rightarrow> bool" where
  "uuidText s \<longleftrightarrow> length (filter (\<lambda>c. c \<noteq> CHR ''-'') s) = 32 \<and> list_all isHexLower (filter (\<lambda>c. c \<noteq> CHR ''-'') s)"

lemma scratchName_reserved:
  assumes "uuidText s" "pfx = ''fdv'' \<or> pfx = ''fds''"
  shows "isScratchName (scratchName pfx s)"
  using assms by (auto simp: uuidText_def isScratchName_def scratchName_def list_all_iff dest!: in_set_takeD)

subsection \<open>What a reconciliation may change\<close>

text \<open>Everything of a row but its measurements and its status.\<close>

definition sameRow :: "dbrow \<Rightarrow> dbrow \<Rightarrow> bool" where
  "sameRow d d' \<longleftrightarrow> dr_id d' = dr_id d \<and> dbKey d' = dbKey d \<and> dr_charset d' = dr_charset d
     \<and> dr_collation d' = dr_collation d \<and> dr_system d' = dr_system d \<and> dr_lockedAt d' = dr_lockedAt d
     \<and> dr_lockedBy d' = dr_lockedBy d \<and> dr_labels d' = dr_labels d \<and> dr_createdAt d' = dr_createdAt d
     \<and> dr_deletedAt d' = dr_deletedAt d"

definition rowSeen :: "uuid \<Rightarrow> string list \<Rightarrow> dbrow \<Rightarrow> dbrow \<Rightarrow> bool" where
  "rowSeen inst names d d' \<longleftrightarrow> sameRow d d' \<and> (dr_instanceId d = inst \<and> dbLive d \<or> d' = d)
     \<and> (dr_status d' = dr_status d \<or> dr_status d = StMissing \<and> dr_status d' = StActive \<and> dr_name d \<in> set names)"

definition rowReconciled :: "uuid \<Rightarrow> string list \<Rightarrow> dbrow \<Rightarrow> dbrow \<Rightarrow> bool" where
  "rowReconciled inst names d d' \<longleftrightarrow> sameRow d d' \<and> (dr_instanceId d = inst \<and> dbLive d \<or> d' = d)
     \<and> (dr_status d' = dr_status d \<or> dr_status d = StMissing \<and> dr_status d' = StActive \<and> dr_name d \<in> set names
        \<or> dr_status d = StActive \<and> dr_status d' = StMissing \<and> dr_name d \<notin> set names)"

definition discoveredRow :: "uuid \<Rightarrow> string list \<Rightarrow> dbrow \<Rightarrow> bool" where
  "discoveredRow inst names d \<longleftrightarrow> dr_instanceId d = inst \<and> dbLive d \<and> \<not> isScratchName (dr_name d)
     \<and> dr_labels d = [(''discovered'', ''true'')] \<and> dr_name d \<in> trimSpace ` set names"

lemma sameRow_refl [simp]: "sameRow d d"
  by (simp add: sameRow_def)

lemma rowSeen_refl [simp]: "rowSeen inst names d d"
  by (simp add: rowSeen_def)

lemma rowSeen_trans: "rowSeen i ns a b \<Longrightarrow> rowSeen i ns b c \<Longrightarrow> rowSeen i ns a c"
  by (auto simp: rowSeen_def sameRow_def dbKey_def dbLive_def)

lemma rowSeen_refresh:
  assumes "dbLive d" "dbNamed inst (ob_name ob) d" "ob_name ob \<in> set names"
  shows "rowSeen inst names d (refresh now ob d)"
  using assms by (simp add: rowSeen_def sameRow_def refresh_def dbKey_def dbNamed_def)

lemma discoveredRow_seen: "discoveredRow i ns a \<Longrightarrow> rowSeen i ns a b \<Longrightarrow> discoveredRow i ns b"
  by (auto simp: discoveredRow_def rowSeen_def sameRow_def dbKey_def dbLive_def)

lemma all2_trans_rows: "list_all2 (rowSeen i ns) as bs \<Longrightarrow> list_all2 (rowSeen i ns) bs cs \<Longrightarrow> list_all2 (rowSeen i ns) as cs"
  by (rule list_all2_trans [OF rowSeen_trans])

text \<open>The state of the loop over what the probe saw, started at \<open>ds\<close>.\<close>

definition reconciling :: "uuid \<Rightarrow> string list \<Rightarrow> dbrow list \<Rightarrow> uuid \<times> dbrow list \<times> reconcileResult \<Rightarrow> bool" where
  "reconciling inst names ds st = (case st of (nxt, cur, res) \<Rightarrow>
     distinct (map dr_id cur) \<and> (\<forall>d \<in> set cur. dr_id d < nxt) \<and> (dbsOk ds \<longrightarrow> dbsOk cur)
     \<and> (\<exists>old new. cur = old @ new \<and> list_all2 (rowSeen inst names) ds old \<and> list_all (discoveredRow inst names) new))"

lemma reconcilingI:
  assumes "cur = old @ new" "list_all2 (rowSeen inst names) ds old" "list_all (discoveredRow inst names) new"
    and "distinct (map dr_id cur)" "\<forall>d \<in> set cur. dr_id d < nxt" "dbsOk ds \<Longrightarrow> dbsOk cur"
  shows "reconciling inst names ds (nxt, cur, res)"
  using assms by (auto simp: reconciling_def)

lemma reconciling_refresh:
  assumes st: "reconciling inst names ds (nxt, cur, res)" and ob: "ob_name ob \<in> set names"
    and d: "d \<in> set cur" "dbLive d" "dbNamed inst (ob_name ob) d"
  shows "reconciling inst names ds (nxt, map (\<lambda>x. if dr_id x = dr_id d then refresh now ob x else x) cur, res')"
proof -
  let ?f = "\<lambda>x. if dr_id x = dr_id d then refresh now ob x else x"
  from st obtain old new where cur: "cur = old @ new" and old: "list_all2 (rowSeen inst names) ds old"
    and new: "list_all (discoveredRow inst names) new" and ids: "distinct (map dr_id cur)" "\<forall>x \<in> set cur. dr_id x < nxt"
    and ok: "dbsOk ds \<longrightarrow> dbsOk cur" unfolding reconciling_def by auto
  have seen: "rowSeen inst names x (?f x)" if "x \<in> set cur" for x
    using ids(1) d(1) that rowSeen_refresh [OF d(2,3) ob, of now] by (auto dest: inj_on_contraD simp: distinct_map inj_on_def)
  have "list_all2 (rowSeen inst names) old (map ?f old)"
    using seen cur by (simp add: list_all2_conv_all_nth)
  with old have "list_all2 (rowSeen inst names) ds (map ?f old)" by (rule all2_trans_rows)
  moreover have "list_all (discoveredRow inst names) (map ?f new)"
    using new seen cur discoveredRow_seen by (fastforce simp: list_all_iff)
  moreover have "dbKey (?f x) = dbKey x" "dbLive (?f x) \<Longrightarrow> dbLive x" for x
    by (simp_all add: refresh_def dbKey_def dbLive_def split: if_splits)
  then have "dbsOk cur \<Longrightarrow> dbsOk (map ?f cur)" by (rule dbsOk_map)
  moreover have "map dr_id (map ?f cur) = map dr_id cur" by (simp add: refresh_def)
  moreover have "\<forall>x \<in> set (map ?f cur). dr_id x < nxt" using ids(2) by (auto simp: refresh_def)
  ultimately show ?thesis
    using ids ok cur by (intro reconcilingI [of _ "map ?f old" "map ?f new"]) (simp_all only: map_append)
qed

lemma reconciling_discover:
  assumes st: "reconciling inst names ds (nxt, cur, res)" and ob: "ob_name ob \<in> set names"
  shows "reconciling inst names ds (discover inst now ob (nxt, cur, res))"
proof (cases "recentlyRemoved inst now (ob_name ob) cur")
  case True
  with st show ?thesis by (simp add: discover_def)
next
  case False
  show ?thesis
  proof (cases "newDatabase nxt inst (ob_name ob) (ob_charset ob) (ob_collation ob) [(''discovered'', ''true'')]")
    case (Inl e)
    with False st show ?thesis by (simp add: discover_def)
  next
    case (Inr d)
    note nd = newDatabase_Inr [OF Inr]
    let ?d = "d\<lparr>dr_system := ob_system ob, dr_sizeBytes := ob_sizeBytes ob, dr_connections := ob_connections ob,
                dr_lastSeenAt := Some now, dr_createdAt := now\<rparr>"
    from st obtain old new where cur: "cur = old @ new" and old: "list_all2 (rowSeen inst names) ds old"
      and new: "list_all (discoveredRow inst names) new" and ids: "distinct (map dr_id cur)" "\<forall>x \<in> set cur. dr_id x < nxt"
      and ok: "dbsOk ds \<longrightarrow> dbsOk cur" unfolding reconciling_def by auto
    show ?thesis
    proof (cases "list_ex (\<lambda>x. dbLive x \<and> dbNamed inst (dr_name d) x) cur")
      case True
      with False Inr ids ok cur old new show ?thesis
        by (auto simp: discover_def reconciling_def less_Suc_eq)
    next
      case nex: False
      have "dbsOk cur \<Longrightarrow> dbsOk (cur @ [?d])" by (rule dbsOk_append) (use nex nd in simp_all)
      moreover have "discoveredRow inst names ?d" using nd ob by (auto simp: discoveredRow_def dbLive_def)
      then have "list_all (discoveredRow inst names) (new @ [?d])" using new by simp
      moreover have "distinct (map dr_id (cur @ [?d]))" "\<forall>x \<in> set (cur @ [?d]). dr_id x < nxt + 1"
        using ids nd(1) by (auto simp: less_Suc_eq)
      ultimately have "reconciling inst names ds (nxt + 1, cur @ [?d], res')" for res'
        using ok cur old by (intro reconcilingI [of _ old "new @ [?d]"]) simp_all
      then show ?thesis using False Inr nex by (simp add: discover_def)
    qed
  qed
qed

lemma reconciling_one:
  assumes "reconciling inst names ds st" "ob_name ob \<in> set names"
  shows "reconciling inst names ds (reconcileOne inst now ob st)"
proof -
  obtain nxt cur res where st: "st = (nxt, cur, res)" by (cases st) auto
  show ?thesis
  proof (cases "List.find (\<lambda>d. dbLive d \<and> dbNamed inst (ob_name ob) d) cur")
    case None
    with assms show ?thesis by (simp add: st reconcileOne_def reconciling_discover)
  next
    case (Some d)
    then have "d \<in> set cur" "dbLive d" "dbNamed inst (ob_name ob) d"
      by (auto simp: find_Some_iff)
    from reconciling_refresh [OF assms(1) [unfolded st] assms(2) this] Some show ?thesis
      by (simp add: st reconcileOne_def)
  qed
qed

lemma reconciling_fold:
  "reconciling inst names ds st \<Longrightarrow> \<forall>ob \<in> set obs. ob_name ob \<in> set names
    \<Longrightarrow> reconciling inst names ds (fold (reconcileOne inst now) obs st)"
proof (induction obs arbitrary: st)
  case (Cons ob obs)
  then have "reconciling inst names ds (reconcileOne inst now ob st)" by (intro reconciling_one) simp_all
  then show ?case using Cons.IH Cons.prems(2) by simp
qed simp

lemma gone_reconciled:
  assumes "rowSeen inst names d d'"
  shows "rowReconciled inst names d
(markGone inst now names d')"
  using assms
  by (auto simp: markGone_def rowReconciled_def rowSeen_def sameRow_def goneMissing_def dbKey_def dbLive_def)

lemma reconcile_state:
  assumes "reconcile inst obs now nxt v = (res, nxt', v')"
  obtains cur r where "fold (reconcileOne inst now) obs
      (nxt, iv_databases v, \<lparr>rr_added = [], rr_missing = [], rr_reappeared = []\<rparr>) = (nxt', cur, r)"
    and "v' = v\<lparr>iv_databases := map (markGone inst now (map ob_name obs)) cur\<rparr>"
  using assms by (auto simp: reconcile_def Let_def split: prod.splits)

lemma reconcile_reconciling:
  assumes "distinct (map dr_id (iv_databases v))" "\<forall>d \<in> set (iv_databases v). dr_id d < nxt"
    and "reconcile inst obs now nxt v = (res, nxt', v')"
  obtains cur r where "reconciling inst (map ob_name obs) (iv_databases v) (nxt', cur, r)"
    and "v' = v\<lparr>iv_databases := map (markGone inst now (map ob_name obs)) cur\<rparr>"
proof -
  from assms(3) obtain cur r where f: "fold (reconcileOne inst now) obs
      (nxt, iv_databases v, \<lparr>rr_added = [], rr_missing = [], rr_reappeared = []\<rparr>) = (nxt', cur, r)"
    and v': "v' = v\<lparr>iv_databases := map (markGone inst now (map ob_name obs)) cur\<rparr>"
    by (rule reconcile_state)
  have "reconciling inst (map ob_name obs) (iv_databases v)
      (nxt, iv_databases v, \<lparr>rr_added = [], rr_missing = [], rr_reappeared = []\<rparr>)"
    using assms(1,2) by (intro reconcilingI [of _ "iv_databases v" "[]"]) (simp_all add: list_all2_refl)
  from reconciling_fold [OF this, of obs now] f v' that show thesis by simp
qed

lemma reconcile_ok:
  assumes "distinct (map dr_id (iv_databases v))" "\<forall>d \<in> set (iv_databases v). dr_id d < nxt"
    and "reconcile inst obs now nxt v = (res, nxt', v')" "dbsOk (iv_databases v)"
  shows "dbsOk (iv_databases v') \<and> distinct (map dr_id (iv_databases v')) \<and> (\<forall>d \<in> set (iv_databases v'). dr_id d < nxt')"
proof -
  from assms(1-3) obtain cur r where rc: "reconciling inst (map ob_name obs) (iv_databases v) (nxt', cur, r)"
    and v': "v' = v\<lparr>iv_databases := map (markGone inst now (map ob_name obs)) cur\<rparr>"
    by (rule reconcile_reconciling)
  let ?g = "markGone inst now (map ob_name obs)"
  have cur: "distinct (map dr_id cur)" "\<forall>d \<in> set cur. dr_id d < nxt'" "dbsOk cur"
    using rc assms(4) by (auto simp: reconciling_def)
  have "dbsOk (map ?g cur)" by (rule dbsOk_map) (simp_all add: cur(3))
  moreover have "distinct (map dr_id (map ?g cur))" using cur(1) by (simp add: o_def)
  moreover have "\<forall>d \<in> set (map ?g cur). dr_id d < nxt'" using cur(2) by auto
  ultimately show ?thesis unfolding v' by simp
qed

text \<open>C7. A reconciliation never deletes a row and never touches another server's: every row keeps its
  identity, its lock and its deletion mark, its status changes only from missing to active when the
  database was seen and from active to missing when it was not, and what is added are rows of this
  server for names that were seen, never one of a temporary restore.\<close>

theorem reconcile_safe:
  assumes ids: "distinct (map dr_id (iv_databases v))" "\<forall>d \<in> set (iv_databases v). dr_id d < nxt"
    and "reconcile inst obs now nxt v = (res, nxt', v')"
  shows "iv_instances v' = iv_instances v
    \<and> (\<exists>old new. iv_databases v' = old @ new
         \<and> list_all2 (rowReconciled inst (map ob_name obs)) (iv_databases v) old
         \<and> list_all (discoveredRow inst (map ob_name obs)) new)"
proof -
  from assms obtain cur r where rc: "reconciling inst (map ob_name obs) (iv_databases v) (nxt', cur, r)"
    and v': "v' = v\<lparr>iv_databases := map (markGone inst now (map ob_name obs)) cur\<rparr>"
    by (rule reconcile_reconciling)
  let ?g = "markGone inst now (map ob_name obs)"
  from rc obtain old new where cur: "cur = old @ new"
    and old: "list_all2 (rowSeen inst (map ob_name obs)) (iv_databases v) old"
    and new: "list_all (discoveredRow inst (map ob_name obs)) new" by (auto simp: reconciling_def)
  from old have "list_all2 (rowReconciled inst (map ob_name obs)) (iv_databases v) (map ?g old)"
    unfolding list_all2_map2 by (rule list_all2_mono) (rule gone_reconciled)
  moreover have "discoveredRow inst (map ob_name obs) (?g d) = discoveredRow inst (map ob_name obs) d" for d
    by (simp add: discoveredRow_def)
  then have "list_all (discoveredRow inst (map ob_name obs)) (map ?g new)"
    using new by (simp only: list.pred_map o_def)
  moreover have "iv_databases v' = map ?g old @ map ?g new" by (simp add: v' cur)
  ultimately show ?thesis by (auto simp: v' simp del: list_all2_map2)
qed

definition exObserved :: "string \<Rightarrow> observed" where
  "exObserved n = \<lparr>ob_name = n, ob_charset = [], ob_collation = [], ob_system = False, ob_sizeBytes = 1, ob_connections = 0\<rparr>"

definition exInventory :: inventory where
  "exInventory = \<lparr>iv_instances = [], iv_databases =
     [\<lparr>dr_id = 1, dr_instanceId = 9, dr_name = ''shop'', dr_charset = [], dr_collation = [], dr_status = StMissing,
       dr_system = False, dr_sizeBytes = 0, dr_connections = 0, dr_lockedAt = None, dr_lockedBy = None,
       dr_missingSince = Some 5, dr_lastSeenAt = Some 5, dr_labels = [], dr_createdAt = 0, dr_deletedAt = None,
       dr_version = 0\<rparr>]\<rparr>"

lemma reconcile_safe_witness:
  "\<exists>old new. iv_databases (snd (snd (reconcile 9 [exObserved ''shop'', exObserved ''crm''] 7 2 exInventory))) = old @ new
     \<and> list_all2 (rowReconciled 9 [''shop'', ''crm'']) (iv_databases exInventory) old
     \<and> list_all (discoveredRow 9 [''shop'', ''crm'']) new"
proof -
  obtain res nxt' v' where r: "reconcile 9 [exObserved ''shop'', exObserved ''crm''] 7 2 exInventory = (res, nxt', v')"
    by (cases "reconcile 9 [exObserved ''shop'', exObserved ''crm''] 7 2 exInventory") auto
  have "distinct (map dr_id (iv_databases exInventory))" "\<forall>d \<in> set (iv_databases exInventory). dr_id d < 2"
    by (simp_all add: exInventory_def)
  from reconcile_safe [OF this r] show ?thesis unfolding r by (simp add: exObserved_def)
qed

end
