(* ===== verification/Journal.thy ===== *)
theory Journal
  imports RowImage Inventory
begin

text \<open>
  The change journal behind the data browser's undo: the entries of \<open>domain/rowchange\<close>, their
  repository \<open>infra/postgres/rowchange_repository.go\<close>, and the service of \<open>app/dbadmin/changes.go\<close>
  that records an edit and undoes it, with the part of \<open>app/dbadmin/service.go\<close> (\<open>scoped\<close>,
  \<open>retryManaged\<close>) every edit goes through.  The state is the database edited (\<open>'s\<close>) and the journal
  table; the failures of the journal's own database are given by \<open>faults\<close>.
\<close>

subsection \<open>Entries\<close>

record jchange =
  jc_id :: uuid
  jc_databaseId :: uuid
  jc_table :: string
  jc_op :: string
  jc_key :: "rowvalues option"
  jc_before :: "rowvalues option"
  jc_after :: "rowvalues option"
  jc_columns :: "string list"
  jc_session :: "(string, string) fmap"
  jc_undoable :: bool
  jc_note :: string
  jc_batchId :: "uuid option"
  jc_source :: string
  jc_userId :: "uuid option"
  jc_undoOf :: "uuid option"
  jc_undoneAt :: "int option"
  jc_undoneBy :: "uuid option"
  jc_createdAt :: int

definition maxEntryBytes :: nat where "maxEntryBytes = 256 * 1024"

definition maxBatchUndo :: nat where "maxBatchUndo = 200"

definition tooLargeNote :: string where
  "tooLargeNote = ''the row is too large to keep a copy of, so this change cannot be undone''"

text \<open>\<open>sz\<close> is the length of an image's JSON encoding.\<close>

definition fromEngine :: "(rowvalues option \<Rightarrow> nat) \<Rightarrow> uuid \<Rightarrow> string \<Rightarrow> string \<Rightarrow> rowChange \<Rightarrow> jchange" where
  "fromEngine sz databaseId table source ch =
     (let c = \<lparr>jc_id = 0, jc_databaseId = databaseId, jc_table = table, jc_op = rc_op ch,
               jc_key = rc_key ch, jc_before = rc_before ch, jc_after = rc_after ch,
               jc_columns = rc_columns ch, jc_session = rc_session ch, jc_undoable = rc_undoable ch,
               jc_note = rc_note ch, jc_batchId = None, jc_source = source, jc_userId = None,
               jc_undoOf = None, jc_undoneAt = None, jc_undoneBy = None, jc_createdAt = 0\<rparr>
      in if sz (jc_key c) + sz (jc_before c) + sz (jc_after c) > maxEntryBytes
         then c\<lparr>jc_before := None, jc_after := None, jc_undoable := False, jc_note := tooLargeNote\<rparr>
         else c)"

subsection \<open>The repository\<close>

record faults =
  fl_add :: "apperr option"
  fl_get :: "apperr option"
  fl_list :: "apperr option"
  fl_claim :: "apperr option"
  fl_release :: "apperr option"

text \<open>The \<open>row_changes\<close> table is a list in order of creation; \<open>fresh\<close> is the id the database generates.\<close>

definition addChange :: "faults \<Rightarrow> uuid \<Rightarrow> int \<Rightarrow> jchange \<Rightarrow> jchange list \<Rightarrow> apperr + (jchange \<times> jchange list)" where
  "addChange fl fresh now c j =
     (case fl_add fl of
        Some e \<Rightarrow> Inl e
      | None \<Rightarrow> (let c' = c\<lparr>jc_id := fresh, jc_createdAt := now\<rparr> in Inr (c', j @ [c'])))"

definition getChange :: "faults \<Rightarrow> uuid \<Rightarrow> jchange list \<Rightarrow> apperr + jchange" where
  "getChange fl i j =
     (case fl_get fl of
        Some e \<Rightarrow> Inl e
      | None \<Rightarrow> (case List.find (\<lambda>c. jc_id c = i) j of
                   None \<Rightarrow> Inl (NotFound ''change not found'') | Some c \<Rightarrow> Inr c))"

record listFilter =
  lf_databaseId :: uuid
  lf_table :: string
  lf_batchId :: "uuid option"
  lf_before :: "int option"
  lf_limit :: int

definition matchesFilter :: "listFilter \<Rightarrow> jchange \<Rightarrow> bool" where
  "matchesFilter f c \<longleftrightarrow> jc_databaseId c = lf_databaseId f
     \<and> (lf_table f = [] \<or> jc_table c = lf_table f)
     \<and> (lf_batchId f = None \<or> jc_batchId c = lf_batchId f)
     \<and> (case lf_before f of None \<Rightarrow> True | Some t \<Rightarrow> jc_createdAt c < t)"

text \<open>\<open>ORDER BY created_at DESC, id DESC LIMIT n\<close>.\<close>

definition newestFirst :: "jchange list \<Rightarrow> jchange list" where
  "newestFirst cs = rev (sort_key jc_createdAt (sort_key jc_id cs))"

definition listLimit :: "int \<Rightarrow> nat" where
  "listLimit n = (if n \<le> 0 \<or> n > int maxBatchUndo then 50 else nat n)"

definition listChanges :: "faults \<Rightarrow> listFilter \<Rightarrow> jchange list \<Rightarrow> apperr + jchange list" where
  "listChanges fl f j =
     (case fl_list fl of
        Some e \<Rightarrow> Inl e
      | None \<Rightarrow> Inr (take (listLimit (lf_limit f)) (newestFirst (filter (matchesFilter f) j))))"

definition claimable :: "uuid \<Rightarrow> jchange \<Rightarrow> bool" where
  "claimable i c \<longleftrightarrow> jc_id c = i \<and> jc_undoneAt c = None \<and> jc_undoable c"

definition claimUndo :: "faults \<Rightarrow> uuid \<Rightarrow> uuid \<Rightarrow> int \<Rightarrow> jchange list \<Rightarrow> apperr + (bool \<times> jchange list)" where
  "claimUndo fl i user at j =
     (case fl_claim fl of
        Some e \<Rightarrow> Inl e
      | None \<Rightarrow> Inr (length (filter (claimable i) j) = 1,
                     map (\<lambda>c. if claimable i c then c\<lparr>jc_undoneAt := Some at, jc_undoneBy := Some user\<rparr> else c) j))"

definition releaseUndo :: "faults \<Rightarrow> uuid \<Rightarrow> jchange list \<Rightarrow> apperr + jchange list" where
  "releaseUndo fl i j =
     (case fl_release fl of
        Some e \<Rightarrow> Inl e
      | None \<Rightarrow> Inr (map (\<lambda>c. if jc_id c = i then c\<lparr>jc_undoneAt := None, jc_undoneBy := None\<rparr> else c) j))"

text \<open>\<open>PruneBefore\<close> deletes at most 5000 rows per statement (the database picks which of the old ones; here
  the first) until a statement deletes fewer.\<close>

fun dropOld :: "nat \<Rightarrow> int \<Rightarrow> jchange list \<Rightarrow> jchange list" where
  "dropOld n cutoff [] = []"
| "dropOld n cutoff (c # cs) =
     (if jc_createdAt c < cutoff \<and> 0 < n then dropOld (n - 1) cutoff cs else c # dropOld n cutoff cs)"

lemma length_dropOld: "length (dropOld n cutoff cs) \<le> length cs"
  by (induction n cutoff cs rule: dropOld.induct) auto

function pruneBefore :: "int \<Rightarrow> jchange list \<Rightarrow> nat \<Rightarrow> nat \<times> jchange list" where
  "pruneBefore cutoff j tot =
     (let j' = dropOld 5000 cutoff j; n = length j - length j' in
      if n < 5000 then (tot + n, j') else pruneBefore cutoff j' (tot + n))"
  by pat_completeness auto
termination
  by (relation "measure (\<lambda>(c, j, t). length j)") auto

declare pruneBefore.simps [simp del]

subsection \<open>Running an operation as a database's own login\<close>

record database =
  db_id :: uuid
  db_name :: string
  db_status :: dbStatus

datatype accessMode = ModeRead | ModeWrite

datatype dataAccess = AccessAdmin | AccessLogin | AccessManaged

text \<open>What an operation fails with: an application error or an error of the engine.\<close>

datatype op_error = AppError apperr | EngineError data_error

definition fromEngineError :: "(data_error \<Rightarrow> string) \<Rightarrow> op_error \<Rightarrow> apperr" where
  "fromEngineError msg e =
     (case e of
        AppError a \<Rightarrow> (case a of Internal m \<Rightarrow> Invalid ''instance'' m | _ \<Rightarrow> a)
      | EngineError d \<Rightarrow> Invalid ''instance'' (msg d))"

text \<open>The collaborators of \<open>scoped\<close>: the database repository, the instance's target and the access service.
  A connection is a value \<open>'c\<close>.\<close>

record ('c, 's) scope =
  sc_database :: "apperr + database"
  sc_target :: "apperr option"
  sc_access :: dataAccess
  sc_dataConn :: "accessMode \<Rightarrow> 's \<Rightarrow> (apperr + 'c) \<times> 's"
  sc_repair :: "accessMode \<Rightarrow> 's \<Rightarrow> apperr option \<times> 's"
  sc_conn :: "accessMode \<Rightarrow> 's \<Rightarrow> (apperr + 'c) \<times> 's"
  sc_reapply :: "accessMode \<Rightarrow> 's \<Rightarrow> apperr option \<times> 's"
  sc_loginRejected :: "op_error \<Rightarrow> bool"
  sc_permissionDenied :: "op_error \<Rightarrow> bool"
  sc_message :: "data_error \<Rightarrow> string"

type_synonym ('c, 's, 'a) dbop = "database \<Rightarrow> 'c \<Rightarrow> 's \<Rightarrow> (op_error + 'a) \<times> 's"

definition failsWith :: "(op_error \<Rightarrow> bool) \<Rightarrow> op_error + 'a \<Rightarrow> bool" where
  "failsWith p r = (case r of Inl e \<Rightarrow> p e | Inr _ \<Rightarrow> False)"

text \<open>The first half of \<open>retryManaged\<close>: repairing a rejected login.  The result is the outcome, the
  connection in use and the store; \<^const>\<open>Inl\<close> is its early return.\<close>

definition retryLogin :: "('c, 's) scope \<Rightarrow> database \<Rightarrow> accessMode \<Rightarrow> 'c \<Rightarrow> op_error + 'a \<Rightarrow> ('c, 's, 'a) dbop \<Rightarrow> 's
    \<Rightarrow> (op_error + ((op_error + 'a) \<times> 'c)) \<times> 's" where
  "retryLogin sc db mode conn r fn s =
     (if failsWith (sc_loginRejected sc) r then
        (case sc_repair sc mode s of
           (Some _, s1) \<Rightarrow> (Inl (AppError (Invalid ''instance'' ''login rejected'')), s1)
         | (None, s1) \<Rightarrow>
             (case sc_conn sc mode s1 of
                (Inl e, s2) \<Rightarrow> (Inl (AppError e), s2)
              | (Inr c, s2) \<Rightarrow>
                  (let (r', s3) = fn db c s2 in
                   if failsWith (sc_loginRejected sc) r'
                   then (Inl (AppError (Invalid ''instance'' ''login rejected'')), s3)
                   else (Inr (r', c), s3))))
      else (Inr (r, conn), s))"

definition retryManaged :: "('c, 's) scope \<Rightarrow> database \<Rightarrow> accessMode \<Rightarrow> 'c \<Rightarrow> op_error + 'a \<Rightarrow> ('c, 's, 'a) dbop \<Rightarrow> 's
    \<Rightarrow> (op_error + 'a) \<times> 's" where
  "retryManaged sc db mode conn r fn s =
     (case retryLogin sc db mode conn r fn s of
        (Inl e, s1) \<Rightarrow> (Inl e, s1)
      | (Inr (r1, c), s1) \<Rightarrow>
          if failsWith (sc_permissionDenied sc) r1 then
            (case sc_reapply sc mode s1 of
               (None, s2) \<Rightarrow> fn db c s2
             | (Some _, s2) \<Rightarrow> (r1, s2))
          else (r1, s1))"

definition notActive :: apperr where
  "notActive = Conflict ''writes are not allowed until the database is active again''"

definition scoped :: "('c, 's) scope \<Rightarrow> accessMode \<Rightarrow> ('c, 's, 'a) dbop \<Rightarrow> 's \<Rightarrow> (apperr + 'a) \<times> 's" where
  "scoped sc mode fn s =
     (case sc_database sc of
        Inl e \<Rightarrow> (Inl e, s)
      | Inr db \<Rightarrow>
          if mode = ModeWrite \<and> db_status db \<noteq> StActive then (Inl notActive, s)
          else
            case sc_target sc of
              Some e \<Rightarrow> (Inl e, s)
            | None \<Rightarrow>
                (case sc_dataConn sc mode s of
                   (Inl e, s1) \<Rightarrow> (Inl e, s1)
                 | (Inr conn, s1) \<Rightarrow>
                     (let (r, s2) = fn db conn s1 in
                      if sc_access sc = AccessLogin \<and> failsWith (sc_loginRejected sc) r
                      then (Inl (Invalid ''instance'' ''login rejected''), s2)
                      else
                        let (r', s3) = (if sc_access sc = AccessManaged
                                        then retryManaged sc db mode conn r fn s2 else (r, s2))
                        in (case r' of Inl e \<Rightarrow> Inl (fromEngineError (sc_message sc) e) | Inr x \<Rightarrow> Inr x, s3))))"

subsection \<open>Recording and undoing\<close>

record editMeta =
  em_userId :: uuid
  em_batchId :: "uuid option"

record changeRef =
  cr_id :: "uuid option"
  cr_undoable :: bool
  cr_note :: string

definition noRef :: changeRef where "noRef = \<lparr>cr_id = None, cr_undoable = False, cr_note = []\<rparr>"

definition notRecorded :: string where
  "notRecorded = ''the change was saved but could not be recorded, so it cannot be undone''"

text \<open>The service state: the database edited, the journal (\<^const>\<open>None\<close> when it is disabled) and the clock.\<close>

record 's jworld =
  jw_store :: 's
  jw_journal :: "jchange list option"
  jw_fresh :: uuid
  jw_now :: int

definition recordChange :: "faults \<Rightarrow> (rowvalues option \<Rightarrow> nat) \<Rightarrow> uuid \<Rightarrow> string \<Rightarrow> string \<Rightarrow> rowChange option
    \<Rightarrow> editMeta \<Rightarrow> uuid option \<Rightarrow> 's jworld \<Rightarrow> changeRef \<times> 's jworld" where
  "recordChange fl sz databaseId table source ch meta undoOf w =
     (case (jw_journal w, ch) of
        (Some j, Some c0) \<Rightarrow>
          if rc_op c0 = [] then (noRef, w)
          else
            (let c = (fromEngine sz databaseId table source c0)
                       \<lparr>jc_batchId := em_batchId meta, jc_undoOf := undoOf,
                        jc_userId := (if em_userId meta \<noteq> uuid_nil then Some (em_userId meta) else None)\<rparr>
             in case addChange fl (jw_fresh w) (jw_now w) c j of
                  Inl e \<Rightarrow> (noRef\<lparr>cr_note := notRecorded\<rparr>, w)
                | Inr (c', j') \<Rightarrow>
                    (\<lparr>cr_id = Some (jc_id c'), cr_undoable = jc_undoable c', cr_note = jc_note c'\<rparr>,
                     w\<lparr>jw_journal := Some j', jw_fresh := jw_fresh w + 1\<rparr>))
      | _ \<Rightarrow> (noRef, w))"

definition onStore :: "('s \<Rightarrow> 'r \<times> 's) \<Rightarrow> 's jworld \<Rightarrow> 'r \<times> 's jworld" where
  "onStore f w = (let (r, s) = f (jw_store w) in (r, w\<lparr>jw_store := s\<rparr>))"

text \<open>\<open>editRow\<close>; the database's id is the one \<open>scoped\<close> found.\<close>

definition editRow :: "faults \<Rightarrow> (rowvalues option \<Rightarrow> nat) \<Rightarrow> ('c, 's) scope \<Rightarrow> ('c, 's, rowChange) dbop
    \<Rightarrow> string \<Rightarrow> editMeta \<Rightarrow> 's jworld \<Rightarrow> (apperr + changeRef) \<times> 's jworld" where
  "editRow fl sz sc fn table meta w =
     (case onStore (scoped sc ModeWrite fn) w of
        (Inl e, w1) \<Rightarrow> (Inl e, w1)
      | (Inr ch, w1) \<Rightarrow>
          (let did = (case sc_database sc of Inr db \<Rightarrow> db_id db | Inl _ \<Rightarrow> uuid_nil);
               (ref, w2) = recordChange fl sz did table ''editor'' (Some ch) meta None w1
           in (Inr ref, w2)))"

record undoResult =
  ur_changeId :: uuid
  ur_ok :: bool
  ur_conflict :: bool
  ur_error :: string
  ur_ref :: "changeRef option"

definition undoFailed :: "uuid \<Rightarrow> bool \<Rightarrow> string \<Rightarrow> undoResult" where
  "undoFailed i conflict msg = \<lparr>ur_changeId = i, ur_ok = False, ur_conflict = conflict, ur_error = msg, ur_ref = None\<rparr>"

definition undoRequest :: "jchange \<Rightarrow> bool \<Rightarrow> applyRequest" where
  "undoRequest c force =
     (let base = \<lparr>aq_key = valuesOf (jc_key c), aq_check = None, aq_want = None, aq_session = jc_session c\<rparr>;
          req = (if jc_op c = ''insert'' then base\<lparr>aq_check := Some (expectImage (jc_after c))\<rparr>
                 else if jc_op c = ''update'' then
                   base\<lparr>aq_check := Some (expectImage (jc_after c)), aq_want := jc_before c\<rparr>
                 else if jc_op c = ''delete'' then
                   base\<lparr>aq_check := Some (expectImage None), aq_want := jc_before c\<rparr>
                 else base)
      in if force then req\<lparr>aq_check := None\<rparr> else req)"

text \<open>The operation \<open>undo\<close> runs in \<open>scoped\<close>: verdicts become conflicts.\<close>

definition verdict :: "data_error + rowChange \<Rightarrow> op_error + rowChange" where
  "verdict r =
     (case r of
        Inr ch \<Rightarrow> Inr ch
      | Inl ErrRowChanged \<Rightarrow> Inl (AppError (Conflict ''the row was changed since; undoing would overwrite that change''))
      | Inl ErrStructureChanged \<Rightarrow>
          Inl (AppError (Conflict ''the table's columns changed since; this change cannot be applied automatically''))
      | Inl e \<Rightarrow> Inl (EngineError e))"

type_synonym ('c, 's) applier = "'c \<Rightarrow> string \<Rightarrow> applyRequest \<Rightarrow> 's \<Rightarrow> (data_error + rowChange) \<times> 's"

definition undoOp :: "('c, 's) applier \<Rightarrow> jchange \<Rightarrow> applyRequest \<Rightarrow> ('c, 's, rowChange) dbop" where
  "undoOp ap c req = (\<lambda>db conn s. let (r, s') = ap conn (jc_table c) req s in (verdict r, s'))"

fun errMsg :: "apperr \<Rightarrow> string" where
  "errMsg (Internal m) = ''internal error: '' @ m"
| "errMsg (Invalid f m) = m"
| "errMsg (NotFound m) = m"
| "errMsg (Conflict m) = m"
| "errMsg (Unauthorized m) = m"
| "errMsg (Forbidden m) = m"

definition undoChange1 :: "faults \<Rightarrow> (rowvalues option \<Rightarrow> nat) \<Rightarrow> (jchange \<Rightarrow> ('c, 's) scope) \<Rightarrow> ('c, 's) applier
    \<Rightarrow> jchange \<Rightarrow> editMeta \<Rightarrow> bool \<Rightarrow> 's jworld \<Rightarrow> (apperr + undoResult) \<times> 's jworld" where
  "undoChange1 fl sz sc ap c meta force w =
     (if \<not> jc_undoable c then
        (Inr (undoFailed (jc_id c) False
                (if jc_note c \<noteq> [] then jc_note c else ''this change cannot be undone'')), w)
      else if em_userId meta = uuid_nil then (Inl (Unauthorized ''authentication required''), w)
      else
        case jw_journal w of
          None \<Rightarrow> (Inl (Internal ''journal disabled''), w)
        | Some j \<Rightarrow>
        (case claimUndo fl (jc_id c) (em_userId meta) (jw_now w) j of
           Inl e \<Rightarrow> (Inl e, w)
         | Inr (False, j1) \<Rightarrow> (Inr (undoFailed (jc_id c) False ''this change was already undone''), w\<lparr>jw_journal := Some j1\<rparr>)
         | Inr (True, j1) \<Rightarrow>
             (case onStore (scoped (sc c) ModeWrite (undoOp ap c (undoRequest c force))) (w\<lparr>jw_journal := Some j1\<rparr>) of
                (Inl e, w2) \<Rightarrow>
                  (let w3 = (case releaseUndo fl (jc_id c) j1 of Inl _ \<Rightarrow> w2 | Inr j2 \<Rightarrow> w2\<lparr>jw_journal := Some j2\<rparr>)
                   in if kindOf e = KindConflict then (Inr (undoFailed (jc_id c) True (errMsg e)), w3)
                      else (Inl e, w3))
              | (Inr ch, w2) \<Rightarrow>
                  (let (ref, w3) = recordChange fl sz (jc_databaseId c) (jc_table c) ''undo'' (Some ch) meta
                                     (Some (jc_id c)) w2
                   in (Inr \<lparr>ur_changeId = jc_id c, ur_ok = True, ur_conflict = False, ur_error = [], ur_ref = Some ref\<rparr>,
                       w3)))))"

definition undoChange :: "faults \<Rightarrow> (rowvalues option \<Rightarrow> nat) \<Rightarrow> (jchange \<Rightarrow> ('c, 's) scope) \<Rightarrow> ('c, 's) applier
    \<Rightarrow> uuid \<Rightarrow> uuid \<Rightarrow> editMeta \<Rightarrow> bool \<Rightarrow> 's jworld \<Rightarrow> (apperr + undoResult) \<times> 's jworld" where
  "undoChange fl sz sc ap databaseId changeId meta force w =
     (case jw_journal w of
        None \<Rightarrow> (Inl (Invalid ''change_id'' ''the change journal is disabled''), w)
      | Some j \<Rightarrow>
          (case getChange fl changeId j of
             Inl e \<Rightarrow> (Inl e, w)
           | Inr c \<Rightarrow> if jc_databaseId c \<noteq> databaseId then (Inl (NotFound ''change not found''), w)
                      else undoChange1 fl sz sc ap c meta force w))"

fun undoAll :: "faults \<Rightarrow> (rowvalues option \<Rightarrow> nat) \<Rightarrow> (jchange \<Rightarrow> ('c, 's) scope) \<Rightarrow> ('c, 's) applier
    \<Rightarrow> jchange list \<Rightarrow> editMeta \<Rightarrow> bool \<Rightarrow> 's jworld \<Rightarrow> undoResult list
    \<Rightarrow> (apperr option \<times> undoResult list) \<times> 's jworld" where
  "undoAll fl sz sc ap [] meta force w out = ((None, out), w)"
| "undoAll fl sz sc ap (c # cs) meta force w out =
     (if jc_undoneAt c \<noteq> None \<or> \<not> jc_undoable c then undoAll fl sz sc ap cs meta force w out
      else case undoChange1 fl sz sc ap c meta force w of
             (Inl e, w1) \<Rightarrow> ((Some e, out), w1)
           | (Inr res, w1) \<Rightarrow> undoAll fl sz sc ap cs meta force w1 (out @ [res]))"

definition undoBatch :: "faults \<Rightarrow> (rowvalues option \<Rightarrow> nat) \<Rightarrow> (jchange \<Rightarrow> ('c, 's) scope) \<Rightarrow> ('c, 's) applier
    \<Rightarrow> uuid \<Rightarrow> uuid \<Rightarrow> editMeta \<Rightarrow> bool \<Rightarrow> 's jworld \<Rightarrow> (apperr option \<times> undoResult list) \<times> 's jworld" where
  "undoBatch fl sz sc ap databaseId batchId meta force w =
     (case jw_journal w of
        None \<Rightarrow> ((Some (Invalid ''batch_id'' ''the change journal is disabled''), []), w)
      | Some j \<Rightarrow>
          (case listChanges fl \<lparr>lf_databaseId = databaseId, lf_table = [], lf_batchId = Some batchId,
                               lf_before = None, lf_limit = int maxBatchUndo\<rparr> j of
             Inl e \<Rightarrow> ((Some e, []), w)
           | Inr cs \<Rightarrow> undoAll fl sz sc ap cs meta force w []))"

subsection \<open>The journal's claims\<close>

definition wfJournal :: "uuid \<Rightarrow> jchange list \<Rightarrow> bool" where
  "wfJournal fresh j \<longleftrightarrow> distinct (map jc_id j)
     \<and> (\<forall>c \<in> set j. jc_id c < fresh \<and> (jc_undoneAt c = None \<longleftrightarrow> jc_undoneBy c = None))"

definition undone :: "uuid \<Rightarrow> jchange list \<Rightarrow> bool" where
  "undone i j \<longleftrightarrow> (\<forall>c \<in> set j. jc_id c = i \<longrightarrow> jc_undoneAt c \<noteq> None)"

lemma claimUndo_True:
  assumes "claimUndo fl i u at j = Inr (True, j1)"
  shows "j1 = map (\<lambda>c. if claimable i c then c\<lparr>jc_undoneAt := Some at, jc_undoneBy := Some u\<rparr> else c) j"
  using assms by (auto simp: claimUndo_def split: option.splits)

lemma claimUndo_one:
  assumes "claimUndo fl i u at j = Inr (True, j1)"
  obtains c where "c \<in> set j" "claimable i c"
proof -
  have "filter (claimable i) j \<noteq> []" using assms by (auto simp: claimUndo_def split: option.splits)
  then show thesis using that by (auto simp: filter_empty_conv)
qed

lemma claim_cases: "(\<exists>e. x = Inl e) \<or> (\<exists>j. x = Inr (False, j)) \<or> (\<exists>j. x = Inr (True, j))"
  for x :: "'e + bool \<times> 'j"
proof (cases x)
  case (Inr p)
  then show ?thesis by (cases "fst p") (cases p; simp)+
qed simp

lemma claimUndo_claims:
  assumes "claimUndo fl i u at j = Inr (True, j1)" "wfJournal fresh j"
  shows "wfJournal fresh j1" "undone i j1"
proof -
  obtain c where c: "c \<in> set j" "claimable i c" by (rule claimUndo_one [OF assms(1)])
  have uniq: "d = c" if "d \<in> set j" "jc_id d = i" for d
    using that c assms(2) by (auto simp: wfJournal_def claimable_def distinct_map dest: inj_onD)
  have ids: "map jc_id j1 = map jc_id j" by (simp add: claimUndo_True [OF assms(1)])
  show "wfJournal fresh j1"
  proof -
    have "distinct (map jc_id j1)" using ids assms(2) by (simp add: wfJournal_def)
    moreover have "\<forall>c \<in> set j1. jc_id c < fresh \<and> (jc_undoneAt c = None \<longleftrightarrow> jc_undoneBy c = None)"
      using assms(2) unfolding wfJournal_def claimUndo_True [OF assms(1)] by auto
    ultimately show ?thesis by (simp add: wfJournal_def)
  qed
  show "undone i j1"
    using uniq c by (auto simp: undone_def claimUndo_True [OF assms(1)])
qed

lemma claimUndo_again:
  "undone i j \<Longrightarrow> claimUndo fl i u at j = Inr r \<Longrightarrow> r = (False, j)"
proof -
  assume u: "undone i j" and c: "claimUndo fl i u at j = Inr r"
  have "\<not> claimable i c" if "c \<in> set j" for c using that u by (auto simp: undone_def claimable_def)
  then have "filter (claimable i) j = []"
    "map (\<lambda>c. if claimable i c then c\<lparr>jc_undoneAt := Some at, jc_undoneBy := Some u\<rparr> else c) j = j"
    by (simp_all add: filter_empty_conv map_idI)
  with c show ?thesis by (auto simp: claimUndo_def split: option.splits)
qed

lemma release_claim:
  assumes "claimUndo fl i u at j = Inr (True, j1)" "wfJournal fresh j" "releaseUndo fl i j1 = Inr j2"
  shows "j2 = j"
proof -
  obtain c where c: "c \<in> set j" "claimable i c" by (rule claimUndo_one [OF assms(1)])
  have uniq: "d = c" if "d \<in> set j" "jc_id d = i" for d
    using that c assms(2) by (auto simp: wfJournal_def claimable_def distinct_map dest: inj_onD)
  have nb: "jc_undoneBy c = None" using c assms(2) by (auto simp: wfJournal_def claimable_def)
  have "(\<lambda>d. if jc_id d = i then d\<lparr>jc_undoneAt := None, jc_undoneBy := None\<rparr> else d)
      (if claimable i d then d\<lparr>jc_undoneAt := Some at, jc_undoneBy := Some u\<rparr> else d) = d" if "d \<in> set j" for d
  proof (cases "jc_id d = i")
    case True
    with uniq that have "d = c" by blast
    with c nb show ?thesis by (simp add: claimable_def)
  next
    case False
    then show ?thesis by (simp add: claimable_def)
  qed
  then show ?thesis
    using assms(3) by (auto simp: releaseUndo_def claimUndo_True [OF assms(1)] intro: map_idI split: option.splits)
qed

lemma undone_snoc: "undone i j \<Longrightarrow> jc_id c \<noteq> i \<Longrightarrow> undone i (j @ [c])"
  by (auto simp: undone_def)

lemma recordChange_journal:
  assumes "recordChange fl sz d t src ch meta uo w = (ref, w')" "jw_journal w = Some j"
  shows "jw_store w' = jw_store w \<and> jw_now w' = jw_now w
    \<and> (jw_journal w' = Some j \<and> jw_fresh w' = jw_fresh w
       \<or> (\<exists>c. jw_journal w' = Some (j @ [c]) \<and> jc_id c = jw_fresh w \<and> jw_fresh w' = jw_fresh w + 1
            \<and> jc_undoOf c = uo \<and> jc_undoneAt c = None \<and> jc_undoneBy c = None))"
proof -
  have u: "jc_undoneAt (fromEngine sz d t src x) = None" "jc_undoneBy (fromEngine sz d t src x) = None" for x
    by (simp_all add: fromEngine_def Let_def)
  show ?thesis using assms u
    by (auto simp: recordChange_def addChange_def Let_def split: option.splits sum.splits if_splits)
qed

lemma onStore_journal: "onStore f w = (r, w') \<Longrightarrow>
    jw_journal w' = jw_journal w \<and> jw_fresh w' = jw_fresh w \<and> jw_now w' = jw_now w \<and> f (jw_store w) = (r, jw_store w')"
  by (auto simp: onStore_def split: prod.splits)

text \<open>C2. A change is undone at most once.  After an undo that succeeded, any further undo of the same
  entry, by anyone and forced or not, executes nothing: it reports failure or an error and leaves
  the database and the journal as they are.\<close>

theorem undo_at_most_once:
  assumes "jw_journal w = Some j" and "wfJournal (jw_fresh w) j"
    and "undoChange1 fl sz sc ap c meta force w = (Inr r, w1)" and "ur_ok r"
    and "jc_id c' = jc_id c" and "c \<in> set j"
  shows "case undoChange1 fl' sz' sc' ap' c' meta' force' w1 of
           (Inl e, w2) \<Rightarrow> w2 = w1
         | (Inr r', w2) \<Rightarrow> \<not> ur_ok r' \<and> w2 = w1"
proof -
  let ?i = "jc_id c"
  obtain j1 where j1: "claimUndo fl ?i (em_userId meta) (jw_now w) j = Inr (True, j1)"
    using assms(1,3,4) by (fastforce simp: undoChange1_def undoFailed_def Let_def
        split: if_splits sum.splits prod.splits bool.splits)
  let ?op = "scoped (sc c) ModeWrite (undoOp ap c (undoRequest c force))"
  obtain ch w2 where st: "onStore ?op (w\<lparr>jw_journal := Some j1\<rparr>) = (Inr ch, w2)"
    using assms(1,3,4) j1 by (fastforce simp: undoChange1_def undoFailed_def Let_def
        split: if_splits sum.splits prod.splits)
  obtain ref w3 where rec: "recordChange fl sz (jc_databaseId c) (jc_table c) ''undo'' (Some ch) meta (Some ?i) w2 = (ref, w3)"
    by (cases "recordChange fl sz (jc_databaseId c) (jc_table c) ''undo'' (Some ch) meta (Some ?i) w2")
  have "w1 = w3"
    using assms(1,3,4) j1 st rec by (auto simp: undoChange1_def undoFailed_def Let_def split: if_splits)
  moreover have "jw_journal w2 = Some j1" "jw_fresh w2 = jw_fresh w"
    using onStore_journal [OF st] by simp_all
  moreover have "undone ?i j1" by (rule claimUndo_claims [OF j1 assms(2)])
  moreover have "?i < jw_fresh w" using assms(2,6) by (simp add: wfJournal_def)
  ultimately obtain j3 where j3: "jw_journal w1 = Some j3" "undone ?i j3"
    using recordChange_journal [OF rec, of j1] undone_snoc by (metis less_irrefl)
  have same: "w1\<lparr>jw_journal := Some j3\<rparr> = w1" using j3 by (cases w1) simp
  show ?thesis
  proof (cases "claimUndo fl' ?i (em_userId meta') (jw_now w1) j3")
    case (Inl e)
    then show ?thesis using j3 assms(5) by (simp add: undoChange1_def undoFailed_def)
  next
    case (Inr q)
    then have "q = (False, j3)" using claimUndo_again j3 by blast
    then show ?thesis using j3 assms(5) Inr same by (simp add: undoChange1_def undoFailed_def)
  qed
qed

text \<open>An undo that does not succeed leaves no trace: when its operation leaves the database alone on
  failure, the claim it took is released, so the database and the journal are exactly as before and
  the change can be undone later.\<close>

theorem failed_undo_leaves_no_trace:
  assumes "jw_journal w = Some j" and "wfJournal (jw_fresh w) j" and "fl_release fl = None"
    and "\<And>s e s'. scoped (sc c) ModeWrite (undoOp ap c (undoRequest c force)) s = (Inl e, s') \<Longrightarrow> s' = s"
  shows "case undoChange1 fl sz sc ap c meta force w of
           (Inl e, w1) \<Rightarrow> w1 = w
         | (Inr r, w1) \<Rightarrow> if ur_ok r then True else w1 = w"
proof -
  let ?i = "jc_id c" and ?op = "scoped (sc c) ModeWrite (undoOp ap c (undoRequest c force))"
  have same: "w\<lparr>jw_journal := Some j\<rparr> = w" using assms(1) by (cases w) simp
  consider (err) e where "claimUndo fl ?i (em_userId meta) (jw_now w) j = Inl e"
    | (no) j1 where "claimUndo fl ?i (em_userId meta) (jw_now w) j = Inr (False, j1)"
    | (yes) j1 where "claimUndo fl ?i (em_userId meta) (jw_now w) j = Inr (True, j1)"
    using claim_cases [of "claimUndo fl ?i (em_userId meta) (jw_now w) j"] by blast
  then show ?thesis
  proof cases
    case err
    then show ?thesis using assms(1) by (simp add: undoChange1_def undoFailed_def)
  next
    case no
    have "j1 = j"
    proof -
      have "length (filter (claimable ?i) j) \<noteq> 1" and j1: "j1 = map (\<lambda>c. if claimable ?i c
          then c\<lparr>jc_undoneAt := Some (jw_now w), jc_undoneBy := Some (em_userId meta)\<rparr> else c) j"
        using no by (auto simp: claimUndo_def split: option.splits)
      moreover have "length (filter (claimable ?i) j) \<le> 1"
      proof -
        have "distinct (map jc_id (filter (claimable ?i) j))"
          using assms(2) by (simp add: wfJournal_def distinct_map_filter)
        moreover have "set (map jc_id (filter (claimable ?i) j)) \<subseteq> {?i}" by (auto simp: claimable_def)
        ultimately show ?thesis
          by (metis card_mono distinct_card finite.emptyI finite.insertI is_singletonI is_singleton_altdef length_map)
      qed
      ultimately have "filter (claimable ?i) j = []" by (cases "filter (claimable ?i) j") auto
      then show "j1 = j" unfolding j1 by (intro map_idI) (auto simp: filter_empty_conv)
    qed
    then show ?thesis using assms(1) no same by (simp add: undoChange1_def undoFailed_def)
  next
    case yes
    obtain r w2 where st: "onStore ?op (w\<lparr>jw_journal := Some j1\<rparr>) = (r, w2)" by (metis surj_pair)
    show ?thesis
    proof (cases r)
      case (Inl e)
      have "jw_store w2 = jw_store w" using assms(4) onStore_journal [OF st] Inl by fastforce
      then have "w2\<lparr>jw_journal := Some j\<rparr> = w"
        using onStore_journal [OF st] assms(1) by (cases w; cases w2) simp
      moreover obtain j2 where "releaseUndo fl ?i j1 = Inr j2" using assms(3) by (simp add: releaseUndo_def)
      moreover from this have "j2 = j" by (rule release_claim [OF yes assms(2)])
      ultimately show ?thesis using assms(1) yes st Inl by (simp add: undoChange1_def undoFailed_def Let_def)
    next
      case (Inr ch)
      then show ?thesis using assms(1) yes st
        by (simp add: undoChange1_def undoFailed_def Let_def split: prod.splits)
    qed
  qed
qed


text \<open>A concrete service to apply the properties to: a database whose edits always apply.\<close>

definition quietFaults :: faults where
  "quietFaults = \<lparr>fl_add = None, fl_get = None, fl_list = None, fl_claim = None, fl_release = None\<rparr>"

definition okScope :: "dbStatus \<Rightarrow> (unit, nat) scope" where
  "okScope st = \<lparr>sc_database = Inr \<lparr>db_id = 1, db_name = ''d'', db_status = st\<rparr>, sc_target = None,
     sc_access = AccessAdmin, sc_dataConn = (\<lambda>_ s. (Inr (), s)), sc_repair = (\<lambda>_ s. (None, s)),
     sc_conn = (\<lambda>_ s. (Inr (), s)), sc_reapply = (\<lambda>_ s. (None, s)), sc_loginRejected = (\<lambda>_. False),
     sc_permissionDenied = (\<lambda>_. False), sc_message = (\<lambda>_. [])\<rparr>"

definition someChange :: "uuid \<Rightarrow> bool \<Rightarrow> jchange" where
  "someChange i isUndone = (fromEngine (\<lambda>_. 0) 1 ''t'' ''editor'' (newChange ''insert'' (Some (fmap_of_list [(''id'', Some ''1'')]))))
     \<lparr>jc_id := i, jc_batchId := Some 7, jc_createdAt := int i,
      jc_undoneAt := (if isUndone then Some 0 else None), jc_undoneBy := (if isUndone then Some 5 else None)\<rparr>"

lemma someChange_simps [simp]:
  "jc_id (someChange i u) = i" "jc_undoable (someChange i u)" "jc_databaseId (someChange i u) = 1"
  "jc_batchId (someChange i u) = Some 7" "jc_createdAt (someChange i u) = int i"
  "jc_undoneAt (someChange i u) = (if u then Some 0 else None)" "jc_undoneBy (someChange i u) = (if u then Some 5 else None)"
  "jc_table (someChange i u) = ''t''"
  by (simp_all add: someChange_def fromEngine_def newChange_def maxEntryBytes_def)

definition countApply :: "(unit, nat) applier" where
  "countApply = (\<lambda>_ _ _ s. (Inr (newChange ''delete'' None), Suc s))"

definition oneWorld :: "nat jworld" where
  "oneWorld = \<lparr>jw_store = 0, jw_journal = Some [someChange 3 False], jw_fresh = 9, jw_now = 100\<rparr>"

definition someone :: editMeta where "someone = \<lparr>em_userId = 5, em_batchId = None\<rparr>"

lemma undo_at_most_once_witness:
  "\<exists>r w1. undoChange1 quietFaults (\<lambda>_. 0) (\<lambda>_. okScope StActive) countApply (someChange 3 False) someone False oneWorld
       = (Inr r, w1) \<and> jw_store w1 = 1
     \<and> (case undoChange1 quietFaults (\<lambda>_. 0) (\<lambda>_. okScope StActive) countApply (someChange 3 False) someone True w1 of
          (Inl e, w2) \<Rightarrow> w2 = w1 | (Inr r', w2) \<Rightarrow> \<not> ur_ok r' \<and> w2 = w1)"
proof -
  let ?u = "undoChange1 quietFaults (\<lambda>_. 0) (\<lambda>_. okScope StActive) countApply (someChange 3 False) someone False oneWorld"
  note defs = undoChange1_def claimUndo_def claimable_def oneWorld_def someone_def quietFaults_def onStore_def
    scoped_def okScope_def undoOp_def countApply_def verdict_def recordChange_def newChange_def addChange_def Let_def
  have "isl (fst ?u) = False" by (simp add: defs)
  from not_isl_pair [OF this] obtain r w1 where u: "?u = (Inr r, w1)" by blast
  then have ok: "ur_ok r" "jw_store w1 = 1" by (auto simp: defs)
  have "jw_journal oneWorld = Some [someChange 3 False]" "wfJournal (jw_fresh oneWorld) [someChange 3 False]"
    by (simp_all add: oneWorld_def wfJournal_def)
  from undo_at_most_once [OF this u ok(1) refl, of quietFaults "\<lambda>_. 0" "\<lambda>_. okScope StActive" countApply someone True]
  show ?thesis using u ok(2) by (intro exI [of _ r] exI [of _ w1]) simp
qed

lemma failed_undo_leaves_no_trace_witness:
  "\<exists>r. undoChange1 quietFaults (\<lambda>_. 0) (\<lambda>_. okScope StLocked) countApply (someChange 3 False) someone False oneWorld
     = (Inr r, oneWorld) \<and> \<not> ur_ok r"
proof -
  let ?u = "undoChange1 quietFaults (\<lambda>_. 0) (\<lambda>_. okScope StLocked) countApply (someChange 3 False) someone False oneWorld"
  note defs = undoChange1_def claimUndo_def claimable_def oneWorld_def someone_def quietFaults_def onStore_def
    scoped_def okScope_def notActive_def releaseUndo_def undoFailed_def Let_def
  have "isl (fst ?u) = False" by (simp add: defs)
  from not_isl_pair [OF this] obtain r w1 where u: "?u = (Inr r, w1)" by blast
  then have nok: "\<not> ur_ok r" by (auto simp: defs)
  have "jw_journal oneWorld = Some [someChange 3 False]" "wfJournal (jw_fresh oneWorld) [someChange 3 False]"
    "fl_release quietFaults = None"
    by (simp_all add: oneWorld_def wfJournal_def quietFaults_def)
  moreover have "s' = s" if "scoped (okScope StLocked) ModeWrite
      (undoOp countApply (someChange 3 False) (undoRequest (someChange 3 False) False)) s = (Inl e, s')" for s e s'
    using that by (simp add: scoped_def okScope_def)
  ultimately show ?thesis
    using failed_undo_leaves_no_trace [of oneWorld "[someChange 3 False]" quietFaults "\<lambda>_. okScope StLocked"
        "someChange 3 False" countApply False "\<lambda>_. 0" someone] u nok by simp
qed

text \<open>A conflict does not mean the row changed.  When the database is not active (locked, migrating,
  missing), undoing a change that can be claimed reports a conflict, for which the dashboard offers
  to overwrite the row, although the row was never looked at: the store is untouched.\<close>

theorem conflict_without_row_change:
  assumes "jw_journal w = Some j" and "c \<in> set j" and "wfJournal (jw_fresh w) j"
    and "jc_undoneAt c = None" and "jc_undoable c" and "em_userId meta \<noteq> uuid_nil" and "fl_claim fl = None"
    and "sc_database (sc c) = Inr db" and "db_status db \<noteq> StActive"
  shows "\<exists>r w1. undoChange1 fl sz sc ap c meta force w = (Inr r, w1) \<and> ur_conflict r \<and> jw_store w1 = jw_store w"
proof -
  have "filter (claimable (jc_id c)) j = [c]"
  proof -
    have "\<And>d. d \<in> set j \<Longrightarrow> claimable (jc_id c) d \<longleftrightarrow> d = c"
      using assms(2-5) by (auto simp: claimable_def wfJournal_def distinct_map dest: inj_onD)
    then have "filter (claimable (jc_id c)) j = filter (\<lambda>d. d = c) j" by (rule filter_cong [OF refl])
    also have "\<dots> = [c]"
      using assms(2,3) by (induction j) (auto simp: wfJournal_def filter_empty_conv)
    finally show ?thesis .
  qed
  then obtain j1 where "claimUndo fl (jc_id c) (em_userId meta) (jw_now w) j = Inr (True, j1)"
    using assms(7) by (simp add: claimUndo_def)
  then show ?thesis using assms
    by (auto simp: undoChange1_def onStore_def scoped_def notActive_def undoFailed_def Let_def split: sum.splits)
qed

lemma conflict_without_row_change_witness:
  "\<exists>r w1. undoChange1 quietFaults (\<lambda>_. 0) (\<lambda>_. okScope StMigrating) countApply (someChange 3 False) someone False oneWorld
     = (Inr r, w1) \<and> ur_conflict r"
  using conflict_without_row_change [of oneWorld "[someChange 3 False]" "someChange 3 False" someone quietFaults
      "\<lambda>_. okScope StMigrating" "\<lparr>db_id = 1, db_name = ''d'', db_status = StMigrating\<rparr>" "\<lambda>_. 0" countApply False]
  by (auto simp: oneWorld_def wfJournal_def someone_def quietFaults_def okScope_def)

lemma undoAll_done:
  "(\<And>c. c \<in> set cs \<Longrightarrow> jc_undoneAt c \<noteq> None) \<Longrightarrow> undoAll fl sz sc ap cs meta force w out = ((None, out), w)"
  by (induction cs) auto

definition bigSave :: "jchange list" where
  "bigSave = map (\<lambda>i. someChange i (0 < i)) [0..<201]"

lemma newestFirst_bigSave: "newestFirst bigSave = rev bigSave"
proof -
  have "sort_key jc_id bigSave = bigSave"
    by (rule sort_key_id_if_sorted) (simp add: bigSave_def o_def)
  moreover have "map jc_createdAt bigSave = map int [0..<201]" by (simp add: bigSave_def o_def)
  then have "sort_key jc_createdAt bigSave = bigSave"
    by (intro sort_key_id_if_sorted) (auto simp: sorted_map intro: sorted_wrt_mono_rel [of _ "(\<le>)"])
  ultimately show ?thesis by (simp add: newestFirst_def)
qed

text \<open>A save of more than 200 edits can never be undone completely.  \<open>UndoBatch\<close> looks at the 200 newest
  entries of the save only and does not ask for the ones not yet undone, so once those are undone
  another call finds nothing to do, while the oldest edit is still there and could be undone.\<close>

theorem undo_batch_leaves_rest:
  "undoBatch quietFaults (\<lambda>_. 0) (\<lambda>_. okScope StActive) countApply 1 7 someone False
     \<lparr>jw_store = 0, jw_journal = Some bigSave, jw_fresh = 300, jw_now = 0\<rparr>
   = ((None, []), \<lparr>jw_store = 0, jw_journal = Some bigSave, jw_fresh = 300, jw_now = 0\<rparr>)
   \<and> someChange 0 False \<in> set bigSave \<and> jc_batchId (someChange 0 False) = Some 7
   \<and> claimable 0 (someChange 0 False)"
proof -
  have "filter (matchesFilter \<lparr>lf_databaseId = 1, lf_table = [], lf_batchId = Some 7, lf_before = None,
      lf_limit = int maxBatchUndo\<rparr>) bigSave = bigSave"
    by (rule filter_True) (auto simp: bigSave_def matchesFilter_def)
  moreover have "listLimit (int maxBatchUndo) = 200" by (simp add: listLimit_def maxBatchUndo_def)
  moreover have "take 200 (rev bigSave) = rev (drop 1 bigSave)"
    by (simp add: take_rev bigSave_def)
  moreover have "jc_undoneAt c \<noteq> None" if "c \<in> set (drop 1 bigSave)" for c
    using that by (auto simp: bigSave_def drop_map drop_upt)
  moreover have "undoAll fl sz sc ap (rev (drop 1 bigSave)) meta force w out = ((None, out), w)"
    for fl sz and sc :: "jchange \<Rightarrow> (unit, nat) scope" and ap meta force w out
    using calculation(4) by (intro undoAll_done) auto
  moreover have "someChange 0 False \<in> set bigSave"
    unfolding bigSave_def by (auto intro: image_eqI [of _ _ 0])
  ultimately show ?thesis
    by (simp add: undoBatch_def listChanges_def quietFaults_def newestFirst_bigSave claimable_def)
qed

end
