(* ===== verification/FleetRuns.thy ===== *)
theory FleetRuns
  imports Prelude
begin

text \<open>
  Fleet runs, the state machine of \<open>domain/fleet/fleet.go\<close> and \<open>infra/postgres/fleet_repository.go\<close>:
  one script on many databases.  The rows of \<open>fleet_run_targets\<close> are kept with their run, ordered by
  position (they are deleted with it).  Every repository operation runs in a transaction that locks
  the run's row, so a history is a sequence of steps.
\<close>

subsection \<open>Runs and targets\<close>

datatype runStatus = RunRunning | RunPaused | RunCanceling | RunSucceeded | RunFailed | RunCanceled

datatype targetStatus =
    TargetPending | TargetRunning | TargetSucceeded | TargetFailed | TargetSkipped | TargetCanceled | TargetUnknown

record ftarget =
  ft_position :: nat
  ft_databaseId :: "uuid option"
  ft_databaseName :: string
  ft_instanceName :: string
  ft_engine :: string
  ft_status :: targetStatus
  ft_results :: "string option"
  ft_rowsAffected :: "int option"
  ft_error :: "string option"
  ft_claimedBy :: "string option"
  ft_startedAt :: "int option"
  ft_finishedAt :: "int option"

record frun =
  fr_id :: uuid
  fr_createdBy :: uuid
  fr_sql :: string
  fr_writes :: bool
  fr_status :: runStatus
  fr_concurrency :: int
  fr_stopOnError :: bool
  fr_canary :: bool
  fr_timeoutSeconds :: int
  fr_rowLimit :: int
  fr_tokenScopes :: "string list option"
  fr_total :: nat
  fr_succeeded :: nat
  fr_failed :: nat
  fr_skipped :: nat
  fr_createdAt :: int
  fr_updatedAt :: int
  fr_finishedAt :: "int option"
  fr_targets :: "ftarget list"

record outcome =
  oc_status :: targetStatus
  oc_results :: "string option"
  oc_rowsAffected :: "int option"
  oc_error :: string

definition runFinished :: "frun \<Rightarrow> bool" where
  "runFinished r \<longleftrightarrow> fr_status r = RunSucceeded \<or> fr_status r = RunFailed \<or> fr_status r = RunCanceled"

definition countIn :: "targetStatus list \<Rightarrow> ftarget list \<Rightarrow> nat" where
  "countIn ss ts = length (filter (\<lambda>t. ft_status t \<in> set ss) ts)"

abbreviation openCount :: "frun \<Rightarrow> nat" where
  "openCount r \<equiv> countIn [TargetPending, TargetRunning] (fr_targets r)"

text \<open>The computed column \<open>running\<close>.\<close>

definition runningCount :: "frun \<Rightarrow> nat" where
  "runningCount r = countIn [TargetRunning] (fr_targets r)"

subsection \<open>Operations on one run\<close>

text \<open>\<open>Create\<close> numbers the targets and starts the run.\<close>

definition createRun :: "uuid \<Rightarrow> int \<Rightarrow> frun \<Rightarrow> ftarget list \<Rightarrow> frun" where
  "createRun fresh now r targets =
     r\<lparr>fr_id := fresh, fr_status := RunRunning, fr_total := length targets,
       fr_succeeded := 0, fr_failed := 0, fr_skipped := 0,
       fr_createdAt := now, fr_updatedAt := now, fr_finishedAt := None,
       fr_targets := map (\<lambda>(i, t). t\<lparr>ft_position := i, ft_status := TargetPending, ft_results := None,
           ft_rowsAffected := None, ft_error := None, ft_claimedBy := None, ft_startedAt := None,
           ft_finishedAt := None\<rparr>) (enumerate 0 targets)\<rparr>"

definition settle :: "int \<Rightarrow> frun \<Rightarrow> frun" where
  "settle now r =
     (let s = countIn [TargetSucceeded] (fr_targets r);
          f = countIn [TargetFailed, TargetUnknown] (fr_targets r);
          k = countIn [TargetSkipped, TargetCanceled] (fr_targets r);
          opn = openCount r
      in r\<lparr>fr_succeeded := s, fr_failed := f, fr_skipped := k, fr_updatedAt := now,
           fr_status := (if opn = 0 \<and> fr_status r \<in> set [RunRunning, RunPaused, RunCanceling]
                         then (if fr_status r = RunCanceling then RunCanceled
                               else if f > 0 then RunFailed else RunSucceeded)
                         else fr_status r),
           fr_finishedAt := (if opn = 0
                             then (case fr_finishedAt r of Some t \<Rightarrow> Some t | None \<Rightarrow> Some now)
                             else None)\<rparr>)"

definition setStatusWhere :: "(ftarget \<Rightarrow> bool) \<Rightarrow> targetStatus \<Rightarrow> ftarget list \<Rightarrow> ftarget list" where
  "setStatusWhere p st ts = map (\<lambda>t. if p t then t\<lparr>ft_status := st\<rparr> else t) ts"

abbreviation isPending :: "ftarget \<Rightarrow> bool" where "isPending t \<equiv> ft_status t = TargetPending"

definition completeRun :: "int \<Rightarrow> nat \<Rightarrow> outcome \<Rightarrow> frun \<Rightarrow> frun" where
  "completeRun now position o' r =
     (let status = fr_status r;
          hit = (\<lambda>t. ft_position t = position \<and> ft_status t = TargetRunning)
      in if filter hit (fr_targets r) = [] then r
         else
           let ts1 = map (\<lambda>t. if hit t
                  then t\<lparr>ft_status := oc_status o', ft_results := oc_results o', ft_rowsAffected := oc_rowsAffected o',
                         ft_error := (if oc_error o' \<noteq> [] then Some (oc_error o') else None),
                         ft_finishedAt := Some now\<rparr> else t) (fr_targets r);
               ts2 = (if oc_status o' \<noteq> TargetSucceeded \<and> fr_stopOnError r \<and> status = RunRunning
                      then setStatusWhere isPending TargetSkipped ts1 else ts1);
               r2 = r\<lparr>fr_targets := ts2\<rparr>;
               r3 = (if fr_canary r \<and> position = 0 \<and> status = RunRunning \<and> filter isPending ts2 \<noteq> []
                     then r2\<lparr>fr_status := RunPaused\<rparr> else r2)
           in settle now r3)"

definition resumeRun :: "int \<Rightarrow> frun \<Rightarrow> apperr + frun" where
  "resumeRun now r =
     (if fr_status r = RunPaused
      then Inr (r\<lparr>fr_status := RunRunning, fr_canary := False, fr_updatedAt := now\<rparr>)
      else Inl (Conflict ''only a paused run can be resumed''))"

definition cancelRun :: "int \<Rightarrow> frun \<Rightarrow> apperr + frun" where
  "cancelRun now r =
     (if fr_status r = RunRunning \<or> fr_status r = RunPaused
      then Inr (settle now (r\<lparr>fr_status := RunCanceling, fr_updatedAt := now,
                              fr_targets := setStatusWhere isPending TargetCanceled (fr_targets r)\<rparr>))
      else Inl (Conflict ''the run is not running''))"

definition retryable :: "ftarget \<Rightarrow> bool" where
  "retryable t \<longleftrightarrow> ft_status t \<in> set [TargetFailed, TargetSkipped, TargetCanceled, TargetUnknown]"

definition retryRun :: "int \<Rightarrow> frun \<Rightarrow> apperr + frun" where
  "retryRun now r =
     (if fr_status r \<noteq> RunFailed \<and> fr_status r \<noteq> RunCanceled
      then Inl (Conflict ''only a failed or canceled run can be retried'')
      else if filter retryable (fr_targets r) = [] then Inl (Conflict ''nothing to retry'')
      else Inr (settle now (r\<lparr>fr_status := RunRunning, fr_canary := False,
             fr_targets := map (\<lambda>t. if retryable t
               then t\<lparr>ft_status := TargetPending, ft_results := None, ft_rowsAffected := None, ft_error := None,
                      ft_claimedBy := None, ft_startedAt := None, ft_finishedAt := None\<rparr> else t) (fr_targets r)\<rparr>)))"

definition orphan :: "frun \<Rightarrow> int \<Rightarrow> ftarget \<Rightarrow> bool" where
  "orphan r cutoff t \<longleftrightarrow> ft_status t = TargetRunning
     \<and> (case ft_startedAt t of None \<Rightarrow> False | Some s \<Rightarrow> s + fr_timeoutSeconds r < cutoff)"

definition interruptedMsg :: string where
  "interruptedMsg = ''interrupted: the process running it stopped; it may or may not have completed''"

definition reapRun :: "int \<Rightarrow> int \<Rightarrow> frun \<Rightarrow> frun" where
  "reapRun now cutoff r =
     (if filter (orphan r cutoff) (fr_targets r) = [] then r
      else settle now (r\<lparr>fr_targets := map (\<lambda>t. if orphan r cutoff t
             then t\<lparr>ft_status := TargetUnknown, ft_finishedAt := Some now, ft_error := Some interruptedMsg\<rparr>
             else t) (fr_targets r)\<rparr>))"

text \<open>What \<open>Claim\<close> takes of one run: at most \<open>left\<close> targets, keeping to the run's concurrency, and
  while the run is a canary only its first target, alone.\<close>

definition claimFree :: "int \<Rightarrow> frun \<Rightarrow> int" where
  "claimFree left r =
     (let free = (if fr_canary r then 1 - int (runningCount r) else fr_concurrency r - int (runningCount r))
      in if free > left then left else free)"

definition claimPositions :: "int \<Rightarrow> frun \<Rightarrow> nat list" where
  "claimPositions left r =
     take (nat (claimFree left r))
       (sort (map ft_position (filter (\<lambda>t. isPending t \<and> (fr_canary r \<longrightarrow> ft_position t = 0)) (fr_targets r))))"

definition claimRun :: "string \<Rightarrow> int \<Rightarrow> int \<Rightarrow> frun \<Rightarrow> frun" where
  "claimRun owner now left r =
     r\<lparr>fr_targets := map (\<lambda>t. if ft_position t \<in> set (claimPositions left r)
         then t\<lparr>ft_status := TargetRunning, ft_claimedBy := Some owner, ft_startedAt := Some now\<rparr> else t) (fr_targets r)\<rparr>"

subsection \<open>The repository\<close>

type_synonym fleetdb = "frun list"

definition getRun :: "uuid \<Rightarrow> fleetdb \<Rightarrow> apperr + frun" where
  "getRun i db = (case List.find (\<lambda>r. fr_id r = i) db of
     None \<Rightarrow> Inl (NotFound ''fleet run not found'') | Some r \<Rightarrow> Inr r)"

definition updateRun :: "uuid \<Rightarrow> (frun \<Rightarrow> frun) \<Rightarrow> fleetdb \<Rightarrow> fleetdb" where
  "updateRun i f db = map (\<lambda>r. if fr_id r = i then f r else r) db"

definition listByUser :: "uuid \<Rightarrow> nat \<Rightarrow> fleetdb \<Rightarrow> frun list" where
  "listByUser user limit db = take limit (rev (sort_key fr_createdAt (filter (\<lambda>r. fr_createdBy r = user) db)))"

record fclaim =
  fc_run :: frun
  fc_target :: ftarget

text \<open>The loop of \<open>Claim\<close> over the runs it locked; \<open>out\<close> is what has been handed out.\<close>

fun claimLoop :: "string \<Rightarrow> int \<Rightarrow> int \<Rightarrow> frun list \<Rightarrow> fclaim list \<Rightarrow> fleetdb \<Rightarrow> fclaim list \<times> fleetdb" where
  "claimLoop owner now mx [] out db = (out, db)"
| "claimLoop owner now mx (r # rs) out db =
     (let left = mx - int (length out) in
      if left \<le> 0 then (out, db)
      else if claimFree left r \<le> 0 then claimLoop owner now mx rs out db
      else
        let r' = claimRun owner now left r;
            taken = filter (\<lambda>t. ft_position t \<in> set (claimPositions left r)) (fr_targets r')
        in claimLoop owner now mx rs (out @ map (\<lambda>t. \<lparr>fc_run = r, fc_target = t\<rparr>) taken)
             (updateRun (fr_id r) (claimRun owner now left) db))"

text \<open>\<open>locked\<close> are the runs another claimer holds (\<open>SKIP LOCKED\<close>).\<close>

definition claimTargets :: "string \<Rightarrow> int \<Rightarrow> int \<Rightarrow> uuid list \<Rightarrow> fleetdb \<Rightarrow> fclaim list \<times> fleetdb" where
  "claimTargets owner now mx locked db =
     (if mx \<le> 0 then ([], db)
      else claimLoop owner now mx
        (take 20 (sort_key fr_createdAt (filter (\<lambda>r. fr_status r = RunRunning \<and> fr_id r \<notin> set locked) db))) [] db)"

definition canceling :: "string \<Rightarrow> fleetdb \<Rightarrow> (uuid \<times> nat) list" where
  "canceling owner db =
     concat (map (\<lambda>r. map (\<lambda>t. (fr_id r, ft_position t))
        (filter (\<lambda>t. fr_status r = RunCanceling \<and> ft_status t = TargetRunning \<and> ft_claimedBy t = Some owner) (fr_targets r))) db)"

definition reapOrphans :: "int \<Rightarrow> int \<Rightarrow> fleetdb \<Rightarrow> nat \<times> fleetdb" where
  "reapOrphans now cutoff db =
     (length (concat (map (\<lambda>r. filter (orphan r cutoff) (fr_targets r)) db)), map (reapRun now cutoff) db)"

definition pruneFinished :: "int \<Rightarrow> fleetdb \<Rightarrow> nat \<times> fleetdb" where
  "pruneFinished before db =
     (let old = (\<lambda>r. case fr_finishedAt r of None \<Rightarrow> False | Some t \<Rightarrow> t < before)
      in (length (filter old db), filter (\<lambda>r. \<not> old r) db))"

subsection \<open>Histories\<close>

inductive fleetStep :: "fleetdb \<Rightarrow> fleetdb \<Rightarrow> bool" where
  stepCreate: "fr_id run' \<notin> fr_id ` set db \<Longrightarrow> targets \<noteq> [] \<Longrightarrow> 1 \<le> fr_concurrency run \<Longrightarrow>
     run' = createRun fresh now run targets \<Longrightarrow> fleetStep db (db @ [run'])"
| stepClaim: "claimTargets owner now mx locked db = (out, db') \<Longrightarrow> fleetStep db db'"
| stepComplete: "oc_status o' \<notin> {TargetPending, TargetRunning} \<Longrightarrow>
     fleetStep db (updateRun i (completeRun now position o') db)"
| stepResume: "getRun i db = Inr r \<Longrightarrow> resumeRun now r = Inr r' \<Longrightarrow> fleetStep db (updateRun i (\<lambda>_. r') db)"
| stepCancel: "getRun i db = Inr r \<Longrightarrow> cancelRun now r = Inr r' \<Longrightarrow> fleetStep db (updateRun i (\<lambda>_. r') db)"
| stepRetry: "getRun i db = Inr r \<Longrightarrow> retryRun now r = Inr r' \<Longrightarrow> fleetStep db (updateRun i (\<lambda>_. r') db)"
| stepReap: "reapOrphans now cutoff db = (n, db') \<Longrightarrow> fleetStep db db'"
| stepPrune: "pruneFinished t db = (n, db') \<Longrightarrow> fleetStep db db'"

inductive fleetReach :: "fleetdb \<Rightarrow> bool" where
  reachInit: "fleetReach []"
| reachStep: "fleetReach db \<Longrightarrow> fleetStep db db' \<Longrightarrow> fleetReach db'"

inductive_cases fleetStepE: "fleetStep db db'"

subsection \<open>The invariant of a run\<close>

lemma countIn_zero: "countIn ss ts = 0 \<longleftrightarrow> (\<forall>t \<in> set ts. ft_status t \<notin> set ss)"
  by (auto simp: countIn_def filter_empty_conv)

lemma countIn_pos: "0 < countIn ss ts \<longleftrightarrow> (\<exists>t \<in> set ts. ft_status t \<in> set ss)"
  by (auto simp: countIn_def filter_empty_conv)

lemma countIn_map_le:
  "(\<And>t. t \<in> set ts \<Longrightarrow> ft_status (f t) \<in> set ss \<Longrightarrow> ft_status t \<in> set ss) \<Longrightarrow> countIn ss (map f ts) \<le> countIn ss ts"
  by (induction ts) (auto simp: countIn_def)

lemma countIn_cong:
  "(\<And>t. t \<in> set ts \<Longrightarrow> ft_status (f t) \<in> set ss \<longleftrightarrow> ft_status t \<in> set ss) \<Longrightarrow> countIn ss (map f ts) = countIn ss ts"
  by (induction ts) (auto simp: countIn_def)

text \<open>What holds of a run whenever no transaction is open: its counters are those of its targets, it is
  finished exactly when no target is left to run, it never runs more targets at once than it may,
  a paused run has something to resume, and while a run is a canary only its first target ran.\<close>

definition statusOk :: "frun \<Rightarrow> bool" where
  "statusOk r \<longleftrightarrow>
     (fr_status r = RunSucceeded \<longrightarrow> countIn [TargetFailed, TargetUnknown] (fr_targets r) = 0)
   \<and> (fr_status r = RunFailed \<longrightarrow> 0 < countIn [TargetFailed, TargetUnknown] (fr_targets r))
   \<and> (fr_status r = RunPaused \<longrightarrow> (\<exists>t \<in> set (fr_targets r). isPending t))
   \<and> (fr_status r = RunCanceling \<longrightarrow> (\<forall>t \<in> set (fr_targets r). \<not> isPending t))
   \<and> (fr_canary r \<and> fr_status r \<in> {RunRunning, RunPaused}
        \<longrightarrow> (\<forall>t \<in> set (fr_targets r). 0 < ft_position t \<longrightarrow> isPending t))"

definition boundsOk :: "frun \<Rightarrow> bool" where
  "boundsOk r \<longleftrightarrow> distinct (map ft_position (fr_targets r)) \<and> 1 \<le> fr_concurrency r
     \<and> int (runningCount r) \<le> fr_concurrency r"

definition countersOk :: "frun \<Rightarrow> bool" where
  "countersOk r \<longleftrightarrow> fr_succeeded r = countIn [TargetSucceeded] (fr_targets r)
     \<and> fr_failed r = countIn [TargetFailed, TargetUnknown] (fr_targets r)
     \<and> fr_skipped r = countIn [TargetSkipped, TargetCanceled] (fr_targets r)
     \<and> (fr_finishedAt r = None \<longleftrightarrow> openCount r \<noteq> 0)"

definition runOk :: "frun \<Rightarrow> bool" where
  "runOk r \<longleftrightarrow> boundsOk r \<and> countersOk r \<and> statusOk r \<and> (runFinished r \<longleftrightarrow> openCount r = 0)"

lemma settle_fields [simp]:
  "fr_targets (settle now r) = fr_targets r" "fr_concurrency (settle now r) = fr_concurrency r"
  "fr_canary (settle now r) = fr_canary r" "fr_id (settle now r) = fr_id r"
  by (simp_all add: settle_def Let_def)

lemma settle_countersOk: "countersOk (settle now r)"
  by (auto simp: countersOk_def settle_def Let_def split: option.splits)

lemma settle_boundsOk: "boundsOk (settle now r) = boundsOk r"
  by (simp add: boundsOk_def runningCount_def)

lemma settle_status:
  "fr_status (settle now r) =
     (if openCount r = 0 \<and> \<not> runFinished r
      then (if fr_status r = RunCanceling then RunCanceled
            else if 0 < countIn [TargetFailed, TargetUnknown] (fr_targets r) then RunFailed else RunSucceeded)
      else fr_status r)"
  by (cases "fr_status r") (auto simp: settle_def Let_def runFinished_def)

lemma settle_runOk:
  assumes "boundsOk r" and "\<not> runFinished r"
    and "openCount r \<noteq> 0 \<Longrightarrow> statusOk r"
  shows "runOk (settle now r)"
proof (cases "openCount r = 0")
  case True
  then show ?thesis
    using assms(1,2) settle_countersOk [of now r] settle_status [of now r]
    by (auto simp: runOk_def settle_boundsOk statusOk_def runFinished_def)
next
  case False
  then have "statusOk (settle now r)"
    using assms(3) settle_status [of now r] by (simp add: statusOk_def)
  then show ?thesis
    using assms False settle_countersOk [of now r] settle_status [of now r]
    by (simp add: runOk_def settle_boundsOk runFinished_def)
qed

lemma unfinished: "runOk r \<Longrightarrow> t \<in> set (fr_targets r) \<Longrightarrow> ft_status t \<in> {TargetPending, TargetRunning} \<Longrightarrow> \<not> runFinished r"
  by (auto simp: runOk_def countIn_zero)

lemma runningCount_le: "(\<And>t. t \<in> set (fr_targets r) \<Longrightarrow> ft_status (f t) = TargetRunning \<Longrightarrow> ft_status t = TargetRunning) \<Longrightarrow>
    runningCount (r\<lparr>fr_targets := map f (fr_targets r)\<rparr>) \<le> runningCount r"
  unfolding runningCount_def by (simp, rule countIn_map_le) auto

lemma boundsOk_map:
  assumes "boundsOk r" "\<And>t. ft_position (f t) = ft_position t"
    and "\<And>t. t \<in> set (fr_targets r) \<Longrightarrow> ft_status (f t) = TargetRunning \<Longrightarrow> ft_status t = TargetRunning"
    and "fr_targets r' = map f (fr_targets r)" "fr_concurrency r' = fr_concurrency r"
  shows "boundsOk r'"
proof -
  have "map ft_position (map f (fr_targets r)) = map ft_position (fr_targets r)" using assms(2) by simp
  moreover have "countIn [TargetRunning] (map f (fr_targets r)) \<le> countIn [TargetRunning] (fr_targets r)"
    using assms(3) by (intro countIn_map_le) auto
  ultimately show ?thesis using assms(1,4,5) by (simp add: boundsOk_def runningCount_def del: map_map)
qed

lemma boundsOk_upd:
  assumes "boundsOk r" "\<And>t. ft_position (f t) = ft_position t"
    and "\<And>t. ft_status (f t) = TargetRunning \<Longrightarrow> ft_status t = TargetRunning"
  shows "boundsOk (r\<lparr>fr_targets := map f (fr_targets r)\<rparr>)"
proof (rule boundsOk_map [of r f, OF assms(1,2)])
  show "ft_status t = TargetRunning" if "ft_status (f t) = TargetRunning" for t using that by (rule assms(3))
qed simp_all

lemma runOk_bounds: "runOk r \<Longrightarrow> boundsOk r"
  by (simp add: runOk_def)

lemma cancelRun_ok: "runOk r \<Longrightarrow> cancelRun now r = Inr r' \<Longrightarrow> runOk r'"
proof -
  assume ok: "runOk r" and c: "cancelRun now r = Inr r'"
  let ?r = "r\<lparr>fr_status := RunCanceling, fr_updatedAt := now,
              fr_targets := setStatusWhere isPending TargetCanceled (fr_targets r)\<rparr>"
  have "boundsOk ?r"
    by (rule boundsOk_map [of r "\<lambda>t. if isPending t then t\<lparr>ft_status := TargetCanceled\<rparr> else t", OF runOk_bounds [OF ok]])
      (simp_all add: setStatusWhere_def split: if_split_asm)
  moreover have "statusOk ?r" by (auto simp: statusOk_def setStatusWhere_def)
  ultimately have "runOk (settle now ?r)" by (intro settle_runOk) (simp_all add: runFinished_def)
  with c show ?thesis by (auto simp: cancelRun_def split: if_splits)
qed

lemma resumeRun_ok: "runOk r \<Longrightarrow> resumeRun now r = Inr r' \<Longrightarrow> runOk r'"
  by (auto simp: resumeRun_def runOk_def boundsOk_def countersOk_def statusOk_def runningCount_def runFinished_def
      split: if_splits)

lemma retryRun_ok:
  assumes ok: "runOk r" and c: "retryRun now r = Inr r'"
  shows "runOk r'"
proof -
  let ?f = "\<lambda>t. if retryable t then t\<lparr>ft_status := TargetPending, ft_results := None, ft_rowsAffected := None,
      ft_error := None, ft_claimedBy := None, ft_startedAt := None, ft_finishedAt := None\<rparr> else t"
  let ?r = "r\<lparr>fr_status := RunRunning, fr_canary := False, fr_targets := map ?f (fr_targets r)\<rparr>"
  have "boundsOk ?r"
    by (rule boundsOk_map [of r ?f, OF runOk_bounds [OF ok]]) (simp_all split: if_split_asm)
  then have "runOk (settle now ?r)"
    by (intro settle_runOk) (simp_all add: runFinished_def statusOk_def)
  with c show ?thesis by (simp add: retryRun_def split: if_splits)
qed

lemma statusOk_map:
  assumes "statusOk r" "\<not> runFinished r"
    and "\<And>t. isPending (f t) \<longleftrightarrow> isPending t" "\<And>t. ft_position (f t) = ft_position t"
  shows "statusOk (r\<lparr>fr_targets := map f (fr_targets r)\<rparr>)"
  using assms by (simp add: statusOk_def runFinished_def)

lemma statusOk_complete:
  assumes "statusOk r" "\<not> runFinished r" "skip \<Longrightarrow> fr_status r = RunRunning"
    and pend: "\<And>t. isPending (f t) \<longleftrightarrow> isPending t \<and> \<not> skip"
    and pos: "\<And>t. ft_position (f t) = ft_position t"
    and run: "\<And>t. ft_status (f t) = TargetRunning \<Longrightarrow> ft_status t = TargetRunning \<and> ft_position t \<noteq> p"
    and p: "fr_canary r \<Longrightarrow> fr_status r = RunRunning \<Longrightarrow> p = 0"
    and r': "r' = (if fr_canary r \<and> p = 0 \<and> fr_status r = RunRunning \<and> filter isPending (map f (fr_targets r)) \<noteq> []
                   then r\<lparr>fr_targets := map f (fr_targets r), fr_status := RunPaused\<rparr>
                   else r\<lparr>fr_targets := map f (fr_targets r)\<rparr>)"
    and op: "openCount r' \<noteq> 0"
  shows "statusOk r'"
proof -
  have ts: "fr_targets r' = map f (fr_targets r)" using r' by simp
  consider "fr_status r = RunRunning" "fr_canary r" | "fr_status r = RunRunning" "\<not> fr_canary r"
    | "fr_status r = RunPaused" | "fr_status r = RunCanceling"
    using assms(2) by (cases "fr_status r") (auto simp: runFinished_def)
  then show ?thesis
  proof cases
    case 1
    have "\<exists>t \<in> set (fr_targets r). isPending (f t)"
    proof -
      obtain t where t: "t \<in> set (fr_targets r)" "ft_status (f t) \<in> {TargetPending, TargetRunning}"
        using op ts by (auto simp: countIn_zero)
      moreover have "ft_status (f t) \<noteq> TargetRunning"
        using run [of t] p 1 assms(1) t(1) by (auto simp: statusOk_def)
      ultimately show ?thesis by auto
    qed
    moreover from this have "\<not> skip" using pend by auto
    ultimately show ?thesis using 1 p assms(1) pend pos
      by (auto simp: r' statusOk_def filter_empty_conv)
  next
    case 2
    then show ?thesis by (simp add: r' statusOk_def)
  next
    case 3
    then show ?thesis using assms(1,3) pend pos by (auto simp: r' statusOk_def)
  next
    case 4
    then show ?thesis using assms(1,3) pend pos by (auto simp: r' statusOk_def)
  qed
qed

lemma reapRun_ok:
  assumes ok: "runOk r"
  shows "runOk (reapRun now cutoff r)"
proof (cases "filter (orphan r cutoff) (fr_targets r) = []")
  case True
  with ok show ?thesis by (simp add: reapRun_def)
next
  case False
  let ?f = "\<lambda>t. if orphan r cutoff t
     then t\<lparr>ft_status := TargetUnknown, ft_finishedAt := Some now, ft_error := Some interruptedMsg\<rparr> else t"
  let ?r = "r\<lparr>fr_targets := map ?f (fr_targets r)\<rparr>"
  obtain t where t: "t \<in> set (fr_targets r)" "orphan r cutoff t" using False by (auto simp: filter_empty_conv)
  then have nf: "\<not> runFinished r" using ok unfinished [of r t] by (auto simp: orphan_def)
  have "boundsOk ?r"
    by (rule boundsOk_map [of r ?f, OF runOk_bounds [OF ok]]) (simp_all split: if_split_asm)
  moreover have "statusOk ?r"
    by (rule statusOk_map) (use ok nf in \<open>simp_all add: runOk_def orphan_def\<close>)
  ultimately have "runOk (settle now ?r)" using nf by (intro settle_runOk) (simp_all add: runFinished_def)
  with False show ?thesis by (simp add: reapRun_def)
qed

lemma completeRun_ok:
  assumes ok: "runOk r" and oc: "oc_status o' \<notin> {TargetPending, TargetRunning}"
  shows "runOk (completeRun now position o' r)"
proof -
  define hit where "hit = (\<lambda>t :: ftarget. ft_position t = position \<and> ft_status t = TargetRunning)"
  define g where "g = (\<lambda>t :: ftarget. if hit t
      then t\<lparr>ft_status := oc_status o', ft_results := oc_results o', ft_rowsAffected := oc_rowsAffected o',
             ft_error := (if oc_error o' \<noteq> [] then Some (oc_error o') else None), ft_finishedAt := Some now\<rparr> else t)"
  define skip where "skip \<longleftrightarrow> oc_status o' \<noteq> TargetSucceeded \<and> fr_stopOnError r \<and> fr_status r = RunRunning"
  define h where "h = (\<lambda>t :: ftarget. if skip \<and> isPending (g t) then (g t)\<lparr>ft_status := TargetSkipped\<rparr> else g t)"
  let ?r = "if fr_canary r \<and> position = 0 \<and> fr_status r = RunRunning \<and> filter isPending (map h (fr_targets r)) \<noteq> []
    then r\<lparr>fr_targets := map h (fr_targets r), fr_status := RunPaused\<rparr> else r\<lparr>fr_targets := map h (fr_targets r)\<rparr>"
  have g: "ft_position (g t) = ft_position t" "isPending (g t) \<longleftrightarrow> isPending t"
    "ft_status (g t) = TargetRunning \<Longrightarrow> ft_status t = TargetRunning \<and> ft_position t \<noteq> position" for t
    using oc by (auto simp: g_def hit_def split: if_split_asm)
  have hpos: "ft_position (h t) = ft_position t" for t by (simp add: h_def g)
  have hpend: "isPending (h t) \<longleftrightarrow> isPending t \<and> \<not> skip" for t by (auto simp: h_def g)
  have hrun: "ft_status (h t) = TargetRunning \<Longrightarrow> ft_status t = TargetRunning \<and> ft_position t \<noteq> position" for t
    using g(3) by (simp add: h_def split: if_split_asm)
  show ?thesis
  proof (cases "filter hit (fr_targets r) = []")
    case True
    with ok show ?thesis by (simp add: completeRun_def hit_def)
  next
    case False
    then obtain t0 where t0: "t0 \<in> set (fr_targets r)" "hit t0" by (auto simp: filter_empty_conv)
    then have nf: "\<not> runFinished r" using ok unfinished [of r t0] by (auto simp: hit_def)
    have "(if skip then setStatusWhere isPending TargetSkipped (map g (fr_targets r)) else map g (fr_targets r))
        = map h (fr_targets r)"
      by (simp add: setStatusWhere_def h_def)
    moreover have "completeRun now position o' r =
      (let ts2 = (if skip then setStatusWhere isPending TargetSkipped (map g (fr_targets r)) else map g (fr_targets r))
       in settle now (if fr_canary r \<and> position = 0 \<and> fr_status r = RunRunning \<and> filter isPending ts2 \<noteq> []
                      then (r\<lparr>fr_targets := ts2\<rparr>)\<lparr>fr_status := RunPaused\<rparr> else r\<lparr>fr_targets := ts2\<rparr>))"
      using False unfolding completeRun_def g_def skip_def hit_def Let_def by simp
    ultimately have eq: "completeRun now position o' r = settle now ?r" by (simp only: Let_def)
    have "boundsOk (r\<lparr>fr_targets := map h (fr_targets r)\<rparr>)"
      by (rule boundsOk_upd [OF runOk_bounds [OF ok] hpos]) (rule conjunct1 [OF hrun])
    then have b: "boundsOk ?r" by (simp add: boundsOk_def runningCount_def)
    have canary: "position = 0" if "fr_canary r" "fr_status r = RunRunning"
      using that ok t0 by (auto simp: runOk_def statusOk_def hit_def)
    have sk: "fr_status r = RunRunning" if skip using that by (simp add: skip_def)
    have so: "statusOk r" using ok by (simp add: runOk_def)
    have "statusOk ?r" if "openCount ?r \<noteq> 0"
      by (rule statusOk_complete [of r skip h position ?r, OF so nf sk hpend hpos hrun canary refl that])
    then have "runOk (settle now ?r)" using b nf by (intro settle_runOk) (simp_all add: runFinished_def)
    then show ?thesis by (simp only: eq)
  qed
qed

subsection \<open>Claims keep a run within its concurrency\<close>

lemma countIn_running_claim:
  assumes "distinct (map ft_position ts)"
  shows "countIn [TargetRunning] (map (\<lambda>t. if ft_position t \<in> set ps
            then t\<lparr>ft_status := TargetRunning, ft_claimedBy := ow, ft_startedAt := tm\<rparr> else t) ts)
         \<le> countIn [TargetRunning] ts + length (filter (\<lambda>t. ft_position t \<in> set ps) ts)"
  by (induction ts) (auto simp: countIn_def)

lemma length_positions:
  assumes "distinct (map ft_position ts)"
  shows "length (filter (\<lambda>t. ft_position t \<in> set ps) ts) \<le> length ps"
proof -
  have "length (filter (\<lambda>t. ft_position t \<in> set ps) ts) = card (set (map ft_position (filter (\<lambda>t. ft_position t \<in> set ps) ts)))"
    using assms by (metis distinct_card distinct_map_filter length_map)
  also have "\<dots> \<le> card (set ps)" by (rule card_mono) auto
  also have "\<dots> \<le> length ps" by (rule card_length)
  finally show ?thesis .
qed

lemma claimPositions_pending:
  "p \<in> set (claimPositions left r) \<Longrightarrow> \<exists>t \<in> set (fr_targets r). ft_position t = p \<and> isPending t
     \<and> (fr_canary r \<longrightarrow> p = 0)"
  by (auto simp: claimPositions_def dest!: in_set_takeD)

lemma length_claimPositions: "int (length (claimPositions left r)) \<le> max 0 (claimFree left r)"
  by (simp add: claimPositions_def)

lemma claimRun_ok:
  assumes ok: "runOk r" and st: "fr_status r = RunRunning"
  shows "runOk (claimRun owner now left r)"
proof -
  let ?ps = "claimPositions left r"
  let ?f = "\<lambda>t. if ft_position t \<in> set ?ps
    then t\<lparr>ft_status := TargetRunning, ft_claimedBy := Some owner, ft_startedAt := Some now\<rparr> else t"
  let ?r = "claimRun owner now left r"
  have bo: "boundsOk r" using ok by (rule runOk_bounds)
  have dist: "distinct (map ft_position (fr_targets r))" using bo by (simp add: boundsOk_def)
  have pend: "isPending t" if t: "t \<in> set (fr_targets r)" "ft_position t \<in> set ?ps" for t
  proof -
    obtain t' where "t' \<in> set (fr_targets r)" "ft_position t' = ft_position t" "isPending t'"
      using claimPositions_pending [OF t(2)] by blast
    with t dist show ?thesis by (metis (no_types, lifting) distinct_map inj_onD)
  qed
  have same: "countIn ss (map ?f (fr_targets r)) = countIn ss (fr_targets r)"
    if "TargetPending \<in> set ss \<longleftrightarrow> TargetRunning \<in> set ss" for ss
    using that pend by (intro countIn_cong) auto
  have ts: "fr_targets ?r = map ?f (fr_targets r)" by (simp add: claimRun_def)
  have "boundsOk ?r"
  proof -
    have "int (runningCount ?r) \<le> int (runningCount r) + int (length ?ps)"
      using countIn_running_claim [OF dist, where ps = ?ps and ow = "Some owner" and tm = "Some now"] length_positions [OF dist, of ?ps]
      by (simp add: runningCount_def ts)
    moreover have "int (length ?ps) \<le> max 0 (fr_concurrency r - int (runningCount r))"
      using length_claimPositions [of left r] bo
      by (auto simp: claimFree_def Let_def boundsOk_def split: if_splits)
    moreover have "map ft_position (fr_targets ?r) = map ft_position (fr_targets r)" by (simp add: ts)
    moreover have "fr_concurrency ?r = fr_concurrency r" by (simp add: claimRun_def)
    ultimately show ?thesis using bo unfolding boundsOk_def by auto
  qed
  moreover have "countersOk ?r"
    using ok same by (simp add: runOk_def countersOk_def ts) (simp add: claimRun_def)
  moreover have "statusOk ?r"
  proof -
    have "isPending t" if "fr_canary r" "t \<in> set (fr_targets ?r)" "0 < ft_position t" for t
    proof -
      obtain u where u: "u \<in> set (fr_targets r)" "t = ?f u" using \<open>t \<in> _\<close> by (auto simp: ts)
      then have p: "0 < ft_position u" using \<open>0 < ft_position t\<close> by (auto split: if_splits)
      then have "ft_position u \<notin> set ?ps" using claimPositions_pending [of "ft_position u" left r] that(1) by auto
      moreover have "isPending u" using ok st that(1) u(1) p by (auto simp: runOk_def statusOk_def)
      ultimately show ?thesis using u(2) by simp
    qed
    moreover have "fr_status ?r = RunRunning" "fr_canary ?r = fr_canary r" using st by (simp_all add: claimRun_def)
    ultimately show ?thesis by (simp add: statusOk_def)
  qed
  moreover have "runFinished ?r \<longleftrightarrow> openCount ?r = 0"
    using ok same by (simp add: runOk_def ts) (simp add: claimRun_def runFinished_def)
  ultimately show ?thesis by (simp add: runOk_def)
qed


subsection \<open>Every reachable state satisfies the invariant\<close>

definition fleetOk :: "fleetdb \<Rightarrow> bool" where
  "fleetOk db \<longleftrightarrow> distinct (map fr_id db) \<and> (\<forall>r \<in> set db. runOk r)"

lemma fr_id_steps [simp]:
  "fr_id (claimRun owner now left r) = fr_id r" "fr_id (completeRun now position o' r) = fr_id r"
  "fr_id (reapRun now cutoff r) = fr_id r"
proof -
  have "fr_id (if c then r else settle now (if d then r1 else r2)) = fr_id r"
    if "fr_id r1 = fr_id r" "fr_id r2 = fr_id r" for c d r1 r2 and r :: frun
    using that by simp
  then show "fr_id (completeRun now position o' r) = fr_id r"
    unfolding completeRun_def Let_def by (rule) simp_all
qed (simp_all add: claimRun_def reapRun_def)

lemma fr_id_results:
  "resumeRun now r = Inr r' \<Longrightarrow> fr_id r' = fr_id r" "cancelRun now r = Inr r' \<Longrightarrow> fr_id r' = fr_id r"
  "retryRun now r = Inr r' \<Longrightarrow> fr_id r' = fr_id r"
  by (auto simp: resumeRun_def cancelRun_def retryRun_def split: if_splits)

lemma map_fr_id_updateRun: "(\<And>r. fr_id r = i \<Longrightarrow> fr_id (f r) = i) \<Longrightarrow> map fr_id (updateRun i f db) = map fr_id db"
  by (auto simp: updateRun_def)

lemma fleetOk_updateRun:
  assumes "fleetOk db" "\<And>r. fr_id r = i \<Longrightarrow> fr_id (f r) = i"
    and "\<And>r. r \<in> set db \<Longrightarrow> fr_id r = i \<Longrightarrow> runOk (f r)"
  shows "fleetOk (updateRun i f db)"
proof -
  have "distinct (map fr_id (updateRun i f db))"
    using assms(1) map_fr_id_updateRun [of i f db] assms(2) by (simp add: fleetOk_def)
  moreover have "\<forall>r \<in> set (updateRun i f db). runOk r"
    using assms(1,3) by (auto simp: fleetOk_def updateRun_def)
  ultimately show ?thesis by (simp add: fleetOk_def)
qed

lemma getRun_mem: "getRun i db = Inr r \<Longrightarrow> r \<in> set db \<and> fr_id r = i"
  by (auto simp: getRun_def find_Some_iff split: option.splits)

lemma claimLoop_ok:
  "fleetOk db \<Longrightarrow> distinct (map fr_id rs) \<Longrightarrow> \<forall>r \<in> set rs. r \<in> set db \<and> fr_status r = RunRunning \<Longrightarrow>
   fleetOk (snd (claimLoop owner now mx rs out db))"
proof (induction owner now mx rs out db rule: claimLoop.induct)
  case (2 owner now mx r rs out db)
  define left where "left = mx - int (length out)"
  show ?case
  proof (cases "left \<le> 0 \<or> claimFree left r \<le> 0")
    case True
    then show ?thesis using 2 by (auto simp: left_def [symmetric] Let_def)
  next
    case False
    let ?db = "updateRun (fr_id r) (claimRun owner now left) db"
    have uniq: "r' = r" if "r' \<in> set db" "fr_id r' = fr_id r" for r'
      using that 2(3,5) by (auto simp: fleetOk_def distinct_map dest: inj_onD)
    have "fleetOk ?db"
    proof (rule fleetOk_updateRun [OF "2.prems"(1)])
      fix r' assume "r' \<in> set db" "fr_id r' = fr_id r"
      then have "r' = r" by (rule uniq)
      then show "runOk (claimRun owner now left r')"
        using "2.prems" by (auto simp: fleetOk_def intro: claimRun_ok)
    qed simp
    moreover have "\<forall>r' \<in> set rs. r' \<in> set ?db \<and> fr_status r' = RunRunning"
    proof
      fix r' assume m: "r' \<in> set rs"
      then have "fr_id r' \<noteq> fr_id r" using "2.prems"(2) by (auto dest: sym)
      then show "r' \<in> set ?db \<and> fr_status r' = RunRunning"
        using m "2.prems"(3) by (auto simp: updateRun_def intro: image_eqI [of _ _ r'])
    qed
    ultimately show ?thesis
      using "2.IH"(2) [OF left_def _ _ refl refl] "2.prems" False
      by (simp add: Let_def left_def [symmetric])
  qed
qed simp

lemma createRun_ok:
  assumes "targets \<noteq> []" "1 \<le> fr_concurrency run"
  shows "runOk (createRun fresh now run targets)"
proof -
  let ?ts = "fr_targets (createRun fresh now run targets)"
  have pend: "\<forall>t \<in> set ?ts. isPending t" by (auto simp: createRun_def)
  have "map ft_position ?ts = [0..<length targets]"
    by (simp add: createRun_def enumerate_eq_zip zip_map_fst_snd comp_def case_prod_unfold)
  moreover have "?ts \<noteq> []" using assms(1) by (simp add: createRun_def enumerate_eq_zip)
  moreover have "countIn ss ?ts = 0" if "TargetPending \<notin> set ss" for ss
    using pend that by (auto simp: countIn_zero)
  moreover have "openCount (createRun fresh now run targets) \<noteq> 0"
    using pend calculation(2) by (auto simp: countIn_zero neq_Nil_conv)
  ultimately show ?thesis using pend assms(2)
    by (simp add: runOk_def boundsOk_def countersOk_def statusOk_def runningCount_def runFinished_def)
      (simp add: createRun_def)
qed

lemma fleetStep_ok: "fleetStep db db' \<Longrightarrow> fleetOk db \<Longrightarrow> fleetOk db'"
proof (induction rule: fleetStep.induct)
  case (stepCreate run' db targets run fresh now)
  then show ?case using createRun_ok [of targets run fresh now] by (auto simp: fleetOk_def)
next
  case (stepClaim owner now mx locked db out db')
  let ?rs = "take 20 (sort_key fr_createdAt (filter (\<lambda>r. fr_status r = RunRunning \<and> fr_id r \<notin> set locked) db))"
  have "distinct (map fr_id ?rs)"
  proof -
    have "distinct (map fr_id (sort_key fr_createdAt (filter (\<lambda>r. fr_status r = RunRunning \<and> fr_id r \<notin> set locked) db)))"
      using stepClaim(2) by (auto simp: fleetOk_def distinct_map intro: inj_on_subset)
    then show ?thesis by (simp add: take_map [symmetric])
  qed
  moreover have "\<forall>r \<in> set ?rs. r \<in> set db \<and> fr_status r = RunRunning" by (auto dest!: in_set_takeD)
  ultimately have ok: "fleetOk (snd (claimLoop owner now mx ?rs [] db))" using claimLoop_ok [OF stepClaim(2)] by blast
  show ?case
  proof (cases "mx \<le> 0")
    case True
    with stepClaim show ?thesis by (simp add: claimTargets_def)
  next
    case False
    with stepClaim(1) have "snd (claimLoop owner now mx ?rs [] db) = db'" by (simp add: claimTargets_def)
    with ok show ?thesis by simp
  qed
next
  case (stepComplete o' db i now position)
  then show ?case by (intro fleetOk_updateRun) (auto simp: fleetOk_def intro: completeRun_ok)
next
  case (stepResume i db r now r')
  then show ?case using getRun_mem [OF stepResume(1)] fr_id_results(1) [OF stepResume(2)]
    by (intro fleetOk_updateRun) (auto simp: fleetOk_def intro: resumeRun_ok)
next
  case (stepCancel i db r now r')
  then show ?case using getRun_mem [OF stepCancel(1)] fr_id_results(2) [OF stepCancel(2)]
    by (intro fleetOk_updateRun) (auto simp: fleetOk_def intro: cancelRun_ok)
next
  case (stepRetry i db r now r')
  then show ?case using getRun_mem [OF stepRetry(1)] fr_id_results(3) [OF stepRetry(2)]
    by (intro fleetOk_updateRun) (auto simp: fleetOk_def intro: retryRun_ok)
next
  case (stepReap now cutoff db n db')
  then show ?case by (auto simp: fleetOk_def reapOrphans_def comp_def reapRun_ok)
next
  case (stepPrune t db n db')
  then show ?case by (auto simp: fleetOk_def pruneFinished_def Let_def distinct_map_filter)
qed

lemma fleetReach_ok: "fleetReach db \<Longrightarrow> fleetOk db"
  by (induction rule: fleetReach.induct) (auto simp: fleetOk_def [of "[]"] intro: fleetStep_ok)


text \<open>C1. In every history of the repository's operations, in any order and with any interleaving of
  claimers, every run satisfies: no more of its targets run at once than its concurrency; its
  counters are those of its targets; it has finished, with a finish time, exactly when nothing is
  pending or running; a run that succeeded has no failed or interrupted target and a failed one
  has; a paused run has something to resume; and until it is resumed, only the first target of a
  canary run was ever started.\<close>

theorem fleet_invariant:
  assumes "fleetReach db" and "r \<in> set db"
  shows "int (runningCount r) \<le> fr_concurrency r
    \<and> (fr_succeeded r, fr_failed r, fr_skipped r)
        = (countIn [TargetSucceeded] (fr_targets r), countIn [TargetFailed, TargetUnknown] (fr_targets r),
           countIn [TargetSkipped, TargetCanceled] (fr_targets r))
    \<and> (runFinished r \<longleftrightarrow> openCount r = 0) \<and> (fr_finishedAt r \<noteq> None \<longleftrightarrow> openCount r = 0)
    \<and> (fr_status r = RunSucceeded \<longrightarrow> fr_failed r = 0) \<and> (fr_status r = RunFailed \<longrightarrow> 0 < fr_failed r)
    \<and> (fr_status r = RunPaused \<longrightarrow> (\<exists>t \<in> set (fr_targets r). isPending t))
    \<and> (fr_canary r \<and> fr_status r \<in> {RunRunning, RunPaused}
         \<longrightarrow> (\<forall>t \<in> set (fr_targets r). 0 < ft_position t \<longrightarrow> isPending t))"
proof -
  have "runOk r" using fleetReach_ok [OF assms(1)] assms(2) by (simp add: fleetOk_def)
  then show ?thesis by (simp add: runOk_def boundsOk_def countersOk_def statusOk_def)
qed

text \<open>A concrete run over \<open>n\<close> databases.\<close>

definition demoTarget :: ftarget where
  "demoTarget = \<lparr>ft_position = 0, ft_databaseId = Some 1, ft_databaseName = ''d'', ft_instanceName = ''i'',
     ft_engine = ''mysql'', ft_status = TargetPending, ft_results = None, ft_rowsAffected = None, ft_error = None,
     ft_claimedBy = None, ft_startedAt = None, ft_finishedAt = None\<rparr>"

definition demoRun :: "bool \<Rightarrow> bool \<Rightarrow> frun" where
  "demoRun stop canary = \<lparr>fr_id = 0, fr_createdBy = 5, fr_sql = ''DELETE FROM t'', fr_writes = True,
     fr_status = RunRunning, fr_concurrency = 4, fr_stopOnError = stop, fr_canary = canary, fr_timeoutSeconds = 60,
     fr_rowLimit = 100, fr_tokenScopes = None, fr_total = 0, fr_succeeded = 0, fr_failed = 0, fr_skipped = 0,
     fr_createdAt = 0, fr_updatedAt = 0, fr_finishedAt = None, fr_targets = []\<rparr>"

definition demoDb :: "nat \<Rightarrow> bool \<Rightarrow> bool \<Rightarrow> fleetdb" where
  "demoDb n stop canary = [createRun 9 100 (demoRun stop canary) (replicate n demoTarget)]"

lemma demoDb_reach: "0 < n \<Longrightarrow> fleetReach (demoDb n stop canary)"
proof (rule reachStep [OF reachInit])
  assume n: "0 < n"
  have "fleetStep [] ([] @ [createRun 9 100 (demoRun stop canary) (replicate n demoTarget)])"
    by (rule stepCreate [where run = "demoRun stop canary" and targets = "replicate n demoTarget" and fresh = 9 and now = 100])
      (use n in \<open>simp_all add: demoRun_def\<close>)
  then show "fleetStep [] (demoDb n stop canary)" by (simp add: demoDb_def)
qed

definition claimedDb :: "nat \<Rightarrow> bool \<Rightarrow> bool \<Rightarrow> fleetdb" where
  "claimedDb n stop canary = snd (claimTargets ''runner'' 200 8 [] (demoDb n stop canary))"

lemma claimedDb_reach: "0 < n \<Longrightarrow> fleetReach (claimedDb n stop canary)"
proof -
  assume "0 < n"
  moreover have "fleetStep (demoDb n stop canary) (claimedDb n stop canary)"
    unfolding claimedDb_def by (rule stepClaim [OF prod.collapse [symmetric]])
  ultimately show ?thesis using demoDb_reach reachStep by blast
qed

lemma fleet_invariant_witness:
  "\<exists>r \<in> set (claimedDb 3 True True). int (runningCount r) = 1 \<and> int (runningCount r) \<le> fr_concurrency r"
proof -
  have "list_ex (\<lambda>r. runningCount r = 1) (claimedDb 3 True True)" by code_simp
  then obtain r where r: "r \<in> set (claimedDb 3 True True)" "runningCount r = 1" by (auto simp: list_ex_iff)
  have "fleetReach (claimedDb 3 True True)" by (rule claimedDb_reach) simp
  from fleet_invariant [OF this r(1)] r show ?thesis by auto
qed

subsection \<open>Outcomes\<close>

text \<open>Stop on error stops: when a target of a running run does not succeed and the run stops on
  errors, recording the outcome leaves no target pending, so nothing more of the run is ever handed
  out; and an outcome for a target that is no longer running (it was given up on) changes nothing.\<close>

theorem complete_stops_on_error:
  "if \<exists>t \<in> set (fr_targets r). ft_position t = position \<and> ft_status t = TargetRunning
   then (if fr_stopOnError r \<and> fr_status r = RunRunning \<and> oc_status o' \<notin> {TargetSucceeded, TargetPending}
         then claimPositions left (completeRun now position o' r) = [] else True)
   else completeRun now position o' r = r"
proof (cases "\<exists>t \<in> set (fr_targets r). ft_position t = position \<and> ft_status t = TargetRunning")
  case False
  then have "filter (\<lambda>t. ft_position t = position \<and> ft_status t = TargetRunning) (fr_targets r) = []"
    by (auto simp: filter_empty_conv)
  then have "completeRun now position o' r = r" by (simp add: completeRun_def)
  with False show ?thesis by (simp only: if_False)
next
  case True
  then have ne: "filter (\<lambda>t. ft_position t = position \<and> ft_status t = TargetRunning) (fr_targets r) \<noteq> []"
    by (auto simp: filter_empty_conv)
  have "claimPositions left (completeRun now position o' r) = []"
    if st: "fr_stopOnError r" "fr_status r = RunRunning" "oc_status o' \<notin> {TargetSucceeded, TargetPending}"
  proof -
    define ts where "ts = map (\<lambda>t. if ft_position t = position \<and> ft_status t = TargetRunning
      then t\<lparr>ft_status := oc_status o', ft_results := oc_results o', ft_rowsAffected := oc_rowsAffected o',
             ft_error := (if oc_error o' \<noteq> [] then Some (oc_error o') else None), ft_finishedAt := Some now\<rparr>
      else t) (fr_targets r)"
    have "fr_targets (completeRun now position o' r) = setStatusWhere isPending TargetSkipped ts"
      using ne st unfolding completeRun_def Let_def ts_def by simp
    moreover have "\<not> isPending t" if "t \<in> set (setStatusWhere isPending TargetSkipped ts)" for t
      using that by (auto simp: setStatusWhere_def)
    ultimately show ?thesis by (simp add: claimPositions_def)
  qed
  with True show ?thesis by simp
qed

text \<open>An interrupted canary hangs its run.  When the runner of a canary dies, its only started target is
  given up on as unknown, but the run keeps the status running with its canary flag: it is neither
  paused nor stopped, and no claim of any runner ever hands out its other targets.\<close>

theorem interrupted_canary_hangs:
  "\<exists>db r. fleetReach db \<and> db = [r] \<and> fr_status r = RunRunning
     \<and> map ft_status (fr_targets r) = [TargetUnknown, TargetPending]
     \<and> (\<forall>owner now mx locked. claimTargets owner now mx locked db = ([], db))
     \<and> (\<forall>now cutoff. reapOrphans now cutoff db = (0, db))"
proof -
  define db where "db = snd (reapOrphans 900 600 (claimedDb 2 True True))"
  have "fleetStep (claimedDb 2 True True) db"
    unfolding db_def by (rule stepReap [OF prod.collapse [symmetric]])
  from reachStep [OF claimedDb_reach this] have reach: "fleetReach db" by simp
  have "map (\<lambda>r. (fr_status r, fr_canary r, map ft_status (fr_targets r), map ft_position (fr_targets r))) db
      = [(RunRunning, True, [TargetUnknown, TargetPending], [0, 1])]"
    unfolding db_def by code_simp
  then obtain r where db: "db = [r]" and r: "fr_status r = RunRunning" "fr_canary r"
    "map ft_status (fr_targets r) = [TargetUnknown, TargetPending]" "map ft_position (fr_targets r) = [0, 1]"
    by (auto simp: map_eq_Cons_conv)
  obtain t u where tu: "fr_targets r = [t, u]" "ft_status t = TargetUnknown" "ft_status u = TargetPending"
    "ft_position t = 0" "ft_position u = 1" using r(3,4) by (auto simp: map_eq_Cons_conv)
  have pos: "claimPositions left r = []" for left using tu r by (simp add: claimPositions_def)
  have same: "claimRun owner now left r = r" for owner now left by (simp add: claimRun_def pos)
  have "claimTargets owner now mx locked db = ([], db)" for owner now mx locked
    by (simp add: claimTargets_def db r pos same updateRun_def Let_def)
  moreover have "reapOrphans now cutoff db = (0, db)" for now cutoff
    using tu by (simp add: reapOrphans_def reapRun_def orphan_def db)
  ultimately show ?thesis
    by (intro exI [of _ db] exI [of _ r] conjI allI reach db r)
qed

definition shutdownOutcome :: outcome where
  "shutdownOutcome = \<lparr>oc_status = TargetCanceled, oc_results = None, oc_rowsAffected = None,
     oc_error = ''canceled while running''\<rparr>"

text \<open>A run can end as succeeded although nothing succeeded.  A target stopped because its runner
  process shuts down is recorded as canceled, which the totals count as skipped; the run then has no
  failed target and finishes as succeeded, and a succeeded run cannot be retried.\<close>

theorem shutdown_counts_as_success:
  "\<exists>db r. fleetReach db \<and> db = [r] \<and> fr_status r = RunSucceeded \<and> fr_succeeded r = 0
     \<and> map ft_status (fr_targets r) = [TargetCanceled]
     \<and> retryRun now r = Inl (Conflict ''only a failed or canceled run can be retried'')"
proof -
  define db where "db = updateRun 9 (completeRun 300 0 shutdownOutcome) (claimedDb 1 True False)"
  have "fleetStep (claimedDb 1 True False) db"
    unfolding db_def by (rule stepComplete) (simp add: shutdownOutcome_def)
  from reachStep [OF claimedDb_reach this] have reach: "fleetReach db" by simp
  have "map (\<lambda>r. (fr_status r, fr_succeeded r, map ft_status (fr_targets r))) db = [(RunSucceeded, 0, [TargetCanceled])]"
    unfolding db_def by code_simp
  then obtain r where r: "db = [r]" "fr_status r = RunSucceeded" "fr_succeeded r = 0"
    "map ft_status (fr_targets r) = [TargetCanceled]"
    by (auto simp: map_eq_Cons_conv)
  then have "retryRun now r = Inl (Conflict ''only a failed or canceled run can be retried'')"
    by (simp add: retryRun_def)
  then show ?thesis by (intro exI [of _ db] exI [of _ r] conjI reach r)
qed

end
