(* ===== verification/Cron.thy ===== *)
theory Cron
  imports Prelude "HOL-Library.Word"
begin

unbundle bit_operations_syntax

text \<open>
  Scheduled backups: the cron parser and \<open>Next\<close> of \<open>platform/cron/cron.go\<close>, the schedules of
  \<open>domain/schedule/schedule.go\<close>, their table (\<open>infra/postgres/schedule_repository.go\<close>) and the
  scheduler tick of \<open>app/schedule/service.go\<close>.  The five fields are 64-bit masks and the loop that
  fills them counts in 64-bit signed integers.  An instant is a number of nanoseconds since Go's zero
  time (January 1 of year 1, UTC); the local calendar is a parameter, because the time zone database
  is not part of the program, and \<open>utcCalendar\<close> is the one of a process that runs in UTC.
\<close>

subsection \<open>Fields of an expression\<close>

text \<open>\<open>strings.Fields\<close>, \<open>strings.Split\<close> on one byte, \<open>strconv.Atoi\<close>.\<close>

definition atSpace :: "string \<Rightarrow> bool" where
  "atSpace s \<longleftrightarrow> list_ex (\<lambda>u. hasPrefix u s) spaceSeqs"

fun fieldLen :: "string \<Rightarrow> nat" where
  "fieldLen [] = 0"
| "fieldLen (c # s) = (if atSpace (c # s) then 0 else Suc (fieldLen s))"

lemma trimLeftSpace_le: "length (trimLeftSpace s) \<le> length s"
  using suffix_length_le [OF stripSeqs_suffix] by (simp add: trimLeftSpace_def)

lemma trimLeftSpace_start: "trimLeftSpace s = c # t \<Longrightarrow> \<not> atSpace (c # t)"
proof
  assume a: "trimLeftSpace s = c # t" and "atSpace (c # t)"
  then obtain u where "u \<in> set spaceSeqs" "prefix u (c # t)" by (auto simp: atSpace_def list_ex_iff go_str)
  moreover have "u \<noteq> []" using calculation(1) by (auto simp: spaceSeqs_def)
  ultimately show False using stripSeqs_stripped [of u spaceSeqs s] a by (simp add: trimLeftSpace_def)
qed

function goFields :: "string \<Rightarrow> string list" where
  "goFields s = (case trimLeftSpace s of [] \<Rightarrow> []
     | c # t \<Rightarrow> take (fieldLen (c # t)) (c # t) # goFields (drop (fieldLen (c # t)) (c # t)))"
  by pat_completeness auto
termination
proof (relation "measure length", goal_cases)
  case (2 s c t)
  then have "0 < fieldLen (c # t)" using trimLeftSpace_start [of s c t] by simp
  moreover have "length (c # t) \<le> length s" using trimLeftSpace_le [of s] 2 by simp
  ultimately show ?case by simp
qed simp

declare goFields.simps [simp del]

definition maxInt :: int where "maxInt = 9223372036854775807"
definition minInt :: int where "minInt = -9223372036854775808"

definition wrap64 :: "int \<Rightarrow> int" where
  "wrap64 x = (x - minInt) mod 18446744073709551616 + minInt"

fun digitsVal :: "int \<Rightarrow> string \<Rightarrow> int option" where
  "digitsVal acc [] = Some acc"
| "digitsVal acc (c # s) =
     (if isDigitByte c then digitsVal (10 * acc + int (of_char c - 48)) s else None)"

definition atoi :: "string \<Rightarrow> int option" where
  "atoi s =
     (let neg = (s \<noteq> [] \<and> hd s = CHR ''-'');
          ds = (if s \<noteq> [] \<and> (hd s = CHR ''-'' \<or> hd s = CHR ''+'') then tl s else s)
      in if ds = [] then None
         else case digitsVal 0 ds of
                None \<Rightarrow> None
              | Some n \<Rightarrow> (let v = (if neg then - n else n)
                           in if minInt \<le> v \<and> v \<le> maxInt then Some v else None))"

subsection \<open>Masks\<close>

datatype cron_error = FieldCount nat | InvalidStep string | InvalidRange string | InvalidValue string | OutOfBounds string

text \<open>\<open>1 << uint(v)\<close>: a shift by 64 or more (which a negative \<open>v\<close> is, as an unsigned number) is 0.\<close>

definition oneShl :: "int \<Rightarrow> 64 word" where
  "oneShl v = (if 0 \<le> v \<and> v < 64 then push_bit (nat v) 1 else 0)"

definition cbit :: "64 word \<Rightarrow> int \<Rightarrow> bool" where
  "cbit msk i \<longleftrightarrow> msk AND oneShl i \<noteq> 0"

text \<open>\<open>for v := lo; v <= hi; v += step { msk |= 1 << uint(v) }\<close>; \<^const>\<open>None\<close> is a loop that never
  ends.\<close>

partial_function (option) maskLoop :: "int \<Rightarrow> int \<Rightarrow> int \<Rightarrow> 64 word \<Rightarrow> 64 word option" where
  "maskLoop hi step v msk =
     (if v \<le> hi then maskLoop hi step (wrap64 (v + step)) (msk OR oneShl v) else Some msk)"

declare maskLoop.simps [code]

text \<open>One part of a field: its bounds and step.\<close>

definition partBounds :: "int \<Rightarrow> int \<Rightarrow> string \<Rightarrow> cron_error + (int \<times> int \<times> int)" where
  "partBounds mn mx part =
     ebind (case indexByte part (CHR ''/'') of
              None \<Rightarrow> Inr (1, part)
            | Some k \<Rightarrow> (case atoi (drop (k + 1) part) of
                 None \<Rightarrow> Inl (InvalidStep part)
               | Some st \<Rightarrow> if st \<le> 0 then Inl (InvalidStep part) else Inr (st, take k part)))
       (\<lambda>(st, rng).
         ebind (if rng = ''*'' then Inr (mn, mx)
                else case indexByte rng (CHR ''-'') of
                  Some k \<Rightarrow>
                    (case (atoi (take k rng), atoi (drop (k + 1) rng)) of
                       (Some lo, Some hi) \<Rightarrow> Inr (lo, hi)
                     | _ \<Rightarrow> Inl (InvalidRange part))
                | None \<Rightarrow> (case atoi rng of None \<Rightarrow> Inl (InvalidValue part) | Some n \<Rightarrow> Inr (n, n)))
           (\<lambda>(lo, hi). if lo < mn \<or> hi > mx \<or> lo > hi then Inl (OutOfBounds part) else Inr (lo, hi, st)))"

fun parseParts :: "int \<Rightarrow> int \<Rightarrow> string list \<Rightarrow> 64 word \<Rightarrow> (cron_error + 64 word) option" where
  "parseParts mn mx [] msk = Some (Inr msk)"
| "parseParts mn mx (p # ps) msk =
     (case partBounds mn mx p of
        Inl e \<Rightarrow> Some (Inl e)
      | Inr (lo, hi, st) \<Rightarrow>
          (case maskLoop hi st lo msk of None \<Rightarrow> None | Some msk' \<Rightarrow> parseParts mn mx ps msk'))"

definition parseField :: "string \<Rightarrow> int \<Rightarrow> int \<Rightarrow> (cron_error + 64 word) option" where
  "parseField field mn mx = parseParts mn mx (splitByte (CHR '','') field) 0"

record cronSchedule =
  cr_minute :: "64 word"
  cr_hour :: "64 word"
  cr_dom :: "64 word"
  cr_month :: "64 word"
  cr_dow :: "64 word"
  cr_domStar :: bool
  cr_dowStar :: bool

definition andThen :: "(cron_error + 'a) option \<Rightarrow> ('a \<Rightarrow> (cron_error + 'b) option) \<Rightarrow> (cron_error + 'b) option" where
  "andThen m f = (case m of None \<Rightarrow> None | Some (Inl e) \<Rightarrow> Some (Inl e) | Some (Inr x) \<Rightarrow> f x)"

definition cronParse :: "string \<Rightarrow> (cron_error + cronSchedule) option" where
  "cronParse expr =
     (let fs = goFields expr in
      if length fs \<noteq> 5 then Some (Inl (FieldCount (length fs)))
      else
        andThen (parseField (fs ! 0) 0 59) (\<lambda>mi.
        andThen (parseField (fs ! 1) 0 23) (\<lambda>ho.
        andThen (parseField (fs ! 2) 1 31) (\<lambda>dm.
        andThen (parseField (fs ! 3) 1 12) (\<lambda>mo.
        andThen (parseField (fs ! 4) 0 6) (\<lambda>dw.
          Some (Inr \<lparr>cr_minute = mi, cr_hour = ho, cr_dom = dm, cr_month = mo, cr_dow = dw,
                     cr_domStar = (fs ! 2 = ''*''), cr_dowStar = (fs ! 4 = ''*'')\<rparr>)))))))"

subsection \<open>Calendars\<close>

record civil =
  ci_minute :: int
  ci_hour :: int
  ci_day :: int
  ci_month :: int
  ci_weekday :: int

text \<open>A calendar: the local date and time of an instant, and \<open>AddDate(4, 0, 0)\<close>.\<close>

record calendar =
  ca_civil :: "int \<Rightarrow> civil"
  ca_plus4 :: "int \<Rightarrow> int"

definition minuteNs :: int where "minuteNs = 60000000000"

definition cronMatches :: "calendar \<Rightarrow> cronSchedule \<Rightarrow> int \<Rightarrow> bool" where
  "cronMatches cal s t =
     (let c = ca_civil cal t in
      if \<not> cbit (cr_minute s) (ci_minute c) \<or> \<not> cbit (cr_hour s) (ci_hour c) \<or> \<not> cbit (cr_month s) (ci_month c)
      then False
      else
        (let domMatch = cbit (cr_dom s) (ci_day c); dowMatch = cbit (cr_dow s) (ci_weekday c) in
         if cr_domStar s \<and> cr_dowStar s then True
         else if cr_domStar s then dowMatch
         else if cr_dowStar s then domMatch
         else domMatch \<or> dowMatch))"

text \<open>The search loop; \<open>0\<close> is the zero time.\<close>

function nextFrom :: "calendar \<Rightarrow> cronSchedule \<Rightarrow> int \<Rightarrow> int \<Rightarrow> int" where
  "nextFrom cal s limit t =
     (if t < limit then (if cronMatches cal s t then t else nextFrom cal s limit (t + minuteNs)) else 0)"
  by pat_completeness auto
termination
  by (relation "measure (\<lambda>(cal, s, limit, t). nat (limit - t))") (auto simp: minuteNs_def)

declare nextFrom.simps [simp del]

definition cronNext :: "calendar \<Rightarrow> cronSchedule \<Rightarrow> int \<Rightarrow> int" where
  "cronNext cal s after =
     (let t = (after div minuteNs) * minuteNs + minuteNs in nextFrom cal s (ca_plus4 cal t) t)"

text \<open>The Gregorian calendar in UTC, from day 0 = January 1 of year 1 (a Monday).\<close>

definition leapYear :: "int \<Rightarrow> bool" where
  "leapYear y \<longleftrightarrow> y mod 4 = 0 \<and> (y mod 100 \<noteq> 0 \<or> y mod 400 = 0)"

definition yearLen :: "int \<Rightarrow> int" where "yearLen y = (if leapYear y then 366 else 365)"

definition monthLens :: "int \<Rightarrow> int list" where
  "monthLens y = [31, if leapYear y then 29 else 28, 31, 30, 31, 30, 31, 31, 30, 31, 30, 31]"

definition yearAndDay :: "int \<Rightarrow> int \<times> int" where
  "yearAndDay d =
     (let n400 = d div 146097; d1 = d mod 146097;
          n100 = min (d1 div 36524) 3; d2 = d1 - 36524 * n100;
          n4 = d2 div 1461; d3 = d2 mod 1461;
          n1 = min (d3 div 365) 3
      in (400 * n400 + 100 * n100 + 4 * n4 + n1 + 1, d3 - 365 * n1))"

fun monthAndDay :: "int list \<Rightarrow> int \<Rightarrow> int \<Rightarrow> int \<times> int" where
  "monthAndDay [] m d = (m, d + 1)"
| "monthAndDay (l # ls) m d = (if d < l \<or> ls = [] then (m, d + 1) else monthAndDay ls (m + 1) (d - l))"

definition utcCivil :: "int \<Rightarrow> civil" where
  "utcCivil t =
     (let mins = t div minuteNs; days = mins div 1440; (y, yd) = yearAndDay days; (m, d) = monthAndDay (monthLens y) 1 yd
      in \<lparr>ci_minute = mins mod 60, ci_hour = (mins div 60) mod 24, ci_day = d, ci_month = m,
          ci_weekday = (days + 1) mod 7\<rparr>)"

text \<open>Days from day 0 to January 1 of a year; \<open>AddDate(4, 0, 0)\<close> keeps the day of the year counted by month
  and day, and February 29 of a year without one is March 1.\<close>

definition daysBefore :: "int \<Rightarrow> int" where
  "daysBefore y = (let p = y - 1 in 365 * p + p div 4 - p div 100 + p div 400)"

definition monthStart :: "int \<Rightarrow> int \<Rightarrow> int" where
  "monthStart y m = sum_list (take (nat (m - 1)) (monthLens y))"

definition utcPlus4 :: "int \<Rightarrow> int" where
  "utcPlus4 t =
     (let days = (t div minuteNs) div 1440; (y, yd) = yearAndDay days; (m, d) = monthAndDay (monthLens y) 1 yd;
          days' = daysBefore (y + 4) + monthStart (y + 4) m + (d - 1)
      in t + (days' - days) * 1440 * minuteNs)"

definition utcCalendar :: calendar where
  "utcCalendar = \<lparr>ca_civil = utcCivil, ca_plus4 = utcPlus4\<rparr>"

subsection \<open>Schedules\<close>

record bschedule =
  bs_id :: uuid
  bs_databaseId :: uuid
  bs_destinationId :: uuid
  bs_cron :: string
  bs_engine :: string
  bs_retentionDays :: int
  bs_enabled :: bool
  bs_lastRunAt :: "int option"
  bs_nextRunAt :: "int option"
  bs_createdBy :: "uuid option"
  bs_createdAt :: int
  bs_version :: nat

definition newSchedule :: "calendar \<Rightarrow> int \<Rightarrow> uuid \<Rightarrow> uuid \<Rightarrow> uuid \<Rightarrow> string \<Rightarrow> int \<Rightarrow> bool \<Rightarrow> uuid option
    \<Rightarrow> (apperr + bschedule) option" where
  "newSchedule cal now fresh databaseId destinationId expr retentionDays enabled createdBy =
     (case cronParse expr of
        None \<Rightarrow> None
      | Some (Inl e) \<Rightarrow> Some (Inl (Invalid ''cron'' ''invalid cron expression''))
      | Some (Inr sched) \<Rightarrow>
          Some (if retentionDays \<le> 0
                then Inl (Invalid ''retention_days'' ''retention_days must be greater than 0'')
                else Inr \<lparr>bs_id = fresh, bs_databaseId = databaseId, bs_destinationId = destinationId, bs_cron = expr,
                          bs_engine = ''mariadb-dump'', bs_retentionDays = retentionDays, bs_enabled = enabled,
                          bs_lastRunAt = None,
                          bs_nextRunAt = (if enabled then Some (cronNext cal sched now) else None),
                          bs_createdBy = createdBy, bs_createdAt = 0, bs_version = 0\<rparr>))"

definition applySchedule :: "calendar \<Rightarrow> int \<Rightarrow> string \<Rightarrow> int \<Rightarrow> bool \<Rightarrow> uuid \<Rightarrow> bschedule
    \<Rightarrow> (apperr + bschedule) option" where
  "applySchedule cal now expr retentionDays enabled destinationId s =
     (case cronParse expr of
        None \<Rightarrow> None
      | Some (Inl e) \<Rightarrow> Some (Inl (Invalid ''cron'' ''invalid cron expression''))
      | Some (Inr sched) \<Rightarrow>
          Some (if retentionDays \<le> 0
                then Inl (Invalid ''retention_days'' ''retention_days must be greater than 0'')
                else Inr (s\<lparr>bs_cron := expr, bs_retentionDays := retentionDays, bs_enabled := enabled,
                            bs_destinationId := destinationId,
                            bs_nextRunAt := (if enabled then Some (cronNext cal sched now) else None)\<rparr>)))"

definition advanceAfter :: "calendar \<Rightarrow> int \<Rightarrow> bschedule \<Rightarrow> (cron_error + int) option" where
  "advanceAfter cal from s =
     (case cronParse (bs_cron s) of
        None \<Rightarrow> None
      | Some (Inl e) \<Rightarrow> Some (Inl e)
      | Some (Inr sched) \<Rightarrow> Some (Inr (cronNext cal sched from)))"

text \<open>The \<open>backup_schedules\<close> table.\<close>

definition createSchedule :: "int \<Rightarrow> bschedule \<Rightarrow> bschedule list \<Rightarrow> bschedule list" where
  "createSchedule now s db = db @ [s\<lparr>bs_createdAt := now, bs_version := 1\<rparr>]"

definition getSchedule :: "uuid \<Rightarrow> bschedule list \<Rightarrow> apperr + bschedule" where
  "getSchedule i db = (case List.find (\<lambda>s. bs_id s = i) db of
     None \<Rightarrow> Inl (NotFound ''schedule not found'') | Some s \<Rightarrow> Inr s)"

definition updateSchedule :: "bschedule \<Rightarrow> bschedule list \<Rightarrow> apperr + bschedule list" where
  "updateSchedule s db =
     (if \<not> list_ex (\<lambda>d. bs_id d = bs_id s) db then Inl (NotFound ''schedule not found'')
      else Inr (map (\<lambda>d. if bs_id d = bs_id s
             then d\<lparr>bs_destinationId := bs_destinationId s, bs_cron := bs_cron s, bs_retentionDays := bs_retentionDays s,
                    bs_enabled := bs_enabled s, bs_nextRunAt := bs_nextRunAt s, bs_version := bs_version d + 1\<rparr>
             else d) db))"

definition deleteSchedule :: "uuid \<Rightarrow> bschedule list \<Rightarrow> apperr + bschedule list" where
  "deleteSchedule i db =
     (if \<not> list_ex (\<lambda>d. bs_id d = i) db then Inl (NotFound ''schedule not found'')
      else Inr (filter (\<lambda>d. bs_id d \<noteq> i) db))"

definition isDue :: "int \<Rightarrow> bschedule \<Rightarrow> bool" where
  "isDue now s \<longleftrightarrow> bs_enabled s \<and> (case bs_nextRunAt s of None \<Rightarrow> False | Some t \<Rightarrow> t \<le> now)"

definition dueSchedules :: "int \<Rightarrow> bschedule list \<Rightarrow> bschedule list" where
  "dueSchedules now db = sort_key (\<lambda>s. the (bs_nextRunAt s)) (filter (isDue now) db)"

definition markRun :: "uuid \<Rightarrow> int \<Rightarrow> int \<Rightarrow> bschedule list \<Rightarrow> bschedule list" where
  "markRun i lastRun nextRun db =
     map (\<lambda>s. if bs_id s = i then s\<lparr>bs_lastRunAt := Some lastRun, bs_nextRunAt := Some nextRun,
                                   bs_version := bs_version s + 1\<rparr> else s) db"

text \<open>\<open>RunDue\<close>: \<open>markFails\<close> and \<open>triggerFails\<close> tell which calls of the repository and of the backup service
  fail.  The result is the table, the schedules whose backup was triggered and the count returned.\<close>

fun runDueLoop :: "calendar \<Rightarrow> int \<Rightarrow> (uuid \<Rightarrow> bool) \<Rightarrow> (uuid \<Rightarrow> bool) \<Rightarrow> bschedule list \<Rightarrow> bschedule list
    \<Rightarrow> uuid list \<Rightarrow> nat \<Rightarrow> (bschedule list \<times> uuid list \<times> nat) option" where
  "runDueLoop cal now markFails triggerFails [] db trig fired = Some (db, trig, fired)"
| "runDueLoop cal now markFails triggerFails (s # ss) db trig fired =
     (case advanceAfter cal now s of
        None \<Rightarrow> None
      | Some (Inl e) \<Rightarrow> runDueLoop cal now markFails triggerFails ss db trig fired
      | Some (Inr nxt) \<Rightarrow>
          if markFails (bs_id s) then runDueLoop cal now markFails triggerFails ss db trig fired
          else
            (let db' = markRun (bs_id s) now nxt db in
             if triggerFails (bs_id s)
             then runDueLoop cal now markFails triggerFails ss db' (trig @ [bs_id s]) fired
             else runDueLoop cal now markFails triggerFails ss db' (trig @ [bs_id s]) (fired + 1)))"

definition runDue :: "calendar \<Rightarrow> int \<Rightarrow> (uuid \<Rightarrow> bool) \<Rightarrow> (uuid \<Rightarrow> bool) \<Rightarrow> bschedule list
    \<Rightarrow> (bschedule list \<times> uuid list \<times> nat) option" where
  "runDue cal now markFails triggerFails db =
     runDueLoop cal now markFails triggerFails (dueSchedules now db) db [] 0"

subsection \<open>Masks hold what the field says\<close>

lemma cbit_bit: "cbit msk i \<longleftrightarrow> 0 \<le> i \<and> i < 64 \<and> bit msk (nat i)"
proof (cases "0 \<le> i \<and> i < 64")
  case True
  have "msk AND push_bit (nat i) 1 \<noteq> 0 \<longleftrightarrow> bit msk (nat i)"
    by (simp add: push_bit_eq_mult and_exp_eq_0_iff_not_bit)
  with True show ?thesis by (simp add: cbit_def oneShl_def)
next
  case False
  then show ?thesis by (auto simp: cbit_def oneShl_def)
qed

lemma cbit_or: "cbit (a OR b) i \<longleftrightarrow> cbit a i \<or> cbit b i"
  by (auto simp: cbit_bit bit_simps)

lemma cbit_oneShl: "0 \<le> v \<Longrightarrow> v < 64 \<Longrightarrow> cbit (oneShl v) i \<longleftrightarrow> i = v"
  by (auto simp: cbit_bit oneShl_def bit_simps)

lemma cbit_zero: "\<not> cbit 0 i"
  by (simp add: cbit_bit)

lemma wrap64_id: "minInt \<le> x \<Longrightarrow> x \<le> maxInt \<Longrightarrow> wrap64 x = x"
  by (simp add: wrap64_def minInt_def maxInt_def)

lemma maskLoop_ok:
  assumes "0 < step" "step \<le> maxInt - 64" "hi < 64" "0 \<le> v"
  shows "\<exists>m. maskLoop hi step v msk = Some m
     \<and> (\<forall>i. cbit m i \<longleftrightarrow> cbit msk i \<or> (v \<le> i \<and> i \<le> hi \<and> (i - v) mod step = 0))"
  using assms(4)
proof (induction "nat (hi + 1 - v)" arbitrary: v msk rule: less_induct)
  case less
  show ?case
  proof (cases "v \<le> hi")
    case False
    then show ?thesis by (subst maskLoop.simps) auto
  next
    case True
    have w: "wrap64 (v + step) = v + step"
      using less.prems True assms by (intro wrap64_id) (simp_all add: minInt_def maxInt_def)
    have "nat (hi + 1 - (v + step)) < nat (hi + 1 - v)" using True assms by linarith
    from less.hyps [OF this, of "msk OR oneShl v"] less.prems assms(1) obtain m where
      m: "maskLoop hi step (v + step) (msk OR oneShl v) = Some m"
      "\<forall>i. cbit m i \<longleftrightarrow> cbit (msk OR oneShl v) i \<or> (v + step \<le> i \<and> i \<le> hi \<and> (i - (v + step)) mod step = 0)"
      by auto
    have "v \<le> i \<and> i \<le> hi \<and> (i - v) mod step = 0 \<longleftrightarrow>
        i = v \<or> (v + step \<le> i \<and> i \<le> hi \<and> (i - (v + step)) mod step = 0)" for i
    proof -
      have "(i - (v + step)) mod step = (i - v) mod step"
        by (metis diff_diff_eq minus_mod_self2)
      moreover have "(i - v) mod step \<noteq> 0" if "v < i" "i < v + step"
        using that assms(1) by (simp add: mod_pos_pos_trivial)
      ultimately show ?thesis
        using True assms(1) by (cases "i = v"; cases "i < v + step") auto
    qed
    then have "cbit m i \<longleftrightarrow> cbit msk i \<or> (v \<le> i \<and> i \<le> hi \<and> (i - v) mod step = 0)" for i
      using m(2) True less.prems assms(3) cbit_oneShl [of v i] by (auto simp: cbit_or)
    then show ?thesis using m(1) True w by (subst maskLoop.simps) auto
  qed
qed

text \<open>\<open>part\<close> covers \<open>i\<close>: \<open>i\<close> is one of lo, lo + step, ..., up to hi.\<close>

definition covers :: "int \<Rightarrow> int \<Rightarrow> string \<Rightarrow> int \<Rightarrow> bool" where
  "covers mn mx part i \<longleftrightarrow>
     (case partBounds mn mx part of
        Inl _ \<Rightarrow> False
      | Inr (lo, hi, st) \<Rightarrow> lo \<le> i \<and> i \<le> hi \<and> (i - lo) mod st = 0)"

definition smallStep :: "int \<Rightarrow> int \<Rightarrow> string \<Rightarrow> bool" where
  "smallStep mn mx part \<longleftrightarrow>
     (case partBounds mn mx part of Inl _ \<Rightarrow> True | Inr (lo, hi, st) \<Rightarrow> st \<le> maxInt - 64)"

lemma partBounds_ok:
  "partBounds mn mx part = Inr (lo, hi, st) \<Longrightarrow> mn \<le> lo \<and> lo \<le> hi \<and> hi \<le> mx \<and> 0 < st"
proof -
  assume "partBounds mn mx part = Inr (lo, hi, st)"
  then obtain st' rng lo' hi' where
    "(case indexByte part (CHR ''/'') of
        None \<Rightarrow> Inr (1, part)
      | Some k \<Rightarrow> (case atoi (drop (k + 1) part) of
           None \<Rightarrow> Inl (InvalidStep part)
         | Some st \<Rightarrow> if st \<le> 0 then Inl (InvalidStep part) else Inr (st, take k part))) = Inr (st', rng)"
    "(if lo' < mn \<or> hi' > mx \<or> lo' > hi' then Inl (OutOfBounds part) else Inr (lo', hi', st')) = Inr (lo, hi, st)"
    unfolding partBounds_def ebind_Inr_iff split_paired_Ex prod.case by blast
  then show ?thesis by (auto split: option.splits if_splits)
qed

lemma parseParts_ok:
  assumes "0 \<le> mn" "mx < 64" "\<forall>p \<in> set ps. smallStep mn mx p"
  shows "case parseParts mn mx ps msk of
           None \<Rightarrow> False
         | Some (Inl _) \<Rightarrow> \<exists>p \<in> set ps. isl (partBounds mn mx p)
         | Some (Inr m) \<Rightarrow> (\<forall>p \<in> set ps. \<not> isl (partBounds mn mx p))
              \<and> (\<forall>i. cbit m i \<longleftrightarrow> cbit msk i \<or> (\<exists>p \<in> set ps. covers mn mx p i))"
  using assms(3)
proof (induction ps arbitrary: msk)
  case Nil
  then show ?case by simp
next
  case (Cons p ps)
  show ?case
  proof (cases "partBounds mn mx p")
    case (Inl e)
    then show ?thesis by simp
  next
    case (Inr r)
    obtain lo hi st where r: "r = (lo, hi, st)" by (cases r)
    have b: "mn \<le> lo" "lo \<le> hi" "hi \<le> mx" "0 < st" using partBounds_ok Inr r by blast+
    have "st \<le> maxInt - 64" using Cons.prems Inr r by (simp add: smallStep_def)
    from maskLoop_ok [OF b(4) this, of hi lo msk] b assms(1,2) obtain m where
      m: "maskLoop hi st lo msk = Some m"
      "\<forall>i. cbit m i \<longleftrightarrow> cbit msk i \<or> (lo \<le> i \<and> i \<le> hi \<and> (i - lo) mod st = 0)" by auto
    have "covers mn mx p i \<longleftrightarrow> lo \<le> i \<and> i \<le> hi \<and> (i - lo) mod st = 0" for i
      using Inr r by (simp add: covers_def)
    then show ?thesis
      using Cons.IH [of m] Cons.prems Inr r m by (auto split: option.splits sum.splits)
  qed
qed

text \<open>A cron field means what it says: parsing always returns, it is refused exactly when one of its
  comma-separated parts is malformed or out of bounds, and the mask has bit \<open>i\<close> exactly when some
  part \<open>lo-hi/step\<close> has \<open>i\<close> among lo, lo + step, ..., hi.  Steps near the largest 64-bit integer, whose
  loop counter wraps around, are excluded.\<close>

theorem parseField_spec:
  assumes "0 \<le> mn" and "mx < 64" and "\<forall>p \<in> set (splitByte (CHR '','') field). smallStep mn mx p"
  shows "case parseField field mn mx of
           None \<Rightarrow> False
         | Some (Inl _) \<Rightarrow> \<exists>p \<in> set (splitByte (CHR '','') field). isl (partBounds mn mx p)
         | Some (Inr m) \<Rightarrow> (\<forall>p \<in> set (splitByte (CHR '','') field). \<not> isl (partBounds mn mx p))
              \<and> (\<forall>i. cbit m i \<longleftrightarrow> (\<exists>p \<in> set (splitByte (CHR '','') field). covers mn mx p i))"
  using parseParts_ok [OF assms, of 0]
  by (auto simp: parseField_def cbit_zero split: option.splits sum.splits)

lemma parseField_spec_witness:
  "\<exists>m. parseField ''0-3,*/15'' 0 59 = Some (Inr m) \<and> cbit m 45 \<and> \<not> cbit m 44"
proof -
  let ?f = "''0-3,*/15''"
  have s: "splitByte (CHR '','') ?f = [''0-3'', ''*/15'']" by code_simp
  have b: "partBounds 0 59 ''0-3'' = Inr (0, 3, 1)" "partBounds 0 59 ''*/15'' = Inr (0, 59, 15)"
    by code_simp+
  have "\<forall>p \<in> set (splitByte (CHR '','') ?f). smallStep 0 59 p"
    by (simp add: s smallStep_def b maxInt_def)
  from parseField_spec [OF _ _ this] show ?thesis
    by (auto simp: s b covers_def split: option.splits sum.splits)
qed

text \<open>The wrap-around: with the largest step the loop of \<open>5-10\<close> comes back below its start.\<close>

lemma huge_step_leaves_range:
  "map_option (map_sum id cr_minute) (cronParse ''5-10/9223372036854775807 * * * *'')
     = Some (Inr (oneShl 5 OR oneShl 3 OR oneShl 1))"
  by code_simp

subsection \<open>Next\<close>

lemma nextFrom_spec:
  "(\<exists>k. nextFrom cal s limit t = t + int k * minuteNs \<and> t + int k * minuteNs < limit
        \<and> cronMatches cal s (t + int k * minuteNs) \<and> (\<forall>j < k. \<not> cronMatches cal s (t + int j * minuteNs)))
   \<or> (nextFrom cal s limit t = 0 \<and> (\<forall>k. t + int k * minuteNs < limit \<longrightarrow> \<not> cronMatches cal s (t + int k * minuteNs)))"
proof (induction cal s limit t rule: nextFrom.induct)
  case (1 cal s limit t)
  have sh: "t + minuteNs + int k * minuteNs = t + int (Suc k) * minuteNs" for k
    by (simp add: algebra_simps)
  consider (stop) "\<not> t < limit" | (hit) "t < limit" "cronMatches cal s t"
    | (step) "t < limit" "\<not> cronMatches cal s t" by blast
  then show ?case
  proof cases
    case stop
    then have "\<not> t + int k * minuteNs < limit" for k by (simp add: minuteNs_def)
    with stop show ?thesis by (subst (1 2) nextFrom.simps) auto
  next
    case hit
    then show ?thesis by (intro disjI1 exI [of _ 0]) (subst nextFrom.simps, simp)
  next
    case step
    have n: "nextFrom cal s limit t = nextFrom cal s limit (t + minuteNs)"
      using step by (subst nextFrom.simps) simp
    from "1.IH" [OF step] show ?thesis
    proof
      assume "\<exists>k. nextFrom cal s limit (t + minuteNs) = t + minuteNs + int k * minuteNs
        \<and> t + minuteNs + int k * minuteNs < limit \<and> cronMatches cal s (t + minuteNs + int k * minuteNs)
        \<and> (\<forall>j < k. \<not> cronMatches cal s (t + minuteNs + int j * minuteNs))"
      then obtain k where k: "nextFrom cal s limit t = t + int (Suc k) * minuteNs" "t + int (Suc k) * minuteNs < limit"
        "cronMatches cal s (t + int (Suc k) * minuteNs)" "\<forall>j < k. \<not> cronMatches cal s (t + int (Suc j) * minuteNs)"
        unfolding n sh by blast
      have "\<not> cronMatches cal s (t + int j * minuteNs)" if "j < Suc k" for j
        using that step k(4) by (cases j) auto
      with k show ?thesis by blast
    next
      assume a: "nextFrom cal s limit (t + minuteNs) = 0
        \<and> (\<forall>k. t + minuteNs + int k * minuteNs < limit \<longrightarrow> \<not> cronMatches cal s (t + minuteNs + int k * minuteNs))"
      have "\<not> cronMatches cal s (t + int k * minuteNs)" if "t + int k * minuteNs < limit" for k
        using that a step unfolding sh by (cases k) auto
      with a n show ?thesis by auto
    qed
  qed
qed

definition minuteAfter :: "int \<Rightarrow> nat \<Rightarrow> int" where
  "minuteAfter after k = (after div minuteNs) * minuteNs + minuteNs + int k * minuteNs"

lemma minuteAfter_gt: "after < minuteAfter after k"
proof -
  have "after = after div minuteNs * minuteNs + after mod minuteNs" by simp
  moreover have "after mod minuteNs < minuteNs" by (simp add: minuteNs_def)
  moreover have "0 \<le> int k * minuteNs" by (simp add: minuteNs_def)
  ultimately show ?thesis unfolding minuteAfter_def by linarith
qed

text \<open>C38. \<open>Next\<close> returns the first whole minute strictly after the given instant that matches the
  expression, and the zero time exactly when no minute of the next four years matches.\<close>

theorem cronNext_first_match:
  "(\<exists>k. cronNext cal s after = minuteAfter after k \<and> after < minuteAfter after k
        \<and> minuteAfter after k < ca_plus4 cal (minuteAfter after 0)
        \<and> cronMatches cal s (minuteAfter after k) \<and> (\<forall>j < k. \<not> cronMatches cal s (minuteAfter after j)))
   \<or> (cronNext cal s after = 0 \<and> (\<forall>k. minuteAfter after k < ca_plus4 cal (minuteAfter after 0)
        \<longrightarrow> \<not> cronMatches cal s (minuteAfter after k)))"
  using nextFrom_spec [of cal s "ca_plus4 cal (minuteAfter after 0)" "minuteAfter after 0"] minuteAfter_gt [of after]
  unfolding cronNext_def minuteAfter_def Let_def by simp

lemma cronNext_first_match_witness:
  "\<exists>s. cronParse ''1 0 * * *'' = Some (Inr s) \<and> 0 < cronNext utcCalendar s 0
     \<and> cronMatches utcCalendar s (cronNext utcCalendar s 0)"
proof -
  have c: "case cronParse ''1 0 * * *'' of Some (Inr s) \<Rightarrow> cronNext utcCalendar s 0 \<noteq> 0 | _ \<Rightarrow> False"
    by code_simp
  then obtain s where s: "cronParse ''1 0 * * *'' = Some (Inr s)" by (auto split: option.splits sum.splits)
  with c have "cronNext utcCalendar s 0 \<noteq> 0" by simp
  with cronNext_first_match [of utcCalendar s 0] s show ?thesis by auto
qed

subsection \<open>A date that does not exist\<close>

definition feb31 :: string where "feb31 = ''0 0 31 2 *''"

lemma monthAndDay_feb: "monthAndDay (monthLens y) 1 yd = (m, d) \<Longrightarrow> m = 2 \<Longrightarrow> d \<le> 29"
  by (auto simp: monthLens_def split: if_splits)

lemma feb31_parse: "\<exists>s. cronParse feb31 = Some (Inr s) \<and> cr_dom s = oneShl 31 \<and> cr_month s = oneShl 2
    \<and> \<not> cr_domStar s \<and> cr_dowStar s"
proof -
  have "map_option (map_sum id (\<lambda>s. (cr_dom s, cr_month s, cr_domStar s, cr_dowStar s))) (cronParse feb31)
      = Some (Inr (oneShl 31, oneShl 2, False, True))" by code_simp
  then show ?thesis by (cases "cronParse feb31"; cases "the (cronParse feb31)") auto
qed

lemma feb31_never:
  assumes "cr_dom s = oneShl 31" "cr_month s = oneShl 2" "\<not> cr_domStar s" "cr_dowStar s"
  shows "\<not> cronMatches utcCalendar s t"
proof -
  obtain y yd where y: "yearAndDay (t div minuteNs div 1440) = (y, yd)" by force
  obtain m d where m: "monthAndDay (monthLens y) 1 yd = (m, d)" by force
  have c: "ci_month (utcCivil t) = m" "ci_day (utcCivil t) = d" by (simp_all add: utcCivil_def Let_def y m)
  have "m = 2 \<Longrightarrow> d \<le> 29" using monthAndDay_feb [OF m] .
  then show ?thesis using assms
    by (auto simp: cronMatches_def Let_def utcCalendar_def c cbit_oneShl)
qed

lemma feb31_next:
  assumes "cronParse feb31 = Some (Inr s)"
  shows "cronNext utcCalendar s after = 0"
proof -
  obtain s' where s': "cronParse feb31 = Some (Inr s')" "cr_dom s' = oneShl 31" "cr_month s' = oneShl 2"
    "\<not> cr_domStar s'" "cr_dowStar s'" using feb31_parse by blast
  with assms have "s = s'" by simp
  with s' feb31_never have "\<not> cronMatches utcCalendar s t" for t by blast
  with nextFrom_spec [of utcCalendar s "ca_plus4 utcCalendar (minuteAfter after 0)" "minuteAfter after 0"]
  show ?thesis unfolding cronNext_def minuteAfter_def Let_def by auto
qed

fun runTicks :: "calendar \<Rightarrow> int list \<Rightarrow> bschedule list \<Rightarrow> uuid list list option" where
  "runTicks cal [] db = Some []"
| "runTicks cal (now # ts) db =
     (case runDue cal now (\<lambda>_. False) (\<lambda>_. False) db of
        None \<Rightarrow> None
      | Some (db', trig, n) \<Rightarrow> map_option (\<lambda>r. trig # r) (runTicks cal ts db'))"

lemma feb31_ticks:
  "bs_cron s = feb31 \<Longrightarrow> bs_enabled s \<Longrightarrow> bs_nextRunAt s = Some 0 \<Longrightarrow>
   runTicks utcCalendar (map int ts) [s] = Some (replicate (length ts) [bs_id s])"
proof (induction ts arbitrary: s)
  case (Cons n ts)
  obtain sch where p: "cronParse feb31 = Some (Inr sch)" using feb31_parse by blast
  let ?s = "s\<lparr>bs_lastRunAt := Some (int n), bs_nextRunAt := Some 0, bs_version := bs_version s + 1\<rparr>"
  have "runDue utcCalendar (int n) (\<lambda>_. False) (\<lambda>_. False) [s] = Some ([?s], [bs_id s], 1)"
    using Cons.prems p feb31_next [OF p]
    by (simp add: runDue_def dueSchedules_def isDue_def advanceAfter_def markRun_def)
  moreover have "runTicks utcCalendar (map int ts) [?s] = Some (replicate (length ts) [bs_id s])"
    using Cons.IH [of ?s] Cons.prems by simp
  ultimately show ?case by simp
qed simp

text \<open>A schedule for a date that does not exist (February 31) is accepted, and its next run is the
  zero time, which is in the past: it is due at every tick of the scheduler, and every tick triggers
  another backup, for ever.\<close>

theorem impossible_date_runs_every_tick:
  "\<exists>s. newSchedule utcCalendar (int now) 1 2 3 feb31 7 True None = Some (Inr s)
     \<and> (\<forall>ts. runTicks utcCalendar (map int ts) [s] = Some (replicate (length ts) [bs_id s]))"
proof -
  obtain sch where p: "cronParse feb31 = Some (Inr sch)" using feb31_parse by blast
  obtain s where s: "newSchedule utcCalendar (int now) 1 2 3 feb31 7 True None = Some (Inr s)"
    "bs_cron s = feb31" "bs_enabled s" "bs_nextRunAt s = Some 0"
    using p feb31_next [OF p] by (simp add: newSchedule_def)
  with feb31_ticks show ?thesis by blast
qed

end
