(* ===== verification/SchemaDiff.thy ===== *)
theory SchemaDiff
  imports Quoting
begin

text \<open>
  The structure of a database and the DDL that turns one structure into another:
  \<open>platform/schemadiff\<close> (\<open>model.go\<close>, \<open>diff.go\<close>, \<open>ddl.go\<close>) and the parser of
  \<open>SHOW CREATE TABLE\<close> that fills the model in on MySQL (\<open>engine/mariadb_schema.go\<close>).  A script is
  the text the code writes, byte by byte; a nil dereference (a Go panic) is the value \<^const>\<open>None\<close>.
\<close>

subsection \<open>The model (model.go)\<close>

record sobject =
  oSchema :: string
  oName :: string
  oKind :: string
  oTable :: string
  oDef :: string
  oLabels :: "string list"
  oDrop :: string

record scolumn =
  cName :: string
  cDef :: string
  cType :: string
  cCollation :: string
  cNotNull :: bool
  cDefault :: string
  cIdentity :: string
  cGenerated :: string

record stable =
  tSchema :: string
  tName :: string
  tColumns :: "scolumn list"
  tIndexes :: "sobject list"
  tConstraints :: "sobject list"
  tOptions :: string

record dbschema =
  sDialect :: string
  sEngine :: string
  sTables :: "stable list"
  sViews :: "sobject list"
  sRoutines :: "sobject list"
  sTriggers :: "sobject list"
  sTypes :: "sobject list"
  sExtensions :: "sobject list"
  sTruncated :: bool

definition dialectMySQL :: string where "dialectMySQL = ''mysql''"
definition dialectPostgres :: string where "dialectPostgres = ''postgres''"

text \<open>\<open>sort.Slice\<close> with the comparison of \<open>less\<close> / \<open>sortObjects\<close>: byte-wise lexicographic order
  of the tuples.  (Go leaves the order of elements with equal keys open; the model keeps it.)\<close>

definition sortTables :: "stable list \<Rightarrow> stable list" where
  "sortTables ts = sort_key (\<lambda>t. [tSchema t, tName t]) ts"

definition sortObjects :: "sobject list \<Rightarrow> sobject list" where
  "sortObjects os = sort_key (\<lambda>ob. [oSchema ob, oTable ob, oName ob]) os"

definition canonicalize :: "dbschema \<Rightarrow> dbschema" where
  "canonicalize s = s\<lparr>
     sTables := map (\<lambda>t. t\<lparr>tIndexes := sortObjects (tIndexes t), tConstraints := sortObjects (tConstraints t)\<rparr>)
                  (sortTables (sTables s)),
     sViews := sortObjects (sViews s), sRoutines := sortObjects (sRoutines s),
     sTriggers := sortObjects (sTriggers s), sTypes := sortObjects (sTypes s),
     sExtensions := sortObjects (sExtensions s)\<rparr>"

text \<open>\<open>Hash\<close>: JSON and SHA-256 of the normalised copy; the encoding and the digest are the parameter
  \<open>digest\<close>.\<close>

definition hashed :: "dbschema \<Rightarrow> dbschema" where
  "hashed s = canonicalize (s\<lparr>sEngine := [], sTruncated := False,
     sTables := map (\<lambda>t. t\<lparr>tColumns := sort_key cName (tColumns t)\<rparr>) (sTables s)\<rparr>)"

definition schemaHash :: "(dbschema \<Rightarrow> string) \<Rightarrow> dbschema \<Rightarrow> string" where
  "schemaHash digest s = digest (hashed s)"

record scounts =
  nTables :: nat
  nViews :: nat
  nRoutines :: nat
  nTriggers :: nat

definition schemaCounts :: "dbschema \<Rightarrow> scounts" where
  "schemaCounts s = \<lparr>nTables = length (sTables s), nViews = length (sViews s),
     nRoutines = length (sRoutines s), nTriggers = length (sTriggers s)\<rparr>"

subsection \<open>Differences (diff.go)\<close>

datatype chkind = KindTable | KindColumn | KindIndex | KindConstraint | KindOptions | KindView
  | KindRoutine | KindTrigger | KindType | KindExtension

datatype chop = Added | Removed | Changed

record change =
  chKind :: chkind
  chOp :: chop
  chSchema :: string
  chTable :: string
  chName :: string
  chBefore :: string
  chAfter :: string

fun kindName :: "chkind \<Rightarrow> string" where
  "kindName KindTable = ''table''"
| "kindName KindColumn = ''column''"
| "kindName KindIndex = ''index''"
| "kindName KindConstraint = ''constraint''"
| "kindName KindOptions = ''options''"
| "kindName KindView = ''view''"
| "kindName KindRoutine = ''routine''"
| "kindName KindTrigger = ''trigger''"
| "kindName KindType = ''type''"
| "kindName KindExtension = ''extension''"

definition changeLabel :: "change \<Rightarrow> string" where
  "changeLabel c =
     (let named = chSchema c \<noteq> [] \<and> chSchema c \<noteq> ''public'';
          q = (if named \<and> chTable c \<noteq> [] then chSchema c @ ''.'' @ chTable c else chTable c);
          n = (if named then chSchema c @ ''.'' @ chName c else chName c)
      in if chKind c \<in> {KindTable, KindOptions} then ''table '' @ q
         else if chKind c \<in> {KindColumn, KindIndex, KindConstraint, KindTrigger}
           then kindName (chKind c) @ '' '' @ q @ ''.'' @ chName c
         else kindName (chKind c) @ '' '' @ n)"

definition mkChange :: "chkind \<Rightarrow> chop \<Rightarrow> string \<Rightarrow> string \<Rightarrow> string \<Rightarrow> string \<Rightarrow> string \<Rightarrow> change" where
  "mkChange k op sc tb nm bef aft =
     \<lparr>chKind = k, chOp = op, chSchema = sc, chTable = tb, chName = nm, chBefore = bef, chAfter = aft\<rparr>"

definition diffKey :: "string list \<Rightarrow> string" where
  "diffKey parts = joinStr [CHR 0x00] parts"

definition tableKey :: "stable \<Rightarrow> string" where
  "tableKey t = diffKey [tSchema t, tName t]"

definition objectKey :: "sobject \<Rightarrow> string" where
  "objectKey ob = diffKey [oSchema ob, oTable ob, oName ob]"

text \<open>Filling a Go map in a loop keeps the last element of each key.\<close>

definition lastBy :: "('a \<Rightarrow> string) \<Rightarrow> 'a list \<Rightarrow> string \<Rightarrow> 'a option" where
  "lastBy f xs k = List.find (\<lambda>x. f x = k) (rev xs)"

definition diffObjects :: "chkind \<Rightarrow> string \<Rightarrow> sobject list \<Rightarrow> sobject list \<Rightarrow> change list" where
  "diffObjects kind table a b =
     concat (map (\<lambda>ob. let t = (if table = [] then oTable ob else table) in
        case lastBy objectKey a (objectKey ob) of
          None \<Rightarrow> [mkChange kind Added (oSchema ob) t (oName ob) [] (oDef ob)]
        | Some old \<Rightarrow> if oDef old \<noteq> oDef ob
            then [mkChange kind Changed (oSchema ob) t (oName ob) (oDef old) (oDef ob)] else []) b)
     @ concat (map (\<lambda>ob. if objectKey ob \<notin> set (map objectKey b)
        then [mkChange kind Removed (oSchema ob) (if table = [] then oTable ob else table) (oName ob) (oDef ob) []]
        else []) a)"

definition diffColumns :: "stable \<Rightarrow> stable \<Rightarrow> change list" where
  "diffColumns a b =
     concat (map (\<lambda>c. case lastBy cName (tColumns a) (cName c) of
          None \<Rightarrow> [mkChange KindColumn Added (tSchema b) (tName b) (cName c) [] (cDef c)]
        | Some old \<Rightarrow> if cDef old \<noteq> cDef c
            then [mkChange KindColumn Changed (tSchema b) (tName b) (cName c) (cDef old) (cDef c)] else [])
        (tColumns b))
     @ concat (map (\<lambda>c. if cName c \<notin> set (map cName (tColumns b))
        then [mkChange KindColumn Removed (tSchema b) (tName b) (cName c) (cDef c) []] else []) (tColumns a))"

definition diffTable :: "stable \<Rightarrow> stable \<Rightarrow> change list" where
  "diffTable a b =
     (if tOptions a \<noteq> tOptions b
      then [mkChange KindOptions Changed (tSchema b) (tName b) [] (tOptions a) (tOptions b)] else [])
     @ diffColumns a b
     @ map (\<lambda>c. c\<lparr>chSchema := tSchema b\<rparr>) (diffObjects KindIndex (tName b) (tIndexes a) (tIndexes b))
     @ map (\<lambda>c. c\<lparr>chSchema := tSchema b\<rparr>) (diffObjects KindConstraint (tName b) (tConstraints a) (tConstraints b))"

subsection \<open>Rendering a table (ddl.go)\<close>

definition pgTableName :: "string \<Rightarrow> string \<Rightarrow> string" where
  "pgTableName schema name =
     (if schema = [] then quotePGIdent name else quotePGIdent schema @ ''.'' @ quotePGIdent name)"

definition pgCreateTable :: "stable \<Rightarrow> string" where
  "pgCreateTable t =
     ''CREATE TABLE '' @ pgTableName (tSchema t) (tName t) @ '' ('' @ [NL] @ ''  ''
     @ joinStr ('','' @ [NL] @ ''  '') (map cDef (tColumns t)) @ [NL] @ '')''
     @ (if tOptions t \<noteq> [] then '' '' @ tOptions t else [])"

definition mysqlCreateTable :: "stable \<Rightarrow> string" where
  "mysqlCreateTable t =
     ''CREATE TABLE '' @ quoteMySQLIdent (tName t) @ '' ('' @ [NL] @ ''  ''
     @ joinStr ('','' @ [NL] @ ''  '')
         (map cDef (tColumns t)
          @ map oDef (sort_key (\<lambda>ix. if oKind ix = ''PRIMARY'' then 0 else 1 :: nat) (tIndexes t))
          @ map oDef (tConstraints t))
     @ [NL] @ '')''
     @ (if tOptions t \<noteq> [] then '' '' @ tOptions t else [])"

definition createTableText :: "string \<Rightarrow> stable \<Rightarrow> string" where
  "createTableText dialect t =
     (if dialect = dialectPostgres
      then let parts =
             map (\<lambda>c. ''ALTER TABLE '' @ pgTableName (tSchema t) (tName t) @ '' ADD CONSTRAINT ''
                        @ quotePGIdent (oName c) @ '' '' @ oDef c @ '';'') (tConstraints t)
             @ map (\<lambda>ix. oDef ix @ '';'') (tIndexes t)
           in pgCreateTable t @ (if parts \<noteq> [] then '';'' @ [NL] @ joinStr [NL] parts else [])
      else mysqlCreateTable t)"

definition schemaDiff :: "dbschema \<Rightarrow> dbschema \<Rightarrow> change list" where
  "schemaDiff a b =
     concat (map (\<lambda>t. case lastBy tableKey (sTables a) (tableKey t) of
          None \<Rightarrow> [mkChange KindTable Added (tSchema t) (tName t) [] [] (createTableText (sDialect b) t)]
        | Some old \<Rightarrow> diffTable old t) (sTables b))
     @ concat (map (\<lambda>t. if tableKey t \<notin> set (map tableKey (sTables b))
        then [mkChange KindTable Removed (tSchema t) (tName t) [] (createTableText (sDialect a) t) []]
        else []) (sTables a))
     @ diffObjects KindView [] (sViews a) (sViews b)
     @ diffObjects KindRoutine [] (sRoutines a) (sRoutines b)
     @ diffObjects KindTrigger [] (sTriggers a) (sTriggers b)
     @ diffObjects KindType [] (sTypes a) (sTypes b)
     @ diffObjects KindExtension [] (sExtensions a) (sExtensions b)"

record chtally =
  nAdded :: nat
  nRemoved :: nat
  nChanged :: nat

fun countChanges :: "change list \<Rightarrow> chtally" where
  "countChanges [] = \<lparr>nAdded = 0, nRemoved = 0, nChanged = 0\<rparr>"
| "countChanges (c # cs) =
     (let t = countChanges cs in
      case chOp c of Added \<Rightarrow> t\<lparr>nAdded := nAdded t + 1\<rparr>
        | Removed \<Rightarrow> t\<lparr>nRemoved := nRemoved t + 1\<rparr>
        | Changed \<Rightarrow> t\<lparr>nChanged := nChanged t + 1\<rparr>)"

subsection \<open>The writer (ddl.go)\<close>

record writer =
  wbuf :: string
  wreview :: nat

definition wStmt :: "string \<Rightarrow> writer \<Rightarrow> writer" where
  "wStmt s w = w\<lparr>wbuf := wbuf w @ s @ '';'' @ [NL]\<rparr>"

definition wDestructive :: "string \<Rightarrow> string \<Rightarrow> writer \<Rightarrow> writer" where
  "wDestructive why s w = w\<lparr>wreview := wreview w + 1,
     wbuf := wbuf w @ ''-- REVIEW ('' @ why @ ''): '' @ s @ '';'' @ [NL]\<rparr>"

definition wManual :: "string \<Rightarrow> writer \<Rightarrow> writer" where
  "wManual s w = w\<lparr>wreview := wreview w + 1, wbuf := wbuf w @ ''-- manual: '' @ s @ [NL]\<rparr>"

definition wRaw :: "string \<Rightarrow> writer \<Rightarrow> writer" where
  "wRaw s w = w\<lparr>wbuf := wbuf w @ s\<rparr>"

definition wSection :: "string \<Rightarrow> writer \<Rightarrow> writer" where
  "wSection title w = w\<lparr>wbuf := wbuf w @ (if wbuf w \<noteq> [] then [NL] else []) @ ''-- '' @ title @ [NL]\<rparr>"

text \<open>A loop over changes: \<^const>\<open>None\<close> is the nil dereference that stops it.  \<open>inSection\<close> is the
  pattern \<open>if l := ...; len(l) > 0 { w.section(title); for ... }\<close>.\<close>

fun each :: "('a \<Rightarrow> 's \<Rightarrow> 's option) \<Rightarrow> 'a list \<Rightarrow> 's \<Rightarrow> 's option" where
  "each f [] s = Some s"
| "each f (x # xs) s = Option.bind (f x s) (each f xs)"

definition inSection :: "string \<Rightarrow> ('a \<Rightarrow> writer \<Rightarrow> writer option) \<Rightarrow> 'a list \<Rightarrow> writer \<Rightarrow> writer option" where
  "inSection title f l w = (if l = [] then Some w else each f l (wSection title w))"

definition changesOf :: "change list \<Rightarrow> chkind \<Rightarrow> chop list \<Rightarrow> change list" where
  "changesOf cs k ops = filter (\<lambda>c. chKind c = k \<and> (ops = [] \<or> chOp c \<in> set ops)) cs"

definition findTable :: "dbschema \<Rightarrow> string \<Rightarrow> string \<Rightarrow> stable option" where
  "findTable s schema name = List.find (\<lambda>t. tSchema t = schema \<and> tName t = name) (sTables s)"

definition findObject :: "sobject list \<Rightarrow> string \<Rightarrow> string \<Rightarrow> string \<Rightarrow> sobject option" where
  "findObject l schema table name =
     List.find (\<lambda>ob. oSchema ob = schema \<and> oTable ob = table \<and> oName ob = name) l"

definition findColumn :: "stable option \<Rightarrow> string \<Rightarrow> scolumn option" where
  "findColumn t name =
     (case t of None \<Rightarrow> None | Some t \<Rightarrow> List.find (\<lambda>c. cName c = name) (tColumns t))"

definition findTableObjects :: "dbschema \<Rightarrow> change \<Rightarrow> bool \<Rightarrow> sobject list" where
  "findTableObjects s c constraints =
     (case findTable s (chSchema c) (chTable c) of None \<Rightarrow> []
      | Some t \<Rightarrow> if constraints then tConstraints t else tIndexes t)"

definition findChange :: "change list \<Rightarrow> chkind \<Rightarrow> string \<Rightarrow> string \<Rightarrow> change option" where
  "findChange cs k table name = List.find (\<lambda>c. chKind c = k \<and> chTable c = table \<and> chName c = name) cs"

subsection \<open>The MySQL script (ddl.go)\<close>

definition mysqlDelimiter :: "string \<Rightarrow> string" where
  "mysqlDelimiter body =
     (case List.find (\<lambda>d. \<not> strContains body d) [''$$'', ''//'', '';;'', ''$$$''] of
        Some d \<Rightarrow> d | None \<Rightarrow> ''$$$$'')"

definition mysqlCompound :: "string \<Rightarrow> writer \<Rightarrow> writer" where
  "mysqlCompound def w =
     (let d = mysqlDelimiter def
      in wRaw (''DELIMITER '' @ d @ [NL] @ def @ '' '' @ d @ [NL] @ ''DELIMITER ;'' @ [NL]) w)"

definition mysqlDropIndex :: "sobject \<Rightarrow> string" where
  "mysqlDropIndex ix =
     (if oKind ix = ''PRIMARY'' then ''DROP PRIMARY KEY'' else ''DROP INDEX '' @ quoteMySQLIdent (oName ix))"

definition mysqlDropConstraint :: "string \<Rightarrow> sobject \<Rightarrow> string" where
  "mysqlDropConstraint engine c =
     (if oKind c = ''FOREIGN'' then ''DROP FOREIGN KEY '' @ quoteMySQLIdent (oName c)
      else if engine = ''mariadb'' then ''DROP CONSTRAINT '' @ quoteMySQLIdent (oName c)
      else ''DROP CHECK '' @ quoteMySQLIdent (oName c))"

fun changedTablesFrom :: "string set \<Rightarrow> change list \<Rightarrow> string list" where
  "changedTablesFrom seen [] = []"
| "changedTablesFrom seen (c # cs) =
     (if chKind c \<in> {KindColumn, KindIndex, KindOptions} \<and> chSchema c @ ''.'' @ chTable c \<notin> seen
      then chTable c # changedTablesFrom (insert (chSchema c @ ''.'' @ chTable c) seen) cs
      else changedTablesFrom seen cs)"

definition changedTables :: "change list \<Rightarrow> string list" where
  "changedTables cs = changedTablesFrom {} cs"

definition isPartitioning :: "change \<Rightarrow> bool" where
  "isPartitioning c = strContains (toUpperText (chAfter c @ chBefore c)) ''PARTITION''"

text \<open>The first loop over one changed table: options and index drops.\<close>

definition mysqlTableHead :: "string \<Rightarrow> stable option \<Rightarrow> change \<Rightarrow> writer \<Rightarrow> writer option" where
  "mysqlTableHead name old c w =
     (if chTable c \<noteq> name \<or> chKind c = KindTable then Some w
      else if chKind c = KindOptions then
        Some (if isPartitioning c
              then wManual (''table options of '' @ quoteMySQLIdent name @ '' changed (partitioning): '' @ chAfter c) w
              else wStmt (''ALTER TABLE '' @ quoteMySQLIdent name @ '' '' @ chAfter c) w)
      else if chKind c = KindIndex \<and> chOp c \<noteq> Added then
        Option.bind old (\<lambda>t. Option.bind (findObject (tIndexes t) [] [] (chName c)) (\<lambda>ob.
          Some (wStmt (''ALTER TABLE '' @ quoteMySQLIdent name @ '' '' @ mysqlDropIndex ob) w)))
      else Some w)"

text \<open>The loop over the columns of the new table: \<open>prev\<close> is the column before.\<close>

fun mysqlColumns :: "change list \<Rightarrow> string \<Rightarrow> scolumn option \<Rightarrow> scolumn list \<Rightarrow> writer \<Rightarrow> writer" where
  "mysqlColumns cs name prev [] w = w"
| "mysqlColumns cs name prev (c # rest) w =
     mysqlColumns cs name (Some c) rest
       (case findChange cs KindColumn name (cName c) of
          None \<Rightarrow> w
        | Some ch \<Rightarrow>
            (case chOp ch of
               Added \<Rightarrow> wStmt (''ALTER TABLE '' @ quoteMySQLIdent name @ '' ADD COLUMN '' @ cDef c
                   @ (case prev of None \<Rightarrow> '' FIRST'' | Some p \<Rightarrow> '' AFTER '' @ quoteMySQLIdent (cName p))) w
             | Changed \<Rightarrow> wStmt (''ALTER TABLE '' @ quoteMySQLIdent name @ '' MODIFY COLUMN '' @ cDef c) w
             | Removed \<Rightarrow> w))"

definition mysqlDropColumn :: "string \<Rightarrow> change \<Rightarrow> writer \<Rightarrow> writer option" where
  "mysqlDropColumn name c w = Some
     (if chTable c = name
      then wDestructive ''drops the column's data''
        (''ALTER TABLE '' @ quoteMySQLIdent name @ '' DROP COLUMN '' @ quoteMySQLIdent (chName c)) w
      else w)"

definition mysqlAddIndex :: "string \<Rightarrow> change \<Rightarrow> writer \<Rightarrow> writer option" where
  "mysqlAddIndex name c w = Some
     (if chTable c = name then wStmt (''ALTER TABLE '' @ quoteMySQLIdent name @ '' ADD '' @ chAfter c) w else w)"

definition mysqlTableStep :: "dbschema \<Rightarrow> dbschema \<Rightarrow> change list \<Rightarrow> string \<Rightarrow> writer \<Rightarrow> writer option" where
  "mysqlTableStep from_s to_s cs name w =
     Option.bind (each (mysqlTableHead name (findTable from_s [] name)) cs (wSection (''Table '' @ name) w)) (\<lambda>w.
     Option.bind (findTable to_s [] name) (\<lambda>t.
     Option.bind (each (mysqlDropColumn name) (changesOf cs KindColumn [Removed])
                   (mysqlColumns cs name None (tColumns t) w))
       (each (mysqlAddIndex name) (changesOf cs KindIndex [Added, Changed]))))"

definition mysqlDropRoutine :: "dbschema \<Rightarrow> change \<Rightarrow> writer \<Rightarrow> writer option" where
  "mysqlDropRoutine from_s c w = Some
     (let kind = (case findObject (sRoutines from_s) (chSchema c) [] (chName c) of
                    None \<Rightarrow> ''PROCEDURE''
                  | Some ob \<Rightarrow> if oKind ob \<noteq> [] then oKind ob else ''PROCEDURE'')
      in wStmt (''DROP '' @ kind @ '' IF EXISTS '' @ quoteMySQLIdent (chName c)) w)"

definition mysqlDropConstraintOf :: "dbschema \<Rightarrow> change \<Rightarrow> writer \<Rightarrow> writer option" where
  "mysqlDropConstraintOf from_s c w = Some
     (case findObject (findTableObjects from_s c True) [] [] (chName c) of
        None \<Rightarrow> w
      | Some ob \<Rightarrow> wStmt (''ALTER TABLE '' @ quoteMySQLIdent (chTable c) @ '' ''
                      @ mysqlDropConstraint (sEngine from_s) ob) w)"

definition mysqlNewTable :: "dbschema \<Rightarrow> change \<Rightarrow> writer \<Rightarrow> writer option" where
  "mysqlNewTable to_s c w =
     Option.bind (findTable to_s (chSchema c) (chTable c)) (\<lambda>t. Some (wStmt (mysqlCreateTable t) w))"

definition hasTableWork :: "change list \<Rightarrow> bool" where
  "hasTableWork cs \<longleftrightarrow> list_ex (\<lambda>c. chKind c \<in> {KindTable, KindColumn, KindIndex, KindConstraint, KindOptions}) cs"

definition mysqlDrops :: "dbschema \<Rightarrow> change list \<Rightarrow> writer \<Rightarrow> writer option" where
  "mysqlDrops from_s cs w =
     Option.bind (inSection ''Triggers to drop or replace''
       (\<lambda>c w. Some (wStmt (''DROP TRIGGER IF EXISTS '' @ quoteMySQLIdent (chName c)) w))
       (changesOf cs KindTrigger [Removed, Changed]) w) (\<lambda>w.
     Option.bind (inSection ''Views to drop''
       (\<lambda>c w. Some (wStmt (''DROP VIEW IF EXISTS '' @ quoteMySQLIdent (chName c)) w))
       (changesOf cs KindView [Removed]) w) (\<lambda>w.
     Option.bind (inSection ''Routines to drop or replace'' (mysqlDropRoutine from_s)
       (changesOf cs KindRoutine [Removed, Changed]) w)
     (inSection ''Constraints to drop or replace'' (mysqlDropConstraintOf from_s)
       (changesOf cs KindConstraint [Removed, Changed]))))"

definition mysqlAdds :: "change list \<Rightarrow> writer \<Rightarrow> writer option" where
  "mysqlAdds cs w =
     Option.bind (inSection ''Constraints to add''
       (\<lambda>c w. Some (wStmt (''ALTER TABLE '' @ quoteMySQLIdent (chTable c) @ '' ADD '' @ chAfter c) w))
       (changesOf cs KindConstraint [Added, Changed]) w) (\<lambda>w.
     Option.bind (inSection ''Tables only in the target''
       (\<lambda>c w. Some (wDestructive ''drops the table and its rows'' (''DROP TABLE '' @ quoteMySQLIdent (chTable c)) w))
       (changesOf cs KindTable [Removed]) w) (\<lambda>w.
     Option.bind (inSection ''Views'' (\<lambda>c w. Some (wStmt (chAfter c) w)) (changesOf cs KindView [Added, Changed]) w) (\<lambda>w.
     Option.bind (inSection ''Routines'' (\<lambda>c w. Some (mysqlCompound (chAfter c) w))
       (changesOf cs KindRoutine [Added, Changed]) w)
     (inSection ''Triggers'' (\<lambda>c w. Some (mysqlCompound (chAfter c) w)) (changesOf cs KindTrigger [Added, Changed])))))"

definition mysqlScript :: "dbschema \<Rightarrow> dbschema \<Rightarrow> change list \<Rightarrow> writer \<Rightarrow> writer option" where
  "mysqlScript from_s to_s cs w =
     Option.bind (mysqlDrops from_s cs (if hasTableWork cs then wStmt ''SET FOREIGN_KEY_CHECKS = 0'' w else w)) (\<lambda>w.
     Option.bind (inSection ''New tables'' (mysqlNewTable to_s) (changesOf cs KindTable [Added]) w) (\<lambda>w.
     Option.bind (each (mysqlTableStep from_s to_s cs) (changedTables cs) w) (\<lambda>w.
     Option.bind (mysqlAdds cs w) (\<lambda>w.
       Some (if hasTableWork cs then wStmt ''SET FOREIGN_KEY_CHECKS = 1'' (wRaw [NL] w) else w)))))"

subsection \<open>The PostgreSQL script (ddl.go)\<close>

definition pgColumnDef :: "scolumn \<Rightarrow> string" where
  "pgColumnDef c =
     quotePGIdent (cName c) @ '' '' @ cType c
     @ (if cCollation c \<noteq> [] then '' COLLATE '' @ cCollation c else [])
     @ (if cGenerated c \<noteq> [] then '' GENERATED ALWAYS AS ('' @ cGenerated c @ '') STORED'' else [])
     @ (if cIdentity c \<noteq> [] then '' GENERATED '' @ cIdentity c @ '' AS IDENTITY'' else [])
     @ (if cNotNull c then '' NOT NULL'' else [])
     @ (if cDefault c \<noteq> [] then '' DEFAULT '' @ cDefault c else [])"

text \<open>\<open>nextvalRe\<close>: the part between the fixed prefix and suffix is a non-empty sequence of bytes
  other than a quote and of doubled quotes.\<close>

fun nextvalBody :: "string \<Rightarrow> bool" where
  "nextvalBody [] = True"
| "nextvalBody [c] = (c \<noteq> SQ)"
| "nextvalBody (c # d # s) = (if c = SQ then d = SQ \<and> nextvalBody s else nextvalBody (d # s))"

definition nextvalPre :: string where "nextvalPre = ''nextval('' @ [SQ]"
definition nextvalPost :: string where "nextvalPost = [SQ] @ ''::regclass)''"

definition pgSequence :: "scolumn \<Rightarrow> string" where
  "pgSequence c =
     (let s = cDefault c;
          body = take (length s - length nextvalPre - length nextvalPost) (drop (length nextvalPre) s)
      in if hasPrefix nextvalPre s \<and> body \<noteq> [] \<and> s = nextvalPre @ body @ nextvalPost \<and> nextvalBody body
         then replaceAll body [SQ, SQ] [SQ] else [])"

definition pgConstraintRank :: "string \<Rightarrow> nat" where
  "pgConstraintRank k =
     (if k = ''p'' then 0 else if k = ''u'' \<or> k = ''x'' then 1 else if k = ''c'' then 2 else 3)"

definition constraintKind :: "dbschema \<Rightarrow> change \<Rightarrow> string" where
  "constraintKind s c =
     (case findObject (findTableObjects s c True) [] [] (chName c) of Some ob \<Rightarrow> oKind ob | None \<Rightarrow> [])"

definition pgLiteral :: "string \<Rightarrow> string" where
  "pgLiteral s = [SQ] @ replaceByte SQ [SQ, SQ] s @ [SQ]"

text \<open>\<open>pgEnumChange\<close>: \<open>matchLabels\<close> is the loop that counts the old labels found in order;
  \<open>enumSteps\<close> the loop that places the new labels, as (label, position) pairs, and \<open>enumStmt\<close> the
  statement of one pair.\<close>

datatype enumpos = AtEnd | AfterLabel string | BeforeLabel string

fun matchLabels :: "string list \<Rightarrow> nat \<Rightarrow> string list \<Rightarrow> nat" where
  "matchLabels old j [] = j"
| "matchLabels old j (v # vs) =
     matchLabels old (if j < length old \<and> old ! j = v then j + 1 else j) vs"

fun enumSteps :: "string list \<Rightarrow> string option \<Rightarrow> string set \<Rightarrow> string list \<Rightarrow> (string \<times> enumpos) list" where
  "enumSteps old prev have_labels [] = []"
| "enumSteps old prev have_labels (v # vs) =
     (if v \<in> have_labels then enumSteps old (Some v) have_labels vs
      else (v, case prev of Some p \<Rightarrow> AfterLabel p
                 | None \<Rightarrow> if old \<noteq> [] then BeforeLabel (hd old) else AtEnd)
           # enumSteps old (Some v) (insert v have_labels) vs)"

fun enumPosText :: "enumpos \<Rightarrow> string" where
  "enumPosText AtEnd = []"
| "enumPosText (AfterLabel p) = '' AFTER '' @ pgLiteral p"
| "enumPosText (BeforeLabel p) = '' BEFORE '' @ pgLiteral p"

definition enumStmt :: "string \<Rightarrow> string \<times> enumpos \<Rightarrow> string" where
  "enumStmt name st =
     ''ALTER TYPE '' @ name @ '' ADD VALUE '' @ pgLiteral (fst st) @ enumPosText (snd st)"

definition enumExtends :: "sobject \<Rightarrow> sobject \<Rightarrow> bool" where
  "enumExtends old cur \<longleftrightarrow> matchLabels (oLabels old) 0 (oLabels cur) = length (oLabels old)
     \<and> oKind old = ''ENUM'' \<and> oKind cur = ''ENUM''"

definition pgEnumChange :: "sobject option \<Rightarrow> sobject option \<Rightarrow> writer \<Rightarrow> writer" where
  "pgEnumChange old cur w =
     (case (old, cur) of
        (Some old, Some cur) \<Rightarrow>
          (if \<not> enumExtends old cur
           then wManual (''type '' @ pgTableName (oSchema cur) (oName cur)
                  @ '' differs and cannot be altered in place: '' @ oDef cur) w
           else fold (\<lambda>st. wStmt (enumStmt (pgTableName (oSchema cur) (oName cur)) st))
                  (enumSteps (oLabels old) None (set (oLabels old)) (oLabels cur)) w)
      | _ \<Rightarrow> w)"

text \<open>The writer together with the \<open>owned\<close> statements collected for the end of the script.\<close>

type_synonym pgstate = "writer \<times> string list"

definition onW :: "(writer \<Rightarrow> writer) \<Rightarrow> pgstate \<Rightarrow> pgstate" where
  "onW f st = (f (fst st), snd st)"

definition ownSeq :: "scolumn \<Rightarrow> string \<Rightarrow> string \<Rightarrow> pgstate \<Rightarrow> pgstate" where
  "ownSeq col schema table st =
     (if pgSequence col = [] then st
      else (wStmt (''CREATE SEQUENCE IF NOT EXISTS '' @ pgSequence col) (fst st),
            snd st @ [''ALTER SEQUENCE '' @ pgSequence col @ '' OWNED BY '' @ pgTableName schema table
                        @ ''.'' @ quotePGIdent (cName col)]))"

definition pgAlterColumn :: "string \<Rightarrow> scolumn option \<Rightarrow> scolumn option \<Rightarrow> change \<Rightarrow> pgstate \<Rightarrow> pgstate" where
  "pgAlterColumn tq old cur c st =
     (case (old, cur) of
        (Some old, Some cur) \<Rightarrow>
          (let col = quotePGIdent (cName cur);
               alter = (\<lambda>s. onW (wStmt (''ALTER TABLE '' @ tq @ '' ALTER COLUMN '' @ col @ '' '' @ s)))
           in if cGenerated old \<noteq> cGenerated cur
              then onW (wManual (''column '' @ tq @ ''.'' @ col @ '': generation expression changed to ''
                     @ goQuote (cGenerated cur) @ ''; drop and re-add the column'')) st
              else
                let st1 = (if cType old \<noteq> cType cur \<or> cCollation old \<noteq> cCollation cur
                           then alter (''TYPE '' @ cType cur
                                  @ (if cCollation cur \<noteq> [] then '' COLLATE '' @ cCollation cur else [])
                                  @ '' USING '' @ col @ ''::'' @ cType cur) st
                           else st);
                    (st2, notNull, deflt) =
                      (if cIdentity old = cIdentity cur then (st1, cNotNull old, cDefault old)
                       else if cIdentity cur = [] then (alter ''DROP IDENTITY'' st1, cNotNull old, cDefault old)
                       else if cIdentity old = []
                       then (alter (''ADD GENERATED '' @ cIdentity cur @ '' AS IDENTITY'')
                              ((if \<not> cNotNull old then alter ''SET NOT NULL'' else id)
                                ((if cDefault old \<noteq> [] then alter ''DROP DEFAULT'' else id) st1)), True, [])
                       else (alter (''SET GENERATED '' @ cIdentity cur) st1, cNotNull old, cDefault old));
                    st3 = (if notNull \<noteq> cNotNull cur
                           then alter (if cNotNull cur then ''SET NOT NULL'' else ''DROP NOT NULL'') st2
                           else st2)
                in if deflt = cDefault cur then st3
                   else if cDefault cur = [] then alter ''DROP DEFAULT'' st3
                   else alter (''SET DEFAULT '' @ cDefault cur) (ownSeq cur (chSchema c) (chTable c) st3))
      | _ \<Rightarrow> st)"

text \<open>A new table's constraints and indexes are added like any other.\<close>

fun pgExpand :: "dbschema \<Rightarrow> change list \<Rightarrow> change list option" where
  "pgExpand to_s [] = Some []"
| "pgExpand to_s (c # cs) =
     Option.bind (findTable to_s (chSchema c) (chTable c)) (\<lambda>t.
     Option.bind (pgExpand to_s cs) (\<lambda>rest. Some
       (map (\<lambda>ob. mkChange KindConstraint Added (tSchema t) (tName t) (oName ob) [] (oDef ob)) (tConstraints t)
        @ map (\<lambda>ob. mkChange KindIndex Added (tSchema t) (tName t) (oName ob) [] (oDef ob)) (tIndexes t)
        @ rest)))"

definition pgExtension :: "change \<Rightarrow> writer \<Rightarrow> writer option" where
  "pgExtension c w = Some
     (case chOp c of
        Added \<Rightarrow> wStmt (chAfter c) w
      | Removed \<Rightarrow> wDestructive ''other objects may depend on it'' (''DROP EXTENSION '' @ quotePGIdent (chName c)) w
      | Changed \<Rightarrow> wManual (''extension '' @ chName c @ '' differs: '' @ chAfter c) w)"

definition pgType :: "dbschema \<Rightarrow> dbschema \<Rightarrow> change \<Rightarrow> writer \<Rightarrow> writer option" where
  "pgType from_s to_s c w = Some
     (case chOp c of
        Added \<Rightarrow> wStmt (chAfter c) w
      | Removed \<Rightarrow> wDestructive ''columns may use it'' (''DROP TYPE '' @ pgTableName (chSchema c) (chName c)) w
      | Changed \<Rightarrow> pgEnumChange (findObject (sTypes from_s) (chSchema c) [] (chName c))
                     (findObject (sTypes to_s) (chSchema c) [] (chName c)) w)"

definition isMaterialized :: "dbschema \<Rightarrow> change \<Rightarrow> bool" where
  "isMaterialized from_s c =
     (case findObject (sViews from_s) (chSchema c) [] (chName c) of
        None \<Rightarrow> False | Some ob \<Rightarrow> oKind ob = ''MATERIALIZED'')"

definition pgDropRoutine :: "dbschema \<Rightarrow> change \<Rightarrow> writer \<Rightarrow> writer option" where
  "pgDropRoutine from_s c w = Some
     (case findObject (sRoutines from_s) (chSchema c) [] (chName c) of
        None \<Rightarrow> w | Some ob \<Rightarrow> if oDrop ob \<noteq> [] then wStmt (oDrop ob) w else w)"

definition pgNewTable :: "dbschema \<Rightarrow> change \<Rightarrow> pgstate \<Rightarrow> pgstate option" where
  "pgNewTable to_s c st =
     Option.bind (findTable to_s (chSchema c) (chTable c)) (\<lambda>t. Some
       (onW (wStmt (pgCreateTable t))
         (fold (\<lambda>col. ownSeq col (tSchema t) (tName t)) (tColumns t) st)))"

definition pgColumn :: "dbschema \<Rightarrow> dbschema \<Rightarrow> change \<Rightarrow> pgstate \<Rightarrow> pgstate option" where
  "pgColumn from_s to_s c st =
     (let tq = pgTableName (chSchema c) (chTable c);
          old = findColumn (findTable from_s (chSchema c) (chTable c)) (chName c);
          cur = findColumn (findTable to_s (chSchema c) (chTable c)) (chName c)
      in case chOp c of
           Added \<Rightarrow> Option.bind cur (\<lambda>col. Some
             (onW (wStmt (''ALTER TABLE '' @ tq @ '' ADD COLUMN '' @ cDef col))
               (ownSeq col (chSchema c) (chTable c) st)))
         | Removed \<Rightarrow> Some (onW (wDestructive ''drops the column's data''
             (''ALTER TABLE '' @ tq @ '' DROP COLUMN '' @ quotePGIdent (chName c))) st)
         | Changed \<Rightarrow> Some (pgAlterColumn tq old cur c st))"

definition inSectionP :: "string \<Rightarrow> ('a \<Rightarrow> pgstate \<Rightarrow> pgstate option) \<Rightarrow> 'a list \<Rightarrow> pgstate \<Rightarrow> pgstate option" where
  "inSectionP title f l st = (if l = [] then Some st else each f l (onW (wSection title) st))"

definition pgDropStage :: "dbschema \<Rightarrow> dbschema \<Rightarrow> change list \<Rightarrow> writer \<Rightarrow> writer option" where
  "pgDropStage from_s to_s cs w =
     Option.bind (inSection ''Extensions'' pgExtension (changesOf cs KindExtension []) w) (\<lambda>w.
     Option.bind (inSection ''Types'' (pgType from_s to_s) (changesOf cs KindType []) w) (\<lambda>w.
     Option.bind (inSection ''Triggers to drop or replace''
       (\<lambda>c w. Some (wStmt (''DROP TRIGGER IF EXISTS '' @ quotePGIdent (chName c) @ '' ON ''
                       @ pgTableName (chSchema c) (chTable c)) w))
       (changesOf cs KindTrigger [Removed, Changed]) w) (\<lambda>w.
     Option.bind (inSection ''Views to drop''
       (\<lambda>c w. Some (wStmt (''DROP '' @ (if isMaterialized from_s c then ''MATERIALIZED VIEW'' else ''VIEW'')
                       @ '' IF EXISTS '' @ pgTableName (chSchema c) (chName c)) w))
       (changesOf cs KindView [Removed]) w) (\<lambda>w.
     Option.bind (each (\<lambda>c w. Some (if isMaterialized from_s c
         then wStmt (''DROP MATERIALIZED VIEW IF EXISTS '' @ pgTableName (chSchema c) (chName c)) w else w))
       (changesOf cs KindView [Changed]) w) (\<lambda>w.
     Option.bind (inSection ''Routines to drop'' (pgDropRoutine from_s) (changesOf cs KindRoutine [Removed]) w) (\<lambda>w.
     Option.bind (inSection ''Constraints to drop or replace''
       (\<lambda>c w. Some (wStmt (''ALTER TABLE '' @ pgTableName (chSchema c) (chTable c) @ '' DROP CONSTRAINT ''
                       @ quotePGIdent (chName c)) w))
       (sort_key (\<lambda>c. 3 - pgConstraintRank (constraintKind from_s c))
          (changesOf cs KindConstraint [Removed, Changed])) w)
     (inSection ''Indexes to drop or replace''
       (\<lambda>c w. Some (wStmt (''DROP INDEX '' @ pgTableName (chSchema c) (chName c)) w))
       (changesOf cs KindIndex [Removed, Changed]))))))))"

definition pgTableStage :: "dbschema \<Rightarrow> dbschema \<Rightarrow> change list \<Rightarrow> pgstate \<Rightarrow> pgstate option" where
  "pgTableStage from_s to_s cs st =
     Option.bind (inSectionP ''New tables'' (pgNewTable to_s) (changesOf cs KindTable [Added]) st) (\<lambda>st.
     inSectionP ''Columns'' (pgColumn from_s to_s) (changesOf cs KindColumn [])
       (fold (\<lambda>c. onW (wManual (''table options of '' @ pgTableName (chSchema c) (chTable c) @ '' differ: ''
                         @ goQuote (chAfter c) @ '' in the source, '' @ goQuote (chBefore c) @ '' here'')))
         (changesOf cs KindOptions []) st))"

definition pgAddStage :: "dbschema \<Rightarrow> change list \<Rightarrow> writer \<Rightarrow> writer option" where
  "pgAddStage to_s cs w =
     Option.bind (inSection ''Constraints to add''
       (\<lambda>c w. Some (wStmt (''ALTER TABLE '' @ pgTableName (chSchema c) (chTable c) @ '' ADD CONSTRAINT ''
                       @ quotePGIdent (chName c) @ '' '' @ chAfter c) w))
       (sort_key (\<lambda>c. pgConstraintRank (constraintKind to_s c)) (changesOf cs KindConstraint [Added, Changed])) w) (\<lambda>w.
     Option.bind (inSection ''Indexes'' (\<lambda>c w. Some (wStmt (chAfter c) w)) (changesOf cs KindIndex [Added, Changed]) w) (\<lambda>w.
     Option.bind (inSection ''Tables only in the target''
       (\<lambda>c w. Some (wDestructive ''drops the table and its rows''
                      (''DROP TABLE '' @ pgTableName (chSchema c) (chTable c)) w))
       (changesOf cs KindTable [Removed]) w) (\<lambda>w.
     Option.bind (inSection ''Routines''
       (\<lambda>c w. Some (wStmt (chAfter c)
          (if chOp c = Changed then wRaw (''-- If the return type changed, DROP the routine first.'' @ [NL]) w else w)))
       (changesOf cs KindRoutine [Added, Changed]) w) (\<lambda>w.
     Option.bind (inSection ''Views'' (\<lambda>c w. Some (wStmt (chAfter c) w)) (changesOf cs KindView [Added, Changed]) w)
     (inSection ''Triggers'' (\<lambda>c w. Some (wStmt (chAfter c) w)) (changesOf cs KindTrigger [Added, Changed]))))))"

definition pgScript :: "dbschema \<Rightarrow> dbschema \<Rightarrow> change list \<Rightarrow> writer \<Rightarrow> writer option" where
  "pgScript from_s to_s cs0 w =
     Option.bind (pgExpand to_s (changesOf cs0 KindTable [Added])) (\<lambda>more.
       let cs = cs0 @ more in
       Option.bind (pgDropStage from_s to_s cs w) (\<lambda>w.
       Option.bind (pgTableStage from_s to_s cs (w, [])) (\<lambda>(w, owned).
       Option.bind (pgAddStage to_s cs w) (\<lambda>w.
       inSection ''Sequence ownership'' (\<lambda>s w. Some (wStmt s w)) owned w))))"

record migration =
  mSQL :: string
  mChanges :: "change list"
  mReview :: nat

definition migrate :: "dbschema \<Rightarrow> dbschema \<Rightarrow> migration option" where
  "migrate from_s to_s =
     (let cs = schemaDiff from_s to_s; w0 = \<lparr>wbuf = [], wreview = 0\<rparr>
      in map_option (\<lambda>w. \<lparr>mSQL = wbuf w, mChanges = cs, mReview = wreview w\<rparr>)
           (if sDialect to_s = dialectPostgres then pgScript from_s to_s cs w0
            else mysqlScript from_s to_s cs w0))"

subsection \<open>Reading \<open>SHOW CREATE TABLE\<close> (engine/mariadb_schema.go)\<close>

definition regexSpace :: "char \<Rightarrow> bool" where
  "regexSpace c \<longleftrightarrow> c \<in> {CHR 0x20, TAB, NL, CR, CHR 0x0C}"

text \<open>\<open>autoIncrementOpt\<close>, white space, the option name and digits, removed wherever it matches (leftmost, greedy).\<close>

function dropAutoIncrement :: "string \<Rightarrow> string" where
  "dropAutoIncrement s =
     (let t = dropWhile regexSpace s; d = drop 15 t in
      if hasPrefix ''AUTO_INCREMENT='' t \<and> d \<noteq> [] \<and> isDigitByte (hd d)
      then dropAutoIncrement (dropWhile isDigitByte d)
      else case s of [] \<Rightarrow> [] | c # cs \<Rightarrow> c # dropAutoIncrement cs)"
  by pat_completeness auto
termination
proof (relation "measure length", goal_cases)
  case (2 s t d)
  have "length t \<le> length s" using 2 by (simp add: length_dropWhile_le)
  moreover have "0 < length t - 15" using 2 by auto
  moreover have "length (dropWhile isDigitByte d) \<le> length t - 15"
    using 2 length_dropWhile_le [of isDigitByte d] by simp
  ultimately show ?case by simp
qed auto

declare dropAutoIncrement.simps [simp del]

definition firstIdent :: "string \<Rightarrow> string" where
  "firstIdent s =
     (case indexByte s BQ of None \<Rightarrow> []
      | Some i \<Rightarrow> unquoteIdent (substr s i (skipQuoted s i BQ)))"

definition trimSuffixComma :: "string \<Rightarrow> string" where
  "trimSuffixComma s = (if s \<noteq> [] \<and> last s = CHR '','' then butlast s else s)"

definition mysqlObject :: "string \<Rightarrow> string \<Rightarrow> string \<Rightarrow> sobject" where
  "mysqlObject name kind def = \<lparr>oSchema = [], oName = name, oKind = kind, oTable = [], oDef = def,
     oLabels = [], oDrop = []\<rparr>"

definition mysqlColumn :: "string \<Rightarrow> string \<Rightarrow> scolumn" where
  "mysqlColumn name def = \<lparr>cName = name, cDef = def, cType = [], cCollation = [], cNotNull = False,
     cDefault = [], cIdentity = [], cGenerated = []\<rparr>"

definition addCreateLine :: "string \<Rightarrow> stable \<Rightarrow> stable" where
  "addCreateLine def t =
     (let upper = toUpperText def;
          addIndex = (\<lambda>ob. t\<lparr>tIndexes := tIndexes t @ [ob]\<rparr>);
          addConstraint = (\<lambda>ob. t\<lparr>tConstraints := tConstraints t @ [ob]\<rparr>)
      in if hasPrefix [BQ] def then t\<lparr>tColumns := tColumns t @ [mysqlColumn (firstIdent def) def]\<rparr>
         else if hasPrefix ''PRIMARY KEY'' upper then addIndex (mysqlObject ''PRIMARY'' ''PRIMARY'' def)
         else if hasPrefix ''UNIQUE'' upper then addIndex (mysqlObject (firstIdent def) ''UNIQUE'' def)
         else if hasPrefix ''CONSTRAINT'' upper then addConstraint (mysqlObject (firstIdent def)
           (if strContains upper '' FOREIGN KEY '' then ''FOREIGN'' else ''CHECK'') def)
         else if strContains upper ''KEY '' \<or> strContains upper ''INDEX ''
           then addIndex (mysqlObject (firstIdent def) ''INDEX'' def)
         else addConstraint (mysqlObject def ''OTHER'' def))"

fun parseCreateLines :: "string list \<Rightarrow> stable \<Rightarrow> stable" where
  "parseCreateLines [] t = t"
| "parseCreateLines (l # ls) t =
     (let line = trimSpace l in
      if hasPrefix '')'' line
      then let opts = trimSpace (drop 1 line); rest = trimSpace (joinStr [NL] ls)
           in t\<lparr>tOptions := trimSpace (dropAutoIncrement (if rest \<noteq> [] then opts @ [NL] @ rest else opts))\<rparr>
      else parseCreateLines ls (addCreateLine (trimSuffixComma line) t))"

definition parseMySQLCreateTable :: "string \<Rightarrow> string \<Rightarrow> stable" where
  "parseMySQLCreateTable name create =
     parseCreateLines (drop 1 (splitByte NL create))
       \<lparr>tSchema = [], tName = name, tColumns = [], tIndexes = [], tConstraints = [], tOptions = []\<rparr>"

subsection \<open>Diff finds nothing exactly when the structures are the same\<close>

text \<open>The structure of a schema as sets of keyed definitions: what \<open>Diff\<close> compares.\<close>

definition objectView :: "sobject list \<Rightarrow> (string \<times> string) set" where
  "objectView os = set (map (\<lambda>ob. (objectKey ob, oDef ob)) os)"

definition columnView :: "stable \<Rightarrow> (string \<times> string) set" where
  "columnView t = set (map (\<lambda>c. (cName c, cDef c)) (tColumns t))"

definition tableView :: "stable \<Rightarrow> string \<times> (string \<times> string) set \<times> (string \<times> string) set \<times> (string \<times> string) set" where
  "tableView t = (tOptions t, columnView t, objectView (tIndexes t), objectView (tConstraints t))"

definition sameStructure :: "dbschema \<Rightarrow> dbschema \<Rightarrow> bool" where
  "sameStructure a b \<longleftrightarrow>
     set (map (\<lambda>t. (tableKey t, tableView t)) (sTables a)) = set (map (\<lambda>t. (tableKey t, tableView t)) (sTables b))
     \<and> objectView (sViews a) = objectView (sViews b) \<and> objectView (sRoutines a) = objectView (sRoutines b)
     \<and> objectView (sTriggers a) = objectView (sTriggers b) \<and> objectView (sTypes a) = objectView (sTypes b)
     \<and> objectView (sExtensions a) = objectView (sExtensions b)"

definition keyedTable :: "stable \<Rightarrow> bool" where
  "keyedTable t \<longleftrightarrow> distinct (map cName (tColumns t)) \<and> distinct (map objectKey (tIndexes t))
     \<and> distinct (map objectKey (tConstraints t))"

definition keyedSchema :: "dbschema \<Rightarrow> bool" where
  "keyedSchema s \<longleftrightarrow> distinct (map tableKey (sTables s)) \<and> list_all keyedTable (sTables s)
     \<and> distinct (map objectKey (sViews s)) \<and> distinct (map objectKey (sRoutines s))
     \<and> distinct (map objectKey (sTriggers s)) \<and> distinct (map objectKey (sTypes s))
     \<and> distinct (map objectKey (sExtensions s))"

lemma lastBy_None: "lastBy f xs k = None \<longleftrightarrow> k \<notin> f ` set xs"
  by (auto simp: lastBy_def find_None_iff)

lemma lastBy_Some: "lastBy f xs k = Some x \<Longrightarrow> x \<in> set xs \<and> f x = k"
  unfolding lastBy_def by (auto simp: find_Some_iff) (metis nth_mem length_rev set_rev)

lemma lastBy_unique:
  assumes "distinct (map f xs)" "x \<in> set xs" shows "lastBy f xs (f x) = Some x"
proof (cases "lastBy f xs (f x)")
  case None
  with assms show ?thesis by (auto simp: lastBy_None)
next
  case (Some y)
  with lastBy_Some [OF Some] assms show ?thesis by (auto simp: distinct_map inj_on_def)
qed

text \<open>The core of every comparison of the diff: two lists, a key and what is compared.\<close>

definition keyedAgree :: "('a \<Rightarrow> string) \<Rightarrow> ('a \<Rightarrow> 'a \<Rightarrow> bool) \<Rightarrow> 'a list \<Rightarrow> 'a list \<Rightarrow> bool" where
  "keyedAgree f eq a b \<longleftrightarrow>
     (\<forall>x \<in> set b. \<exists>y. lastBy f a (f x) = Some y \<and> eq y x) \<and> (\<forall>x \<in> set a. f x \<in> f ` set b)"

lemma keyedAgree_iff:
  assumes da: "distinct (map f a)" and db: "distinct (map f b)"
    and eq: "\<And>x y. x \<in> set a \<Longrightarrow> y \<in> set b \<Longrightarrow> f x = f y \<Longrightarrow> eq x y \<longleftrightarrow> v x = v y"
  shows "keyedAgree f eq a b \<longleftrightarrow> (\<lambda>x. (f x, v x)) ` set a = (\<lambda>x. (f x, v x)) ` set b"
proof
  assume ag: "keyedAgree f eq a b"
  have ba: "\<exists>y \<in> set a. f y = f x \<and> v y = v x" if "x \<in> set b" for x
    using ag that eq lastBy_Some [of f a "f x"] unfolding keyedAgree_def by fastforce
  have ab: "\<exists>y \<in> set b. f y = f x \<and> v y = v x" if x: "x \<in> set a" for x
  proof -
    obtain y where y: "y \<in> set b" "f y = f x" using ag x unfolding keyedAgree_def by force
    from ba [OF y(1)] obtain z where z: "z \<in> set a" "f z = f y" "v z = v y" by blast
    with x y da have "z = x" by (auto simp: distinct_map inj_on_def)
    with y z show ?thesis by auto
  qed
  show "(\<lambda>x. (f x, v x)) ` set a = (\<lambda>x. (f x, v x)) ` set b"
    using ab ba by (auto simp: image_iff) metis+
next
  assume same: "(\<lambda>x. (f x, v x)) ` set a = (\<lambda>x. (f x, v x)) ` set b"
  show "keyedAgree f eq a b" unfolding keyedAgree_def
  proof (intro conjI ballI)
    fix x assume x: "x \<in> set b"
    then have "(f x, v x) \<in> (\<lambda>x. (f x, v x)) ` set a" using same by blast
    then obtain y where y: "y \<in> set a" "f y = f x" "v y = v x" by auto
    then show "\<exists>y. lastBy f a (f x) = Some y \<and> eq y x"
      using lastBy_unique [OF da y(1)] eq [OF y(1) x] by auto
  next
    fix x assume "x \<in> set a"
    then have "(f x, v x) \<in> (\<lambda>x. (f x, v x)) ` set b" using same by blast
    then show "f x \<in> f ` set b" by auto
  qed
qed

lemma concat_map_Nil: "concat (map g xs) = [] \<longleftrightarrow> (\<forall>x \<in> set xs. g x = [])"
  by auto

lemma lookup_Nil:
  "(case m of None \<Rightarrow> x # xs | Some old \<Rightarrow> if c old then [z old] else []) = [] \<longleftrightarrow> (\<exists>y. m = Some y \<and> \<not> c y)"
  by (cases m) auto

lemma diffObjects_Nil_agree:
  "diffObjects k t a b = [] \<longleftrightarrow> keyedAgree objectKey (\<lambda>x y. oDef x = oDef y) a b"
  unfolding diffObjects_def keyedAgree_def append_is_Nil_conv concat_map_Nil
  by (simp add: Let_def lookup_Nil)

lemma diffColumns_Nil_agree:
  "diffColumns a b = [] \<longleftrightarrow> keyedAgree cName (\<lambda>x y. cDef x = cDef y) (tColumns a) (tColumns b)"
  unfolding diffColumns_def keyedAgree_def append_is_Nil_conv concat_map_Nil
  by (simp add: lookup_Nil)

lemma diffObjects_Nil:
  assumes "distinct (map objectKey a)" "distinct (map objectKey b)"
  shows "diffObjects k t a b = [] \<longleftrightarrow> objectView a = objectView b"
  using keyedAgree_iff [OF assms, of "\<lambda>x y. oDef x = oDef y" oDef]
  by (simp add: diffObjects_Nil_agree objectView_def)

lemma diffTable_Nil:
  assumes "keyedTable a" "keyedTable b"
  shows "diffTable a b = [] \<longleftrightarrow> tableView a = tableView b"
proof -
  have "diffColumns a b = [] \<longleftrightarrow> columnView a = columnView b"
    using keyedAgree_iff [of cName "tColumns a" "tColumns b" "\<lambda>x y. cDef x = cDef y" cDef] assms
    by (simp add: diffColumns_Nil_agree columnView_def keyedTable_def)
  with assms show ?thesis
    by (auto simp: diffTable_def tableView_def keyedTable_def diffObjects_Nil)
qed


definition emptySchema :: "string \<Rightarrow> dbschema" where
  "emptySchema d = \<lparr>sDialect = d, sEngine = d, sTables = [], sViews = [], sRoutines = [], sTriggers = [],
     sTypes = [], sExtensions = [], sTruncated = False\<rparr>"

definition itemsTable :: "stable" where
  "itemsTable = parseMySQLCreateTable ''items''
     (''CREATE TABLE `items` ('' @ [NL] @ ''  `id` int NOT NULL AUTO_INCREMENT,'' @ [NL]
      @ ''  `qty` int DEFAULT NULL,'' @ [NL] @ ''  PRIMARY KEY (`id`)'' @ [NL]
      @ '') ENGINE=InnoDB AUTO_INCREMENT=7 DEFAULT CHARSET=utf8mb4'')"


definition shopSchema :: dbschema where
  "shopSchema = (emptySchema dialectMySQL)\<lparr>sTables := [itemsTable]\<rparr>"

lemma itemsTable_eq: "itemsTable = \<lparr>tSchema = [], tName = ''items'',
   tColumns = [mysqlColumn ''id'' ''`id` int NOT NULL AUTO_INCREMENT'', mysqlColumn ''qty'' ''`qty` int DEFAULT NULL''],
   tIndexes = [mysqlObject ''PRIMARY'' ''PRIMARY'' ''PRIMARY KEY (`id`)''], tConstraints = [],
   tOptions = ''ENGINE=InnoDB DEFAULT CHARSET=utf8mb4''\<rparr>"
  by code_simp


lemma diffObjects_collision:
  assumes "x \<in> set os" "y \<in> set os" "objectKey x = objectKey y" "oDef x \<noteq> oDef y"
  shows "diffObjects k t os os \<noteq> []"
proof
  assume "diffObjects k t os os = []"
  then have "\<forall>z \<in> set os. \<exists>w. lastBy objectKey os (objectKey z) = Some w \<and> oDef w = oDef z"
    by (simp add: diffObjects_Nil_agree keyedAgree_def)
  with assms show False by (metis option.inject)
qed

text \<open>The key of a routine leaves out its kind, but MySQL lets a procedure and a function share
  their name: when a database has such a pair, comparing its structure with itself reports a
  change, so two identical databases with such a pair never compare equal.\<close>

theorem routine_pair_never_equal:
  assumes "p \<in> set (sRoutines s)" "f \<in> set (sRoutines s)"
    and "oSchema p = oSchema f" "oTable p = oTable f" "oName p = oName f" "oDef p \<noteq> oDef f"
  shows "schemaDiff s s \<noteq> []"
proof -
  have "objectKey p = objectKey f" using assms by (simp add: objectKey_def)
  from diffObjects_collision [OF assms(1,2) this assms(6), of KindRoutine "[]"]
  show ?thesis by (simp add: schemaDiff_def)
qed

definition pairSchema :: dbschema where
  "pairSchema = (emptySchema dialectMySQL)\<lparr>sRoutines :=
     [mysqlObject ''total'' ''FUNCTION'' ''CREATE FUNCTION `total`() RETURNS int RETURN 1'',
      mysqlObject ''total'' ''PROCEDURE'' ''CREATE PROCEDURE `total`() SELECT 1'']\<rparr>"

lemma routine_pair_never_equal_witness: "schemaDiff pairSchema pairSchema \<noteq> []"
  by (rule routine_pair_never_equal [of "mysqlObject ''total'' ''PROCEDURE'' ''CREATE PROCEDURE `total`() SELECT 1''" _
        "mysqlObject ''total'' ''FUNCTION'' ''CREATE FUNCTION `total`() RETURNS int RETURN 1''"])
     (simp_all add: pairSchema_def mysqlObject_def)

subsection \<open>Extending an enum type\<close>

text \<open>What PostgreSQL does on \<open>ALTER TYPE ... ADD VALUE\<close>: the label must be new, its neighbour
  present, and it is put right after or before it.\<close>

fun applyEnum :: "string \<times> enumpos \<Rightarrow> string list \<Rightarrow> string list option" where
  "applyEnum (v, AtEnd) ls = (if v \<in> set ls then None else Some (ls @ [v]))"
| "applyEnum (v, AfterLabel p) ls =
     (if v \<in> set ls \<or> p \<notin> set ls then None
      else Some (takeWhile (\<lambda>l. l \<noteq> p) ls @ p # v # tl (dropWhile (\<lambda>l. l \<noteq> p) ls)))"
| "applyEnum (v, BeforeLabel p) ls =
     (if v \<in> set ls \<or> p \<notin> set ls then None
      else Some (takeWhile (\<lambda>l. l \<noteq> p) ls @ v # dropWhile (\<lambda>l. l \<noteq> p) ls))"

lemma matchLabels_subseq:
  "j \<le> length old \<Longrightarrow> matchLabels old j vs = length old \<Longrightarrow> subseq (drop j old) vs"
proof (induction vs arbitrary: j)
  case (Cons v vs)
  show ?case
  proof (cases "j < length old \<and> old ! j = v")
    case True
    with Cons have "subseq (drop (Suc j) old) vs" by simp
    with True show ?thesis by (simp add: Cons_nth_drop_Suc [symmetric])
  next
    case False
    with Cons show ?thesis by (simp add: list_emb_Cons)
  qed
qed simp

lemma applyEnum_after:
  assumes "p \<notin> set pre" "v \<notin> set (pre @ p # ls)"
  shows "applyEnum (v, AfterLabel p) (pre @ p # ls) = Some (pre @ p # v # ls)"
proof -
  have "takeWhile (\<lambda>l. l \<noteq> p) (pre @ p # ls) = pre" "dropWhile (\<lambda>l. l \<noteq> p) (pre @ p # ls) = p # ls"
    using assms(1) by (induction pre) auto
  with assms(2) show ?thesis by simp
qed

lemma subseq_set: "subseq xs ys \<Longrightarrow> set xs \<subseteq> set ys"
  by (induction rule: list_emb.induct) auto

lemma enumSteps_apply:
  "distinct (pre @ vs) \<Longrightarrow> subseq rest vs \<Longrightarrow> seen \<inter> set vs = set rest \<Longrightarrow>
   prev = (if pre = [] then None else Some (last pre)) \<Longrightarrow> (if pre = [] then old = rest else True) \<Longrightarrow>
   each applyEnum (enumSteps old prev seen vs) (pre @ rest) = Some (pre @ vs)"
proof (induction vs arbitrary: pre rest prev seen)
  case Nil
  then show ?case by simp
next
  case (Cons v vs)
  have dist: "distinct ((pre @ [v]) @ vs)" using Cons.prems(1) by simp
  have last: "Some v = (if pre @ [v] = [] then None else Some (last (pre @ [v])))" by simp
  show ?case
  proof (cases "v \<in> seen")
    case True
    then have "v \<in> set rest" using Cons.prems(3) by auto
    then obtain r where r: "rest = v # r"
      using Cons.prems(1,2) by (cases rest) (fastforce dest: subseq_set split: if_splits)+
    have "subseq r vs" using Cons.prems(2) r by (simp split: if_splits)
    moreover have "seen \<inter> set vs = set r"
      using Cons.prems(1,2,3) r by (auto dest: subseq_set)
    ultimately show ?thesis
      using Cons.IH [OF dist _ _ last, of r seen] True r by simp
  next
    case False
    then have nr: "v \<notin> set rest" using Cons.prems(3) by auto
    then have subs: "subseq rest vs" using Cons.prems(2) by (cases rest) (auto split: if_splits)
    have nv: "v \<notin> set (pre @ rest)" using nr Cons.prems(1) by auto
    have seen: "insert v seen \<inter> set vs = set rest" using Cons.prems(1,3) False by auto
    have step: "applyEnum (v, case prev of Some p \<Rightarrow> AfterLabel p
        | None \<Rightarrow> if old \<noteq> [] then BeforeLabel (hd old) else AtEnd) (pre @ rest) = Some ((pre @ [v]) @ rest)"
    proof (cases "pre = []")
      case True
      with Cons.prems(4,5) nv show ?thesis by (cases rest) auto
    next
      case False
      then have pre: "pre = butlast pre @ [last pre]" by simp
      moreover have "distinct pre" using Cons.prems(1) by simp
      ultimately have "last pre \<notin> set (butlast pre)"
        by (metis disjoint_insert(1) distinct_append list.simps(15))
      then show ?thesis
        using applyEnum_after [of "last pre" "butlast pre" v rest] nv Cons.prems(4) False pre
        by (metis append.assoc append_Cons append_Nil option.simps(5))
    qed
    show ?thesis
      using Cons.IH [OF dist subs seen last] False step by simp
  qed
qed

lemma fold_wStmt:
  "fold (\<lambda>st. wStmt (g st)) xs w = w\<lparr>wbuf := wbuf w @ concat (map (\<lambda>st. g st @ '';'' @ [NL]) xs)\<rparr>"
  by (induction xs arbitrary: w) (simp_all add: wStmt_def)

text \<open>C37. When the old labels of an enum occur in order among the new ones, \<open>pgEnumChange\<close> writes only
  statements that succeed on PostgreSQL one after the other and turn the old list of labels into
  exactly the new one; nothing is left for review.\<close>

theorem enum_change_applies:
  assumes "enumExtends old cur" "distinct (oLabels cur)"
  defines "steps \<equiv> enumSteps (oLabels old) None (set (oLabels old)) (oLabels cur)"
  shows "pgEnumChange (Some old) (Some cur) w = w\<lparr>wbuf := wbuf w
           @ concat (map (\<lambda>st. enumStmt (pgTableName (oSchema cur) (oName cur)) st @ '';'' @ [NL]) steps)\<rparr>
    \<and> each applyEnum steps (oLabels old) = Some (oLabels cur)"
proof -
  have "subseq (oLabels old) (oLabels cur)"
    using assms(1) matchLabels_subseq [of 0 "oLabels old" "oLabels cur"] by (simp add: enumExtends_def)
  moreover from this have "set (oLabels old) \<inter> set (oLabels cur) = set (oLabels old)"
    by (auto dest: subseq_set)
  ultimately have "each applyEnum steps (oLabels old) = Some (oLabels cur)"
    using enumSteps_apply [of "[]" "oLabels cur" "oLabels old" "set (oLabels old)" None "oLabels old"] assms(2)
    by (simp add: steps_def)
  then show ?thesis using assms(1) by (simp add: pgEnumChange_def fold_wStmt steps_def)
qed

definition moodType :: "string list \<Rightarrow> sobject" where
  "moodType ls = \<lparr>oSchema = ''public'', oName = ''mood'', oKind = ''ENUM'', oTable = [], oDef = [],
     oLabels = ls, oDrop = []\<rparr>"

lemma enum_change_applies_witness:
  "each applyEnum (enumSteps [''sad'', ''happy''] None {''sad'', ''happy''} [''meh'', ''sad'', ''ok'', ''happy''])
     [''sad'', ''happy''] = Some [''meh'', ''sad'', ''ok'', ''happy'']"
proof -
  have "enumExtends (moodType [''sad'', ''happy'']) (moodType [''meh'', ''sad'', ''ok'', ''happy''])"
    "distinct (oLabels (moodType [''meh'', ''sad'', ''ok'', ''happy'']))" by code_simp+
  from enum_change_applies [OF this] show ?thesis by (simp add: moodType_def)
qed

subsection \<open>Steps left for review\<close>

text \<open>The table \<open>events\<close>, partitioned by hash, as MySQL prints it.\<close>

definition eventsCreate :: "string \<Rightarrow> string" where
  "eventsCreate n = ''CREATE TABLE `events` ('' @ [NL] @ ''  `id` int NOT NULL'' @ [NL]
     @ '') ENGINE=InnoDB'' @ [NL]
     @ ''/*!50100 PARTITION BY HASH (`id`)'' @ [NL] @ ''PARTITIONS '' @ n @ '' */''"

definition eventsSchema :: "string \<Rightarrow> dbschema" where
  "eventsSchema n = (emptySchema dialectMySQL)\<lparr>sTables := [parseMySQLCreateTable ''events'' (eventsCreate n)]\<rparr>"

text \<open>A step left for review is one comment line only when its text has no line break.  The
  partitioning of a table is printed by MySQL, and kept by \<open>ParseMySQLCreateTable\<close>, on lines of its
  own: in the script that changes a table from 4 to 8 partitions, the \<open>-- manual:\<close> comment ends
  before the partition clause, which is left as live SQL in front of \<open>SET FOREIGN_KEY_CHECKS = 1\<close>.\<close>

theorem manual_comment_leaks:
  "map_option (\<lambda>m. (mReview m, drop 3 (splitByte NL (mSQL m)))) (migrate (eventsSchema ''4'') (eventsSchema ''8''))
   = Some (1, [''-- manual: table options of `events` changed (partitioning): ENGINE=InnoDB'',
               ''/*!50100 PARTITION BY HASH (`id`)'', ''PARTITIONS 8 */'', [],
               ''SET FOREIGN_KEY_CHECKS = 1;'', []])"
  by code_simp

subsection \<open>The MySQL script is always written, and counts what it leaves for review\<close>

definition adds :: "nat \<Rightarrow> writer option \<Rightarrow> writer \<Rightarrow> bool" where
  "adds n r w \<longleftrightarrow> (\<exists>w'. r = Some w' \<and> wreview w' = wreview w + n)"

named_theorems adds_rules \<open>what a step adds to the review count\<close>

lemma adds_bind [adds_rules]:
  "adds m r w \<Longrightarrow> (\<And>w'. adds n (f w') w') \<Longrightarrow> adds (m + n) (Option.bind r f) w"
  unfolding adds_def by fastforce

lemma adds_from: "adds n r v \<Longrightarrow> wreview v = wreview w \<Longrightarrow> adds n r w"
  by (simp add: adds_def)

lemma adds_each [adds_rules]:
  "(\<And>x w. x \<in> set xs \<Longrightarrow> adds (g x) (f x w) w) \<Longrightarrow> adds (sum_list (map g xs)) (each f xs w) w"
proof (induction xs arbitrary: w)
  case Nil
  show ?case by (simp add: adds_def)
next
  case (Cons x xs)
  then have "adds (g x) (f x w) w" "\<And>w. adds (sum_list (map g xs)) (each f xs w) w" by auto
  then show ?case using adds_bind by (simp del: sum_list.Cons) (metis sum_list.Cons)
qed

lemma wreview_simps [simp]:
  "wreview (wStmt s w) = wreview w" "wreview (wRaw s w) = wreview w" "wreview (wSection t w) = wreview w"
  "wreview (wManual s w) = wreview w + 1" "wreview (wDestructive y s w) = wreview w + 1"
  "wreview (mysqlCompound d w) = wreview w"
  by (simp_all add: wStmt_def wRaw_def wSection_def wManual_def wDestructive_def mysqlCompound_def Let_def)

lemma adds_section [adds_rules]:
  assumes "\<And>x w. x \<in> set xs \<Longrightarrow> adds (g x) (f x w) w"
  shows "adds (sum_list (map g xs)) (inSection title f xs w) w"
proof (cases "xs = []")
  case False
  have "adds (sum_list (map g xs)) (each f xs (wSection title w)) (wSection title w)"
    using assms by (rule adds_each)
  with False show ?thesis by (simp add: inSection_def adds_def)
qed (simp add: inSection_def adds_def)

lemma adds_section_0:
  assumes "\<And>x w. x \<in> set xs \<Longrightarrow> adds 0 (f x w) w" shows "adds 0 (inSection title f xs w) w"
  using adds_section [of xs "\<lambda>_. 0" f title w] assms by simp

lemma adds_section_1:
  assumes "\<And>x w. adds 1 (f x w) w" shows "adds (length xs) (inSection title f xs w) w"
  using adds_section [of xs "\<lambda>_. 1" f title w] assms by (simp add: sum_list_triv)

lemma mysqlColumns_review [simp]: "wreview (mysqlColumns cs name prev l w) = wreview w"
  by (induction l arbitrary: prev w) (simp_all split: option.splits chop.splits)

lemma mysqlDrops_adds: "adds 0 (mysqlDrops s cs w) w"
proof -
  have "adds (0 + (0 + (0 + 0))) (mysqlDrops s cs w) w"
    unfolding mysqlDrops_def
    by (intro adds_bind adds_section_0)
       (simp_all add: adds_def mysqlDropRoutine_def mysqlDropConstraintOf_def Let_def split: option.splits)
  then show ?thesis by simp
qed

lemma mysqlAdds_adds: "adds (length (changesOf cs KindTable [Removed])) (mysqlAdds cs w) w"
proof -
  let ?n = "length (changesOf cs KindTable [Removed])"
  have "adds (0 + (?n + (0 + (0 + 0)))) (mysqlAdds cs w) w"
    unfolding mysqlAdds_def
    by (intro adds_bind adds_section_0 adds_section_1) (simp_all add: adds_def)
  then show ?thesis by simp
qed

definition partitionStep :: "change \<Rightarrow> bool" where
  "partitionStep c \<longleftrightarrow> chKind c = KindOptions \<and> isPartitioning c"

definition dropColumnStep :: "change \<Rightarrow> bool" where
  "dropColumnStep c \<longleftrightarrow> chKind c = KindColumn \<and> chOp c = Removed"

definition indexDrop :: "change \<Rightarrow> bool" where
  "indexDrop c \<longleftrightarrow> chKind c = KindIndex \<and> chOp c \<noteq> Added"

lemma mysqlTableHead_adds:
  assumes "indexDrop c \<Longrightarrow> chTable c = name \<Longrightarrow>
     \<exists>t. old = Some t \<and> findObject (tIndexes t) [] [] (chName c) \<noteq> None"
  shows "adds (of_bool (partitionStep c \<and> chTable c = name)) (mysqlTableHead name old c w) w"
  using assms by (auto simp: mysqlTableHead_def adds_def partitionStep_def indexDrop_def)

lemma mysqlTableStep_adds:
  assumes "\<And>c. c \<in> set cs \<Longrightarrow> indexDrop c \<Longrightarrow> chTable c = name \<Longrightarrow>
     \<exists>t. findTable from_s [] name = Some t \<and> findObject (tIndexes t) [] [] (chName c) \<noteq> None"
    and "findTable to_s [] name \<noteq> None"
  shows "adds (sum_list (map (\<lambda>c. of_bool (partitionStep c \<and> chTable c = name)) cs)
    + sum_list (map (\<lambda>c. of_bool (chTable c = name)) (changesOf cs KindColumn [Removed])))
    (mysqlTableStep from_s to_s cs name w) w"
proof -
  obtain t where t: "findTable to_s [] name = Some t" using assms(2) by auto
  let ?p = "sum_list (map (\<lambda>c. of_bool (partitionStep c \<and> chTable c = name)) cs) :: nat"
  let ?d = "sum_list (map (\<lambda>c. of_bool (chTable c = name)) (changesOf cs KindColumn [Removed])) :: nat"
  have head: "adds ?p (each (mysqlTableHead name (findTable from_s [] name)) cs (wSection (''Table '' @ name) w)) w"
    using assms(1) by (intro adds_from [OF adds_each] mysqlTableHead_adds) auto
  have drop: "adds ?d (each (mysqlDropColumn name) (changesOf cs KindColumn [Removed])
      (mysqlColumns cs name None (tColumns t) v)) v" for v
    by (intro adds_from [OF adds_each]) (simp_all add: adds_def mysqlDropColumn_def)
  have add: "adds 0 (each (mysqlAddIndex name) (changesOf cs KindIndex [Added, Changed]) v) v" for v
    using adds_each [of _ "\<lambda>c. 0" "mysqlAddIndex name"] by (simp add: adds_def mysqlAddIndex_def)
  have "adds (?p + (?d + 0)) (mysqlTableStep from_s to_s cs name w) w"
    unfolding mysqlTableStep_def t Option.bind.bind_lunit
    by (intro adds_bind head drop add)
  then show ?thesis by simp
qed

text \<open>The shape MySQL's \<open>ReadSchema\<close> gives: no schema names, index objects without schema or table,
  one entry for each table name.\<close>

definition mysqlShaped :: "dbschema \<Rightarrow> bool" where
  "mysqlShaped s \<longleftrightarrow> sDialect s \<noteq> dialectPostgres \<and> distinct (map tName (sTables s))
     \<and> list_all (\<lambda>t. tSchema t = [] \<and> list_all (\<lambda>ob. oSchema ob = [] \<and> oTable ob = []) (tIndexes t)) (sTables s)"

lemma diffObjects_cases:
  assumes "c \<in> set (diffObjects k t a b)"
  obtains (added) ob where "ob \<in> set b"
      "c = mkChange k Added (oSchema ob) (if t = [] then oTable ob else t) (oName ob) [] (oDef ob)"
  | (changed) ob old where "ob \<in> set b" "old \<in> set a" "objectKey old = objectKey ob"
      "c = mkChange k Changed (oSchema ob) (if t = [] then oTable ob else t) (oName ob) (oDef old) (oDef ob)"
  | (removed) ob where "ob \<in> set a"
      "c = mkChange k Removed (oSchema ob) (if t = [] then oTable ob else t) (oName ob) (oDef ob) []"
proof -
  consider (in_b) ob where "ob \<in> set b"
      "c \<in> set (case lastBy objectKey a (objectKey ob) of
          None \<Rightarrow> [mkChange k Added (oSchema ob) (if t = [] then oTable ob else t) (oName ob) [] (oDef ob)]
        | Some old \<Rightarrow> if oDef old \<noteq> oDef ob
            then [mkChange k Changed (oSchema ob) (if t = [] then oTable ob else t) (oName ob) (oDef old) (oDef ob)] else [])"
    | (in_a) ob where "ob \<in> set a"
      "c = mkChange k Removed (oSchema ob) (if t = [] then oTable ob else t) (oName ob) (oDef ob) []"
    using assms unfolding diffObjects_def Let_def set_append set_concat set_map by (auto split: if_split_asm)
  then show thesis
  proof cases
    case in_b
    show thesis
    proof (cases "lastBy objectKey a (objectKey ob)")
      case None
      with in_b show thesis by (intro added) simp_all
    next
      case (Some old)
      with in_b lastBy_Some [OF Some] show thesis by (intro changed [of ob old]) (simp_all split: if_split_asm)
    qed
  next
    case in_a
    then show thesis by (rule removed)
  qed
qed

lemma diffObjects_mem:
  assumes "c \<in> set (diffObjects k t a b)"
  shows "chKind c = k \<and> (\<exists>ob \<in> set a \<union> set b. chTable c = (if t = [] then oTable ob else t))
    \<and> (chOp c \<noteq> Added \<longrightarrow> (\<exists>ob \<in> set a. \<exists>ob' \<in> set (a @ b). objectKey ob = objectKey ob' \<and> oName ob' = chName c))"
  using assms
proof (cases rule: diffObjects_cases)
  case (added ob)
  then show ?thesis by (auto simp: mkChange_def)
next
  case (changed ob old)
  then show ?thesis by (simp add: mkChange_def) blast
next
  case (removed ob)
  then show ?thesis by (simp add: mkChange_def) blast
qed

lemma mysql_objectKey: "oSchema ob = [] \<Longrightarrow> oTable ob = [] \<Longrightarrow> objectKey ob = CHR 0x00 # CHR 0x00 # oName ob"
  by (simp add: objectKey_def diffKey_def)

lemma mysql_tableKey: "tSchema t = [] \<Longrightarrow> tableKey t = CHR 0x00 # tName t"
  by (simp add: tableKey_def diffKey_def)

lemma mysql_findTable:
  assumes "mysqlShaped s" "t \<in> set (sTables s)" shows "findTable s [] (tName t) = Some t"
proof -
  have "findTable s [] (tName t) \<noteq> None"
    using assms by (auto simp: findTable_def find_None_iff mysqlShaped_def list_all_iff)
  then obtain u where u: "findTable s [] (tName t) = Some u" by auto
  then have "u \<in> set (sTables s)" "tName u = tName t"
    by (auto simp: findTable_def find_Some_iff)
  with assms have "u = t" by (auto simp: mysqlShaped_def distinct_map inj_on_def)
  with u show ?thesis by simp
qed

text \<open>What a change of an existing table says.\<close>

definition tableChange :: "dbschema \<Rightarrow> dbschema \<Rightarrow> change \<Rightarrow> bool" where
  "tableChange a b c \<longleftrightarrow> (\<exists>t u. findTable a [] (chTable c) = Some u \<and> findTable b [] (chTable c) = Some t
     \<and> chSchema c = [] \<and> (indexDrop c \<longrightarrow> findObject (tIndexes u) [] [] (chName c) \<noteq> None))"

lemma diffTable_mem:
  assumes "c \<in> set (diffTable u t)" "tSchema t = []" "tName u = tName t"
    "list_all (\<lambda>ob. oSchema ob = [] \<and> oTable ob = []) (tIndexes u)"
    "list_all (\<lambda>ob. oSchema ob = [] \<and> oTable ob = []) (tIndexes t)"
  shows "chSchema c = [] \<and> (chKind c \<in> {KindColumn, KindIndex, KindOptions} \<longrightarrow> chTable c = tName t)
    \<and> chKind c \<in> {KindColumn, KindIndex, KindOptions, KindConstraint}
    \<and> (indexDrop c \<longrightarrow> findObject (tIndexes u) [] [] (chName c) \<noteq> None)"
proof -
  consider (opt) "c = mkChange KindOptions Changed [] (tName t) [] (tOptions u) (tOptions t)"
    | (col) "c \<in> set (diffColumns u t)"
    | (idx) c' where "c' \<in> set (diffObjects KindIndex (tName t) (tIndexes u) (tIndexes t))" "c = c'\<lparr>chSchema := []\<rparr>"
    | (con) c' where "c' \<in> set (diffObjects KindConstraint (tName t) (tConstraints u) (tConstraints t))" "c = c'\<lparr>chSchema := []\<rparr>"
    using assms(1,2) unfolding diffTable_def by (auto split: if_splits)
  then show ?thesis
  proof cases
    case opt
    then show ?thesis by (simp add: mkChange_def indexDrop_def)
  next
    case col
    then have "chKind c = KindColumn \<and> chTable c = tName t \<and> chSchema c = tSchema t"
      unfolding diffColumns_def by (auto simp: mkChange_def split: option.splits if_splits)
    with assms(2) show ?thesis by (simp add: indexDrop_def)
  next
    case idx
    have tbl: "chTable c' = tName t"
      using diffObjects_mem [OF idx(1)] assms(4,5) by (auto simp: list_all_iff split: if_splits)
    have "findObject (tIndexes u) [] [] (chName c') \<noteq> None" if ne: "chOp c' \<noteq> Added"
    proof -
      obtain ob ob' where ob: "ob \<in> set (tIndexes u)" "ob' \<in> set (tIndexes u @ tIndexes t)"
        "objectKey ob = objectKey ob'" "oName ob' = chName c'"
        using diffObjects_mem [OF idx(1)] ne by auto
      moreover have "oSchema ob = []" "oTable ob = []" "oSchema ob' = []" "oTable ob' = []"
        using ob(1,2) assms(4,5) by (auto simp: list_all_iff)
      ultimately have "oName ob = chName c'" by (simp add: mysql_objectKey)
      with ob(1) \<open>oSchema ob = []\<close> \<open>oTable ob = []\<close> show ?thesis by (auto simp: findObject_def find_None_iff)
    qed
    with tbl idx(2) diffObjects_mem [OF idx(1)] show ?thesis by (simp add: indexDrop_def)
  next
    case con
    with diffObjects_mem [OF con(1)] show ?thesis by (simp add: indexDrop_def)
  qed
qed

lemma schemaDiff_mem:
  assumes a: "mysqlShaped a" and b: "mysqlShaped b" and c: "c \<in> set (schemaDiff a b)"
  shows "(chKind c = KindTable \<and> chOp c = Added \<longrightarrow> findTable b (chSchema c) (chTable c) \<noteq> None)
    \<and> (chKind c \<in> {KindColumn, KindIndex, KindOptions} \<longrightarrow> tableChange a b c)"
proof -
  consider (new) t where "t \<in> set (sTables b)" "c = mkChange KindTable Added (tSchema t) (tName t) [] [] (createTableText (sDialect b) t)"
    | (old) t u where "t \<in> set (sTables b)" "lastBy tableKey (sTables a) (tableKey t) = Some u" "c \<in> set (diffTable u t)"
    | (gone) "chKind c = KindTable" "chOp c = Removed"
    | (other) "chKind c \<notin> {KindTable, KindColumn, KindIndex, KindOptions}"
    using c unfolding schemaDiff_def
    by (auto simp: mkChange_def split: option.splits if_splits dest!: diffObjects_mem)
  then show ?thesis
  proof cases
    case new
    with b mysql_findTable [OF b new(1)] show ?thesis
      by (auto simp: mkChange_def mysqlShaped_def list_all_iff)
  next
    case old
    from lastBy_Some [OF old(2)] have u: "u \<in> set (sTables a)" "tableKey u = tableKey t" by auto
    have s: "tSchema u = []" "tSchema t = []"
      "list_all (\<lambda>ob. oSchema ob = [] \<and> oTable ob = []) (tIndexes u)"
      "list_all (\<lambda>ob. oSchema ob = [] \<and> oTable ob = []) (tIndexes t)"
      using a b u(1) old(1) by (auto simp: mysqlShaped_def list_all_iff)
    with u(2) have n: "tName u = tName t" by (simp add: mysql_tableKey)
    from diffTable_mem [OF old(3) s(2) n s(3,4)]
      mysql_findTable [OF a u(1)] mysql_findTable [OF b old(1)] n
    show ?thesis unfolding tableChange_def by auto
  qed auto
qed

text \<open>With empty schema names, \<open>changedTables\<close> lists each table with a column, index or option
  change once.\<close>

lemma changedTablesFrom_props:
  assumes "\<forall>c \<in> set cs. chKind c \<in> {KindColumn, KindIndex, KindOptions} \<longrightarrow> chSchema c = []"
  shows "distinct (changedTablesFrom seen cs)
    \<and> set (changedTablesFrom seen cs) = {chTable c | c. c \<in> set cs \<and> chKind c \<in> {KindColumn, KindIndex, KindOptions}
        \<and> ''.'' @ chTable c \<notin> seen}"
  using assms by (induction seen cs rule: changedTablesFrom.induct) auto

lemma sum_of_bool_table:
  assumes "distinct names" "\<And>c. c \<in> set cs \<Longrightarrow> P c \<Longrightarrow> f c \<in> set names"
  shows "sum_list (map (\<lambda>n. sum_list (map (\<lambda>c. of_bool (P c \<and> f c = n)) cs)) names) = length (filter P cs)"
  using assms(2)
proof (induction cs)
  case Nil
  show ?case by (simp add: sum_list_triv)
next
  case (Cons c cs)
  have one: "sum_list (map (\<lambda>n. of_bool (f c = n)) names) = (if f c \<in> set names then 1 else 0 :: nat)"
    using assms(1) by (induction names) auto
  have "sum_list (map (\<lambda>n. of_bool (P c \<and> f c = n)) names) = (if P c then 1 else 0 :: nat)"
    using one Cons.prems [of c] by (cases "P c") (simp_all add: sum_list_triv)
  with Cons show ?case by (simp add: sum_list_addf)
qed

text \<open>What the script of a set of changes leaves for review: dropped tables, dropped columns and
  changes of partitioning.\<close>

definition reviewSteps :: "change list \<Rightarrow> change list" where
  "reviewSteps cs = changesOf cs KindTable [Removed] @ changesOf cs KindColumn [Removed]
     @ filter isPartitioning (changesOf cs KindOptions [])"

text \<open>For two MySQL structures the migration script is always produced, no lookup fails, and its
  \<open>Review\<close> count is exactly the number of dropped tables, dropped columns and partitioning changes of
  the diff: those, and nothing else, are left to the reader.\<close>

theorem mysql_migration_total:
  assumes a: "mysqlShaped a" and b: "mysqlShaped b"
  shows "\<exists>m. migrate a b = Some m \<and> mChanges m = schemaDiff a b
    \<and> mReview m = length (reviewSteps (schemaDiff a b))"
proof -
  let ?cs = "schemaDiff a b"
  let ?names = "changedTables ?cs"
  have tc: "tableChange a b c" if "c \<in> set ?cs" "chKind c \<in> {KindColumn, KindIndex, KindOptions}" for c
    using schemaDiff_mem [OF a b that(1)] that(2) by blast
  have names: "distinct ?names" "set ?names = {chTable c | c. c \<in> set ?cs \<and> chKind c \<in> {KindColumn, KindIndex, KindOptions}}"
    using changedTablesFrom_props [of ?cs "{}"] tc by (auto simp: changedTables_def tableChange_def)
  let ?step = "\<lambda>name. sum_list (map (\<lambda>c. of_bool (partitionStep c \<and> chTable c = name)) ?cs)
     + sum_list (map (\<lambda>c. of_bool (chTable c = name)) (changesOf ?cs KindColumn [Removed]))"
  have step: "adds (?step name) (mysqlTableStep a b ?cs name w) w" if n: "name \<in> set ?names" for name w
  proof (rule mysqlTableStep_adds)
    fix c assume c: "c \<in> set ?cs" "indexDrop c" "chTable c = name"
    then show "\<exists>t. findTable a [] name = Some t \<and> findObject (tIndexes t) [] [] (chName c) \<noteq> None"
      using tc [OF c(1)] by (auto simp: tableChange_def indexDrop_def)
  next
    from n names obtain c where "c \<in> set ?cs" "chKind c \<in> {KindColumn, KindIndex, KindOptions}" "chTable c = name"
      by auto
    then show "findTable b [] name \<noteq> None" using tc by (auto simp: tableChange_def)
  qed
  have "sum_list (map (\<lambda>n. sum_list (map (\<lambda>c. of_bool (partitionStep c \<and> chTable c = n)) ?cs)) ?names)
      = length (filter partitionStep ?cs)"
    using names by (intro sum_of_bool_table) (auto simp: partitionStep_def)
  moreover have "sum_list (map (\<lambda>n. sum_list (map (\<lambda>c. of_bool (True \<and> chTable c = n)) (changesOf ?cs KindColumn [Removed]))) ?names)
      = length (filter (\<lambda>_. True) (changesOf ?cs KindColumn [Removed]))"
    using names by (intro sum_of_bool_table) (auto simp: changesOf_def)
  moreover have "filter partitionStep ?cs = filter isPartitioning (changesOf ?cs KindOptions [])"
    by (simp add: changesOf_def partitionStep_def[abs_def] conj_commute)
  ultimately have sum: "sum_list (map ?step ?names) = length (filter isPartitioning (changesOf ?cs KindOptions []))
      + length (changesOf ?cs KindColumn [Removed])"
    by (simp add: sum_list_addf)
  have new: "adds 0 (inSection ''New tables'' (mysqlNewTable b) (changesOf ?cs KindTable [Added]) w) w" for w
  proof (rule adds_section_0)
    fix c w assume "c \<in> set (changesOf ?cs KindTable [Added])"
    then have "findTable b (chSchema c) (chTable c) \<noteq> None"
      using schemaDiff_mem [OF a b, of c] by (auto simp: changesOf_def)
    then show "adds 0 (mysqlNewTable b c w) w" by (auto simp: mysqlNewTable_def adds_def)
  qed
  have tables: "adds (sum_list (map ?step ?names)) (each (mysqlTableStep a b ?cs) ?names w) w" for w
    using step by (rule adds_each)
  let ?w0 = "\<lparr>wbuf = [], wreview = 0\<rparr>"
  have "adds (0 + (0 + (sum_list (map ?step ?names) + (length (changesOf ?cs KindTable [Removed]) + 0))))
      (mysqlScript a b ?cs ?w0) ?w0"
    unfolding mysqlScript_def
  proof (intro adds_bind)
    show "adds 0 (mysqlDrops a ?cs (if hasTableWork ?cs then wStmt ''SET FOREIGN_KEY_CHECKS = 0'' ?w0 else ?w0)) ?w0"
      by (rule adds_from [OF mysqlDrops_adds]) simp
  next
    show "adds 0 (Some (if hasTableWork ?cs then wStmt ''SET FOREIGN_KEY_CHECKS = 1'' (wRaw [NL] v) else v)) v" for v
      by (simp add: adds_def)
  qed (rule new tables mysqlAdds_adds)+
  then obtain w where "mysqlScript a b ?cs ?w0 = Some w" "wreview w = length (reviewSteps ?cs)"
    by (auto simp: adds_def sum reviewSteps_def)
  then show ?thesis using b by (simp add: migrate_def mysqlShaped_def Let_def)
qed

lemma mysql_migration_total_witness:
  "map_option mReview (migrate shopSchema (emptySchema dialectMySQL)) = Some 1"
proof -
  have "mysqlShaped shopSchema" "mysqlShaped (emptySchema dialectMySQL)"
    by (simp_all add: mysqlShaped_def shopSchema_def emptySchema_def itemsTable_eq mysqlObject_def
        dialectMySQL_def dialectPostgres_def)
  from mysql_migration_total [OF this] obtain m where m: "migrate shopSchema (emptySchema dialectMySQL) = Some m"
    "mReview m = length (reviewSteps (schemaDiff shopSchema (emptySchema dialectMySQL)))" by blast
  have "length (reviewSteps (schemaDiff shopSchema (emptySchema dialectMySQL))) = 1"
    by (simp add: reviewSteps_def schemaDiff_def shopSchema_def emptySchema_def lastBy_def diffObjects_def
        changesOf_def mkChange_def)
  with m show ?thesis by simp
qed

end
