(* ===== verification/Jobs.thy ===== *)
theory Jobs
  imports Inventory
begin

text \<open>
  Operations as stored jobs: \<open>domain/job/job.go\<close>, the repository
  \<open>infra/postgres/job_repository.go\<close> and the part of \<open>app/operation/service.go\<close> that records, lists
  and follows them.  A job's JSON parameters and result are the records themselves (what does not
  parse as a result is \<open>None\<close>); a UUID stored in them as text is an \<open>idText\<close>.  The jobs table extends
  the inventory, with the source of fresh UUIDs and the database clock.
\<close>

subsection \<open>The data\<close>

datatype jobType = TypeCreateDatabase | TypeDeleteDatabase | TypeBackup | TypeRestore | TypeTestConnection
  | TypeImportDatabases | TypeProvisionInstance | TypeStartInstance | TypeStopInstance | TypeRestartInstance
  | TypeRemoveInstance | TypeReconcileGateway

datatype jobStatus = JobPending | JobRunning | JobSucceeded | JobFailed | JobCanceled

text \<open>A UUID as text: empty, unparsable, or the text of a UUID; \<open>uuid.Parse\<close> reads back what
  \<open>String\<close> printed.\<close>

datatype idText = IdEmpty | IdBad | IdOf uuid

fun parseId :: "idText \<Rightarrow> uuid option" where
  "parseId (IdOf u) = Some u"
| "parseId _ = None"

record params =
  pr_instanceId :: idText
  pr_databaseId :: idText
  pr_database :: string
  pr_charset :: string
  pr_collation :: string
  pr_backupId :: idText
  pr_destinationId :: idText
  pr_key :: string
  pr_image :: string
  pr_version :: string
  pr_removeVolume :: bool
  pr_moveTargetInstanceId :: idText
  pr_moveTargetDatabase :: string
  pr_moveSourceDatabaseId :: idText
  pr_moveDropSource :: bool
  pr_endpointId :: idText
  pr_verifyBackupId :: idText
  pr_backupCopyId :: idText
  pr_accessRole :: string
  pr_deleteKeyAfter :: bool

definition noParams :: params where
  "noParams = \<lparr>pr_instanceId = IdEmpty, pr_databaseId = IdEmpty, pr_database = [], pr_charset = [],
     pr_collation = [], pr_backupId = IdEmpty, pr_destinationId = IdEmpty, pr_key = [], pr_image = [],
     pr_version = [], pr_removeVolume = False, pr_moveTargetInstanceId = IdEmpty, pr_moveTargetDatabase = [],
     pr_moveSourceDatabaseId = IdEmpty, pr_moveDropSource = False, pr_endpointId = IdEmpty,
     pr_verifyBackupId = IdEmpty, pr_backupCopyId = IdEmpty, pr_accessRole = [], pr_deleteKeyAfter = False\<rparr>"

record dbInfo =
  di_name :: string
  di_charset :: string
  di_collation :: string
  di_system :: bool

record jobResult =
  re_databases :: "dbInfo list"
  re_sizeBytes :: int
  re_checksum :: string
  re_storageUrl :: string
  re_containerId :: string

record job =
  jb_id :: uuid
  jb_type :: jobType
  jb_resourceType :: string
  jb_resourceId :: "uuid option"
  jb_status :: jobStatus
  jb_serverId :: "uuid option"
  jb_params :: params
  jb_result :: "jobResult option"
  jb_error :: "string option"
  jb_progress :: int
  jb_createdBy :: "uuid option"
  jb_claimedAt :: "int option"
  jb_startedAt :: "int option"
  jb_completedAt :: "int option"
  jb_createdAt :: int
  jb_version :: nat

record joblog =
  jl_jobId :: uuid
  jl_seq :: int
  jl_level :: string
  jl_message :: string

record jobstore = inventory +
  js_jobs :: "job list"
  js_logs :: "joblog list"
  js_next :: uuid
  js_now :: int

subsection \<open>The repository\<close>

definition jobUpdate :: "(job \<Rightarrow> bool) \<Rightarrow> (job \<Rightarrow> job) \<Rightarrow> 'a jobstore_scheme \<Rightarrow> 'a jobstore_scheme" where
  "jobUpdate P f w = w\<lparr>js_jobs := map (\<lambda>j. if P j then (f j)\<lparr>jb_version := jb_version j + 1\<rparr> else j) (js_jobs w)\<rparr>"

definition jobCreate :: "job \<Rightarrow> 'a jobstore_scheme \<Rightarrow> 'a jobstore_scheme" where
  "jobCreate j w = w\<lparr>js_jobs := js_jobs w @ [j\<lparr>jb_result := None, jb_error := None, jb_progress := 0,
     jb_claimedAt := None, jb_startedAt := None, jb_completedAt := None, jb_createdAt := js_now w, jb_version := 0\<rparr>]\<rparr>"

definition jobGet :: "uuid \<Rightarrow> 'a jobstore_scheme \<Rightarrow> apperr + job" where
  "jobGet i w = (case List.find (\<lambda>j. jb_id j = i) (js_jobs w) of
     None \<Rightarrow> Inl (NotFound ''operation not found'') | Some j \<Rightarrow> Inr j)"

record jobFilter =
  jf_status :: "jobStatus option"
  jf_type :: "jobType option"
  jf_resourceType :: string
  jf_resourceId :: "uuid option"
  jf_limit :: int
  jf_offset :: int
  jf_createdBy :: "uuid option"

definition jobMatches :: "jobFilter \<Rightarrow> job \<Rightarrow> bool" where
  "jobMatches f j \<longleftrightarrow> (jf_status f = None \<or> jf_status f = Some (jb_status j))
     \<and> (jf_type f = None \<or> jf_type f = Some (jb_type j))
     \<and> (jf_resourceType f = [] \<or> jf_resourceType f = jb_resourceType j)
     \<and> (jf_resourceId f = None \<or> jf_resourceId f = jb_resourceId j)
     \<and> (jf_createdBy f = None \<or> jf_createdBy f = jb_createdBy j)"

text \<open>\<open>LIMIT\<close> and \<open>OFFSET\<close> of a page, and the window count \<open>count(*) OVER()\<close>, which is read from the rows
  of the page.\<close>

definition pageOf :: "int \<Rightarrow> int \<Rightarrow> 'a list \<Rightarrow> 'a list \<times> nat" where
  "pageOf limit offset rows =
     (let items = take (nat limit) (drop (nat offset) rows)
      in (items, if items = [] then 0 else length rows))"

definition jobList :: "jobFilter \<Rightarrow> 'a jobstore_scheme \<Rightarrow> job list \<times> nat" where
  "jobList f w = pageOf (jf_limit f) (jf_offset f) (sort_key (\<lambda>j. - jb_createdAt j) (filter (jobMatches f) (js_jobs w)))"

definition claimableBy :: "uuid option \<Rightarrow> job \<Rightarrow> bool" where
  "claimableBy server j \<longleftrightarrow> jb_status j = JobPending \<and> jb_serverId j = server"

definition claimNext :: "uuid option \<Rightarrow> 'a jobstore_scheme \<Rightarrow> job option \<times> 'a jobstore_scheme" where
  "claimNext server w =
     (case sort_key jb_createdAt (filter (claimableBy server) (js_jobs w)) of
        [] \<Rightarrow> (None, w)
      | j # _ \<Rightarrow>
          let run = (\<lambda>x. x\<lparr>jb_status := JobRunning, jb_claimedAt := Some (js_now w), jb_startedAt := Some (js_now w)\<rparr>)
          in (Some ((run j)\<lparr>jb_version := jb_version j + 1\<rparr>), jobUpdate (\<lambda>x. jb_id x = jb_id j) run w))"

definition openJob :: "job \<Rightarrow> bool" where
  "openJob j \<longleftrightarrow> jb_status j = JobPending \<or> jb_status j = JobRunning"

definition jobComplete :: "uuid \<Rightarrow> jobStatus \<Rightarrow> jobResult option \<Rightarrow> string option \<Rightarrow> 'a jobstore_scheme
    \<Rightarrow> apperr + 'a jobstore_scheme" where
  "jobComplete i st res err w =
     (if list_ex (\<lambda>j. jb_id j = i \<and> openJob j) (js_jobs w)
      then Inr (jobUpdate (\<lambda>j. jb_id j = i \<and> openJob j)
        (\<lambda>j. j\<lparr>jb_status := st, jb_result := res, jb_error := err,
               jb_progress := (if st = JobSucceeded then 100 else jb_progress j), jb_completedAt := Some (js_now w)\<rparr>) w)
      else Inl (Conflict ''operation is already finalized''))"

definition jobProgress :: "uuid \<Rightarrow> int \<Rightarrow> 'a jobstore_scheme \<Rightarrow> 'a jobstore_scheme" where
  "jobProgress i n = jobUpdate (\<lambda>j. jb_id j = i \<and> jb_status j = JobRunning) (\<lambda>j. j\<lparr>jb_progress := n\<rparr>)"

definition appendLogs :: "uuid \<Rightarrow> joblog list \<Rightarrow> 'a jobstore_scheme \<Rightarrow> 'a jobstore_scheme" where
  "appendLogs i ls w = w\<lparr>js_logs := js_logs w
     @ map (\<lambda>l. l\<lparr>jl_jobId := i, jl_level := (if jl_level l = [] then ''info'' else jl_level l)\<rparr>) ls\<rparr>"

definition listLogs :: "uuid \<Rightarrow> int \<Rightarrow> int \<Rightarrow> 'a jobstore_scheme \<Rightarrow> joblog list" where
  "listLogs i afterSeq limit w =
     take (nat limit) (sort_key jl_seq (filter (\<lambda>l. jl_jobId l = i \<and> jl_seq l > afterSeq) (js_logs w)))"

definition stuck :: "int \<Rightarrow> job \<Rightarrow> bool" where
  "stuck before j \<longleftrightarrow> jb_status j = JobRunning \<and> jb_serverId j = None
     \<and> (case jb_claimedAt j of None \<Rightarrow> False | Some t \<Rightarrow> t < before)"

definition listStuck :: "int \<Rightarrow> 'a jobstore_scheme \<Rightarrow> uuid list" where
  "listStuck before w =
     map jb_id (take 100 (sort_key (\<lambda>j. case jb_claimedAt j of None \<Rightarrow> 0 | Some t \<Rightarrow> t) (filter (stuck before) (js_jobs w))))"

subsection \<open>The service\<close>

fun isProvisionType :: "jobType \<Rightarrow> bool" where
  "isProvisionType TypeProvisionInstance = True"
| "isProvisionType TypeStartInstance = True"
| "isProvisionType TypeStopInstance = True"
| "isProvisionType TypeRestartInstance = True"
| "isProvisionType TypeRemoveInstance = True"
| "isProvisionType _ = False"

definition isPayloadlessType :: "jobType \<Rightarrow> bool" where
  "isPayloadlessType t \<longleftrightarrow> t = TypeReconcileGateway"

definition opCreate :: "jobType \<Rightarrow> string \<Rightarrow> uuid option \<Rightarrow> uuid option \<Rightarrow> params \<Rightarrow> uuid option
    \<Rightarrow> 'a jobstore_scheme \<Rightarrow> job \<times> 'a jobstore_scheme" where
  "opCreate typ resourceType resourceId server p by w =
     (let j = \<lparr>jb_id = js_next w, jb_type = typ, jb_resourceType = resourceType, jb_resourceId = resourceId,
               jb_status = JobPending, jb_serverId = server, jb_params = p, jb_result = None, jb_error = None,
               jb_progress = 0, jb_createdBy = by, jb_claimedAt = None, jb_startedAt = None,
               jb_completedAt = None, jb_createdAt = js_now w, jb_version = 0\<rparr>
      in (j, (jobCreate j w)\<lparr>js_next := js_next w + 1\<rparr>))"

definition opGet :: "idText \<Rightarrow> 'a jobstore_scheme \<Rightarrow> apperr + job" where
  "opGet i w = (case parseId i of
     None \<Rightarrow> Inl (Invalid ''id'' ''id must be a valid UUID'') | Some u \<Rightarrow> jobGet u w)"

definition opLogs :: "idText \<Rightarrow> int \<Rightarrow> int \<Rightarrow> 'a jobstore_scheme \<Rightarrow> apperr + joblog list" where
  "opLogs i afterSeq limit w =
     (case parseId i of
        None \<Rightarrow> Inl (Invalid ''id'' ''id must be a valid UUID'')
      | Some u \<Rightarrow> Inr (listLogs u (if afterSeq < 0 then 0 else afterSeq)
                        (if limit \<le> 0 \<or> limit > 2000 then 500 else limit) w))"

text \<open>The page sizes of the list operations: 20 by default, 100 at most.\<close>

definition clampLimit :: "int \<Rightarrow> int" where
  "clampLimit l = (if l \<le> 0 then 20 else if l > 100 then 100 else l)"

definition clampOffset :: "int \<Rightarrow> int" where
  "clampOffset off = (if off < 0 then 0 else off)"

definition opList :: "jobStatus option \<Rightarrow> jobType option \<Rightarrow> idText \<Rightarrow> int \<Rightarrow> int \<Rightarrow> uuid option
    \<Rightarrow> 'a jobstore_scheme \<Rightarrow> apperr + job list \<times> nat" where
  "opList st typ resource limit offset by w =
     (if resource \<noteq> IdEmpty \<and> parseId resource = None
      then Inl (Invalid ''resource_id'' ''resource_id must be a valid UUID'')
      else Inr (jobList \<lparr>jf_status = st, jf_type = typ, jf_resourceType = [], jf_resourceId = parseId resource,
                        jf_limit = clampLimit limit, jf_offset = clampOffset offset, jf_createdBy = by\<rparr> w))"

definition opProgress :: "uuid \<Rightarrow> int \<Rightarrow> 'a jobstore_scheme \<Rightarrow> 'a jobstore_scheme" where
  "opProgress i n = jobProgress i (if n < 0 then 0 else if n > 100 then 100 else n)"

subsection \<open>Claiming in order\<close>

text \<open>An executor is given the oldest of the jobs waiting for it and no other executor's; the job is
  running afterwards, and every other job is as it was.\<close>

theorem claim_oldest:
  assumes "distinct (map jb_id (js_jobs w))" "claimNext server w = (Some j, w')"
  shows "jb_status j = JobRunning \<and> jb_serverId j = server \<and> j \<in> set (js_jobs w')
    \<and> (\<exists>i < length (js_jobs w). claimableBy server (js_jobs w ! i) \<and> jb_id (js_jobs w ! i) = jb_id j
         \<and> (\<forall>k \<in> set (js_jobs w). claimableBy server k \<longrightarrow> jb_createdAt (js_jobs w ! i) \<le> jb_createdAt k)
         \<and> js_jobs w' = (js_jobs w)[i := j])"
proof -
  let ?q = "sort_key jb_createdAt (filter (claimableBy server) (js_jobs w))"
  let ?run = "\<lambda>x. x\<lparr>jb_status := JobRunning, jb_claimedAt := Some (js_now w), jb_startedAt := Some (js_now w)\<rparr>"
  from assms(2) obtain j0 js where q: "?q = j0 # js" and j: "j = (?run j0)\<lparr>jb_version := jb_version j0 + 1\<rparr>"
    and w': "w' = jobUpdate (\<lambda>x. jb_id x = jb_id j0) ?run w"
    by (auto simp: claimNext_def Let_def split: list.splits)
  have "set ?q = {k \<in> set (js_jobs w). claimableBy server k}" by simp
  then have j0: "j0 \<in> set (js_jobs w)" "claimableBy server j0" by (auto simp: q)
  have oldest: "jb_createdAt j0 \<le> jb_createdAt k" if "k \<in> set (js_jobs w)" "claimableBy server k" for k
  proof -
    have "sorted (map jb_createdAt ?q)" "k \<in> set ?q" using that by simp_all
    then show ?thesis by (auto simp: q)
  qed
  from j0(1) obtain i where i: "i < length (js_jobs w)" "js_jobs w ! i = j0" by (auto simp: in_set_conv_nth)
  have upd: "js_jobs w' = (js_jobs w)[i := j]"
  proof (rule nth_equalityI)
    fix k assume "k < length (js_jobs w')"
    then have k: "k < length (js_jobs w)" by (simp add: w' jobUpdate_def)
    have "jb_id (js_jobs w ! k) = jb_id j0 \<longleftrightarrow> k = i"
      using assms(1) k i by (auto simp: distinct_conv_nth)
    then show "js_jobs w' ! k = (js_jobs w)[i := j] ! k"
      using k i by (auto simp: w' jobUpdate_def j nth_list_update)
  qed (simp add: w' jobUpdate_def)
  have "jb_status j = JobRunning" "jb_serverId j = server" "jb_id j0 = jb_id j" using j0(2) by (simp_all add: j claimableBy_def)
  then show ?thesis using upd i j0(2) oldest by (auto simp: set_update_memI)
qed

definition exJob :: "uuid \<Rightarrow> int \<Rightarrow> job" where
  "exJob i t = \<lparr>jb_id = i, jb_type = TypeTestConnection, jb_resourceType = ''instance'', jb_resourceId = None,
     jb_status = JobPending, jb_serverId = None, jb_params = noParams, jb_result = None, jb_error = None,
     jb_progress = 0, jb_createdBy = None, jb_claimedAt = None, jb_startedAt = None, jb_completedAt = None,
     jb_createdAt = t, jb_version = 0\<rparr>"

definition exQueue :: jobstore where
  "exQueue = \<lparr>iv_instances = [], iv_databases = [], js_jobs = [exJob 1 9, exJob 2 4], js_logs = [], js_next = 3, js_now = 10\<rparr>"

lemma claim_oldest_witness:
  "\<exists>j w'. claimNext None exQueue = (Some j, w') \<and> jb_id j = 2 \<and> jb_status j = JobRunning \<and> j \<in> set (js_jobs w')"
proof -
  obtain j w' where c: "claimNext None exQueue = (Some j, w')" and i: "jb_id j = 2"
    by (simp add: claimNext_def exQueue_def exJob_def claimableBy_def Let_def)
  have "distinct (map jb_id (js_jobs exQueue))" by (simp add: exQueue_def exJob_def)
  from claim_oldest [OF this c] c i show ?thesis by blast
qed

end
