(* ===== verification/Backups.thy ===== *)
theory Backups
  imports Jobs
begin

text \<open>
  Backups: \<open>domain/backup\<close>, \<open>infra/postgres/backup_repository.go\<close>, the services
  \<open>app/backup/service.go\<close> (trigger, restore, verify, copy, import) and the backup side of
  \<open>app/operation/service.go\<close> (deletion, retention, storage locations).  The object store, the
  secrets and the printing of UUIDs are the functions of \<open>env\<close>; what the code asks of components
  outside this theory is recorded in order in \<open>bs_ext\<close>.
\<close>

subsection \<open>The data\<close>

datatype backupStatus = BackupPending | BackupRunning | BackupCompleted | BackupFailed | BackupExpired | BackupDeleted

record backup =
  bk_id :: uuid
  bk_databaseId :: uuid
  bk_jobId :: "uuid option"
  bk_scheduleId :: "uuid option"
  bk_destinationId :: "uuid option"
  bk_type :: string
  bk_engine :: string
  bk_status :: backupStatus
  bk_storageUrl :: "string option"
  bk_sizeBytes :: "int option"
  bk_checksum :: "string option"
  bk_startedAt :: "int option"
  bk_completedAt :: "int option"
  bk_expiresAt :: "int option"
  bk_error :: "string option"
  bk_createdBy :: "uuid option"
  bk_createdAt :: int
  bk_version :: nat
  bk_verifyStatus :: "string option"
  bk_verifiedAt :: "int option"
  bk_verifyError :: "string option"

record dest =
  ds_id :: uuid
  ds_bucket :: string
  ds_prefix :: string
  ds_secretRef :: string
  ds_deleted :: bool

datatype ext =
    ExtDeleteObject uuid string
  | ExtUpload uuid string
  | ExtEmit string string string string string uuid
  | ExtDatabaseDropped uuid uuid
  | ExtPrepareCopy uuid string
  | ExtCleanupEndpoints uuid "uuid option"
  | ExtRevokeCredentials uuid "uuid option"
  | ExtTransferEndpoint uuid uuid uuid "uuid option"

record backupstore = jobstore +
  bs_backups :: "backup list"
  bs_dests :: "dest list"
  bs_ext :: "ext list"

record env =
  ev_secret :: "string \<Rightarrow> bool"
  ev_client :: "dest \<Rightarrow> bool"
  ev_delete :: "uuid \<Rightarrow> string \<Rightarrow> bool"
  ev_upload :: "uuid \<Rightarrow> string \<Rightarrow> bool"
  ev_idText :: "uuid \<Rightarrow> string"

definition extCall :: "ext \<Rightarrow> 'a backupstore_scheme \<Rightarrow> 'a backupstore_scheme" where
  "extCall e w = w\<lparr>bs_ext := bs_ext w @ [e]\<rparr>"

subsection \<open>The repositories\<close>

definition backupUpdate :: "(backup \<Rightarrow> bool) \<Rightarrow> (backup \<Rightarrow> backup) \<Rightarrow> 'a backupstore_scheme \<Rightarrow> 'a backupstore_scheme" where
  "backupUpdate P f w = w\<lparr>bs_backups := map (\<lambda>b. if P b then f b else b) (bs_backups w)\<rparr>"

definition bumped :: "backup \<Rightarrow> backup" where
  "bumped b = b\<lparr>bk_version := bk_version b + 1\<rparr>"

definition backupCreate :: "backup \<Rightarrow> 'a backupstore_scheme \<Rightarrow> 'a backupstore_scheme" where
  "backupCreate b w = w\<lparr>bs_backups := bs_backups w @ [b\<lparr>bk_createdAt := js_now w, bk_version := 0\<rparr>]\<rparr>"

definition backupGet :: "uuid \<Rightarrow> 'a backupstore_scheme \<Rightarrow> apperr + backup" where
  "backupGet i w = (case List.find (\<lambda>b. bk_id b = i) (bs_backups w) of
     None \<Rightarrow> Inl (NotFound ''backup not found'') | Some b \<Rightarrow> Inr b)"

definition markRunning :: "uuid \<Rightarrow> 'a backupstore_scheme \<Rightarrow> 'a backupstore_scheme" where
  "markRunning i w = backupUpdate (\<lambda>b. bk_id b = i \<and> bk_status b = BackupPending)
     (\<lambda>b. bumped (b\<lparr>bk_status := BackupRunning, bk_startedAt := Some (js_now w)\<rparr>)) w"

definition coalesce :: "'a option \<Rightarrow> 'a option \<Rightarrow> 'a option" where
  "coalesce x y = (case x of None \<Rightarrow> y | Some _ \<Rightarrow> x)"

record completeInput =
  ci_status :: backupStatus
  ci_storageUrl :: "string option"
  ci_sizeBytes :: "int option"
  ci_checksum :: "string option"
  ci_error :: "string option"

definition openBackup :: "backup \<Rightarrow> bool" where
  "openBackup b \<longleftrightarrow> bk_status b = BackupPending \<or> bk_status b = BackupRunning"

definition backupComplete :: "uuid \<Rightarrow> completeInput \<Rightarrow> 'a backupstore_scheme \<Rightarrow> 'a backupstore_scheme" where
  "backupComplete i inp w = backupUpdate (\<lambda>b. bk_id b = i \<and> openBackup b)
     (\<lambda>b. bumped (b\<lparr>bk_status := ci_status inp, bk_storageUrl := coalesce (ci_storageUrl inp) (bk_storageUrl b),
            bk_sizeBytes := coalesce (ci_sizeBytes inp) (bk_sizeBytes b),
            bk_checksum := coalesce (ci_checksum inp) (bk_checksum b),
            bk_error := ci_error inp, bk_completedAt := Some (js_now w)\<rparr>)) w"

definition setVerify :: "uuid \<Rightarrow> string \<Rightarrow> string option \<Rightarrow> 'a backupstore_scheme \<Rightarrow> 'a backupstore_scheme" where
  "setVerify i st err w = backupUpdate (\<lambda>b. bk_id b = i)
     (\<lambda>b. b\<lparr>bk_verifyStatus := Some st, bk_verifyError := err,
            bk_verifiedAt := (if st = ''running'' then bk_verifiedAt b else Some (js_now w))\<rparr>) w"

definition markDeleted :: "uuid \<Rightarrow> 'a backupstore_scheme \<Rightarrow> 'a backupstore_scheme" where
  "markDeleted i = backupUpdate (\<lambda>b. bk_id b = i
       \<and> (bk_status b = BackupCompleted \<or> bk_status b = BackupFailed \<or> bk_status b = BackupExpired))
     (\<lambda>b. bumped (b\<lparr>bk_status := BackupDeleted\<rparr>))"

definition markExpired :: "uuid \<Rightarrow> 'a backupstore_scheme \<Rightarrow> 'a backupstore_scheme" where
  "markExpired i = backupUpdate (\<lambda>b. bk_id b = i) (\<lambda>b. bumped (b\<lparr>bk_status := BackupExpired\<rparr>))"

definition isExpired :: "int \<Rightarrow> backup \<Rightarrow> bool" where
  "isExpired now b \<longleftrightarrow> bk_status b = BackupCompleted \<and> (case bk_expiresAt b of None \<Rightarrow> False | Some t \<Rightarrow> t < now)
     \<and> bk_destinationId b \<noteq> None \<and> bk_storageUrl b \<noteq> None"

definition expiryKey :: "backup \<Rightarrow> int" where
  "expiryKey b = (case bk_expiresAt b of None \<Rightarrow> 0 | Some t \<Rightarrow> t)"

definition listExpired :: "int \<Rightarrow> nat \<Rightarrow> 'a backupstore_scheme \<Rightarrow> (uuid \<times> uuid \<times> string) list" where
  "listExpired now limit w =
     map (\<lambda>b. (bk_id b, the (bk_destinationId b), the (bk_storageUrl b)))
       (take limit (sort_key expiryKey (filter (isExpired now) (bs_backups w))))"

definition destGet :: "uuid \<Rightarrow> 'a backupstore_scheme \<Rightarrow> apperr + dest" where
  "destGet i w = (case List.find (\<lambda>d. ds_id d = i \<and> \<not> ds_deleted d) (bs_dests w) of
     None \<Rightarrow> Inl (NotFound ''backup destination not found'') | Some d \<Rightarrow> Inr d)"

subsection \<open>Where a backup is stored\<close>

text \<open>\<open>path.Clean\<close> and \<open>path.Join\<close>: empty and \<open>.\<close> elements go, \<open>..\<close> takes the element before it away.\<close>

fun cleanElems :: "bool \<Rightarrow> string list \<Rightarrow> string list \<Rightarrow> string list" where
  "cleanElems rooted acc [] = rev acc"
| "cleanElems rooted acc (c # cs) =
     (if c = [] \<or> c = ''.'' then cleanElems rooted acc cs
      else if c = ''..'' then
        (case acc of
           [] \<Rightarrow> cleanElems rooted (if rooted then [] else [''..'']) cs
         | t # ts \<Rightarrow> cleanElems rooted (if t = ''..'' then c # t # ts else ts) cs)
      else cleanElems rooted (c # acc) cs)"

definition pathClean :: "string \<Rightarrow> string" where
  "pathClean p =
     (let rooted = hasPrefix ''/'' p; out = joinStr ''/'' (cleanElems rooted [] (splitByte (CHR ''/'') p))
      in if rooted then CHR ''/'' # out else if out = [] then ''.'' else out)"

definition pathJoin :: "string list \<Rightarrow> string" where
  "pathJoin es = (case dropWhile (\<lambda>e. e = []) es of [] \<Rightarrow> [] | e # es' \<Rightarrow> pathClean (joinStr ''/'' (e # es')))"

definition backupKey :: "string \<Rightarrow> string \<Rightarrow> string \<Rightarrow> string" where
  "backupKey pfx dbName idText = pathJoin [pfx, ''backups'', dbName, idText @ ''.sql.gz'']"

definition storageUrl :: "string \<Rightarrow> string \<Rightarrow> string" where
  "storageUrl bucket key = ''s3://'' @ bucket @ ''/'' @ key"

text \<open>\<open>keyFromStorageURL\<close> fails with a plain error, which its callers wrap.\<close>

definition keyFromStorageURL :: "string \<Rightarrow> string \<Rightarrow> string + string" where
  "keyFromStorageURL url bucket =
     (let want = ''s3://'' @ bucket @ ''/'' in
      if \<not> hasPrefix want url then Inl (''storage url '' @ goQuote url @ '' does not match bucket '' @ goQuote bucket)
      else Inr (drop (length want) url))"

definition wrapInternal :: "string + 'a \<Rightarrow> apperr + 'a" where
  "wrapInternal r = (case r of Inl m \<Rightarrow> Inl (Internal (''internal error: '' @ m)) | Inr x \<Rightarrow> Inr x)"

text \<open>The text of an error; \<^const>\<open>Internal\<close> carries the whole of it.\<close>

fun errorText :: "apperr \<Rightarrow> string" where
  "errorText (Internal m) = m"
| "errorText (Invalid _ m) = m"
| "errorText (NotFound m) = m"
| "errorText (Conflict m) = m"
| "errorText (Unauthorized m) = m"
| "errorText (Forbidden m) = m"

definition storageFor :: "env \<Rightarrow> idText \<Rightarrow> 'a backupstore_scheme \<Rightarrow> apperr + dest" where
  "storageFor e destinationId w =
     (case parseId destinationId of
        None \<Rightarrow> Inl (Internal ''operation has no valid destination_id'')
      | Some i \<Rightarrow> ebind (destGet i w) (\<lambda>d.
          if \<not> ev_secret e (ds_secretRef d) then Inl (Internal ''load destination credentials'')
          else if \<not> ev_client e d then Inl (Internal ''storage: new client'') else Inr d))"

text \<open>The deletion of an object: the request is made, and reports whether it worked.\<close>

definition deleteObject :: "env \<Rightarrow> dest \<Rightarrow> string \<Rightarrow> 'a backupstore_scheme \<Rightarrow> bool \<times> 'a backupstore_scheme" where
  "deleteObject e d key w = (ev_delete e (ds_id d) key, extCall (ExtDeleteObject (ds_id d) key) w)"

subsection \<open>Deletion and retention\<close>

definition stored :: "backup \<Rightarrow> bool" where
  "stored b \<longleftrightarrow> bk_status b = BackupCompleted \<and> bk_storageUrl b \<noteq> None \<and> bk_destinationId b \<noteq> None"

definition deleteBackup :: "env \<Rightarrow> backup \<Rightarrow> 'a backupstore_scheme \<Rightarrow> apperr option \<times> 'a backupstore_scheme" where
  "deleteBackup e b w =
     (if openBackup b then (Some (Conflict ''the backup is still running''), w)
      else if bk_status b = BackupDeleted then (None, w)
      else if stored b then
        (case storageFor e (IdOf (the (bk_destinationId b))) w of
           Inl er \<Rightarrow> (Some er, w)
         | Inr d \<Rightarrow>
             (case wrapInternal (keyFromStorageURL (the (bk_storageUrl b)) (ds_bucket d)) of
                Inl er \<Rightarrow> (Some er, w)
              | Inr key \<Rightarrow>
                  (case deleteObject e d key w of (ok, w') \<Rightarrow>
                     if ok then (None, markDeleted (bk_id b) w')
                     else (Some (Invalid ''id'' ''could not delete the stored backup''), w'))))
      else (None, markDeleted (bk_id b) w))"

definition pruneOne :: "env \<Rightarrow> uuid \<times> uuid \<times> string \<Rightarrow> nat \<times> 'a backupstore_scheme \<Rightarrow> nat \<times> 'a backupstore_scheme" where
  "pruneOne e x st = (case x of (i, d, url) \<Rightarrow> case st of (n, w) \<Rightarrow>
     case storageFor e (IdOf d) w of
       Inl _ \<Rightarrow> (n, w)
     | Inr ds \<Rightarrow>
         (case keyFromStorageURL url (ds_bucket ds) of
            Inl _ \<Rightarrow> (n, w)
          | Inr key \<Rightarrow>
              (case deleteObject e ds key w of (ok, w') \<Rightarrow>
                 if ok then (n + 1, markExpired i w') else (n, w'))))"

definition pruneExpired :: "env \<Rightarrow> nat \<Rightarrow> 'a backupstore_scheme \<Rightarrow> nat \<times> 'a backupstore_scheme" where
  "pruneExpired e limit w = fold (pruneOne e) (listExpired (js_now w) limit w) (0, w)"

subsection \<open>The backup service\<close>

record moveSpec =
  mv_targetInstanceId :: idText
  mv_targetDatabase :: string
  mv_dropSource :: bool

text \<open>\<open>trigger\<close> up to the creation of its job, and the insertion of the backup row after it: two
  transactions, between which an executor may already claim the job.\<close>

definition triggerJob :: "env \<Rightarrow> uuid \<Rightarrow> uuid \<Rightarrow> string \<Rightarrow> uuid option \<Rightarrow> int option \<Rightarrow> moveSpec option \<Rightarrow> uuid option
    \<Rightarrow> 'a backupstore_scheme \<Rightarrow> apperr + (backup \<times> job) \<times> 'a backupstore_scheme" where
  "triggerJob e dbId destId kind scheduleId expiresAt move by w =
     ebind (dbGet dbId w) (\<lambda>db.
     ebind (instGet (dr_instanceId db) w) (\<lambda>i.
     if \<not> hasCredentials i then Inl (Invalid ''database_id''
       ''the instance has no admin credentials; add a username/password to the instance to enable backups'')
     else ebind (destGet destId w) (\<lambda>d.
       let bid = js_next w;
           p = noParams\<lparr>pr_instanceId := IdOf (in_id i), pr_databaseId := IdOf (dr_id db), pr_database := dr_name db,
                 pr_backupId := IdOf bid, pr_destinationId := IdOf (ds_id d),
                 pr_key := backupKey (ds_prefix d) (dr_name db) (ev_idText e bid)\<rparr>;
           p' = (case move of None \<Rightarrow> p
                 | Some m \<Rightarrow> p\<lparr>pr_moveSourceDatabaseId := IdOf (dr_id db), pr_moveTargetInstanceId := mv_targetInstanceId m,
                     pr_moveTargetDatabase := mv_targetDatabase m, pr_moveDropSource := mv_dropSource m\<rparr>)
       in case opCreate TypeBackup ''backup'' (Some bid) (executorFor i) p' by (w\<lparr>js_next := bid + 1\<rparr>) of (j, w') \<Rightarrow>
          Inr ((\<lparr>bk_id = bid, bk_databaseId = dr_id db, bk_jobId = Some (jb_id j), bk_scheduleId = scheduleId,
             bk_destinationId = Some (ds_id d), bk_type = kind, bk_engine = dumpTool (in_engine i),
             bk_status = BackupPending, bk_storageUrl = None, bk_sizeBytes = None, bk_checksum = None,
             bk_startedAt = None, bk_completedAt = None, bk_expiresAt = expiresAt, bk_error = None,
             bk_createdBy = by, bk_createdAt = 0, bk_version = 0, bk_verifyStatus = None, bk_verifiedAt = None,
             bk_verifyError = None\<rparr>, j), w'))))"

definition trigger :: "env \<Rightarrow> uuid \<Rightarrow> uuid \<Rightarrow> string \<Rightarrow> uuid option \<Rightarrow> int option \<Rightarrow> moveSpec option \<Rightarrow> uuid option
    \<Rightarrow> 'a backupstore_scheme \<Rightarrow> apperr + (backup \<times> job) \<times> 'a backupstore_scheme" where
  "trigger e dbId destId kind scheduleId expiresAt move by w =
     ebind (triggerJob e dbId destId kind scheduleId expiresAt move by w) (\<lambda>r.
       case r of ((b, j), w') \<Rightarrow> Inr ((b, j), backupCreate b w'))"

definition triggerManual :: "env \<Rightarrow> idText \<Rightarrow> idText \<Rightarrow> moveSpec option \<Rightarrow> uuid option
    \<Rightarrow> 'a backupstore_scheme \<Rightarrow> apperr + (backup \<times> job) \<times> 'a backupstore_scheme" where
  "triggerManual e databaseId destinationId move by w =
     (case parseId databaseId of
        None \<Rightarrow> Inl (Invalid ''database_id'' ''database_id must be a valid UUID'')
      | Some d \<Rightarrow>
          (case parseId destinationId of
             None \<Rightarrow> Inl (Invalid ''destination_id'' ''destination_id must be a valid UUID'')
           | Some s \<Rightarrow> trigger e d s ''manual'' None None move by w))"

text \<open>\<open>TriggerScheduled\<close>; the clock counts nanoseconds.\<close>

definition triggerScheduled :: "env \<Rightarrow> uuid \<Rightarrow> uuid \<Rightarrow> uuid \<Rightarrow> int \<Rightarrow> uuid option
    \<Rightarrow> 'a backupstore_scheme \<Rightarrow> apperr + 'a backupstore_scheme" where
  "triggerScheduled e databaseId destinationId scheduleId retentionDays by w =
     ebind (trigger e databaseId destinationId ''scheduled'' (Some scheduleId)
              (Some (js_now w + retentionDays * 24 * 3600 * secondNs)) None by w) (\<lambda>r. Inr (snd r))"

record restoreInput =
  ri_backupId :: idText
  ri_targetInstanceId :: idText
  ri_targetDatabase :: string
  ri_moveSourceDatabaseId :: idText
  ri_moveDropSource :: bool
  ri_createdBy :: "uuid option"

definition familyLabel :: "engineFamily \<Rightarrow> string" where
  "familyLabel f = (if f = FamilyPostgres then ''PostgreSQL'' else ''MySQL or MariaDB'')"

text \<open>The destination and the key of a stored backup, as \<open>Restore\<close>, \<open>Verify\<close> and \<open>RestoreCopy\<close> look
  them up.\<close>

definition artifactOf :: "backup \<Rightarrow> 'a backupstore_scheme \<Rightarrow> apperr + dest \<times> string" where
  "artifactOf b w = ebind (destGet (the (bk_destinationId b)) w) (\<lambda>d.
     ebind (wrapInternal (keyFromStorageURL (the (bk_storageUrl b)) (ds_bucket d))) (\<lambda>key. Inr (d, key)))"

definition restore :: "restoreInput \<Rightarrow> 'a backupstore_scheme \<Rightarrow> apperr + job \<times> 'a backupstore_scheme" where
  "restore inp w =
     (case parseId (ri_backupId inp) of
        None \<Rightarrow> Inl (Invalid ''backup_id'' ''backup_id must be a valid UUID'')
      | Some bid \<Rightarrow> ebind (backupGet bid w) (\<lambda>b.
          if \<not> stored b then Inl (Invalid ''backup_id'' ''backup is not completed or has no stored artifact'')
          else
            let db = (case dbGet (bk_databaseId b) w of Inl _ \<Rightarrow> None | Inr d \<Rightarrow> Some d);
                name = (if ri_targetDatabase inp \<noteq> [] then ri_targetDatabase inp
                        else case db of None \<Rightarrow> [] | Some d \<Rightarrow> dr_name d);
                instId = (if ri_targetInstanceId inp \<noteq> IdEmpty then ri_targetInstanceId inp
                          else case db of None \<Rightarrow> IdEmpty | Some d \<Rightarrow> IdOf (dr_instanceId d))
            in if db = None \<and> ri_targetDatabase inp = []
               then Inl (Invalid ''target_database'' ''target_database is required (original database record is gone)'')
               else case parseId instId of
                 None \<Rightarrow> Inl (Invalid ''target_instance_id'' ''target_instance_id must be a valid UUID'')
               | Some iid \<Rightarrow> ebind (instGet iid w) (\<lambda>i.
                   if \<not> hasCredentials i
                   then Inl (Invalid ''target_instance_id'' ''the target instance has no admin credentials'')
                   else if dumpFamily (bk_engine b) \<noteq> engFamily (in_engine i)
                   then Inl (Invalid ''target_instance_id'' (''this backup is a '' @ familyLabel (dumpFamily (bk_engine b))
                     @ '' dump and can only be restored to a '' @ familyLabel (dumpFamily (bk_engine b)) @ '' database server''))
                   else ebind (artifactOf b w) (\<lambda>a. case a of (d, key) \<Rightarrow>
                     Inr (opCreate TypeRestore ''backup'' (Some (bk_id b)) (executorFor i)
                       (noParams\<lparr>pr_instanceId := IdOf (in_id i), pr_database := name,
                          pr_charset := (case db of None \<Rightarrow> ''utf8mb4'' | Some x \<Rightarrow> dr_charset x),
                          pr_collation := (case db of None \<Rightarrow> ''utf8mb4_unicode_ci'' | Some x \<Rightarrow> dr_collation x),
                          pr_backupId := IdOf (bk_id b), pr_destinationId := IdOf (ds_id d), pr_key := key,
                          pr_moveSourceDatabaseId := ri_moveSourceDatabaseId inp,
                          pr_moveDropSource := ri_moveDropSource inp\<rparr>) (ri_createdBy inp) w)))))"

text \<open>The restore of a backup into a scratch database beside its source, shared by \<open>Verify\<close> and
  \<open>RestoreCopy\<close>; \<open>mark\<close> adds the parameter that says what the restore is for.\<close>

definition scratchRestore :: "backup \<Rightarrow> string \<Rightarrow> string \<Rightarrow> (params \<Rightarrow> params) \<Rightarrow> uuid option
    \<Rightarrow> 'a backupstore_scheme \<Rightarrow> apperr + job \<times> 'a backupstore_scheme" where
  "scratchRestore b field scratch mark by w =
     ebind (dbGet (bk_databaseId b) w) (\<lambda>db.
     ebind (instGet (dr_instanceId db) w) (\<lambda>i.
     if \<not> hasCredentials i then Inl (Invalid field ''the instance has no admin credentials'')
     else ebind (artifactOf b w) (\<lambda>a. case a of (d, key) \<Rightarrow>
       Inr (opCreate TypeRestore ''backup'' (Some (bk_id b)) (executorFor i)
         (mark (noParams\<lparr>pr_instanceId := IdOf (in_id i), pr_database := scratch, pr_charset := dr_charset db,
            pr_collation := dr_collation db, pr_backupId := IdOf (bk_id b), pr_destinationId := IdOf (ds_id d),
            pr_key := key\<rparr>)) by w))))"

definition verifyJob :: "env \<Rightarrow> idText \<Rightarrow> uuid option \<Rightarrow> 'a backupstore_scheme \<Rightarrow> apperr + (uuid \<times> job) \<times> 'a backupstore_scheme" where
  "verifyJob e i by w =
     (case parseId i of
        None \<Rightarrow> Inl (Invalid ''id'' ''id must be a valid UUID'')
      | Some bid \<Rightarrow> ebind (backupGet bid w) (\<lambda>b.
          if \<not> stored b then Inl (Invalid ''id'' ''only completed backups can be verified'')
          else if bk_verifyStatus b = Some ''running''
          then Inl (Conflict ''a verification of this backup is already running'')
          else ebind (scratchRestore b ''id'' (scratchName ''fdv'' (ev_idText e (bk_id b)))
                 (\<lambda>p. p\<lparr>pr_verifyBackupId := IdOf (bk_id b)\<rparr>) by w)
            (\<lambda>r. Inr ((bk_id b, fst r), snd r))))"

definition verify :: "env \<Rightarrow> idText \<Rightarrow> uuid option \<Rightarrow> 'a backupstore_scheme \<Rightarrow> apperr + job \<times> 'a backupstore_scheme" where
  "verify e i by w = ebind (verifyJob e i by w) (\<lambda>r. case r of ((bid, j), w') \<Rightarrow> Inr (j, setVerify bid ''running'' None w'))"

definition restoreCopy :: "uuid \<Rightarrow> uuid \<Rightarrow> string \<Rightarrow> uuid option \<Rightarrow> 'a backupstore_scheme
    \<Rightarrow> apperr + job \<times> 'a backupstore_scheme" where
  "restoreCopy backupId copyId scratch by w =
     ebind (backupGet backupId w) (\<lambda>b.
       if \<not> stored b then Inl (Invalid ''backup_id'' ''only completed backups in backup storage can be opened'')
       else scratchRestore b ''backup_id'' scratch (\<lambda>p. p\<lparr>pr_backupCopyId := IdOf copyId\<rparr>) by w)"

definition dropCopyJob :: "uuid \<Rightarrow> uuid \<Rightarrow> uuid \<Rightarrow> string \<Rightarrow> uuid option \<Rightarrow> 'a backupstore_scheme
    \<Rightarrow> apperr + job \<times> 'a backupstore_scheme" where
  "dropCopyJob instanceId backupId copyId scratch by w =
     ebind (instGet instanceId w) (\<lambda>i.
       Inr (opCreate TypeDeleteDatabase ''backup'' (Some backupId) (executorFor i)
         (noParams\<lparr>pr_instanceId := IdOf (in_id i), pr_database := scratch, pr_backupCopyId := IdOf copyId\<rparr>) by w))"

text \<open>\<open>ImportSQL\<close>; the staged file's name is a fresh UUID.\<close>

definition importSQL :: "env \<Rightarrow> idText \<Rightarrow> idText \<Rightarrow> uuid option \<Rightarrow> 'a backupstore_scheme
    \<Rightarrow> (apperr + job) \<times> 'a backupstore_scheme" where
  "importSQL e databaseId destinationId by w =
     (case parseId databaseId of
        None \<Rightarrow> (Inl (Invalid ''id'' ''id must be a valid UUID''), w)
      | Some did \<Rightarrow>
     (case dbGet did w of Inl er \<Rightarrow> (Inl er, w) | Inr db \<Rightarrow>
      if dr_system db then (Inl (Invalid ''id'' ''SQL files cannot be imported into a system database''), w)
      else if dr_status db \<noteq> StActive then (Inl (Conflict ''imports need the database active''), w)
      else
     (case instGet (dr_instanceId db) w of Inl er \<Rightarrow> (Inl er, w) | Inr i \<Rightarrow>
      if \<not> hasCredentials i then (Inl (Invalid ''id'' ''the instance has no admin credentials''), w)
      else case parseId destinationId of
        None \<Rightarrow> (Inl (Invalid ''destination_id'' ''destination_id must be a valid UUID''), w)
      | Some destId \<Rightarrow>
     (case destGet destId w of Inl er \<Rightarrow> (Inl er, w) | Inr d \<Rightarrow>
        let key = pathJoin [ds_prefix d, ''imports'', dr_name db, ev_idText e (js_next w) @ ''.sql.gz''];
            w1 = w\<lparr>js_next := js_next w + 1\<rparr>
        in case storageFor e (IdOf (ds_id d)) w1 of
             Inl er \<Rightarrow> (Inl er, w1)
           | Inr ds \<Rightarrow>
               let w2 = extCall (ExtUpload (ds_id ds) key) w1 in
               if \<not> ev_upload e (ds_id ds) key
               then (Inl (Invalid ''destination_id'' ''could not upload to the backup destination''), w2)
               else case opCreate TypeRestore ''database'' (Some (dr_id db)) (executorFor i)
                 (noParams\<lparr>pr_instanceId := IdOf (in_id i), pr_databaseId := IdOf (dr_id db), pr_database := dr_name db,
                    pr_charset := dr_charset db, pr_collation := dr_collation db, pr_destinationId := IdOf (ds_id d),
                    pr_key := key, pr_accessRole := ''rw'', pr_deleteKeyAfter := True\<rparr>) by w2 of
                 (j, w3) \<Rightarrow> (Inr j, w3)))))"

definition backupDownload :: "env \<Rightarrow> backup \<Rightarrow> 'a backupstore_scheme \<Rightarrow> apperr + dest \<times> string" where
  "backupDownload e b w =
     (if \<not> stored b then Inl (Invalid ''id'' ''only completed backups can be downloaded'')
      else ebind (storageFor e (IdOf (the (bk_destinationId b))) w) (\<lambda>d.
        ebind (wrapInternal (keyFromStorageURL (the (bk_storageUrl b)) (ds_bucket d))) (\<lambda>key. Inr (d, key))))"

definition backupDelete :: "env \<Rightarrow> idText \<Rightarrow> 'a backupstore_scheme \<Rightarrow> apperr option \<times> 'a backupstore_scheme" where
  "backupDelete e i w =
     (case parseId i of
        None \<Rightarrow> (Some (Invalid ''id'' ''id must be a valid UUID''), w)
      | Some u \<Rightarrow> (case backupGet u w of Inl er \<Rightarrow> (Some er, w) | Inr b \<Rightarrow> deleteBackup e b w))"

subsection \<open>Keys\<close>

lemma splitByte_ne [simp]: "splitByte d s \<noteq> []"
  by (induction s) (auto split: list.splits)

lemma splitByte_append: "splitByte d (x @ d # y) = splitByte d x @ splitByte d y"
  by (induction x) (auto split: list.splits)

lemma splitByte_none: "d \<notin> set s \<Longrightarrow> splitByte d s = [s]"
  by (induction s) auto

lemma cleanElems_last:
  assumes "c \<noteq> []" "c \<noteq> ''.''" "c \<noteq> ''..''"
  shows "\<exists>ys. cleanElems r acc (xs @ [c]) = ys @ [c]"
  by (induction xs arbitrary: acc) (use assms in \<open>auto split: list.split\<close>)

lemma joinStr_snoc: "joinStr sep (ys @ [c]) = (if ys = [] then c else joinStr sep ys @ sep @ c)"
  by (induction sep ys rule: joinStr.induct) auto

lemma pathClean_last:
  assumes "CHR ''/'' \<notin> set c" "c \<noteq> []" "c \<noteq> ''.''" "c \<noteq> ''..''"
  shows "\<exists>pre. pathClean (p @ ''/'' @ c) = pre @ c \<and> (pre = [] \<or> last pre = CHR ''/'')"
proof -
  let ?r = "hasPrefix ''/'' (p @ ''/'' @ c)"
  have split: "splitByte (CHR ''/'') (p @ ''/'' @ c) = splitByte (CHR ''/'') p @ [c]"
    using splitByte_append [of "CHR ''/''" p c] assms(1) by (simp add: splitByte_none)
  obtain ys where ys: "cleanElems ?r [] (splitByte (CHR ''/'') p @ [c]) = ys @ [c]"
    using cleanElems_last [OF assms(2-4)] by blast
  let ?pre = "(if ?r then ''/'' else []) @ (if ys = [] then [] else joinStr ''/'' ys @ ''/'')"
  have "joinStr ''/'' (ys @ [c]) \<noteq> []" using assms(2) by (simp add: joinStr_snoc)
  then have "pathClean (p @ ''/'' @ c) = ?pre @ c"
    unfolding pathClean_def Let_def split ys by (simp add: joinStr_snoc)
  moreover have "?pre = [] \<or> last ?pre = CHR ''/''" by simp
  ultimately show ?thesis by blast
qed

lemma joinStr_last2: "xs \<noteq> [] \<Longrightarrow> joinStr sep (xs @ [c]) = joinStr sep xs @ sep @ c"
  by (simp add: joinStr_snoc)

lemma backupKey_last:
  assumes "CHR ''/'' \<notin> set t"
  shows "\<exists>pre. backupKey pfx n t = pre @ (t @ ''.sql.gz'') \<and> (pre = [] \<or> last pre = CHR ''/'')"
proof -
  let ?c = "t @ ''.sql.gz''"
  have c: "CHR ''/'' \<notin> set ?c" "?c \<noteq> []" "?c \<noteq> ''.''" "?c \<noteq> ''..''"
    using assms by (auto simp: append_eq_Cons_conv)
  obtain es where "es \<noteq> []" "backupKey pfx n t = pathClean (joinStr ''/'' (es @ [?c]))"
  proof (cases "pfx = []")
    case True
    then show ?thesis by (intro that [of "[''backups'', n]"]) (simp_all add: backupKey_def pathJoin_def)
  next
    case False
    then show ?thesis by (intro that [of "[pfx, ''backups'', n]"]) (simp_all add: backupKey_def pathJoin_def)
  qed
  then show ?thesis using pathClean_last [OF c, of "joinStr ''/'' es"] by (simp add: joinStr_last2)
qed

lemma last_element:
  assumes "c \<notin> set a" "c \<notin> set b" "p = [] \<or> last p = c" "q = [] \<or> last q = c" "p @ a = q @ b"
  shows "a = b"
proof -
  have tw: "takeWhile (\<lambda>x. x \<noteq> c) (rev (p @ a)) = rev a" if "c \<notin> set a" "p = [] \<or> last p = c" for p a
  proof (cases p rule: rev_cases)
    case Nil
    then show ?thesis using that(1) by (auto simp: takeWhile_eq_all_conv)
  next
    case (snoc p' x)
    then have "rev (p @ a) = rev a @ c # rev p'" using that(2) by simp
    then show ?thesis using that(1) by (simp add: takeWhile_append takeWhile_eq_all_conv)
  qed
  from tw [OF assms(1,3)] tw [OF assms(2,4)] assms(5) show ?thesis by simp
qed

text \<open>Different backups are stored under different keys, whatever the prefix of the destination and
  the name of the database, also when these contain path elements that are cleaned away: the key ends
  in the backup's own identifier.\<close>

theorem backup_keys_distinct:
  assumes "CHR ''/'' \<notin> set t" "CHR ''/'' \<notin> set t'" "t \<noteq> t'"
  shows "backupKey pfx n t \<noteq> backupKey pfx' n' t'"
proof
  assume eq: "backupKey pfx n t = backupKey pfx' n' t'"
  obtain p q where p: "backupKey pfx n t = p @ (t @ ''.sql.gz'')" "p = [] \<or> last p = CHR ''/''"
    and q: "backupKey pfx' n' t' = q @ (t' @ ''.sql.gz'')" "q = [] \<or> last q = CHR ''/''"
    using backupKey_last assms(1,2) by meson
  have "t @ ''.sql.gz'' = t' @ ''.sql.gz''"
    by (rule last_element [of "CHR ''/''" _ _ p q]) (use assms p q eq in auto)
  with assms(3) show False by simp
qed

lemma backup_keys_distinct_witness:
  "backupKey ''a/../b'' ''shop'' ''01'' \<noteq> backupKey ''b'' ''x/../shop'' ''02''
   \<and> backupKey ''a/../b'' ''shop'' ''01'' = ''b/backups/shop/01.sql.gz''"
proof
  show "backupKey ''a/../b'' ''shop'' ''01'' \<noteq> backupKey ''b'' ''x/../shop'' ''02''"
    by (rule backup_keys_distinct) simp_all
  show "backupKey ''a/../b'' ''shop'' ''01'' = ''b/backups/shop/01.sql.gz''" by code_simp
qed

lemma keyFromStorageURL_storageUrl [simp]: "keyFromStorageURL (storageUrl bucket key) bucket = Inr key"
  by (simp add: keyFromStorageURL_def storageUrl_def Let_def go_str)

lemma keyFromStorageURL_Inr: "keyFromStorageURL url bucket = Inr key \<Longrightarrow> url = storageUrl bucket key"
  by (auto simp: keyFromStorageURL_def storageUrl_def Let_def go_str prefix_def split: if_splits)

subsection \<open>Retention\<close>

text \<open>What one pass of the retention worker may do to a backup, and why it may ask for a deletion.\<close>

definition pastRetention :: "int \<Rightarrow> backup \<Rightarrow> bool" where
  "pastRetention now b \<longleftrightarrow> bk_status b = BackupCompleted \<and> (\<exists>t. bk_expiresAt b = Some t \<and> t < now)"

definition pruneRow :: "int \<Rightarrow> backup \<Rightarrow> backup \<Rightarrow> bool" where
  "pruneRow now b b' \<longleftrightarrow> b' = b
     \<or> pastRetention now b \<and> (\<exists>v. b' = b\<lparr>bk_status := BackupExpired, bk_version := v\<rparr>)"

definition pruneCall :: "int \<Rightarrow> backup list \<Rightarrow> dest list \<Rightarrow> ext \<Rightarrow> bool" where
  "pruneCall now bs ds x \<longleftrightarrow> (\<exists>b \<in> set bs. \<exists>d \<in> set ds. \<exists>key. pastRetention now b \<and> \<not> ds_deleted d
     \<and> bk_destinationId b = Some (ds_id d) \<and> bk_storageUrl b = Some (storageUrl (ds_bucket d) key)
     \<and> x = ExtDeleteObject (ds_id d) key)"

lemma storageFor_Inr: "storageFor e (IdOf i) w = Inr d \<Longrightarrow> d \<in> set (bs_dests w) \<and> ds_id d = i \<and> \<not> ds_deleted d"
  by (auto simp: storageFor_def destGet_def result_simps find_Some_iff split: option.splits if_splits)

definition pruning :: "int \<Rightarrow> 'a backupstore_scheme \<Rightarrow> nat \<Rightarrow> nat \<times> 'a backupstore_scheme \<Rightarrow> bool" where
  "pruning now w0 k st \<longleftrightarrow> (case st of (n, w) \<Rightarrow> n \<le> k \<and> bs_dests w = bs_dests w0 \<and> js_jobs w = js_jobs w0
     \<and> iv_databases w = iv_databases w0
     \<and> list_all2 (pruneRow now) (bs_backups w0) (bs_backups w)
     \<and> (\<exists>calls. bs_ext w = bs_ext w0 @ calls \<and> list_all (pruneCall now (bs_backups w0) (bs_dests w0)) calls))"

lemma pruneRow_simps: "pruneRow now b b' \<Longrightarrow> bk_id b' = bk_id b"
  by (auto simp: pruneRow_def)

lemma pruneRow_expire: "pruneRow now b b' \<Longrightarrow> pastRetention now b \<Longrightarrow> pruneRow now b (bumped (b'\<lparr>bk_status := BackupExpired\<rparr>))"
  by (auto simp: pruneRow_def bumped_def)

lemma pruneOne_pruning:
  assumes st: "pruning now w0 k st" and ids: "distinct (map bk_id (bs_backups w0))"
    and b: "b \<in> set (bs_backups w0)" "pastRetention now b" "bk_destinationId b = Some d" "bk_storageUrl b = Some url"
  shows "pruning now w0 (k + 1) (pruneOne e (bk_id b, d, url) st)"
proof -
  obtain n w where w: "st = (n, w)" by (cases st) auto
  from st obtain calls where inv: "n \<le> k" "bs_dests w = bs_dests w0" "js_jobs w = js_jobs w0"
      "iv_databases w = iv_databases w0" "list_all2 (pruneRow now) (bs_backups w0) (bs_backups w)"
      "bs_ext w = bs_ext w0 @ calls" "list_all (pruneCall now (bs_backups w0) (bs_dests w0)) calls"
    by (auto simp: pruning_def w)
  have keep: "pruning now w0 (k + 1) (n, w)" using inv by (auto simp: pruning_def)
  show ?thesis
  proof (cases "storageFor e (IdOf d) w")
    case (Inl x)
    with keep show ?thesis by (simp add: pruneOne_def w)
  next
    case (Inr ds)
    note ds = storageFor_Inr [OF Inr]
    show ?thesis
    proof (cases "keyFromStorageURL url (ds_bucket ds)")
      case Inl': (Inl x)
      with Inr keep show ?thesis by (simp add: pruneOne_def w)
    next
      case Inr': (Inr key)
      have call: "pruneCall now (bs_backups w0) (bs_dests w0) (ExtDeleteObject (ds_id ds) key)"
        using b ds keyFromStorageURL_Inr [OF Inr'] inv(2) by (auto simp: pruneCall_def)
      let ?m = "\<lambda>x. if bk_id x = bk_id b then bumped (x\<lparr>bk_status := BackupExpired\<rparr>) else x"
      have "list_all2 (pruneRow now) (bs_backups w0) (map ?m (bs_backups w))"
        unfolding list_all2_conv_all_nth
      proof (intro conjI allI impI)
        show "length (bs_backups w0) = length (map ?m (bs_backups w))" using inv(5) by (simp add: list_all2_lengthD)
        fix i assume i: "i < length (bs_backups w0)"
        then have i': "i < length (bs_backups w)" and r: "pruneRow now (bs_backups w0 ! i) (bs_backups w ! i)"
          using inv(5) by (auto simp: list_all2_conv_all_nth)
        have "bk_id (bs_backups w ! i) = bk_id b \<Longrightarrow> bs_backups w0 ! i = b"
          using ids b(1) i pruneRow_simps [OF r] by (auto simp: distinct_map inj_on_def)
        then show "pruneRow now (bs_backups w0 ! i) (map ?m (bs_backups w) ! i)"
          using r i' pruneRow_expire [OF r] b(2) by auto
      qed
      with inv call Inr Inr' show ?thesis
        by (auto simp: pruneOne_def w pruning_def deleteObject_def extCall_def markExpired_def backupUpdate_def)
    qed
  qed
qed

lemma listExpired_sound:
  "(i, d, url) \<in> set (listExpired now limit w) \<Longrightarrow>
     \<exists>b \<in> set (bs_backups w). i = bk_id b \<and> pastRetention now b \<and> bk_destinationId b = Some d \<and> bk_storageUrl b = Some url"
  by (auto simp: listExpired_def isExpired_def pastRetention_def split: option.splits dest!: in_set_takeD)

lemma pruning_fold:
  assumes "distinct (map bk_id (bs_backups w0))" "set xs \<subseteq> set (listExpired now limit w0)" "pruning now w0 k st"
  shows "pruning now w0 (k + length xs) (fold (pruneOne e) xs st)"
  using assms(2,3)
proof (induction xs arbitrary: k st)
  case (Cons x xs)
  obtain i d url where x: "x = (i, d, url)" by (cases x) auto
  with Cons.prems(1) obtain b where "b \<in> set (bs_backups w0)" "i = bk_id b" "pastRetention now b"
      "bk_destinationId b = Some d" "bk_storageUrl b = Some url"
    using listExpired_sound [of i d url now limit w0] by auto
  with Cons.prems(2) have "pruning now w0 (k + 1) (pruneOne e x st)"
    unfolding x using pruneOne_pruning [OF _ assms(1)] by blast
  with Cons.IH [of "k + 1"] Cons.prems(1) show ?case by simp
qed simp

text \<open>C33. A pass of the retention worker expires at most \<open>limit\<close> backups, only completed ones past their
  expiry, changes nothing else of any backup, and every object it asks to delete is the stored object of
  such a backup, in that backup's own destination.\<close>

theorem prune_only_expired:
  assumes "distinct (map bk_id (bs_backups w))" "pruneExpired e limit w = (n, w')"
  shows "n \<le> limit \<and> list_all2 (pruneRow (js_now w)) (bs_backups w) (bs_backups w')
    \<and> js_jobs w' = js_jobs w \<and> iv_databases w' = iv_databases w
    \<and> (\<exists>calls. bs_ext w' = bs_ext w @ calls \<and> list_all (pruneCall (js_now w) (bs_backups w) (bs_dests w)) calls)"
proof -
  have "pruning (js_now w) w 0 (0, w)" by (simp add: pruning_def list_all2_refl pruneRow_def)
  from pruning_fold [OF assms(1) order_refl this, of limit e]
  have "pruning (js_now w) w (length (listExpired (js_now w) limit w)) (n, w')"
    using assms(2) by (simp add: pruneExpired_def)
  moreover have "length (listExpired (js_now w) limit w) \<le> limit" by (simp add: listExpired_def)
  ultimately show ?thesis by (auto simp: pruning_def)
qed

definition exEnv :: env where
  "exEnv = \<lparr>ev_secret = (\<lambda>_. True), ev_client = (\<lambda>_. True), ev_delete = (\<lambda>_ _. True), ev_upload = (\<lambda>_ _. True),
     ev_idText = (\<lambda>u. replicate 31 (CHR ''0'') @ [hexDigit (u mod 16)])\<rparr>"

definition exDest :: dest where
  "exDest = \<lparr>ds_id = 70, ds_bucket = ''bkt'', ds_prefix = ''p'', ds_secretRef = ''s'', ds_deleted = False\<rparr>"

definition exBackup :: "uuid \<Rightarrow> int \<Rightarrow> backup" where
  "exBackup i t = \<lparr>bk_id = i, bk_databaseId = 1, bk_jobId = None, bk_scheduleId = None, bk_destinationId = Some 70,
     bk_type = ''scheduled'', bk_engine = ''pg_dump'', bk_status = BackupCompleted,
     bk_storageUrl = Some (storageUrl ''bkt'' ''p/k''), bk_sizeBytes = None, bk_checksum = None, bk_startedAt = None,
     bk_completedAt = None, bk_expiresAt = Some t, bk_error = None, bk_createdBy = None, bk_createdAt = 0,
     bk_version = 0, bk_verifyStatus = None, bk_verifiedAt = None, bk_verifyError = None\<rparr>"

definition exRetention :: backupstore where
  "exRetention = \<lparr>iv_instances = [], iv_databases = [], js_jobs = [], js_logs = [], js_next = 9, js_now = 100,
     bs_backups = [exBackup 5 300, exBackup 6 30], bs_dests = [exDest], bs_ext = []\<rparr>"

lemma prune_only_expired_witness:
  "fst (pruneExpired exEnv 10 exRetention) = 1
   \<and> (\<exists>calls. bs_ext (snd (pruneExpired exEnv 10 exRetention)) = calls
        \<and> list_all (pruneCall 100 [exBackup 5 300, exBackup 6 30] [exDest]) calls)"
proof
  show one: "fst (pruneExpired exEnv 10 exRetention) = 1" by code_simp
  have "distinct (map bk_id (bs_backups exRetention))" by (simp add: exRetention_def exBackup_def)
  from prune_only_expired [OF this, of exEnv 10 1 "snd (pruneExpired exEnv 10 exRetention)"] one
  show "\<exists>calls. bs_ext (snd (pruneExpired exEnv 10 exRetention)) = calls
        \<and> list_all (pruneCall 100 [exBackup 5 300, exBackup 6 30] [exDest]) calls"
    by (simp add: prod_eq_iff exRetention_def)
qed

text \<open>The retention worker reads the first \<open>limit\<close> expired backups each time: while none of these can be
  pruned, no other one is.\<close>

lemma prune_blocked:
  assumes "\<forall>(i, d, url) \<in> set (listExpired (js_now w) limit w). isl (storageFor e (IdOf d) w)"
  shows "pruneExpired e limit w = (0, w)"
proof -
  have "\<forall>(i, d, url) \<in> set xs. isl (storageFor e (IdOf d) w) \<Longrightarrow> fold (pruneOne e) xs (0, w) = (0, w)" for xs
    by (induction xs) (auto simp: pruneOne_def split: sum.splits)
  with assms show ?thesis by (simp add: pruneExpired_def)
qed

end
