(* ===== verification/BackupCopies.thy ===== *)
theory BackupCopies
  imports Backups
begin

text \<open>
  Backup copies: a backup restored into a temporary database beside its source, kept for a while and
  dropped (\<open>domain/backupcopy\<close>, \<open>infra/postgres/backupcopy_repository.go\<close>,
  \<open>app/backupcopy/service.go\<close>).  The partial unique index over the live copies of a database is the
  conflict of \<open>copyCreate\<close>; instants and durations count nanoseconds.
\<close>

subsection \<open>The data\<close>

datatype copyStatus = CopyRestoring | CopyReady | CopyFailed | CopyDropping | CopyDropped

record bcopy =
  cp_id :: uuid
  cp_databaseId :: uuid
  cp_backupId :: uuid
  cp_instanceId :: uuid
  cp_scratch :: string
  cp_status :: copyStatus
  cp_jobId :: "uuid option"
  cp_dropJobId :: "uuid option"
  cp_dropAttempts :: nat
  cp_error :: "string option"
  cp_ttl :: int
  cp_readyAt :: "int option"
  cp_expiresAt :: "int option"
  cp_createdBy :: "uuid option"
  cp_createdAt :: int
  cp_updatedAt :: int

record copystore = backupstore +
  cs_copies :: "bcopy list"

record copyCfg =
  cc_ttl :: int
  cc_maxBytes :: int

definition hourNs :: int where "hourNs = 3600 * secondNs"

definition defaultTTL :: int where "defaultTTL = 2 * hourNs"

definition maxTTL :: int where "maxTTL = 24 * hourNs"

definition maxDropAttempts :: nat where "maxDropAttempts = 5"

definition newCopyCfg :: "int \<Rightarrow> int \<Rightarrow> copyCfg" where
  "newCopyCfg ttl maxBytes = \<lparr>cc_ttl = (if ttl \<le> 0 then defaultTTL else ttl), cc_maxBytes = maxBytes\<rparr>"

definition copyLive :: "bcopy \<Rightarrow> bool" where
  "copyLive c \<longleftrightarrow> cp_status c = CopyRestoring \<or> cp_status c = CopyReady"

subsection \<open>The repository\<close>

definition copyCreate :: "bcopy \<Rightarrow> 'a copystore_scheme \<Rightarrow> apperr + bcopy \<times> 'a copystore_scheme" where
  "copyCreate c w =
     (if list_ex (\<lambda>x. copyLive x \<and> cp_databaseId x = cp_databaseId c) (cs_copies w)
      then Inl (Conflict ''this database already has a backup copy; discard it first'')
      else let c' = c\<lparr>cp_id := js_next w, cp_ttl := (cp_ttl c div secondNs) * secondNs,
                      cp_createdAt := js_now w, cp_updatedAt := js_now w\<rparr>
           in Inr (c', w\<lparr>cs_copies := cs_copies w @ [c'], js_next := js_next w + 1\<rparr>))"

definition copyGet :: "uuid \<Rightarrow> 'a copystore_scheme \<Rightarrow> apperr + bcopy" where
  "copyGet i w = (case List.find (\<lambda>c. cp_id c = i) (cs_copies w) of
     None \<Rightarrow> Inl (NotFound ''backup copy not found'') | Some c \<Rightarrow> Inr c)"

definition copiesOf :: "uuid \<Rightarrow> 'a copystore_scheme \<Rightarrow> bcopy list" where
  "copiesOf dbId w = take 20 (sort_key (\<lambda>c. - cp_createdAt c)
     (filter (\<lambda>c. cp_databaseId c = dbId \<and> cp_status c \<noteq> CopyDropped) (cs_copies w)))"

definition copyDue :: "int \<Rightarrow> int \<Rightarrow> bcopy \<Rightarrow> bool" where
  "copyDue now stale c \<longleftrightarrow>
     (cp_status c = CopyReady \<and> (case cp_expiresAt c of None \<Rightarrow> False | Some t \<Rightarrow> t < now))
     \<or> (cp_status c = CopyFailed \<and> cp_dropJobId c = None)
     \<or> (cp_status c = CopyDropping \<and> cp_updatedAt c < stale \<and> cp_dropAttempts c < maxDropAttempts)"

definition listDue :: "int \<Rightarrow> int \<Rightarrow> 'a copystore_scheme \<Rightarrow> bcopy list" where
  "listDue now stale w = take 50 (sort_key cp_updatedAt (filter (copyDue now stale) (cs_copies w)))"

text \<open>\<open>exec\<close>: a guarded update that hits no row is a conflict.\<close>

definition copyExec :: "(bcopy \<Rightarrow> bool) \<Rightarrow> (bcopy \<Rightarrow> bcopy) \<Rightarrow> 'a copystore_scheme \<Rightarrow> apperr option \<times> 'a copystore_scheme" where
  "copyExec P f w =
     (if list_ex P (cs_copies w)
      then (None, w\<lparr>cs_copies := map (\<lambda>c. if P c then (f c)\<lparr>cp_updatedAt := js_now w\<rparr> else c) (cs_copies w)\<rparr>)
      else (Some (Conflict ''the backup copy changed state meanwhile''), w))"

definition copySetJob :: "uuid \<Rightarrow> uuid \<Rightarrow> 'a copystore_scheme \<Rightarrow> apperr option \<times> 'a copystore_scheme" where
  "copySetJob i j = copyExec (\<lambda>c. cp_id c = i) (\<lambda>c. c\<lparr>cp_jobId := Some j\<rparr>)"

definition markReady :: "uuid \<Rightarrow> int \<Rightarrow> int \<Rightarrow> 'a copystore_scheme \<Rightarrow> apperr option \<times> 'a copystore_scheme" where
  "markReady i readyAt expiresAt = copyExec (\<lambda>c. cp_id c = i \<and> cp_status c = CopyRestoring)
     (\<lambda>c. c\<lparr>cp_status := CopyReady, cp_readyAt := Some readyAt, cp_expiresAt := Some expiresAt\<rparr>)"

definition markFailed :: "uuid \<Rightarrow> string \<Rightarrow> 'a copystore_scheme \<Rightarrow> apperr option \<times> 'a copystore_scheme" where
  "markFailed i msg = copyExec (\<lambda>c. cp_id c = i \<and> copyLive c)
     (\<lambda>c. c\<lparr>cp_status := CopyFailed, cp_error := Some msg\<rparr>)"

definition markDropping :: "uuid \<Rightarrow> uuid option \<Rightarrow> 'a copystore_scheme \<Rightarrow> apperr option \<times> 'a copystore_scheme" where
  "markDropping i dropJob = copyExec (\<lambda>c. cp_id c = i \<and> cp_status c \<noteq> CopyDropped)
     (\<lambda>c. c\<lparr>cp_status := CopyDropping, cp_dropJobId := coalesce dropJob (cp_dropJobId c),
            cp_dropAttempts := cp_dropAttempts c + (if dropJob = None then 0 else 1)\<rparr>)"

definition markDropped :: "uuid \<Rightarrow> 'a copystore_scheme \<Rightarrow> apperr option \<times> 'a copystore_scheme" where
  "markDropped i = copyExec (\<lambda>c. cp_id c = i) (\<lambda>c. c\<lparr>cp_status := CopyDropped\<rparr>)"

definition setExpiry :: "uuid \<Rightarrow> int \<Rightarrow> 'a copystore_scheme \<Rightarrow> apperr option \<times> 'a copystore_scheme" where
  "setExpiry i at = copyExec (\<lambda>c. cp_id c = i \<and> cp_status c = CopyReady) (\<lambda>c. c\<lparr>cp_expiresAt := Some at\<rparr>)"

subsection \<open>The service\<close>

definition copyOpen :: "copyCfg \<Rightarrow> env \<Rightarrow> uuid \<Rightarrow> uuid \<Rightarrow> uuid option \<Rightarrow> 'a copystore_scheme
    \<Rightarrow> (apperr + bcopy) \<times> 'a copystore_scheme" where
  "copyOpen cfg e databaseId backupId by w =
     (case dbGet databaseId w of Inl er \<Rightarrow> (Inl er, w) | Inr db \<Rightarrow>
      if dr_system db then (Inl (Invalid ''database_id'' ''system databases cannot be compared with backups''), w)
      else (case backupGet backupId w of Inl er \<Rightarrow> (Inl er, w) | Inr b \<Rightarrow>
      if bk_databaseId b \<noteq> dr_id db then (Inl (Invalid ''backup_id'' ''this backup is of another database''), w)
      else if bk_status b \<noteq> BackupCompleted \<or> bk_storageUrl b = None
      then (Inl (Invalid ''backup_id'' ''only completed backups in backup storage can be opened''), w)
      else if cc_maxBytes cfg > 0 \<and> (case bk_sizeBytes b of None \<Rightarrow> False | Some n \<Rightarrow> n > cc_maxBytes cfg)
      then (Inl (Invalid ''backup_id'' ''this backup is larger than FLEETDOCK_BACKUP_COPY_MAX_BYTES allows opening''), w)
      else
        let scratch = scratchName ''fds'' (ev_idText e (js_next w)); w1 = w\<lparr>js_next := js_next w + 1\<rparr>
        in case copyCreate \<lparr>cp_id = 0, cp_databaseId = dr_id db, cp_backupId = bk_id b, cp_instanceId = dr_instanceId db,
                   cp_scratch = scratch, cp_status = CopyRestoring, cp_jobId = None, cp_dropJobId = None,
                   cp_dropAttempts = 0, cp_error = None, cp_ttl = cc_ttl cfg, cp_readyAt = None,
                   cp_expiresAt = None, cp_createdBy = by, cp_createdAt = 0, cp_updatedAt = 0\<rparr> w1 of
             Inl er \<Rightarrow> (Inl er, w1)
           | Inr (c, w2) \<Rightarrow>
               (case restoreCopy (bk_id b) (cp_id c) (cp_scratch c) by w2 of
                  Inl er \<Rightarrow> (Inl er, snd (markDropped (cp_id c) (snd (markFailed (cp_id c) (errorText er) w2))))
                | Inr (j, w3) \<Rightarrow>
                    (case copySetJob (cp_id c) (jb_id j) w3 of
                       (Some er, w4) \<Rightarrow> (Inl er, w4)
                     | (None, w4) \<Rightarrow> (Inr (c\<lparr>cp_jobId := Some (jb_id j)\<rparr>), w4)))))"

definition copyOf :: "uuid \<Rightarrow> uuid \<Rightarrow> 'a copystore_scheme \<Rightarrow> apperr + bcopy" where
  "copyOf databaseId copyId w = ebind (copyGet copyId w) (\<lambda>c.
     if cp_databaseId c \<noteq> databaseId then Inl (NotFound ''backup copy not found'') else Inr c)"

definition copyExtend :: "copyCfg \<Rightarrow> uuid \<Rightarrow> uuid \<Rightarrow> 'a copystore_scheme \<Rightarrow> (apperr + bcopy) \<times> 'a copystore_scheme" where
  "copyExtend cfg databaseId copyId w =
     (case copyOf databaseId copyId w of Inl er \<Rightarrow> (Inl er, w) | Inr c \<Rightarrow>
      (case cp_readyAt c of
         None \<Rightarrow> (Inl (Conflict ''only a ready backup copy can be extended''), w)
       | Some readyAt \<Rightarrow>
           if cp_status c \<noteq> CopyReady then (Inl (Conflict ''only a ready backup copy can be extended''), w)
           else let at = min (js_now w + cc_ttl cfg) (readyAt + maxTTL)
                in case setExpiry (cp_id c) at w of
                     (Some er, w') \<Rightarrow> (Inl er, w')
                   | (None, w') \<Rightarrow> (Inr (c\<lparr>cp_expiresAt := Some at\<rparr>), w')))"

definition copyDrop :: "bcopy \<Rightarrow> uuid option \<Rightarrow> 'a copystore_scheme \<Rightarrow> apperr option \<times> 'a copystore_scheme" where
  "copyDrop c by w =
     (case dropCopyJob (cp_instanceId c) (cp_backupId c) (cp_id c) (cp_scratch c) by w of
        Inl er \<Rightarrow> (Some er, w)
      | Inr (j, w') \<Rightarrow> markDropping (cp_id c) (Some (jb_id j)) w')"

definition copyDiscard :: "uuid \<Rightarrow> uuid \<Rightarrow> uuid option \<Rightarrow> 'a copystore_scheme \<Rightarrow> apperr option \<times> 'a copystore_scheme" where
  "copyDiscard databaseId copyId by w =
     (case copyOf databaseId copyId w of Inl er \<Rightarrow> (Some er, w) | Inr c \<Rightarrow>
      (case cp_status c of
         CopyDropped \<Rightarrow> (None, w)
       | CopyDropping \<Rightarrow> (None, w)
       | CopyRestoring \<Rightarrow> markDropping (cp_id c) None w
       | _ \<Rightarrow> copyDrop c by w))"

definition onCopyRestored :: "uuid \<Rightarrow> bool \<Rightarrow> string option \<Rightarrow> 'a copystore_scheme \<Rightarrow> 'a copystore_scheme" where
  "onCopyRestored copyId ok err w =
     (case copyGet copyId w of Inl _ \<Rightarrow> w | Inr c \<Rightarrow>
      if cp_status c = CopyDropping \<or> \<not> ok
      then let w1 = (if ok then w
                     else snd (markFailed (cp_id c) (case err of None \<Rightarrow> ''the restore failed'' | Some m \<Rightarrow> m) w))
           in snd (copyDrop c (cp_createdBy c) w1)
      else let w1 = extCall (ExtPrepareCopy (cp_instanceId c) (cp_scratch c)) w
           in snd (markReady (cp_id c) (js_now w) (js_now w + cp_ttl c) w1))"

definition onCopyDropped :: "uuid \<Rightarrow> bool \<Rightarrow> 'a copystore_scheme \<Rightarrow> 'a copystore_scheme" where
  "onCopyDropped copyId ok w = (if ok then snd (markDropped copyId w) else w)"

definition expireOne :: "bcopy \<Rightarrow> nat \<times> 'a copystore_scheme \<Rightarrow> nat \<times> 'a copystore_scheme" where
  "expireOne c st = (case st of (n, w) \<Rightarrow>
     case copyDrop c None w of (None, w') \<Rightarrow> (n + 1, w') | (Some _, w') \<Rightarrow> (n, w'))"

definition expireDue :: "'a copystore_scheme \<Rightarrow> nat \<times> 'a copystore_scheme" where
  "expireDue w = fold expireOne (listDue (js_now w) (js_now w - 900 * secondNs) w) (0, w)"

end
