(* ===== verification/Moves.thy ===== *)
theory Moves
  imports Backups
begin

text \<open>
  Creating and deleting databases (\<open>app/database/service.go\<close>) and moving them
  (\<open>app/move/service.go\<close>): a move is a backup whose completion starts a restore, whose completion
  registers the target and, if asked to, drops the source.  The endpoints and credentials of a
  database are other components, called in the recorded order.
\<close>

subsection \<open>Databases\<close>

definition databaseCreate :: "idText \<Rightarrow> string \<Rightarrow> string \<Rightarrow> string \<Rightarrow> (string \<times> string) list \<Rightarrow> uuid option
    \<Rightarrow> 'a jobstore_scheme \<Rightarrow> (apperr + dbrow) \<times> 'a jobstore_scheme" where
  "databaseCreate instanceId name charset collation labels by w =
     (case parseId instanceId of
        None \<Rightarrow> (Inl (Invalid ''instance_id'' ''instance_id must be a valid UUID''), w)
      | Some iid \<Rightarrow>
     (case instGet iid w of Inl er \<Rightarrow> (Inl er, w) | Inr i \<Rightarrow>
     (case newDatabase (js_next w) iid name charset collation labels of Inl er \<Rightarrow> (Inl er, w) | Inr d \<Rightarrow>
        let provision = hasCredentials i;
            d' = (if provision then d\<lparr>dr_status := StCreating\<rparr> else d);
            w1 = w\<lparr>js_next := js_next w + 1\<rparr>
        in case dbCreate (js_now w) d' w1 of
             Inl er \<Rightarrow> (Inl er, w1)
           | Inr w2 \<Rightarrow>
               (Inr d', if provision
                 then snd (opCreate TypeCreateDatabase ''database'' (Some (dr_id d'))
                   (if in_kind i = KindExternal then None else in_serverId i)
                   (noParams\<lparr>pr_instanceId := IdOf (in_id i), pr_databaseId := IdOf (dr_id d'), pr_database := dr_name d',
                      pr_charset := dr_charset d', pr_collation := dr_collation d'\<rparr>) by w2)
                 else w2))))"

definition databaseGet :: "idText \<Rightarrow> 'a jobstore_scheme \<Rightarrow> apperr + dbrow" where
  "databaseGet i w = (case parseId i of
     None \<Rightarrow> Inl (Invalid ''id'' ''id must be a valid UUID'') | Some u \<Rightarrow> dbGet u w)"

definition databaseLock :: "idText \<Rightarrow> uuid \<Rightarrow> 'a jobstore_scheme \<Rightarrow> apperr + 'a jobstore_scheme" where
  "databaseLock i user w = (case parseId i of
     None \<Rightarrow> Inl (Invalid ''id'' ''id must be a valid UUID'') | Some u \<Rightarrow> dbLock (js_now w) u user w)"

definition databaseUnlock :: "idText \<Rightarrow> 'a jobstore_scheme \<Rightarrow> apperr + 'a jobstore_scheme" where
  "databaseUnlock i w = (case parseId i of
     None \<Rightarrow> Inl (Invalid ''id'' ''id must be a valid UUID'') | Some u \<Rightarrow> dbUnlock u w)"

definition withError :: "apperr + 'a \<Rightarrow> 'a \<Rightarrow> apperr option \<times> 'a" where
  "withError r w = (case r of Inl er \<Rightarrow> (Some er, w) | Inr w' \<Rightarrow> (None, w'))"

definition databaseDelete :: "idText \<Rightarrow> bool \<Rightarrow> uuid option \<Rightarrow> 'a backupstore_scheme
    \<Rightarrow> apperr option \<times> 'a backupstore_scheme" where
  "databaseDelete i dropPhysical by w =
     (case parseId i of
        None \<Rightarrow> (Some (Invalid ''id'' ''id must be a valid UUID''), w)
      | Some u \<Rightarrow>
     (case dbGet u w of Inl er \<Rightarrow> (Some er, w) | Inr db \<Rightarrow>
     (case instGet (dr_instanceId db) w of Inl er \<Rightarrow> (Some er, w) | Inr inst \<Rightarrow>
      if dr_system db \<or> isSystemDatabase (in_engine inst) (dr_name db)
      then (Some (Invalid ''id'' (goQuote (dr_name db)
             @ '' is a system database and cannot be deleted; it can still be browsed and backed up'')), w)
      else if dropPhysical \<and> \<not> hasCredentials inst
      then (Some (Invalid ''drop'' ''instance has no admin credentials; cannot drop database on server''), w)
      else
        let w1 = (if dropPhysical
              then snd (opCreate TypeDeleteDatabase ''database'' (Some (dr_id db))
                (if in_kind inst = KindExternal then None else in_serverId inst)
                (noParams\<lparr>pr_instanceId := IdOf (in_id inst), pr_databaseId := IdOf (dr_id db),
                   pr_database := dr_name db\<rparr>) by w)
              else w);
            w2 = extCall (ExtRevokeCredentials u by) (extCall (ExtCleanupEndpoints u by) w1)
        in withError (dbSoftDelete (js_now w) u w2) w2)))"

subsection \<open>Moves\<close>

record startInput =
  si_sourceDatabaseId :: idText
  si_targetInstanceId :: idText
  si_targetDatabase :: string
  si_destinationId :: idText
  si_dropSource :: bool
  si_createdBy :: "uuid option"

definition moveStart :: "env \<Rightarrow> startInput \<Rightarrow> 'a backupstore_scheme \<Rightarrow> apperr + job \<times> 'a backupstore_scheme" where
  "moveStart e inp w =
     (case parseId (si_sourceDatabaseId inp) of
        None \<Rightarrow> Inl (Invalid ''source_database_id'' ''source_database_id must be a valid UUID'')
      | Some srcId \<Rightarrow>
     (case parseId (si_targetInstanceId inp) of
        None \<Rightarrow> Inl (Invalid ''target_instance_id'' ''target_instance_id must be a valid UUID'')
      | Some tgtId \<Rightarrow>
      if parseId (si_destinationId inp) = None
      then Inl (Invalid ''destination_id'' ''destination_id must be a valid UUID'')
      else ebind (dbGet srcId w) (\<lambda>src.
      ebind (instGet tgtId w) (\<lambda>tgt.
      if \<not> hasCredentials tgt then Inl (Invalid ''target_instance_id'' ''the target instance has no admin credentials'')
      else ebind (instGet (dr_instanceId src) w) (\<lambda>srcInst.
      if engFamily (in_engine srcInst) \<noteq> engFamily (in_engine tgt)
      then Inl (Invalid ''target_instance_id'' (''a '' @ familyLabel (engFamily (in_engine srcInst))
        @ '' database can only be copied or moved to a '' @ familyLabel (engFamily (in_engine srcInst)) @ '' database server''))
      else
        ebind (triggerManual e (IdOf srcId) (si_destinationId inp)
          (Some \<lparr>mv_targetInstanceId = IdOf tgtId,
             mv_targetDatabase = (if si_targetDatabase inp = [] then dr_name src else si_targetDatabase inp),
             mv_dropSource = si_dropSource inp\<rparr>) (si_createdBy inp) w)
          (\<lambda>r. case r of ((b, j), w') \<Rightarrow> Inr (j, w')))))))"

definition onBackupComplete :: "job \<Rightarrow> bool \<Rightarrow> 'a backupstore_scheme \<Rightarrow> 'a backupstore_scheme" where
  "onBackupComplete j ok w =
     (let p = jb_params j in
      if pr_moveTargetInstanceId p = IdEmpty \<or> \<not> ok then w
      else case restore \<lparr>ri_backupId = pr_backupId p, ri_targetInstanceId = pr_moveTargetInstanceId p,
                  ri_targetDatabase = pr_moveTargetDatabase p, ri_moveSourceDatabaseId = pr_moveSourceDatabaseId p,
                  ri_moveDropSource = pr_moveDropSource p, ri_createdBy = jb_createdBy j\<rparr> w of
             Inl _ \<Rightarrow> w | Inr (_, w') \<Rightarrow> w')"

text \<open>Registering the target of a finished restore and moving the endpoint to the new record.\<close>

definition registerTarget :: "job \<Rightarrow> uuid \<Rightarrow> uuid \<Rightarrow> 'a backupstore_scheme \<Rightarrow> 'a backupstore_scheme" where
  "registerTarget j srcId tgtId w =
     (let (charset, collation) = (case dbGet srcId w of
            Inl _ \<Rightarrow> (''utf8mb4'', ''utf8mb4_unicode_ci'') | Inr s \<Rightarrow> (dr_charset s, dr_collation s))
      in case newDatabase (js_next w) tgtId (pr_database (jb_params j)) charset collation [(''moved'', ''true'')] of
           Inl _ \<Rightarrow> w
         | Inr d \<Rightarrow>
             let w1 = w\<lparr>js_next := js_next w + 1\<rparr>;
                 w2 = (case dbCreate (js_now w) d w1 of Inl _ \<Rightarrow> w1 | Inr w' \<Rightarrow> w')
             in case instGet tgtId w2 of
                  Inl _ \<Rightarrow> w2
                | Inr t \<Rightarrow> extCall (ExtTransferEndpoint srcId (dr_id d) (in_id t) (jb_createdBy j)) w2)"

definition onRestoreComplete :: "job \<Rightarrow> bool \<Rightarrow> 'a backupstore_scheme \<Rightarrow> 'a backupstore_scheme" where
  "onRestoreComplete j ok w =
     (let p = jb_params j in
      if pr_moveSourceDatabaseId p = IdEmpty \<or> \<not> ok then w
      else case parseId (pr_moveSourceDatabaseId p) of None \<Rightarrow> w | Some srcId \<Rightarrow>
      (case parseId (pr_instanceId p) of None \<Rightarrow> w | Some tgtId \<Rightarrow>
        let w1 = registerTarget j srcId tgtId w
        in if pr_moveDropSource p then snd (databaseDelete (IdOf srcId) True (jb_createdBy j) w1) else w1))"

end
