(* ===== verification/Operations.thy ===== *)
theory Operations
  imports BackupCopies Moves
begin

text \<open>
  The operations engine of \<open>app/operation/service.go\<close>: what an executor is handed when it claims a job
  (\<open>buildPayload\<close>), what finishing a job changes (\<open>Complete\<close> and the hooks of moves and backup copies it
  calls), and the reaping of stuck jobs; then every operation of the previous theories as one step
  relation over the whole store.  The optional hooks are set, as \<open>cmd/api/main.go\<close> sets them.
\<close>

subsection \<open>Claiming\<close>

record provisionSpec =
  ps_containerName :: string
  ps_image :: string
  ps_version :: string
  ps_port :: int
  ps_rootPassword :: string
  ps_volume :: string
  ps_removeVolume :: bool

record payload =
  pl_engine :: "engineName option"
  pl_user :: string
  pl_password :: string
  pl_database :: string
  pl_charset :: string
  pl_collation :: string
  pl_putURL :: string
  pl_getURL :: string
  pl_backupId :: idText
  pl_storageUrl :: string
  pl_checksum :: string
  pl_provision :: "provisionSpec option"

definition emptyPayload :: payload where
  "emptyPayload = \<lparr>pl_engine = None, pl_user = [], pl_password = [], pl_database = [], pl_charset = [],
     pl_collation = [], pl_putURL = [], pl_getURL = [], pl_backupId = IdEmpty, pl_storageUrl = [],
     pl_checksum = [], pl_provision = None\<rparr>"

text \<open>What claiming asks of other components: the host policy (no check of a host is a pass) and the
  tunnel of a connection, the decrypted
  secrets, the console role of a database, and presigned links.\<close>

record claimEnv = env +
  ce_hostCheck :: "inst \<Rightarrow> apperr option"
  ce_tunnel :: "inst \<Rightarrow> apperr option"
  ce_password :: "string \<Rightarrow> string"
  ce_roleCreds :: "uuid \<Rightarrow> (string \<times> string) option"
  ce_presignPut :: "dest \<Rightarrow> string \<Rightarrow> string option"
  ce_presignGet :: "dest \<Rightarrow> string \<Rightarrow> string option"

definition secretOf :: "claimEnv \<Rightarrow> inst \<Rightarrow> apperr + string" where
  "secretOf e i = (case in_rootSecretRef i of
     None \<Rightarrow> Inr []
   | Some ref \<Rightarrow> if ev_secret (env.truncate e) ref then Inr (ce_password e ref)
                 else Inl (Internal ''load instance credentials''))"

definition connParams :: "claimEnv \<Rightarrow> inst \<Rightarrow> apperr + string \<times> string" where
  "connParams e i =
     (case (if in_kind i = KindExternal then ce_hostCheck e i else None) of
        Some er \<Rightarrow> Inl er
      | None \<Rightarrow> ebind (secretOf e i) (\<lambda>pw.
          case (if in_kind i = KindExternal then ce_tunnel e i else None) of
            Some er \<Rightarrow> Inl er
          | None \<Rightarrow> Inr (case in_username i of None \<Rightarrow> [] | Some u \<Rightarrow> u, pw)))"

definition idTextStr :: "claimEnv \<Rightarrow> idText \<Rightarrow> string" where
  "idTextStr e t = (case t of IdOf u \<Rightarrow> ev_idText (env.truncate e) u | _ \<Rightarrow> [])"

definition provisionPayload :: "claimEnv \<Rightarrow> jobType \<Rightarrow> params \<Rightarrow> 'a backupstore_scheme \<Rightarrow> apperr + payload" where
  "provisionPayload e typ p w =
     (if pr_instanceId p = IdEmpty then Inl (Internal ''operation has no instance_id'')
      else
        let name = ''dbm-'' @ idTextStr e (pr_instanceId p);
            spec = \<lparr>ps_containerName = name, ps_image = [], ps_version = [], ps_port = 0, ps_rootPassword = [],
                    ps_volume = name, ps_removeVolume = pr_removeVolume p\<rparr>
        in if typ \<noteq> TypeProvisionInstance then Inr (emptyPayload\<lparr>pl_provision := Some spec\<rparr>)
           else case parseId (pr_instanceId p) of
             None \<Rightarrow> Inl (Internal ''operation has no valid instance_id'')
           | Some iid \<Rightarrow> ebind (instGet iid w) (\<lambda>i. ebind (secretOf e i) (\<lambda>pw.
               Inr (emptyPayload\<lparr>pl_engine := Some (in_engine i),
                 pl_provision := Some (spec\<lparr>ps_image := pr_image p, ps_version := pr_version p, ps_port := in_port i,
                   ps_rootPassword := pw\<rparr>)\<rparr>))))"

definition roleFor :: "claimEnv \<Rightarrow> params \<Rightarrow> string \<times> string \<Rightarrow> apperr + string \<times> string" where
  "roleFor e p cred =
     (if pr_accessRole p = [] then Inr cred
      else case parseId (pr_databaseId p) of
        None \<Rightarrow> Inl (Internal ''operation needs a database access role but none can be resolved'')
      | Some d \<Rightarrow> (case ce_roleCreds e d of
          None \<Rightarrow> Inl (Internal ''resolve database access role'') | Some c \<Rightarrow> Inr c))"

definition expectedChecksum :: "params \<Rightarrow> 'a backupstore_scheme \<Rightarrow> string" where
  "expectedChecksum p w = (case parseId (pr_backupId p) of None \<Rightarrow> []
     | Some bid \<Rightarrow> (case backupGet bid w of Inl _ \<Rightarrow> []
        | Inr b \<Rightarrow> (case bk_checksum b of None \<Rightarrow> [] | Some c \<Rightarrow> c)))"

definition storagePart :: "claimEnv \<Rightarrow> jobType \<Rightarrow> params \<Rightarrow> payload \<Rightarrow> 'a backupstore_scheme \<Rightarrow> apperr + payload" where
  "storagePart e typ p pl w =
     (if typ = TypeBackup then
        ebind (storageFor (env.truncate e) (pr_destinationId p) w) (\<lambda>d.
          case ce_presignPut e d (pr_key p) of
            None \<Rightarrow> Inl (Internal ''presign upload'')
          | Some url \<Rightarrow> Inr (pl\<lparr>pl_putURL := url, pl_storageUrl := storageUrl (ds_bucket d) (pr_key p)\<rparr>))
      else if typ = TypeRestore then
        ebind (storageFor (env.truncate e) (pr_destinationId p) w) (\<lambda>d.
          case ce_presignGet e d (pr_key p) of
            None \<Rightarrow> Inl (Internal ''presign download'')
          | Some url \<Rightarrow> Inr (pl\<lparr>pl_getURL := url, pl_checksum := expectedChecksum p w\<rparr>))
      else Inr pl)"

definition buildPayload :: "claimEnv \<Rightarrow> job \<Rightarrow> 'a backupstore_scheme \<Rightarrow> apperr + payload" where
  "buildPayload e j w =
     (let p = jb_params j in
      if isPayloadlessType (jb_type j) then Inr emptyPayload
      else if isProvisionType (jb_type j) then provisionPayload e (jb_type j) p w
      else case parseId (pr_instanceId p) of
        None \<Rightarrow> Inl (Internal ''operation has no valid instance_id'')
      | Some iid \<Rightarrow> ebind (instGet iid w) (\<lambda>i. ebind (connParams e i) (\<lambda>cred. ebind (roleFor e p cred) (\<lambda>c.
          storagePart e (jb_type j) p (emptyPayload\<lparr>pl_engine := Some (in_engine i), pl_user := fst c,
            pl_password := snd c, pl_database := pr_database p, pl_charset := pr_charset p,
            pl_collation := pr_collation p, pl_backupId := pr_backupId p\<rparr>) w))))"

subsection \<open>Finishing a job\<close>

definition orText :: "string option \<Rightarrow> string \<Rightarrow> string" where
  "orText err dflt = (case err of None \<Rightarrow> dflt | Some m \<Rightarrow> m)"

definition completeBackup :: "uuid \<Rightarrow> bool \<Rightarrow> jobResult option \<Rightarrow> string option
    \<Rightarrow> 'a backupstore_scheme \<Rightarrow> 'a backupstore_scheme" where
  "completeBackup i ok result err =
     backupComplete i
       (if \<not> ok then \<lparr>ci_status = BackupFailed, ci_storageUrl = None, ci_sizeBytes = None, ci_checksum = None, ci_error = err\<rparr>
        else case result of
          None \<Rightarrow> \<lparr>ci_status = BackupCompleted, ci_storageUrl = None, ci_sizeBytes = None, ci_checksum = None, ci_error = err\<rparr>
        | Some r \<Rightarrow> \<lparr>ci_status = BackupCompleted,
            ci_storageUrl = (if re_storageUrl r = [] then None else Some (re_storageUrl r)),
            ci_sizeBytes = (if re_sizeBytes r > 0 then Some (re_sizeBytes r) else None),
            ci_checksum = (if re_checksum r = [] then None else Some (re_checksum r)), ci_error = err\<rparr>)"

definition ignoreError :: "'a \<Rightarrow> apperr + 'a \<Rightarrow> 'a" where
  "ignoreError w r = (case r of Inl _ \<Rightarrow> w | Inr w' \<Rightarrow> w')"

definition importOne :: "uuid \<Rightarrow> dbInfo \<Rightarrow> 'a jobstore_scheme \<Rightarrow> 'a jobstore_scheme" where
  "importOne iid d w =
     (case newDatabase (js_next w) iid (di_name d) (di_charset d) (di_collation d) [(''imported'', ''true'')] of
        Inl _ \<Rightarrow> w
      | Inr db \<Rightarrow>
          let sys = di_system d \<or> (case instGet iid w of Inl _ \<Rightarrow> False | Inr i \<Rightarrow> isSystemDatabase (in_engine i) (di_name d));
              w1 = w\<lparr>js_next := js_next w + 1\<rparr>
          in ignoreError w1 (dbCreate (js_now w) (db\<lparr>dr_system := sys\<rparr>) w1))"

definition importDiscovered :: "params \<Rightarrow> jobResult option \<Rightarrow> 'a jobstore_scheme \<Rightarrow> 'a jobstore_scheme" where
  "importDiscovered p result w =
     (case parseId (pr_instanceId p) of None \<Rightarrow> w
      | Some iid \<Rightarrow> (case result of None \<Rightarrow> w | Some r \<Rightarrow> fold (importOne iid) (re_databases r) w))"

definition completeVerification :: "job \<Rightarrow> bool \<Rightarrow> string option \<Rightarrow> 'a backupstore_scheme \<Rightarrow> 'a backupstore_scheme" where
  "completeVerification j ok err w =
     (let p = jb_params j in
      case parseId (pr_verifyBackupId p) of
        None \<Rightarrow> w
      | Some bid \<Rightarrow>
          let w1 = setVerify bid (if ok then ''passed'' else ''failed'') err w;
              w2 = (if ok then w1 else extCall (ExtEmit ''backup.verify_failed'' ''Backup verification failed''
                      (orText err ''A backup failed its test restore.'') ''critical'' ''backup'' bid) w1)
          in snd (opCreate TypeDeleteDatabase ''backup'' (Some bid) (jb_serverId j)
               (noParams\<lparr>pr_instanceId := pr_instanceId p, pr_database := pr_database p\<rparr>) (jb_createdBy j) w2))"

text \<open>The name of a job type, as \<open>string(j.Type)\<close> of a provisioning job.\<close>

fun provisionTypeName :: "jobType \<Rightarrow> string" where
  "provisionTypeName TypeProvisionInstance = ''provision_instance''"
| "provisionTypeName TypeStartInstance = ''start_instance''"
| "provisionTypeName TypeStopInstance = ''stop_instance''"
| "provisionTypeName TypeRestartInstance = ''restart_instance''"
| "provisionTypeName TypeRemoveInstance = ''remove_instance''"
| "provisionTypeName _ = []"

definition completeProvision :: "job \<Rightarrow> bool \<Rightarrow> jobResult option \<Rightarrow> string option
    \<Rightarrow> 'a backupstore_scheme \<Rightarrow> 'a backupstore_scheme" where
  "completeProvision j ok result err w =
     (case jb_resourceId j of
        None \<Rightarrow> w
      | Some i \<Rightarrow>
          if \<not> ok then
            extCall (ExtEmit (provisionTypeName (jb_type j)) ''Provisioning failed''
                (orText err ''A provisioning operation failed.'') ''critical'' ''instance'' i)
              (if jb_type j \<noteq> TypeRemoveInstance then ignoreError w (instSetStatus i InstError w) else w)
          else if jb_type j = TypeProvisionInstance then
            let w1 = (case result of None \<Rightarrow> w
                      | Some r \<Rightarrow> if re_containerId r = [] then w else instSetContainerID i (re_containerId r) w)
            in ignoreError w1 (instSetStatus i InstRunning w1)
          else if jb_type j = TypeStartInstance \<or> jb_type j = TypeRestartInstance
          then ignoreError w (instSetStatus i InstRunning w)
          else if jb_type j = TypeStopInstance then ignoreError w (instSetStatus i InstStopped w)
          else w)"

definition completeRestore :: "env \<Rightarrow> job \<Rightarrow> bool \<Rightarrow> string option \<Rightarrow> 'a copystore_scheme \<Rightarrow> 'a copystore_scheme" where
  "completeRestore e j ok err w =
     (let p = jb_params j;
          w1 = (if pr_deleteKeyAfter p \<and> pr_key p \<noteq> [] \<and> pr_destinationId p \<noteq> IdEmpty
                then (case storageFor e (pr_destinationId p) w of
                        Inl _ \<Rightarrow> w | Inr d \<Rightarrow> snd (deleteObject e d (pr_key p) w))
                else w)
      in if pr_verifyBackupId p \<noteq> IdEmpty then completeVerification j ok err w1
         else if pr_backupCopyId p \<noteq> IdEmpty then
           (case parseId (pr_backupCopyId p) of None \<Rightarrow> w1 | Some cid \<Rightarrow> onCopyRestored cid ok err w1)
         else
           let w2 = onRestoreComplete j ok w1
           in case (ok, jb_resourceId j) of
                (False, Some r) \<Rightarrow> extCall (ExtEmit ''restore.failed'' ''Restore failed''
                    (orText err ''A restore operation failed.'') ''critical'' ''backup'' r) w2
              | _ \<Rightarrow> w2)"

definition completeDelete :: "job \<Rightarrow> bool \<Rightarrow> 'a copystore_scheme \<Rightarrow> 'a copystore_scheme" where
  "completeDelete j ok w =
     (let p = jb_params j in
      if pr_backupCopyId p \<noteq> IdEmpty then
        (case parseId (pr_backupCopyId p) of None \<Rightarrow> w | Some cid \<Rightarrow> onCopyDropped cid ok w)
      else case (ok, parseId (pr_databaseId p), parseId (pr_instanceId p)) of
        (True, Some d, Some i) \<Rightarrow> extCall (ExtDatabaseDropped d i) w
      | _ \<Rightarrow> w)"

definition sideEffects :: "env \<Rightarrow> job \<Rightarrow> bool \<Rightarrow> jobResult option \<Rightarrow> string option
    \<Rightarrow> 'a copystore_scheme \<Rightarrow> 'a copystore_scheme" where
  "sideEffects e j ok result err w =
     (case jb_type j of
        TypeCreateDatabase \<Rightarrow>
          (case parseId (pr_databaseId (jb_params j)) of None \<Rightarrow> w
           | Some d \<Rightarrow> ignoreError w (dbSetStatus d (if ok then StActive else StError) w))
      | TypeBackup \<Rightarrow>
          (case parseId (pr_backupId (jb_params j)) of None \<Rightarrow> w
           | Some bid \<Rightarrow>
               let w1 = completeBackup bid ok result err w;
                   w2 = (if ok then w1 else extCall (ExtEmit ''backup.failed'' ''Backup failed''
                          (orText err ''A backup operation failed.'') ''critical'' ''backup'' bid) w1)
               in onBackupComplete j ok w2)
      | TypeRestore \<Rightarrow> completeRestore e j ok err w
      | TypeImportDatabases \<Rightarrow> if ok then importDiscovered (jb_params j) result w else w
      | TypeDeleteDatabase \<Rightarrow> completeDelete j ok w
      | TypeTestConnection \<Rightarrow> w
      | TypeReconcileGateway \<Rightarrow> w
      | _ \<Rightarrow> completeProvision j ok result err w)"

definition complete :: "env \<Rightarrow> uuid \<Rightarrow> jobStatus \<Rightarrow> jobResult option \<Rightarrow> string option
    \<Rightarrow> 'a copystore_scheme \<Rightarrow> apperr option \<times> 'a copystore_scheme" where
  "complete e i status result err w =
     (case jobGet i w of
        Inl er \<Rightarrow> (Some er, w)
      | Inr j \<Rightarrow>
          (case jobComplete i status result err w of
             Inl er \<Rightarrow> (Some er, w)
           | Inr w1 \<Rightarrow> (None, sideEffects e j (status = JobSucceeded) result err w1)))"

definition claim :: "claimEnv \<Rightarrow> uuid option \<Rightarrow> 'a copystore_scheme
    \<Rightarrow> (apperr + (job \<times> payload) option) \<times> 'a copystore_scheme" where
  "claim e server w =
     (case claimNext server w of
        (None, w1) \<Rightarrow> (Inr None, w1)
      | (Some j, w1) \<Rightarrow>
          if isPayloadlessType (jb_type j) then (Inr (Some (j, emptyPayload)), w1)
          else case buildPayload e j w1 of
            Inl er \<Rightarrow> (Inl er, snd (complete (env.truncate e) (jb_id j) JobFailed None (Some (errorText er)) w1))
          | Inr pl \<Rightarrow> (Inr (Some (j, pl)),
              if jb_type j = TypeBackup
              then (case parseId (pr_backupId (jb_params j)) of None \<Rightarrow> w1 | Some bid \<Rightarrow> markRunning bid w1)
              else w1))"

definition failStuckOne :: "env \<Rightarrow> uuid \<Rightarrow> nat \<times> 'a copystore_scheme \<Rightarrow> nat \<times> 'a copystore_scheme" where
  "failStuckOne e i st = (case st of (n, w) \<Rightarrow>
     case complete e i JobFailed None (Some ''operation interrupted: the control plane stopped while it was running'') w of
       (None, w') \<Rightarrow> (n + 1, w') | (Some _, w') \<Rightarrow> (n, w'))"

definition failStuck :: "env \<Rightarrow> int \<Rightarrow> 'a copystore_scheme \<Rightarrow> nat \<times> 'a copystore_scheme" where
  "failStuck e before w = fold (failStuckOne e) (listStuck before w) (0, w)"

end
