(* ===== verification/Reachability.thy ===== *)
theory Reachability
  imports Operations
begin

text \<open>
  What every operation of the engine keeps: the invariant \<open>storeOk\<close> of the store, and the finished jobs.
  The rules are stated for a start \<open>v\<close> and a current store \<open>w\<close> (\<open>okay v w\<close>), one per primitive
  change and one per operation, so that an operation is covered by following its definition; the
  step relation \<open>opStep\<close> collects the operations and the locale \<open>settling\<close> lifts the rules to every
  reachable store.
\<close>

subsection \<open>The invariant\<close>

definition sameDb :: "dbrow \<Rightarrow> dbrow \<Rightarrow> bool" where
  "sameDb d d' \<longleftrightarrow> dr_id d' = dr_id d \<and> dbKey d' = dbKey d \<and> dr_system d' = dr_system d"

text \<open>A drop names a temporary restore, or a row of the inventory that was deleted and is not a system
  database.\<close>

definition dropTarget :: "dbrow list \<Rightarrow> params \<Rightarrow> bool" where
  "dropTarget ds p = (case pr_databaseId p of
     IdEmpty \<Rightarrow> isScratchName (pr_database p)
   | IdBad \<Rightarrow> False
   | IdOf u \<Rightarrow> (\<exists>d \<in> set ds. dr_id d = u \<and> pr_instanceId p = IdOf (dr_instanceId d) \<and> dr_name d = pr_database p
       \<and> \<not> dr_system d \<and> \<not> dbLive d))"

definition jobOk :: "dbrow list \<Rightarrow> job \<Rightarrow> bool" where
  "jobOk ds j \<longleftrightarrow> (jb_type j = TypeDeleteDatabase \<longrightarrow> dropTarget ds (jb_params j))
     \<and> (pr_verifyBackupId (jb_params j) \<noteq> IdEmpty \<longrightarrow> isScratchName (pr_database (jb_params j)))"

definition wfJobs :: "dbrow list \<Rightarrow> uuid \<Rightarrow> job list \<Rightarrow> bool" where
  "wfJobs ds nxt js \<longleftrightarrow> distinct (map jb_id js) \<and> (\<forall>j \<in> set js. jb_id j < nxt \<and> jobOk ds j)"

definition wfDbs :: "uuid \<Rightarrow> dbrow list \<Rightarrow> bool" where
  "wfDbs nxt ds \<longleftrightarrow> dbsOk ds \<and> distinct (map dr_id ds) \<and> (\<forall>d \<in> set ds. dr_id d < nxt)"

definition wfCopies :: "uuid \<Rightarrow> bcopy list \<Rightarrow> bool" where
  "wfCopies nxt cs \<longleftrightarrow> distinct (map cp_databaseId (filter copyLive cs)) \<and> distinct (map cp_id cs)
     \<and> (\<forall>c \<in> set cs. cp_id c < nxt \<and> isScratchName (cp_scratch c))"

definition storeOk :: "'a copystore_scheme \<Rightarrow> bool" where
  "storeOk w \<longleftrightarrow> wfJobs (iv_databases w) (js_next w) (js_jobs w) \<and> wfDbs (js_next w) (iv_databases w)
     \<and> wfCopies (js_next w) (cs_copies w)"

definition keeps :: "'a copystore_scheme \<Rightarrow> 'a copystore_scheme \<Rightarrow> bool" where
  "keeps v w \<longleftrightarrow> (\<forall>j \<in> set (js_jobs v). \<not> openJob j \<longrightarrow> j \<in> set (js_jobs w))
     \<and> (\<forall>d \<in> set (iv_databases v). \<not> dbLive d \<longrightarrow> d \<in> set (iv_databases w))
     \<and> (\<forall>c \<in> set (cs_copies v). cp_status c = CopyDropped
          \<longrightarrow> (\<exists>c' \<in> set (cs_copies w). cp_id c' = cp_id c \<and> cp_status c' = CopyDropped))"

definition okay :: "'a copystore_scheme \<Rightarrow> 'a copystore_scheme \<Rightarrow> bool" where
  "okay v w \<longleftrightarrow> storeOk w \<and> keeps v w"

named_theorems okay_intros \<open>the rules that follow the definition of an operation\<close>

lemma okay_refl: "storeOk w \<Longrightarrow> okay w w"
  by (auto simp: okay_def keeps_def)

subsection \<open>Primitive changes\<close>

lemma wfJobs_next: "wfJobs ds n js \<Longrightarrow> n \<le> m \<Longrightarrow> wfJobs ds m js"
  by (auto simp: wfJobs_def)

lemma wfDbs_next: "wfDbs n ds \<Longrightarrow> n \<le> m \<Longrightarrow> wfDbs m ds"
  by (auto simp: wfDbs_def)

lemma wfCopies_next: "wfCopies n cs \<Longrightarrow> n \<le> m \<Longrightarrow> wfCopies m cs"
  by (auto simp: wfCopies_def)

lemma okay_next [okay_intros]: "okay v w \<Longrightarrow> okay v (w\<lparr>js_next := js_next w + 1\<rparr>)"
  by (auto simp: okay_def keeps_def storeOk_def intro: wfJobs_next wfDbs_next wfCopies_next)

lemma okay_fields [okay_intros]:
  "okay v w \<Longrightarrow> okay v (w\<lparr>bs_backups := bs\<rparr>)"
  "okay v w \<Longrightarrow> okay v (w\<lparr>bs_ext := es\<rparr>)"
  "okay v w \<Longrightarrow> okay v (w\<lparr>js_logs := ls\<rparr>)"
  "okay v w \<Longrightarrow> okay v (w\<lparr>js_now := t\<rparr>)"
  "okay v w \<Longrightarrow> okay v (w\<lparr>iv_instances := is\<rparr>)"
  by (simp_all add: okay_def keeps_def storeOk_def)

lemma okay_backup [okay_intros]:
  "okay v w \<Longrightarrow> okay v (backupUpdate P f w)"
  "okay v w \<Longrightarrow> okay v (backupCreate b w)"
  "okay v w \<Longrightarrow> okay v (extCall e w)"
  "okay v w \<Longrightarrow> okay v (instUpdate i g w)"
  by (simp_all add: backupUpdate_def backupCreate_def extCall_def instUpdate_def okay_intros)

lemma okay_backup_ops [okay_intros]:
  "okay v w \<Longrightarrow> okay v (markRunning i w)"
  "okay v w \<Longrightarrow> okay v (backupComplete i inp w)"
  "okay v w \<Longrightarrow> okay v (setVerify i st err w)"
  "okay v w \<Longrightarrow> okay v (markDeleted i w)"
  "okay v w \<Longrightarrow> okay v (markExpired i w)"
  "okay v w \<Longrightarrow> okay v (snd (deleteObject e d key w))"
  "okay v w \<Longrightarrow> okay v (instSetContainerID i cid w)"
  by (simp_all add: markRunning_def backupComplete_def setVerify_def markDeleted_def markExpired_def
      deleteObject_def instSetContainerID_def okay_intros)

lemma okay_instSetStatus [okay_intros]: "okay v w \<Longrightarrow> okay v (ignoreError w (instSetStatus i st w))"
  by (simp add: ignoreError_def instSetStatus_def okay_intros)

text \<open>Jobs: a guarded update only touches open jobs, a new job has a fresh id.\<close>

lemma wfJobs_map:
  assumes "\<And>j. jb_id (g j) = jb_id j" "\<And>j. jobOk ds (g j) = jobOk ds j"
  shows "wfJobs ds n (map g js) = wfJobs ds n js"
  using assms by (simp add: wfJobs_def o_def)

lemma wfCopies_map:
  assumes "\<And>c. cp_id (g c) = cp_id c" "\<And>c. cp_databaseId (g c) = cp_databaseId c"
    and "\<And>c. cp_scratch (g c) = cp_scratch c" "\<And>c. copyLive (g c) \<Longrightarrow> copyLive c" "wfCopies n cs"
  shows "wfCopies n (map g cs)"
proof -
  have "subseq (map cp_databaseId (filter copyLive (map g cs))) (map cp_databaseId (filter copyLive cs))"
  proof (induction cs)
    case (Cons c cs)
    then show ?case using assms(2,4) [of c] by (cases "copyLive (g c)"; cases "copyLive c") auto
  qed simp
  then have "distinct (map cp_databaseId (filter copyLive (map g cs)))"
    using assms(5) by (metis wfCopies_def subseq_conv_nths distinct_nthsI)
  then show ?thesis using assms by (simp add: wfCopies_def o_def)
qed

lemma okay_jobUpdate:
  assumes "okay v w" "\<And>j. j \<in> set (js_jobs w) \<Longrightarrow> P j \<Longrightarrow> openJob j"
    and "\<And>j. jb_id (f j) = jb_id j \<and> jb_type (f j) = jb_type j \<and> jb_params (f j) = jb_params j"
  shows "okay v (jobUpdate P f w)"
proof -
  let ?g = "\<lambda>j. if P j then (f j)\<lparr>jb_version := jb_version j + 1\<rparr> else j"
  from assms(3) have "wfJobs ds n (map ?g js) = wfJobs ds n js" for ds n js
    by (intro wfJobs_map) (simp_all add: jobOk_def)
  moreover have "j \<in> set (map ?g (js_jobs w))" if "j \<in> set (js_jobs w)" "\<not> openJob j" for j
    using that assms(2) by (auto intro!: image_eqI [of _ _ j])
  ultimately show ?thesis
    using assms(1) by (auto simp: okay_def storeOk_def keeps_def jobUpdate_def simp del: list.set_map)
qed

lemma okay_opCreate [okay_intros]:
  assumes "okay v w"
    and "typ = TypeDeleteDatabase \<Longrightarrow> dropTarget (iv_databases w) p"
    and "pr_verifyBackupId p \<noteq> IdEmpty \<Longrightarrow> isScratchName (pr_database p)"
  shows "okay v (snd (opCreate typ rt rid server p by w))"
  using assms by (auto simp: opCreate_def Let_def jobCreate_def okay_def keeps_def storeOk_def wfJobs_def wfDbs_def
      wfCopies_def jobOk_def less_Suc_eq)

lemma jobOk_mono:
  assumes "\<And>d. d \<in> set ds \<Longrightarrow> \<not> dbLive d \<Longrightarrow> d \<in> set ds'" "jobOk ds j"
  shows "jobOk ds' j"
  using assms by (fastforce simp: jobOk_def dropTarget_def split: idText.splits)

lemma okay_databases:
  assumes "okay v w" "\<forall>d \<in> set (iv_databases w). \<exists>d' \<in> set ds. sameDb d d' \<and> (dbLive d \<or> d' = d)"
    and "wfDbs n ds" "js_next w \<le> n"
  shows "okay v (w\<lparr>iv_databases := ds, js_next := n\<rparr>)"
proof -
  from assms(1) have j: "wfJobs (iv_databases w) (js_next w) (js_jobs w)" and c: "wfCopies (js_next w) (cs_copies w)"
    and k: "keeps v w" by (simp_all add: okay_def storeOk_def)
  have dead: "d \<in> set ds" if "d \<in> set (iv_databases w)" "\<not> dbLive d" for d
    using assms(2) that by blast
  with j have "wfJobs ds (js_next w) (js_jobs w)"
    by (auto simp: wfJobs_def intro: jobOk_mono)
  with dead show ?thesis
    using c k assms(3,4) by (auto simp: okay_def storeOk_def keeps_def intro: wfJobs_next wfCopies_next)
qed

lemma okay_dbUpdate:
  assumes "okay v w" "\<And>d. sameDb d (f d)" "dbUpdate i f w = Inr w'"
  shows "okay v w'"
proof -
  let ?g = "\<lambda>d. if dr_id d = i \<and> dbLive d then (f d)\<lparr>dr_version := dr_version d + 1\<rparr> else d"
  from assms(3) have w': "w' = w\<lparr>iv_databases := map ?g (iv_databases w)\<rparr>"
    by (auto simp: dbUpdate_def split: if_splits)
  have same: "sameDb d (?g d)" for d using assms(2) [of d] by (simp add: sameDb_def dbKey_def)
  have db: "wfDbs (js_next w) (iv_databases w)" using assms(1) by (simp add: okay_def storeOk_def)
  have "dbsOk (iv_databases w')"
    by (rule dbUpdate_ok [OF assms(3)]) (use db assms(2) in \<open>auto simp: wfDbs_def sameDb_def\<close>)
  moreover have "dr_id (?g d) = dr_id d" for d using same [of d] by (simp only: sameDb_def)
  then have "map dr_id (iv_databases w') = map dr_id (iv_databases w)" by (simp add: w')
  then have "distinct (map dr_id (iv_databases w')) \<and> (\<forall>d \<in> set (iv_databases w'). dr_id d < js_next w)"
    using db by (metis (no_types, lifting) wfDbs_def image_iff list.set_map)
  ultimately have "wfDbs (js_next w) (iv_databases w')" by (simp add: wfDbs_def)
  moreover have "\<forall>d \<in> set (iv_databases w). \<exists>d' \<in> set (iv_databases w'). sameDb d d' \<and> (dbLive d \<or> d' = d)"
  proof
    fix d assume "d \<in> set (iv_databases w)"
    then have "?g d \<in> set (iv_databases w')" by (simp add: w')
    moreover have "dbLive d \<or> ?g d = d" by simp
    ultimately show "\<exists>d' \<in> set (iv_databases w'). sameDb d d' \<and> (dbLive d \<or> d' = d)" using same by blast
  qed
  ultimately have "okay v (w\<lparr>iv_databases := iv_databases w', js_next := js_next w\<rparr>)"
    using okay_databases [OF assms(1)] by blast
  then show ?thesis by (simp add: w')
qed

lemma okay_register:
  assumes "okay v w" "dbCreate now d (w\<lparr>js_next := js_next w + 1\<rparr>) = Inr w'"
    and "dr_id d = js_next w" "\<not> isScratchName (dr_name d)"
  shows "okay v w'"
proof -
  let ?ds = "iv_databases w @ [d\<lparr>dr_createdAt := now\<rparr>]"
  have w': "w' = w\<lparr>iv_databases := ?ds, js_next := js_next w + 1\<rparr>"
    using assms(2) by (auto simp: dbCreate_def split: if_splits)
  have db: "wfDbs (js_next w) (iv_databases w)" using assms(1) by (simp add: okay_def storeOk_def)
  then have "dbsOk ?ds" using dbCreate_ok [OF assms(2)] assms(4) by (simp add: w' wfDbs_def)
  with db assms(3) have "wfDbs (js_next w + 1) ?ds" by (auto simp: wfDbs_def less_Suc_eq)
  from okay_databases [OF assms(1) _ this] show ?thesis by (auto simp: w' sameDb_def)
qed

text \<open>Copies: a guarded update neither revives a copy nor renames it, a new one is the only live one.\<close>

lemma okay_copies:
  assumes "okay v w" "wfCopies (js_next w) cs"
    and "\<And>c. c \<in> set (cs_copies w) \<Longrightarrow> cp_status c = CopyDropped
       \<Longrightarrow> \<exists>c' \<in> set cs. cp_id c' = cp_id c \<and> cp_status c' = CopyDropped"
  shows "okay v (w\<lparr>cs_copies := cs\<rparr>)"
proof -
  have "\<exists>c' \<in> set cs. cp_id c' = cp_id c \<and> cp_status c' = CopyDropped"
    if "c \<in> set (cs_copies v)" "cp_status c = CopyDropped" for c
  proof -
    from assms(1) that obtain d where "d \<in> set (cs_copies w)" "cp_id d = cp_id c" "cp_status d = CopyDropped"
      by (auto simp: okay_def keeps_def)
    with assms(3) [of d] show ?thesis by auto
  qed
  then show ?thesis using assms(1,2) by (auto simp: okay_def storeOk_def keeps_def)
qed

lemma okay_copyExec:
  assumes "okay v w" and "\<And>c. copyLive (f c) \<Longrightarrow> P c \<Longrightarrow> copyLive c"
    and "\<And>c. cp_id (f c) = cp_id c \<and> cp_databaseId (f c) = cp_databaseId c \<and> cp_scratch (f c) = cp_scratch c"
    and "\<And>c. P c \<Longrightarrow> cp_status c = CopyDropped \<Longrightarrow> cp_status (f c) = CopyDropped"
  shows "okay v (snd (copyExec P f w))"
proof -
  let ?g = "\<lambda>c. if P c then (f c)\<lparr>cp_updatedAt := js_now w\<rparr> else c"
  have "wfCopies n (map ?g cs)" if "wfCopies n cs" for n cs
    by (rule wfCopies_map [OF _ _ _ _ that]) (use assms(2,3) in \<open>simp_all add: copyLive_def split: if_splits\<close>)
  moreover have "\<exists>c' \<in> set (map ?g cs). cp_id c' = cp_id c \<and> cp_status c' = CopyDropped"
    if "c \<in> set cs" "cp_status c = CopyDropped" for c cs
  proof (rule bexI [of _ "?g c"])
    show "cp_id (?g c) = cp_id c \<and> cp_status (?g c) = CopyDropped" using that assms(3,4) by simp
    show "?g c \<in> set (map ?g cs)" using that by simp
  qed
  moreover have "storeOk w" using assms(1) by (simp add: okay_def)
  ultimately have "okay v (w\<lparr>cs_copies := map ?g (cs_copies w)\<rparr>)"
    by (intro okay_copies [OF assms(1)]) (auto simp: storeOk_def simp del: list.set_map)
  then show ?thesis using assms(1) by (simp add: copyExec_def)
qed

subsection \<open>Jobs\<close>

lemma noParams_simps [simp]:
  "pr_verifyBackupId noParams = IdEmpty" "pr_databaseId noParams = IdEmpty" "pr_database noParams = []"
  "pr_backupCopyId noParams = IdEmpty" "pr_moveSourceDatabaseId noParams = IdEmpty"
  "pr_moveTargetInstanceId noParams = IdEmpty"
  by (simp_all add: noParams_def)

lemma okay_opCreate_eq:
  assumes "opCreate typ rt rid server p by w = (j, w')" "okay v w"
    and "typ = TypeDeleteDatabase \<Longrightarrow> dropTarget (iv_databases w) p"
    and "pr_verifyBackupId p \<noteq> IdEmpty \<Longrightarrow> isScratchName (pr_database p)"
  shows "okay v w'"
  using okay_opCreate [OF assms(2-4)] assms(1) by (metis snd_conv)

lemma claimNext_head:
  assumes "sort_key jb_createdAt (filter (claimableBy server) (js_jobs w)) = j # js"
  shows "j \<in> set (js_jobs w)" "claimableBy server j"
proof -
  have "j \<in> set (sort_key jb_createdAt (filter (claimableBy server) (js_jobs w)))" using assms by simp
  then show "j \<in> set (js_jobs w)" "claimableBy server j" by simp_all
qed

lemma store_job_ids: "storeOk w \<Longrightarrow> j \<in> set (js_jobs w) \<Longrightarrow> k \<in> set (js_jobs w) \<Longrightarrow> jb_id j = jb_id k \<Longrightarrow> j = k"
  by (auto simp: storeOk_def wfJobs_def distinct_map inj_on_def)

lemma okay_claimNext: "okay v w \<Longrightarrow> okay v (snd (claimNext server w))"
proof (cases "sort_key jb_createdAt (filter (claimableBy server) (js_jobs w))")
  case (Cons j js)
  assume ok: "okay v w"
  from Cons have j: "j \<in> set (js_jobs w)" "claimableBy server j" by (rule claimNext_head)+
  have "okay v (jobUpdate (\<lambda>x. jb_id x = jb_id j)
      (\<lambda>x. x\<lparr>jb_status := JobRunning, jb_claimedAt := Some (js_now w), jb_startedAt := Some (js_now w)\<rparr>) w)"
  proof (rule okay_jobUpdate [OF ok])
    fix x assume "x \<in> set (js_jobs w)" "jb_id x = jb_id j"
    then have "x = j" using store_job_ids ok j(1) by (auto simp: okay_def)
    then show "openJob x" using j(2) by (simp add: claimableBy_def openJob_def)
  qed simp
  with Cons show ?thesis by (simp add: claimNext_def Let_def)
qed (simp add: claimNext_def)

lemma okay_jobComplete: "okay v w \<Longrightarrow> jobComplete i st res err w = Inr w' \<Longrightarrow> okay v w'"
  by (auto simp: jobComplete_def split: if_splits intro!: okay_jobUpdate)

lemma okay_opProgress [okay_intros]: "okay v w \<Longrightarrow> okay v (opProgress i n w)"
  unfolding opProgress_def jobProgress_def by (rule okay_jobUpdate) (simp_all add: openJob_def)

lemma okay_appendLogs [okay_intros]: "okay v w \<Longrightarrow> okay v (appendLogs i ls w)"
  unfolding appendLogs_def by (rule okay_intros)

subsection \<open>Databases\<close>

lemma sameDb_updates [simp]:
  "sameDb d (d\<lparr>dr_status := s\<rparr>)" "sameDb d (d\<lparr>dr_status := s, dr_deletedAt := t\<rparr>)"
  "sameDb d (d\<lparr>dr_status := s, dr_lockedAt := t, dr_lockedBy := u\<rparr>)"
  by (simp_all add: sameDb_def dbKey_def)

lemma okay_dbLock: "okay v w \<Longrightarrow> dbLock now i u w = Inr w' \<Longrightarrow> okay v w'"
  unfolding dbLock_def by (erule okay_dbUpdate [rotated 2]) simp_all

lemma okay_dbUnlock: "okay v w \<Longrightarrow> dbUnlock i w = Inr w' \<Longrightarrow> okay v w'"
  unfolding dbUnlock_def by (erule okay_dbUpdate [rotated 2]) simp_all

lemma okay_dbSoftDelete: "okay v w \<Longrightarrow> dbSoftDelete now i w = Inr w' \<Longrightarrow> okay v w'"
  unfolding dbSoftDelete_def by (erule okay_dbUpdate [rotated 2]) simp_all

lemma okay_dbSetStatus [okay_intros]: "okay v w \<Longrightarrow> okay v (ignoreError w (dbSetStatus i st w))"
  unfolding ignoreError_def dbSetStatus_def
  by (auto split: sum.splits elim: okay_dbUpdate [rotated 2])

lemma okay_newDatabase:
  assumes "newDatabase (js_next w) inst name cs co ls = Inr d" "okay v w"
    and "dbCreate now d' (w\<lparr>js_next := js_next w + 1\<rparr>) = Inr w'" "dr_id d' = dr_id d" "dr_name d' = dr_name d"
  shows "okay v w'"
  by (rule okay_register [OF assms(2,3)]) (use newDatabase_Inr [OF assms(1)] assms(4,5) in simp_all)

lemma okay_databaseCreate: "okay v w \<Longrightarrow> okay v (snd (databaseCreate i name cs co ls by w))"
  unfolding databaseCreate_def Let_def
  by (auto split: option.split sum.split if_split simp del: One_nat_def
      intro!: okay_next okay_opCreate intro: okay_newDatabase)

lemma dbGet_Inr: "dbGet i w = Inr d \<Longrightarrow> d \<in> set (iv_databases w) \<and> dr_id d = i \<and> dbLive d"
  by (auto simp: dbGet_def find_Some_iff split: option.splits)

lemma instGet_Inr: "instGet i w = Inr x \<Longrightarrow> in_id x = i \<and> x \<in> set (iv_instances w)"
  by (auto simp: instGet_def find_Some_iff split: option.splits)

text \<open>The deletion of a database commutes with recording its drop: the drop is judged after it.\<close>

lemma dbSoftDelete_live: "d \<in> set (iv_databases w) \<Longrightarrow> dbLive d \<Longrightarrow> \<exists>w2. dbSoftDelete now (dr_id d) w = Inr w2"
  by (auto simp: dbSoftDelete_def dbUpdate_def list_ex_iff)

lemma dbSoftDelete_dead:
  assumes "dbSoftDelete now (dr_id d) w = Inr w2" "d \<in> set (iv_databases w)" "dbLive d"
  shows "\<exists>d' \<in> set (iv_databases w2). sameDb d d' \<and> \<not> dbLive d'"
proof -
  let ?d = "d\<lparr>dr_status := StDeleting, dr_deletedAt := Some now, dr_version := dr_version d + 1\<rparr>"
  from assms have "?d \<in> set (iv_databases w2)"
    by (auto simp: dbSoftDelete_def dbUpdate_def split: if_splits intro!: image_eqI [of _ _ d])
  then show ?thesis by (rule rev_bexI) (simp add: sameDb_def dbKey_def dbLive_def)
qed

lemma dbSoftDelete_commute:
  "dbSoftDelete now i (extCall a w) = map_sum id (extCall a) (dbSoftDelete now i w)"
  "dbSoftDelete now i (snd (opCreate typ rt rid s p by w)) = map_sum id (\<lambda>x. snd (opCreate typ rt rid s p by x)) (dbSoftDelete now i w)"
  by (auto simp: dbSoftDelete_def dbUpdate_def extCall_def opCreate_def jobCreate_def Let_def)

lemma okay_databaseDelete: "okay v w \<Longrightarrow> okay v (snd (databaseDelete i phys by w))"
proof -
  assume ok: "okay v w"
  have gone: "okay v (snd (withError (dbSoftDelete now u (extCall a (extCall b
        (if q then snd (opCreate TypeDeleteDatabase ''database'' (Some (dr_id db)) s
          (noParams\<lparr>pr_instanceId := IdOf (in_id x), pr_databaseId := IdOf (dr_id db), pr_database := dr_name db\<rparr>) by w)
         else w)))) z))"
    if db: "dbGet u w = Inr db" and x: "instGet (dr_instanceId db) w = Inr x" and sys: "\<not> dr_system db"
    for u db x s a b now z q
  proof -
    from dbGet_Inr [OF db] have u: "u = dr_id db" "db \<in> set (iv_databases w)" "dbLive db" by auto
    from dbSoftDelete_live [OF u(2,3)] obtain w2 where w2: "dbSoftDelete now u w = Inr w2" by (auto simp: u(1))
    have ok2: "okay v w2" by (rule okay_dbSoftDelete [OF ok w2])
    have "okay v (snd (opCreate TypeDeleteDatabase ''database'' (Some (dr_id db)) s
        (noParams\<lparr>pr_instanceId := IdOf (in_id x), pr_databaseId := IdOf (dr_id db), pr_database := dr_name db\<rparr>) by w2))"
      by (rule okay_opCreate [OF ok2])
        (use dbSoftDelete_dead [OF w2 [unfolded u(1)] u(2,3)] instGet_Inr [OF x] sys
         in \<open>auto simp: dropTarget_def sameDb_def dbKey_def\<close>)
    with ok2 w2 show ?thesis by (cases q) (simp_all add: dbSoftDelete_commute withError_def okay_backup(3))
  qed
  show ?thesis
    unfolding databaseDelete_def Let_def
    by (auto simp: ok split: option.split sum.split intro: gone [where q = True, simplified] gone [where q = False, simplified])
qed

subsection \<open>Backups and moves\<close>

lemma okay_Suc: "okay v w \<Longrightarrow> okay v (w\<lparr>js_next := Suc (js_next w)\<rparr>)"
  using okay_next [of v w] by simp

lemma okay_triggerJob:
  assumes "triggerJob e d s kind sch ex mv by w = Inr (r, w')" "okay v w"
  shows "okay v w'"
  using assms(1) unfolding triggerJob_def
  by (auto simp: result_simps Let_def split_beta split: if_splits option.splits
      intro!: okay_opCreate okay_Suc [OF assms(2)])

lemma okay_trigger:
  assumes "trigger e d s kind sch ex mv by w = Inr (r, w')" "okay v w"
  shows "okay v w'"
  using assms unfolding trigger_def
  by (auto simp: result_simps split_beta intro!: okay_backup(2) intro: okay_triggerJob)

lemma okay_triggerManual:
  "triggerManual e d s mv by w = Inr (r, w') \<Longrightarrow> okay v w \<Longrightarrow> okay v w'"
  by (auto simp: triggerManual_def split: option.splits intro: okay_trigger)

lemma okay_triggerScheduled:
  "triggerScheduled e d s sch days by w = Inr w' \<Longrightarrow> okay v w \<Longrightarrow> okay v w'"
  by (auto simp: triggerScheduled_def result_simps intro: okay_trigger)

lemma okay_restore:
  assumes "restore inp w = Inr (j, w')" "okay v w"
  shows "okay v w'"
  using assms(1) unfolding restore_def
  by (auto simp: result_simps Let_def split: if_splits prod.splits option.splits
      elim!: okay_opCreate_eq intro!: assms(2))

lemma okay_scratchRestore:
  assumes "scratchRestore b field scratch mark by w = Inr (j, w')" "okay v w"
    and "\<And>p. pr_verifyBackupId (mark p) \<noteq> IdEmpty \<Longrightarrow> pr_verifyBackupId p = IdEmpty \<Longrightarrow> isScratchName scratch"
    and "\<And>p. pr_database (mark p) = pr_database p"
  shows "okay v w'"
  using assms(1) unfolding scratchRestore_def
  by (auto simp: result_simps assms(4) split: if_splits elim!: okay_opCreate_eq intro!: assms(2) assms(3))

lemma okay_verifyJob:
  assumes "verifyJob e i by w = Inr (r, w')" "okay v w" "\<forall>u. uuidText (ev_idText e u)"
  shows "okay v w'"
  using assms(1) unfolding verifyJob_def
  by (auto simp: result_simps split: if_splits option.splits prod.splits
      elim!: okay_scratchRestore intro!: assms(2) scratchName_reserved assms(3) [rule_format])

lemma okay_verify:
  assumes "verify e i by w = Inr (r, w')" "okay v w" "\<forall>u. uuidText (ev_idText e u)"
  shows "okay v w'"
  using assms by (auto simp: verify_def result_simps split: prod.splits intro!: okay_intros intro: okay_verifyJob)

lemma okay_restoreCopy:
  assumes "restoreCopy b c scratch by w = Inr (j, w')" "okay v w"
  shows "okay v w'"
  using assms(1) unfolding restoreCopy_def
  by (auto simp: result_simps split: if_splits elim!: okay_scratchRestore intro!: assms(2))

lemma okay_dropCopyJob:
  assumes "dropCopyJob i b c scratch by w = Inr (j, w')" "okay v w" "isScratchName scratch"
  shows "okay v w'"
  using assms(1) unfolding dropCopyJob_def
  by (auto simp: result_simps dropTarget_def assms(3) elim!: okay_opCreate_eq intro!: assms(2))

lemma okay_importSQL:
  assumes "okay v w"
  shows "okay v (snd (importSQL e d s by w))"
  unfolding importSQL_def Let_def
  by (auto simp: assms split: option.split sum.split if_split prod.split
      intro!: okay_Suc okay_backup(3) elim!: okay_opCreate_eq)

lemma okay_deleteBackup:
  assumes "okay v w"
  shows "okay v (snd (deleteBackup e b w))"
  unfolding deleteBackup_def deleteObject_def
  by (auto simp: assms split: sum.split if_split intro!: okay_backup_ops okay_backup(3))

lemma okay_backupDelete: "okay v w \<Longrightarrow> okay v (snd (backupDelete e i w))"
  by (auto simp: backupDelete_def split: option.split sum.split intro: okay_deleteBackup)

lemma okay_pruneOne: "okay v (snd st) \<Longrightarrow> okay v (snd (pruneOne e x st))"
  by (auto simp: pruneOne_def deleteObject_def split: prod.split sum.split intro!: okay_backup_ops okay_backup(3))

lemma okay_fold:
  "(\<And>x st. okay v (g st) \<Longrightarrow> okay v (g (f x st))) \<Longrightarrow> okay v (g st) \<Longrightarrow> okay v (g (fold f xs st))"
  by (induction xs arbitrary: st) simp_all

lemma okay_pruneExpired: "okay v w \<Longrightarrow> okay v (snd (pruneExpired e n w))"
  unfolding pruneExpired_def by (rule okay_fold [where g = snd]) (simp_all add: okay_pruneOne)

lemma okay_moveStart: "moveStart e inp w = Inr (j, w') \<Longrightarrow> okay v w \<Longrightarrow> okay v w'"
  unfolding moveStart_def
  by (auto simp: result_simps Let_def split: option.splits if_splits prod.splits intro: okay_triggerManual)

lemma okay_onBackupComplete: "okay v w \<Longrightarrow> okay v (onBackupComplete j ok w)"
  by (auto simp: onBackupComplete_def Let_def split: sum.split intro: okay_restore)

lemma okay_registerTarget: "okay v w \<Longrightarrow> okay v (registerTarget j srcId tgtId w)"
  unfolding registerTarget_def Let_def
  by (auto split: sum.split prod.split intro!: okay_backup(3) okay_Suc intro: okay_newDatabase)

lemma okay_onRestoreComplete: "okay v w \<Longrightarrow> okay v (onRestoreComplete j ok w)"
  by (auto simp: onRestoreComplete_def Let_def split: option.split intro!: okay_databaseDelete okay_registerTarget)

subsection \<open>Backup copies\<close>

lemma okay_copy_ops [okay_intros]:
  "okay v w \<Longrightarrow> okay v (snd (copySetJob i j w))"
  "okay v w \<Longrightarrow> okay v (snd (markReady i a b w))"
  "okay v w \<Longrightarrow> okay v (snd (markFailed i m w))"
  "okay v w \<Longrightarrow> okay v (snd (markDropping i d w))"
  "okay v w \<Longrightarrow> okay v (snd (markDropped i w))"
  "okay v w \<Longrightarrow> okay v (snd (setExpiry i a w))"
  unfolding copySetJob_def markReady_def markFailed_def markDropping_def markDropped_def setExpiry_def
  by (rule okay_copyExec; simp add: copyLive_def)+

lemma okay_copyCreate:
  assumes "copyCreate c w = Inr (c', w')" "okay v w" "isScratchName (cp_scratch c)"
  shows "okay v w'" and "c' \<in> set (cs_copies w')"
proof -
  let ?c = "c\<lparr>cp_id := js_next w, cp_ttl := (cp_ttl c div secondNs) * secondNs,
                      cp_createdAt := js_now w, cp_updatedAt := js_now w\<rparr>"
  from assms(1) have w': "w' = w\<lparr>cs_copies := cs_copies w @ [?c], js_next := js_next w + 1\<rparr>" "c' = ?c"
    and ex: "\<not> list_ex (\<lambda>x. copyLive x \<and> cp_databaseId x = cp_databaseId c) (cs_copies w)"
    by (auto simp: copyCreate_def Let_def split: if_splits)
  show "okay v w'" using assms(2,3) ex unfolding w' okay_def storeOk_def keeps_def
    by (auto simp: wfCopies_def list_ex_iff less_Suc_eq intro: wfJobs_next wfDbs_next)
  show "c' \<in> set (cs_copies w')" by (simp add: w')
qed

lemma okay_copySetJob_eq: "copySetJob i j w = (r, w') \<Longrightarrow> okay v w \<Longrightarrow> okay v w'"
  using okay_copy_ops(1) [of v w i j] by simp

lemma okay_copyOpen:
  assumes "okay v w" "\<forall>u. uuidText (ev_idText e u)"
  shows "okay v (snd (copyOpen cfg e d b by w))"
proof -
  have new: "okay v w2" if "copyCreate c (w\<lparr>js_next := Suc (js_next w)\<rparr>) = Inr (c', w2)"
      "cp_scratch c = scratchName ''fds'' (ev_idText e u)" for c c' w2 u
    using okay_copyCreate(1) [OF that(1) okay_Suc [OF assms(1)]] that(2) scratchName_reserved assms(2) by simp
  show ?thesis
    unfolding copyOpen_def Let_def
    by (auto split: sum.split prod.split option.split if_split intro!: okay_Suc assms(1) okay_copy_ops(5) okay_copy_ops(3)
        elim!: okay_copySetJob_eq okay_restoreCopy elim: new)
qed

lemma copyOf_Inr: "copyOf d i w = Inr c \<Longrightarrow> c \<in> set (cs_copies w) \<and> cp_id c = i \<and> cp_databaseId c = d"
  by (auto simp: copyOf_def copyGet_def result_simps find_Some_iff split: option.splits if_splits)

lemma copyGet_Inr: "copyGet i w = Inr c \<Longrightarrow> c \<in> set (cs_copies w) \<and> cp_id c = i"
  by (auto simp: copyGet_def find_Some_iff split: option.splits)

lemma okay_scratch: "okay v w \<Longrightarrow> c \<in> set (cs_copies w) \<Longrightarrow> isScratchName (cp_scratch c)"
  by (auto simp: okay_def storeOk_def wfCopies_def)

lemma okay_copyExtend: "okay v w \<Longrightarrow> okay v (snd (copyExtend cfg d i w))"
  unfolding copyExtend_def Let_def
  by (auto split: sum.split prod.split option.split if_split dest: okay_copy_ops(6))
    (metis okay_copy_ops(6) snd_conv)+

lemma okay_copyDrop:
  assumes "okay v w" "isScratchName (cp_scratch c)"
  shows "okay v (snd (copyDrop c by w))"
  unfolding copyDrop_def
  by (auto simp: assms(1) split: sum.split prod.split intro!: okay_copy_ops(4) intro: okay_dropCopyJob assms)

lemma okay_copyDiscard: "okay v w \<Longrightarrow> okay v (snd (copyDiscard d i by w))"
  unfolding copyDiscard_def
  by (auto split: sum.split copyStatus.split intro!: okay_copy_ops(4) okay_copyDrop dest: copyOf_Inr okay_scratch)

lemma okay_onCopyRestored:
  assumes "okay v w"
  shows "okay v (onCopyRestored i ok err w)"
  unfolding onCopyRestored_def Let_def
  by (auto split: sum.split if_split intro!: okay_copy_ops okay_copyDrop okay_backup(3) assms
      dest!: copyGet_Inr intro: okay_scratch [OF assms])

lemma okay_onCopyDropped: "okay v w \<Longrightarrow> okay v (onCopyDropped i ok w)"
  by (simp add: onCopyDropped_def okay_copy_ops)

lemma okay_expireDue:
  assumes "okay v w"
  shows "okay v (snd (expireDue w))"
proof -
  have "set (listDue a b w) \<subseteq> set (cs_copies w)" for a b
    by (auto simp: listDue_def dest: in_set_takeD)
  then have "\<forall>c \<in> set (listDue a b w). isScratchName (cp_scratch c)" for a b
    using okay_scratch [OF assms] by blast
  moreover have "\<forall>c \<in> set cs. isScratchName (cp_scratch c) \<Longrightarrow> okay v (snd st) \<Longrightarrow> okay v (snd (fold expireOne cs st))" for cs st
  proof (induction cs arbitrary: st)
    case (Cons c cs)
    have "okay v (snd (expireOne c st))"
      using okay_copyDrop [OF Cons.prems(2), of c None] Cons.prems(1)
      by (auto simp: expireOne_def split: prod.split option.split)
    then show ?case using Cons by simp
  qed simp
  ultimately show ?thesis using assms by (simp add: expireDue_def)
qed

subsection \<open>Claiming and finishing\<close>

lemma okay_importOne: "okay v w \<Longrightarrow> okay v (importOne i d w)"
  unfolding importOne_def Let_def ignoreError_def
  by (auto split: sum.split intro!: okay_Suc intro: okay_newDatabase)

lemma okay_importDiscovered: "okay v w \<Longrightarrow> okay v (importDiscovered p r w)"
  by (auto simp: importDiscovered_def split: option.split intro!: okay_fold [where g = id, simplified] okay_importOne)

lemma okay_completeVerification:
  assumes "okay v w" "pr_verifyBackupId (jb_params j) \<noteq> IdEmpty \<Longrightarrow> isScratchName (pr_database (jb_params j))"
  shows "okay v (completeVerification j ok err w)"
  unfolding completeVerification_def Let_def
  by (auto split: option.split if_split intro!: okay_opCreate okay_backup(3) okay_backup_ops assms
      simp: dropTarget_def)

lemma okay_completeProvision: "okay v w \<Longrightarrow> okay v (completeProvision j ok r err w)"
  unfolding completeProvision_def Let_def
  by (auto split: option.split if_split intro!: okay_backup(3) okay_instSetStatus okay_backup_ops)

lemma okay_completeRestore:
  assumes "okay v w" "pr_verifyBackupId (jb_params j) \<noteq> IdEmpty \<Longrightarrow> isScratchName (pr_database (jb_params j))"
  shows "okay v (completeRestore e j ok err w)"
  unfolding completeRestore_def Let_def
  by (auto split: option.split if_split sum.split bool.split intro!: okay_backup(3) okay_onRestoreComplete
      okay_onCopyRestored okay_completeVerification okay_backup_ops assms)

lemma okay_completeDelete: "okay v w \<Longrightarrow> okay v (completeDelete j ok w)"
  unfolding completeDelete_def Let_def
  by (auto split: option.split if_split bool.split intro!: okay_backup(3) okay_onCopyDropped)

lemma okay_sideEffects:
  assumes "okay v w" "pr_verifyBackupId (jb_params j) \<noteq> IdEmpty \<Longrightarrow> isScratchName (pr_database (jb_params j))"
  shows "okay v (sideEffects e j ok r err w)"
  unfolding sideEffects_def Let_def completeBackup_def
  by (auto split: jobType.split option.split if_split intro!: okay_completeProvision okay_completeRestore
      okay_completeDelete okay_importDiscovered okay_onBackupComplete okay_backup(3) okay_backup_ops okay_dbSetStatus assms)

lemma jobGet_Inr: "jobGet i w = Inr j \<Longrightarrow> j \<in> set (js_jobs w) \<and> jb_id j = i"
  by (auto simp: jobGet_def find_Some_iff split: option.splits)

lemma okay_complete:
  assumes "okay v w"
  shows "okay v (snd (complete e i st r err w))"
proof -
  have "okay v (sideEffects e j ok r err w1)" if "jobGet i w = Inr j" "jobComplete i st r err w = Inr w1" for j ok w1
  proof (rule okay_sideEffects)
    show "okay v w1" using okay_jobComplete [OF assms that(2)] .
    have "j \<in> set (js_jobs w)" using jobGet_Inr [OF that(1)] by simp
    then show "pr_verifyBackupId (jb_params j) \<noteq> IdEmpty \<Longrightarrow> isScratchName (pr_database (jb_params j))"
      using assms by (simp add: okay_def storeOk_def wfJobs_def jobOk_def)
  qed
  then show ?thesis using assms by (auto simp: complete_def split: sum.split)
qed

lemma okay_claim:
  assumes "okay v w"
  shows "okay v (snd (claim e server w))"
proof -
  have w1: "okay v w1" if "claimNext server w = (r, w1)" for r w1
    using okay_claimNext [OF assms, of server] that by simp
  show ?thesis
    unfolding claim_def
    by (auto split: prod.split option.split sum.split if_split dest: w1 intro!: okay_complete okay_backup_ops)
qed

lemma okay_failStuck: "okay v w \<Longrightarrow> okay v (snd (failStuck e before w))"
proof -
  have "okay v (snd (failStuckOne e i st))" if "okay v (snd st)" for i st
    using okay_complete [OF that] by (auto simp: failStuckOne_def split: prod.split option.split) (metis snd_conv)+
  then show "okay v w \<Longrightarrow> okay v (snd (failStuck e before w))"
    unfolding failStuck_def by (intro okay_fold [where g = snd]) simp_all
qed

subsection \<open>Every operation as a step\<close>

text \<open>One step is one call of the services, of an executor or of the worker, whatever its outcome; the
  printed UUIDs are those of \<open>google/uuid\<close>.\<close>

inductive opStep :: "copystore \<Rightarrow> copystore \<Rightarrow> bool" where
  step_tick: "js_now w \<le> t \<Longrightarrow> opStep w (w\<lparr>js_now := t\<rparr>)"
| step_create: "opStep w (snd (databaseCreate i name cs co ls by w))"
| step_lock: "databaseLock i u w = Inr w' \<Longrightarrow> opStep w w'"
| step_unlock: "databaseUnlock i w = Inr w' \<Longrightarrow> opStep w w'"
| step_delete: "opStep w (snd (databaseDelete i phys by w))"
| step_backup: "triggerManual e d s mv by w = Inr (r, w') \<Longrightarrow> opStep w w'"
| step_scheduled: "triggerScheduled e d s sch days by w = Inr w' \<Longrightarrow> opStep w w'"
| step_restore: "restore inp w = Inr (j, w') \<Longrightarrow> opStep w w'"
| step_verify: "\<forall>u. uuidText (ev_idText e u) \<Longrightarrow> verify e i by w = Inr (j, w') \<Longrightarrow> opStep w w'"
| step_import: "opStep w (snd (importSQL e d s by w))"
| step_deleteBackup: "opStep w (snd (backupDelete e i w))"
| step_prune: "opStep w (snd (pruneExpired e n w))"
| step_move: "moveStart e si w = Inr (j, w') \<Longrightarrow> opStep w w'"
| step_copy: "\<forall>u. uuidText (ev_idText e u) \<Longrightarrow> opStep w (snd (copyOpen cfg e d b by w))"
| step_extend: "opStep w (snd (copyExtend cfg d i w))"
| step_discard: "opStep w (snd (copyDiscard d i by w))"
| step_expire: "opStep w (snd (expireDue w))"
| step_claim: "opStep w (snd (claim ce server w))"
| step_complete: "opStep w (snd (complete e i st res err w))"
| step_progress: "opStep w (opProgress i n w)"
| step_logs: "opStep w (appendLogs i ls w)"
| step_stuck: "opStep w (snd (failStuck e before w))"
| step_probe: "reconcile inst obs (js_now w) (js_next w) w = (res, n, w') \<Longrightarrow> opStep w (w'\<lparr>js_next := n\<rparr>)"

lemma next_discover: "fst st \<le> fst (discover inst now ob st)"
  by (auto simp: discover_def split: prod.split sum.split)

lemma next_reconcileOne: "fst st \<le> fst (reconcileOne inst now ob st)"
  using next_discover by (auto simp: reconcileOne_def split: prod.split option.split)

lemma next_fold: "fst st \<le> fst (fold (reconcileOne inst now) obs st)"
proof (induction obs arbitrary: st)
  case (Cons ob obs)
  then show ?case using next_reconcileOne [of st inst now ob] by (simp add: order_trans)
qed simp

lemma okay_probe:
  assumes "reconcile inst obs now (js_next w) w = (res, n, w')" "okay v w"
  shows "okay v (w'\<lparr>js_next := n\<rparr>)"
proof -
  from assms(2) have ids: "distinct (map dr_id (iv_databases w))" "\<forall>d \<in> set (iv_databases w). dr_id d < js_next w"
    and ok: "dbsOk (iv_databases w)" by (auto simp: okay_def storeOk_def wfDbs_def)
  from assms(1) have le: "js_next w \<le> n"
    using next_fold [of "(js_next w, iv_databases w, \<lparr>rr_added = [], rr_missing = [], rr_reappeared = []\<rparr>)" inst now obs]
    by (auto elim!: reconcile_state)
  from assms(1) obtain ds where w': "w' = w\<lparr>iv_databases := ds\<rparr>" by (auto elim: reconcile_state)
  from reconcile_safe [OF ids assms(1)] obtain old new where "ds = old @ new"
    and old: "list_all2 (rowReconciled inst (map ob_name obs)) (iv_databases w) old" by (auto simp: w')
  then have "\<forall>d \<in> set (iv_databases w). \<exists>d' \<in> set ds. sameDb d d' \<and> (dbLive d \<or> d' = d)"
    by (fastforce simp: list_all2_conv_all_nth in_set_conv_nth rowReconciled_def sameRow_def sameDb_def nth_append)
  moreover have "wfDbs n ds" using reconcile_ok [OF ids assms(1) ok] by (simp add: w' wfDbs_def)
  ultimately show ?thesis using okay_databases [OF assms(2) _ _ le] by (simp add: w')
qed

lemma opStep_okay: "opStep w w' \<Longrightarrow> storeOk w \<Longrightarrow> okay w w'"
proof (induction rule: opStep.induct)
  case (step_lock i u w w')
  then show ?case by (auto simp: databaseLock_def split: option.splits intro: okay_dbLock okay_refl)
next
  case (step_unlock i w w')
  then show ?case by (auto simp: databaseUnlock_def split: option.splits intro: okay_dbUnlock okay_refl)
qed (auto intro!: okay_refl okay_fields(4) okay_opProgress okay_appendLogs
    intro: okay_databaseCreate okay_databaseDelete okay_triggerManual okay_triggerScheduled okay_restore okay_verify
      okay_importSQL okay_backupDelete okay_pruneExpired okay_moveStart okay_copyOpen okay_copyExtend okay_copyDiscard
      okay_expireDue okay_claim okay_complete okay_failStuck okay_probe)

interpretation finished: settling opStep storeOk "\<lambda>j w. \<not> openJob j \<and> j \<in> set (js_jobs w)"
  by unfold_locales (use opStep_okay in \<open>auto simp: okay_def keeps_def\<close>)

interpretation dropped: settling opStep storeOk
  "\<lambda>i w. \<exists>c \<in> set (cs_copies w). cp_id c = i \<and> cp_status c = CopyDropped"
  by unfold_locales (use opStep_okay in \<open>fastforce simp: okay_def keeps_def\<close>)+

interpretation deleted: settling opStep storeOk "\<lambda>d w. \<not> dbLive d \<and> d \<in> set (iv_databases w)"
  by unfold_locales (use opStep_okay in \<open>auto simp: okay_def keeps_def\<close>)

subsection \<open>Properties of every reachable store\<close>

definition startStore :: "inst list \<Rightarrow> dest list \<Rightarrow> int \<Rightarrow> copystore" where
  "startStore is ds now = \<lparr>iv_instances = is, iv_databases = [], js_jobs = [], js_logs = [], js_next = 1, js_now = now,
     bs_backups = [], bs_dests = ds, bs_ext = [], cs_copies = []\<rparr>"

definition reachableStore :: "copystore \<Rightarrow> bool" where
  "reachableStore w \<longleftrightarrow> (\<exists>is ds now. opStep\<^sup>*\<^sup>* (startStore is ds now) w)"

lemma startStore_ok: "storeOk (startStore is ds now)"
  by (simp add: startStore_def storeOk_def wfJobs_def wfDbs_def wfCopies_def)

lemma reachable_ok: "reachableStore w \<Longrightarrow> storeOk w"
  unfolding reachableStore_def using finished.inv_steps startStore_ok by blast

lemma complete_finished:
  assumes "storeOk w" "j \<in> set (js_jobs w)" "\<not> openJob j"
  shows "complete e (jb_id j) st res err w = (Some (Conflict ''operation is already finalized''), w)"
proof -
  have none: "\<not> list_ex (\<lambda>x. jb_id x = jb_id j \<and> openJob x) (js_jobs w)"
    using assms store_job_ids by (auto simp: list_ex_iff)
  have "\<exists>k. jobGet (jb_id j) w = Inr k"
    using assms(2) by (auto simp: jobGet_def find_None_iff split: option.split)
  with none show ?thesis by (auto simp: complete_def jobComplete_def)
qed

text \<open>C5. A finished operation stays as it is whatever happens next, and finishing it again is refused
  without any effect: the effects of an operation happen at most once.\<close>

theorem finished_once:
  assumes "storeOk w" "opStep\<^sup>*\<^sup>* w w'" "j \<in> set (js_jobs w)" "\<not> openJob j"
  shows "j \<in> set (js_jobs w')
    \<and> complete e (jb_id j) st res err w' = (Some (Conflict ''operation is already finalized''), w')"
proof
  show j: "j \<in> set (js_jobs w')" using finished.settled_steps [OF assms(2,1), of j] assms(3,4) by simp
  from finished.inv_steps [OF assms(2,1)] show
    "complete e (jb_id j) st res err w' = (Some (Conflict ''operation is already finalized''), w')"
    using j assms(4) by (rule complete_finished)
qed


text \<open>C6. In every reachable store the live databases of a server have different names, none has a name
  reserved for temporary restores, a database has at most one live backup copy, and identifiers are
  unique.\<close>

theorem reachable_invariant:
  assumes "reachableStore w"
  shows "distinct (map dbKey (filter dbLive (iv_databases w)))
    \<and> (\<forall>d \<in> set (iv_databases w). \<not> isScratchName (dr_name d))
    \<and> distinct (map cp_databaseId (filter copyLive (cs_copies w)))
    \<and> distinct (map dr_id (iv_databases w)) \<and> distinct (map jb_id (js_jobs w)) \<and> distinct (map cp_id (cs_copies w))"
  using reachable_ok [OF assms]
  by (simp add: storeOk_def wfJobs_def wfDbs_def wfCopies_def dbsOk_def)

definition exInst :: "uuid \<Rightarrow> inst" where
  "exInst i = \<lparr>in_id = i, in_serverId = None, in_name = ''db1'', in_engine = EnginePostgres, in_kind = KindExternal,
     in_port = 5432, in_username = Some ''postgres'', in_rootSecretRef = Some ''ref'', in_containerId = None,
     in_status = InstRunning, in_deleted = False\<rparr>"

text \<open>A store with a database that was created, and one where it was then dropped.\<close>

definition exCreated :: copystore where
  "exCreated = snd (databaseCreate (IdOf 90) ''shop'' [] [] [] None (startStore [exInst 90] [] 5))"

definition exDropped :: copystore where
  "exDropped = snd (databaseDelete (IdOf 1) True None exCreated)"

lemma exCreated_reachable: "reachableStore exCreated"
  unfolding reachableStore_def exCreated_def by (meson r_into_rtranclp step_create)

lemma exDropped_reachable: "reachableStore exDropped"
proof -
  have "opStep exCreated exDropped" unfolding exDropped_def by (rule step_delete)
  with exCreated_reachable show ?thesis unfolding reachableStore_def by (meson rtranclp.rtrancl_into_rtrancl)
qed

definition exDone :: copystore where
  "exDone = snd (complete exEnv 2 JobSucceeded None None exCreated)"

lemma exDone_reachable: "reachableStore exDone"
proof -
  have "opStep exCreated exDone" unfolding exDone_def by (rule step_complete)
  with exCreated_reachable show ?thesis unfolding reachableStore_def by (meson rtranclp.rtrancl_into_rtrancl)
qed

lemma exDone_job: "hd (js_jobs exDone) \<in> set (js_jobs exDone) \<and> \<not> openJob (hd (js_jobs exDone)) \<and> jb_id (hd (js_jobs exDone)) = 2"
  by code_simp

lemma finished_once_witness:
  "complete exEnv 2 JobFailed None None (snd (databaseDelete (IdOf 1) True None exDone))
     = (Some (Conflict ''operation is already finalized''), snd (databaseDelete (IdOf 1) True None exDone))"
proof -
  have "opStep\<^sup>*\<^sup>* exDone (snd (databaseDelete (IdOf 1) True None exDone))" by (blast intro: step_delete)
  from finished_once [OF reachable_ok [OF exDone_reachable] this, of "hd (js_jobs exDone)" exEnv JobFailed None None] exDone_job
  show ?thesis by simp
qed

lemma exDropped_job: "last (js_jobs exDropped) \<in> set (js_jobs exDropped)
    \<and> jb_type (last (js_jobs exDropped)) = TypeDeleteDatabase \<and> pr_database (jb_params (last (js_jobs exDropped))) = ''shop''
    \<and> \<not> isScratchName ''shop''"
  by code_simp


lemma reachable_invariant_witness: "distinct (map dr_id (iv_databases exDropped)) \<and> length (iv_databases exDropped) = 1"
proof -
  have "length (iv_databases exDropped) = 1" by code_simp
  with reachable_invariant [OF exDropped_reachable] show ?thesis by simp
qed

end
