(* ===== verification/Scenarios.thy ===== *)
theory Scenarios
  imports Reachability
begin

text \<open>
  What happens across several operations of the engine: a backup that is taken can be found again by a
  restore; and the sequences in which the code does not do what it means to: moving a database onto
  itself, a move whose target cannot be registered or already is, a job that ends before its backup
  row or its verification mark exists, and a copy whose drop overtakes its restore.
\<close>

subsection \<open>Taking a backup and restoring it\<close>

lemma opCreate_eq:
  "opCreate typ rt rid s p by w = (j, w') \<Longrightarrow> jb_params j = p \<and> jb_type j = typ \<and> jb_id j = js_next w
    \<and> jb_status j = JobPending \<and> js_jobs w' = js_jobs w @ [j] \<and> w' = w\<lparr>js_jobs := js_jobs w @ [j], js_next := js_next w + 1\<rparr>"
  by (auto simp: opCreate_def jobCreate_def Let_def)

lemma trigger_Inr:
  assumes "triggerJob e dbId destId kind sch ex mv by w = Inr ((b, j), w1)"
  obtains db i d where "dbGet dbId w = Inr db" "instGet (dr_instanceId db) w = Inr i" "hasCredentials i"
    "destGet destId w = Inr d" "bk_id b = js_next w" "bk_status b = BackupPending" "bk_destinationId b = Some (ds_id d)"
    "jb_type j = TypeBackup" "jb_id j = js_next w + 1" "jb_status j = JobPending"
    "pr_backupId (jb_params j) = IdOf (bk_id b)" "pr_destinationId (jb_params j) = IdOf (ds_id d)"
    "pr_instanceId (jb_params j) = IdOf (in_id i)"
    "w1 = w\<lparr>js_jobs := js_jobs w @ [j], js_next := js_next w + 2\<rparr>"
  using assms unfolding triggerJob_def
  by (auto simp: result_simps Let_def split_beta opCreate_def jobCreate_def split: if_splits option.splits)

lemma completed_backup:
  assumes "\<forall>x \<in> set (bs_backups w). bk_id x \<noteq> bk_id b" "openBackup b" "re_storageUrl r \<noteq> []"
    and "bs_backups w1 = bs_backups w @ [b]"
  shows "\<exists>b'. backupGet (bk_id b) (completeBackup (bk_id b) True (Some r) err w1) = Inr b'
    \<and> bk_status b' = BackupCompleted \<and> bk_storageUrl b' = Some (re_storageUrl r) \<and> bk_destinationId b' = bk_destinationId b"
proof -
  have "List.find (\<lambda>x. bk_id x = bk_id b) (bs_backups w) = None" using assms(1) by (auto simp: find_None_iff)
  moreover have "map (\<lambda>x. if bk_id x = bk_id b \<and> openBackup x then f x else x) (bs_backups w) = bs_backups w" for f
    using assms(1) by (intro map_idI) auto
  ultimately show ?thesis
    using assms(2-4) by (simp add: completeBackup_def backupComplete_def backupUpdate_def backupGet_def find_snoc bumped_def coalesce_def)
qed

text \<open>C32. What a backup stores a restore finds: for a backup that was started, claimed and finished with
  the location its executor was handed, the artifact looked up by a restore is the key of the backup's
  own job, in the destination it was started with.\<close>

theorem artifact_roundtrip:
  assumes "\<forall>x \<in> set (bs_backups w). bk_id x < js_next w"
    and trig: "trigger e dbId destId kind sch ex mv by w = Inr ((b, j), w1)"
    and pl: "buildPayload ce j w1 = Inr pl" and r: "re_storageUrl r = pl_storageUrl pl"
  shows "\<exists>b' d. backupGet (bk_id b) (completeBackup (bk_id b) True (Some r) err w1) = Inr b' \<and> stored b'
    \<and> artifactOf b' (completeBackup (bk_id b) True (Some r) err w1) = Inr (d, pr_key (jb_params j)) \<and> ds_id d = destId"
proof -
  from trig obtain w0 where t: "triggerJob e dbId destId kind sch ex mv by w = Inr ((b, j), w0)"
    and w1: "w1 = backupCreate b w0" by (auto simp: trigger_def result_simps)
  from t obtain d where d: "destGet destId w = Inr d" and b: "bk_id b = js_next w" "bk_status b = BackupPending"
      "bk_destinationId b = Some (ds_id d)" and j: "jb_type j = TypeBackup" "pr_destinationId (jb_params j) = IdOf (ds_id d)"
    and w0: "bs_backups w0 = bs_backups w" "bs_dests w0 = bs_dests w"
    by (elim trigger_Inr) simp
  have id: "ds_id d = destId" using d by (auto simp: destGet_def find_Some_iff split: option.splits)
  have d1: "destGet destId w1 = Inr d" using d w0 w1 by (simp add: destGet_def backupCreate_def)
  from pl j have "pl_storageUrl pl = storageUrl (ds_bucket d) (pr_key (jb_params j))"
    by (auto simp: buildPayload_def Let_def isPayloadlessType_def result_simps storagePart_def storageFor_def d1 id
        split: option.splits if_splits)
  with r have url: "re_storageUrl r = storageUrl (ds_bucket d) (pr_key (jb_params j))" by simp
  let ?b = "b\<lparr>bk_createdAt := js_now w0, bk_version := 0\<rparr>"
  have "\<exists>b'. backupGet (bk_id ?b) (completeBackup (bk_id ?b) True (Some r) err w1) = Inr b'
    \<and> bk_status b' = BackupCompleted \<and> bk_storageUrl b' = Some (re_storageUrl r) \<and> bk_destinationId b' = bk_destinationId ?b"
    by (rule completed_backup [of w]) (use assms(1) b url w0 w1 in \<open>auto simp: openBackup_def storageUrl_def backupCreate_def\<close>)
  then obtain b' where b': "backupGet (bk_id b) (completeBackup (bk_id b) True (Some r) err w1) = Inr b'"
      "bk_status b' = BackupCompleted" "bk_storageUrl b' = Some (re_storageUrl r)" "bk_destinationId b' = Some (ds_id d)"
    using b(3) by auto
  have "destGet destId (completeBackup (bk_id b) True (Some r) err w1) = Inr d"
    using d1 by (simp add: completeBackup_def backupComplete_def backupUpdate_def destGet_def)
  then have "artifactOf b' (completeBackup (bk_id b) True (Some r) err w1) = Inr (d, pr_key (jb_params j))"
    using b' url id by (simp add: artifactOf_def wrapInternal_def)
  moreover have "stored b'" using b' by (simp add: stored_def)
  ultimately show ?thesis using b'(1) id by blast
qed

definition exShop :: copystore where
  "exShop = snd (databaseCreate (IdOf 90) ''shop'' [] [] [] None (startStore [exInst 90] [exDest] 5))"

definition exClaim :: claimEnv where
  "exClaim = env.extend exEnv \<lparr>ce_hostCheck = (\<lambda>_. None), ce_tunnel = (\<lambda>_. None), ce_password = (\<lambda>_. ''pw''),
     ce_roleCreds = (\<lambda>_. None), ce_presignPut = (\<lambda>_ k. Some k), ce_presignGet = (\<lambda>_ k. Some k)\<rparr>"

definition exTriggered :: "(backup \<times> job) \<times> copystore" where
  "exTriggered = projr (trigger exEnv 1 70 ''manual'' None None None None exShop)"

definition exPayload :: payload where
  "exPayload = projr (buildPayload exClaim (snd (fst exTriggered)) (snd exTriggered))"

definition exResult :: "string \<Rightarrow> jobResult" where
  "exResult url = \<lparr>re_databases = [], re_sizeBytes = 10, re_checksum = ''c'', re_storageUrl = url, re_containerId = []\<rparr>"

lemma exShop_simps: "\<forall>x \<in> set (bs_backups exShop). bk_id x < js_next exShop"
  by code_simp

lemma exTriggered_eq: "trigger exEnv 1 70 ''manual'' None None None None exShop = Inr exTriggered"
  unfolding exTriggered_def by code_simp

lemma exPayload_eq: "buildPayload exClaim (snd (fst exTriggered)) (snd exTriggered) = Inr exPayload"
  unfolding exPayload_def by code_simp

lemma artifact_roundtrip_witness:
  "\<exists>b' d. backupGet 3 (completeBackup 3 True (Some (exResult (pl_storageUrl exPayload))) None (snd exTriggered)) = Inr b'
     \<and> stored b' \<and> artifactOf b' (completeBackup 3 True (Some (exResult (pl_storageUrl exPayload))) None (snd exTriggered))
       = Inr (d, pr_key (jb_params (snd (fst exTriggered))))"
proof -
  obtain b j w1 where t: "exTriggered = ((b, j), w1)" by (metis surj_pair)
  have b: "bk_id b = 3"
  proof -
    have "bk_id (fst (fst exTriggered)) = 3" by code_simp
    then show ?thesis by (simp add: t)
  qed
  from artifact_roundtrip [OF exShop_simps exTriggered_eq [unfolded t], of exClaim exPayload "exResult (pl_storageUrl exPayload)" None]
    exPayload_eq show ?thesis by (auto simp: t b exResult_def)
qed

subsection \<open>Moving a database onto itself\<close>

lemma registerTarget_tracked:
  assumes "d \<in> set (iv_databases w)" "dbLive d" "dbKey d = (tgt, name)" "pr_database (jb_params j) = name" "trimSpace name = name"
  shows "iv_databases (registerTarget j src tgt w) = iv_databases w \<and> js_jobs (registerTarget j src tgt w) = js_jobs w
    \<and> js_next w \<le> js_next (registerTarget j src tgt w) \<and> iv_instances (registerTarget j src tgt w) = iv_instances w"
proof -
  obtain cs co where r: "registerTarget j src tgt w =
      (case newDatabase (js_next w) tgt (pr_database (jb_params j)) cs co [(''moved'', ''true'')] of
           Inl _ \<Rightarrow> w
         | Inr d \<Rightarrow>
             let w1 = w\<lparr>js_next := js_next w + 1\<rparr>;
                 w2 = (case dbCreate (js_now w) d w1 of Inl _ \<Rightarrow> w1 | Inr w' \<Rightarrow> w')
             in case instGet tgt w2 of
                  Inl _ \<Rightarrow> w2
                | Inr t \<Rightarrow> extCall (ExtTransferEndpoint src (dr_id d) (in_id t) (jb_createdBy j)) w2)"
    by (cases "dbGet src w") (simp_all add: registerTarget_def)
  show ?thesis
  proof (cases "newDatabase (js_next w) tgt (pr_database (jb_params j)) cs co [(''moved'', ''true'')]")
    case (Inl er)
    then show ?thesis by (simp add: r)
  next
    case (Inr x)
    have "list_ex (\<lambda>y. dbLive y \<and> dbNamed (dr_instanceId x) (dr_name x) y) (iv_databases w)"
      using newDatabase_Inr [OF Inr] assms by (auto simp: list_ex_iff dbNamed_key)
    then show ?thesis using Inr by (simp add: r Let_def dbCreate_def extCall_def split: sum.split)
  qed
qed

lemma dbSoftDelete_rest:
  assumes "dbSoftDelete now i w = Inr w2" "d \<in> set (iv_databases w2)" "dbLive d"
  shows "d \<in> set (iv_databases w) \<and> dr_id d \<noteq> i"
proof -
  from assms(1,2) obtain x where x: "x \<in> set (iv_databases w)" "d = (if dr_id x = i \<and> dbLive x
      then (x\<lparr>dr_status := StDeleting, dr_deletedAt := Some now\<rparr>)\<lparr>dr_version := dr_version x + 1\<rparr> else x)"
    by (auto simp: dbSoftDelete_def dbUpdate_def split: if_splits)
  have "\<not> (dr_id x = i \<and> dbLive x)" using assms(3) x(2) by (cases "dr_id x = i \<and> dbLive x") (simp_all add: dbLive_def)
  then show ?thesis using x assms(3) by auto
qed

text \<open>A move onto the server and name a database already has, with the source to be dropped, passes
  every check and ends by dropping the only copy: the finished restore leaves a drop of exactly the
  database it restored into, and no live row for it.\<close>

theorem move_onto_itself_drops:
  assumes "storeOk w" "dbGet src w = Inr db" "instGet (dr_instanceId db) w = Inr i" "hasCredentials i"
    and "\<not> dr_system db" "\<not> isSystemDatabase (in_engine i) (dr_name db)" "trimSpace (dr_name db) = dr_name db"
    and "pr_moveSourceDatabaseId (jb_params j) = IdOf src" "pr_moveDropSource (jb_params j)"
    and "pr_instanceId (jb_params j) = IdOf (dr_instanceId db)" "pr_database (jb_params j) = dr_name db"
  shows "(\<exists>k \<in> set (js_jobs (onRestoreComplete j True w)). jb_status k = JobPending \<and> jb_type k = TypeDeleteDatabase
        \<and> pr_instanceId (jb_params k) = pr_instanceId (jb_params j) \<and> pr_database (jb_params k) = pr_database (jb_params j))
    \<and> (\<forall>d \<in> set (iv_databases (onRestoreComplete j True w)). dbLive d \<longrightarrow> dbKey d \<noteq> dbKey db)"
proof -
  have db: "db \<in> set (iv_databases w)" "dr_id db = src" "dbLive db" using dbGet_Inr [OF assms(2)] by auto
  let ?w1 = "registerTarget j src (dr_instanceId db) w"
  have w1: "iv_databases ?w1 = iv_databases w" "iv_instances ?w1 = iv_instances w"
    using registerTarget_tracked [OF db(1,3), of "dr_instanceId db" "dr_name db" j src] assms(7,11) by (auto simp: dbKey_def)
  have get: "dbGet src ?w1 = Inr db" "instGet (dr_instanceId db) ?w1 = Inr i"
    using assms(2,3) by (simp_all add: dbGet_def instGet_def w1)
  obtain w2 where w2: "dbSoftDelete (js_now ?w1) src ?w1 = Inr w2"
    using dbSoftDelete_live [of db ?w1 "js_now ?w1"] db by (auto simp: w1)
  have id: "in_id i = dr_instanceId db" using instGet_Inr [OF assms(3)] by simp
  have fin: "onRestoreComplete j True w = snd (databaseDelete (IdOf src) True (jb_createdBy j) ?w1)"
    using assms(8-10) by (simp add: onRestoreComplete_def Let_def)
  have "js_jobs (snd (databaseDelete (IdOf src) True (jb_createdBy j) ?w1)) = js_jobs w2 @ [fst (opCreate TypeDeleteDatabase ''database''
        (Some (dr_id db)) (if in_kind i = KindExternal then None else in_serverId i)
        (noParams\<lparr>pr_instanceId := IdOf (in_id i), pr_databaseId := IdOf (dr_id db), pr_database := dr_name db\<rparr>)
        (jb_createdBy j) ?w1)] \<and> iv_databases (snd (databaseDelete (IdOf src) True (jb_createdBy j) ?w1)) = iv_databases w2"
    using get assms(4-6) w2
    by (auto simp: databaseDelete_def Let_def dbSoftDelete_commute withError_def)
       (auto simp: opCreate_def Let_def jobCreate_def extCall_def dbSoftDelete_def dbUpdate_def split: if_splits)
  then have jobs: "\<exists>k \<in> set (js_jobs (onRestoreComplete j True w)). jb_status k = JobPending \<and> jb_type k = TypeDeleteDatabase
        \<and> pr_instanceId (jb_params k) = pr_instanceId (jb_params j) \<and> pr_database (jb_params k) = pr_database (jb_params j)"
    and dbs: "iv_databases (onRestoreComplete j True w) = iv_databases w2"
    using assms(10,11) id by (simp_all add: fin opCreate_def Let_def)
  have "distinct (map dbKey (filter dbLive (iv_databases w)))" using assms(1) by (simp add: storeOk_def wfDbs_def dbsOk_def)
  then have uniq: "d = db" if "d \<in> set (iv_databases w)" "dbLive d" "dbKey d = dbKey db" for d
    using that db by (auto simp: distinct_map inj_on_def)
  have "dbKey d \<noteq> dbKey db" if "d \<in> set (iv_databases w2)" "dbLive d" for d
    using dbSoftDelete_rest [OF w2 that] uniq [of d] db(2) that(2) w1 by auto
  with jobs dbs show ?thesis by simp
qed

text \<open>The move of the database of \<open>exShop\<close> onto its own server, up to the restore of its backup: it is
  accepted, claimed, and its backup finishes.\<close>

definition exActive :: copystore where
  "exActive = snd (complete exEnv 2 JobSucceeded None None exShop)"

definition exMoveStarted :: copystore where
  "exMoveStarted = snd (projr (moveStart exEnv \<lparr>si_sourceDatabaseId = IdOf 1, si_targetInstanceId = IdOf 90,
     si_targetDatabase = [], si_destinationId = IdOf 70, si_dropSource = True, si_createdBy = None\<rparr> exActive))"

definition exMoveBacked :: copystore where
  "exMoveBacked = snd (complete exEnv 4 JobSucceeded
     (Some (exResult (storageUrl ''bkt'' (backupKey ''p'' ''shop'' (ev_idText exEnv 3))))) None (snd (claim exClaim None exMoveStarted)))"

lemma exMove_accepted: "\<not> isl (moveStart exEnv \<lparr>si_sourceDatabaseId = IdOf 1, si_targetInstanceId = IdOf 90,
     si_targetDatabase = [], si_destinationId = IdOf 70, si_dropSource = True, si_createdBy = None\<rparr> exActive)"
  by code_simp

lemma exMoveBacked_job: "last (js_jobs exMoveBacked) \<in> set (js_jobs exMoveBacked)
    \<and> jb_type (last (js_jobs exMoveBacked)) = TypeRestore
    \<and> pr_moveSourceDatabaseId (jb_params (last (js_jobs exMoveBacked))) = IdOf 1
    \<and> pr_moveDropSource (jb_params (last (js_jobs exMoveBacked)))
    \<and> pr_instanceId (jb_params (last (js_jobs exMoveBacked))) = IdOf 90
    \<and> pr_database (jb_params (last (js_jobs exMoveBacked))) = ''shop''"
  by code_simp

lemma exMoveBacked_db: "(case dbGet 1 exMoveBacked of Inl _ \<Rightarrow> False
    | Inr d \<Rightarrow> dr_name d = ''shop'' \<and> dr_instanceId d = 90 \<and> \<not> dr_system d)
    \<and> (case instGet 90 exMoveBacked of Inl _ \<Rightarrow> False | Inr i \<Rightarrow> hasCredentials i \<and> in_engine i = EnginePostgres)
    \<and> trimSpace ''shop'' = ''shop'' \<and> \<not> isSystemDatabase EnginePostgres ''shop''"
  by code_simp

lemma exMoveBacked_reachable: "reachableStore exMoveBacked"
proof -
  have "opStep (startStore [exInst 90] [exDest] 5) exShop" unfolding exShop_def by (rule step_create)
  moreover have "opStep exShop exActive" unfolding exActive_def by (rule step_complete)
  moreover have "opStep exActive exMoveStarted"
  proof (cases "moveStart exEnv \<lparr>si_sourceDatabaseId = IdOf 1, si_targetInstanceId = IdOf 90,
     si_targetDatabase = [], si_destinationId = IdOf 70, si_dropSource = True, si_createdBy = None\<rparr> exActive")
    case (Inl er)
    then show ?thesis using exMove_accepted by simp
  next
    case (Inr x)
    then show ?thesis using step_move [of exEnv _ exActive "fst x" "snd x"] by (simp add: exMoveStarted_def)
  qed
  moreover have "opStep exMoveStarted (snd (claim exClaim None exMoveStarted))" by (rule step_claim)
  moreover have "opStep (snd (claim exClaim None exMoveStarted)) exMoveBacked" unfolding exMoveBacked_def by (rule step_complete)
  ultimately show ?thesis unfolding reachableStore_def by (meson rtranclp.rtrancl_into_rtrancl rtranclp.rtrancl_refl)
qed

lemma move_onto_itself_drops_witness:
  "\<exists>k \<in> set (js_jobs (onRestoreComplete (last (js_jobs exMoveBacked)) True exMoveBacked)).
     jb_type k = TypeDeleteDatabase \<and> pr_database (jb_params k) = ''shop''"
proof -
  obtain db i where "dbGet 1 exMoveBacked = Inr db" "dr_name db = ''shop''" "dr_instanceId db = 90" "\<not> dr_system db"
    "instGet 90 exMoveBacked = Inr i" "hasCredentials i" "in_engine i = EnginePostgres"
    using exMoveBacked_db by (auto split: sum.splits)
  with move_onto_itself_drops [OF reachable_ok [OF exMoveBacked_reachable], of 1 db i "last (js_jobs exMoveBacked)"]
    exMoveBacked_job exMoveBacked_db show ?thesis by auto
qed

subsection \<open>Races between a job and the record it is about\<close>

lemma complete_job:
  assumes "complete e i st res err w = (None, w')" "storeOk w" "j \<in> set (js_jobs w)" "jb_id j = i"
  obtains w1 where "jobComplete i st res err w = Inr w1" "w' = sideEffects e j (st = JobSucceeded) res err w1"
proof -
  from assms(1) obtain k w1 where k: "jobGet i w = Inr k" "jobComplete i st res err w = Inr w1"
      "w' = sideEffects e k (st = JobSucceeded) res err w1"
    by (auto simp: complete_def split: sum.splits)
  then have "k = j" using jobGet_Inr [OF k(1)] assms store_job_ids by blast
  with k that show thesis by simp
qed

lemma sideEffects_backup_jobs:
  assumes "jb_type j = TypeBackup"
  shows "js_jobs (sideEffects e j False res err w) = js_jobs w"
  using assms by (simp add: sideEffects_def Let_def completeBackup_def backupComplete_def backupUpdate_def
      onBackupComplete_def extCall_def split: option.split)

lemma jobComplete_closed:
  assumes "jobComplete i st res err w = Inr w1" "st \<noteq> JobPending" "st \<noteq> JobRunning"
  shows "\<exists>j \<in> set (js_jobs w1). jb_id j = i \<and> \<not> openJob j" "bs_backups w1 = bs_backups w"
proof -
  from assms obtain j where j: "j \<in> set (js_jobs w)" "jb_id j = i" "openJob j"
    by (auto simp: jobComplete_def list_ex_iff split: if_splits)
  let ?f = "\<lambda>j. j\<lparr>jb_status := st, jb_result := res, jb_error := err,
      jb_progress := (if st = JobSucceeded then 100 else jb_progress j), jb_completedAt := Some (js_now w)\<rparr>"
  from assms(1) have w1: "w1 = jobUpdate (\<lambda>j. jb_id j = i \<and> openJob j) ?f w"
    by (auto simp: jobComplete_def split: if_splits)
  have "(?f j)\<lparr>jb_version := jb_version j + 1\<rparr> \<in> set (js_jobs w1)"
    unfolding w1 jobUpdate_def using j by (auto intro!: image_eqI [of _ _ j])
  then show "\<exists>j \<in> set (js_jobs w1). jb_id j = i \<and> \<not> openJob j"
    by (rule rev_bexI) (use assms(2,3) j(2) in \<open>simp add: openJob_def\<close>)
  show "bs_backups w1 = bs_backups w" using assms(1) by (auto simp: jobComplete_def jobUpdate_def split: if_splits)
qed

text \<open>A backup is stuck when its job ends before its row is inserted: \<open>trigger\<close> creates the job first,
  and if that job has failed by the time the row is added, the row stays pending although its job is
  finished for good, and deleting the backup is refused because it is still running.\<close>

theorem backup_row_after_failed_job:
  assumes "storeOk w"
    and trig: "triggerJob e dbId destId kind sch ex mv by w = Inr ((b, j), w1)"
    and fail: "complete e (jb_id j) JobFailed res err w1 = (None, w2)"
    and later: "opStep\<^sup>*\<^sup>* (backupCreate b w2) w3"
  shows "(\<exists>b' \<in> set (bs_backups (backupCreate b w2)). bk_id b' = bk_id b \<and> bk_status b' = BackupPending
      \<and> deleteBackup e b' (backupCreate b w2) = (Some (Conflict ''the backup is still running''), backupCreate b w2))
    \<and> complete e (jb_id j) st res' err' w3 = (Some (Conflict ''operation is already finalized''), w3)"
proof -
  let ?b = "b\<lparr>bk_createdAt := js_now w2, bk_version := 0\<rparr>"
  from trig obtain b: "bk_status b = BackupPending" and j: "jb_type j = TypeBackup" "pr_backupId (jb_params j) = IdOf (bk_id b)"
    by (elim trigger_Inr) simp
  have "?b \<in> set (bs_backups (backupCreate b w2))" by (simp add: backupCreate_def)
  moreover have "deleteBackup e ?b w = (Some (Conflict ''the backup is still running''), w)" for w
    using b by (simp add: deleteBackup_def openBackup_def)
  ultimately have stuck: "\<exists>b' \<in> set (bs_backups (backupCreate b w2)). bk_id b' = bk_id b \<and> bk_status b' = BackupPending
      \<and> deleteBackup e b' (backupCreate b w2) = (Some (Conflict ''the backup is still running''), backupCreate b w2)"
    using b by (intro bexI [of _ ?b]) simp_all
  have ok1: "okay w w1" by (rule okay_triggerJob [OF trig okay_refl [OF assms(1)]])
  have ok2: "okay w w2" using okay_complete [OF ok1, of e "jb_id j" JobFailed res err] fail by simp
  from trig have "j \<in> set (js_jobs w1)" by (elim trigger_Inr) simp
  with complete_job [OF fail] ok1 obtain w1' where w1': "jobComplete (jb_id j) JobFailed res err w1 = Inr w1'"
      "w2 = sideEffects e j False res err w1'" by (auto simp: okay_def)
  from jobComplete_closed(1) [OF w1'(1)] obtain k where k: "k \<in> set (js_jobs w2)" "jb_id k = jb_id j" "\<not> openJob k"
    by (auto simp: w1'(2) sideEffects_backup_jobs [OF j(1)])
  have "storeOk (backupCreate b w2)" "k \<in> set (js_jobs (backupCreate b w2))"
    using okay_backup(2) [OF ok2, of b] k(1) by (simp_all add: okay_def backupCreate_def)
  from finished.settled_steps [OF later this(1), of k] finished.inv_steps [OF later this(1)] this(2) k(3)
  have "complete e (jb_id j) st res' err' w3 = (Some (Conflict ''operation is already finalized''), w3)"
    using complete_finished [of w3 k] k(2) by simp
  with stuck show ?thesis by simp
qed

definition exStarted :: "(backup \<times> job) \<times> copystore" where
  "exStarted = projr (triggerJob exEnv 1 70 ''manual'' None None None None exShop)"

definition exFailed :: copystore where
  "exFailed = snd (complete exEnv 4 JobFailed None (Some ''no route'') (snd exStarted))"

lemma exStarted_eq: "triggerJob exEnv 1 70 ''manual'' None None None None exShop = Inr exStarted"
  unfolding exStarted_def by code_simp

lemma exFailed_eq: "complete exEnv 4 JobFailed None (Some ''no route'') (snd exStarted) = (None, exFailed)"
  unfolding exFailed_def by code_simp

lemma exShop_ok: "storeOk exShop"
proof -
  have "opStep (startStore [exInst 90] [exDest] 5) exShop" unfolding exShop_def by (rule step_create)
  then show ?thesis using opStep_okay startStore_ok by (auto simp: okay_def)
qed

lemma backup_row_after_failed_job_witness:
  "\<exists>b' \<in> set (bs_backups (backupCreate (fst (fst exStarted)) exFailed)). bk_id b' = 3 \<and> bk_status b' = BackupPending"
proof -
  obtain b j w1 where t: "exStarted = ((b, j), w1)" by (metis surj_pair)
  have "bk_id (fst (fst exStarted)) = 3 \<and> jb_id (snd (fst exStarted)) = 4" by code_simp
  then have ids: "bk_id b = 3" "jb_id j = 4" by (simp_all add: t)
  from exFailed_eq have f: "complete exEnv (jb_id j) JobFailed None (Some ''no route'') w1 = (None, exFailed)"
    by (simp add: t ids)
  from backup_row_after_failed_job [OF exShop_ok exStarted_eq [unfolded t] f rtranclp.rtrancl_refl, of JobFailed None None]
  show ?thesis by (auto simp: t ids)
qed

text \<open>The same order in \<open>Verify\<close>: a verification that has failed by the time it is marked as running stays
  running, and no other one is allowed.\<close>

lemma verify_mark_after_end:
  assumes "\<exists>b \<in> set (bs_backups w2). bk_id b = bid \<and> stored b"
    and "distinct (map bk_id (bs_backups w2))"
  shows "verifyJob e' (IdOf bid) by' (setVerify bid ''running'' None w2)
    = Inl (Conflict ''a verification of this backup is already running'')"
proof -
  let ?f = "\<lambda>b. if bk_id b = bid then b\<lparr>bk_verifyStatus := Some ''running'', bk_verifyError := None\<rparr> else b"
  from assms(1) obtain b where b: "b \<in> set (bs_backups w2)" "bk_id b = bid" "stored b" by blast
  have sv: "bs_backups (setVerify bid ''running'' None w2) = map ?f (bs_backups w2)"
    by (simp add: setVerify_def backupUpdate_def)
  have "?f b \<in> set (map ?f (bs_backups w2)) \<and> bk_id (?f b) = bid" using b by simp
  then have "List.find (\<lambda>x. bk_id x = bid) (map ?f (bs_backups w2)) \<noteq> None"
    unfolding find_None_iff by blast
  then obtain x where x: "List.find (\<lambda>x. bk_id x = bid) (map ?f (bs_backups w2)) = Some x" by blast
  from find_SomeD [OF this] have "x \<in> ?f ` set (bs_backups w2)" and xid: "bk_id x = bid" by (simp_all only: list.set_map)
  then obtain y where y: "y \<in> set (bs_backups w2)" "x = ?f y" by (elim imageE)
  with xid have "bk_id (?f y) = bid" by simp
  then have "bk_id y = bid" by (cases "bk_id y = bid") simp_all
  then have "y = b" using y(1) assms(2) b by (simp add: distinct_map inj_on_def)
  with y b have "stored x" "bk_verifyStatus x = Some ''running''" by (simp_all add: stored_def)
  with x sv show ?thesis by (simp add: verifyJob_def backupGet_def)
qed

subsection \<open>Copies whose drop comes first\<close>

text \<open>A copy that was dropped before its restore finished is never dropped again: the finished restore
  neither makes it ready nor starts a drop, and as a dropped copy it is never due, so the temporary
  database the restore has filled stays on the server.\<close>

theorem restored_after_drop_leaks:
  assumes "storeOk w" "copyGet i w = Inr c" "cp_status c = CopyDropped"
  shows "js_jobs (onCopyRestored i True err w) = js_jobs w \<and> cs_copies (onCopyRestored i True err w) = cs_copies w
    \<and> (\<forall>w' now stale. opStep\<^sup>*\<^sup>* (onCopyRestored i True err w) w' \<longrightarrow> i \<notin> cp_id ` set (listDue now stale w'))"
proof -
  have c: "c \<in> set (cs_copies w)" "cp_id c = i" using copyGet_Inr [OF assms(2)] by auto
  have ids: "distinct (map cp_id (cs_copies w))" using assms(1) by (simp add: storeOk_def wfCopies_def)
  have none: "\<not> list_ex (\<lambda>x. cp_id x = i \<and> cp_status x = CopyRestoring) (cs_copies w)"
    using ids c assms(3) by (auto simp: list_ex_iff distinct_map inj_on_def)
  have r: "onCopyRestored i True err w = extCall (ExtPrepareCopy (cp_instanceId c) (cp_scratch c)) w"
    using assms(2,3) none c(2) by (simp add: onCopyRestored_def Let_def markReady_def copyExec_def extCall_def)
  have ok: "storeOk (onCopyRestored i True err w)"
    using okay_onCopyRestored [OF okay_refl [OF assms(1)]] by (simp add: okay_def)
  have "i \<notin> cp_id ` set (listDue now stale w')" if later: "opStep\<^sup>*\<^sup>* (onCopyRestored i True err w) w'" for w' now stale
  proof
    assume "i \<in> cp_id ` set (listDue now stale w')"
    then obtain x where x: "x \<in> set (cs_copies w')" "cp_id x = i" "copyDue now stale x"
      by (auto simp: listDue_def dest!: in_set_takeD)
    have "\<exists>d \<in> set (cs_copies w'). cp_id d = i \<and> cp_status d = CopyDropped"
      using dropped.settled_steps [OF later ok, of i] c assms(3) by (auto simp: r extCall_def)
    moreover have "distinct (map cp_id (cs_copies w'))"
      using finished.inv_steps [OF later ok] by (simp add: storeOk_def wfCopies_def)
    ultimately have "cp_status x = CopyDropped" using x(1,2) by (auto simp: distinct_map inj_on_def)
    with x(3) show False by (simp add: copyDue_def)
  qed
  then show ?thesis by (simp add: r extCall_def)
qed

text \<open>Such a run: a copy is opened, discarded while its restore waits, and its drop, started a quarter of
  an hour later, finishes first.\<close>

definition exBacked :: copystore where
  "exBacked = snd (complete exEnv 4 JobSucceeded (Some (exResult (storageUrl ''bkt'' (pr_key (jb_params (snd (fst exTriggered)))))))
     None (snd exTriggered))"

definition exOpened :: copystore where
  "exOpened = snd (copyOpen (newCopyCfg 0 0) exEnv 1 3 None exBacked)"

definition exDiscarded :: copystore where
  "exDiscarded = (snd (copyDiscard 1 6 None exOpened))\<lparr>js_now := 1000 * secondNs\<rparr>"

definition exLeak :: copystore where
  "exLeak = snd (complete exEnv 8 JobSucceeded None None (snd (expireDue exDiscarded)))"

lemma exLeak_copy: "(case copyGet 6 exLeak of Inl _ \<Rightarrow> False | Inr c \<Rightarrow> cp_status c = CopyDropped)
    \<and> (case jobGet 7 exLeak of Inl _ \<Rightarrow> False | Inr j \<Rightarrow> jb_type j = TypeRestore \<and> openJob j)"
  by code_simp

lemma exEnv_text: "uuidText (ev_idText exEnv u)"
proof -
  have "hexDigit n \<noteq> CHR ''-'' \<and> isHexLower (hexDigit n)" if "n \<in> set [0..<16]" for n
  proof -
    have "\<forall>n \<in> set [0..<16]. hexDigit n \<noteq> CHR ''-'' \<and> isHexLower (hexDigit n)" by code_simp
    with that show ?thesis by blast
  qed
  moreover have "isHexLower (CHR ''0'')" by code_simp
  ultimately show ?thesis by (simp add: exEnv_def uuidText_def list_all_iff)
qed

lemma exLeak_ok: "storeOk exLeak"
proof -
  have "storeOk (snd exTriggered)"
  proof -
    have "trigger exEnv 1 70 ''manual'' None None None None exShop = Inr (fst exTriggered, snd exTriggered)"
      using exTriggered_eq by simp
    from okay_trigger [OF this okay_refl [OF exShop_ok]] show ?thesis by (simp add: okay_def)
  qed
  moreover have "opStep (snd exTriggered) exBacked" unfolding exBacked_def by (rule step_complete)
  moreover have "opStep exBacked exOpened" unfolding exOpened_def by (rule step_copy) (simp add: exEnv_text)
  moreover have "opStep exOpened (snd (copyDiscard 1 6 None exOpened))" by (rule step_discard)
  moreover have "js_now (snd (copyDiscard 1 6 None exOpened)) \<le> 1000 * secondNs" by code_simp
  then have "opStep (snd (copyDiscard 1 6 None exOpened)) exDiscarded" unfolding exDiscarded_def by (rule step_tick)
  moreover have "opStep exDiscarded (snd (expireDue exDiscarded))" by (rule step_expire)
  moreover have "opStep (snd (expireDue exDiscarded)) exLeak" unfolding exLeak_def by (rule step_complete)
  ultimately have "opStep\<^sup>*\<^sup>* (snd exTriggered) exLeak" "storeOk (snd exTriggered)"
    by (meson rtranclp.rtrancl_into_rtrancl rtranclp.rtrancl_refl)+
  then show ?thesis by (rule finished.inv_steps)
qed

lemma restored_after_drop_leaks_witness:
  "js_jobs (onCopyRestored 6 True None exLeak) = js_jobs exLeak \<and> cs_copies (onCopyRestored 6 True None exLeak) = cs_copies exLeak"
proof -
  obtain c where "copyGet 6 exLeak = Inr c" "cp_status c = CopyDropped" using exLeak_copy by (auto split: sum.splits)
  from restored_after_drop_leaks [OF exLeak_ok this] show ?thesis by blast
qed

end
