(* ===== verification/Authz.thy ===== *)
theory Authz
  imports Prelude
begin

text \<open>
  The decision logic of scoped authorization, \<open>domain/authz/authz.go\<close>: grants, the scopes that cover a
  resource, and the two questions the program asks of a list of grants - may this be done to that
  resource (\<open>allow\<close>), and which resources may be read (\<open>readableScope\<close>).  The lemmas characterise both.
\<close>

subsection \<open>Scopes and grants\<close>

datatype scopeType = ScopeGlobal | ScopeServer | ScopeDatabase

datatype resourceType = ResourceServer | ResourceInstance | ResourceDatabase | ResourceBackup | ResourceOperation

record accessScope =
  sc_type :: scopeType
  sc_id :: uuid

record grant =
  gr_permission :: string
  gr_scope :: accessScope

text \<open>A scope type is stored as text, and that text is the order the store sorts by.\<close>

fun scopeText :: "scopeType \<Rightarrow> string" where
  "scopeText ScopeGlobal = ''global''"
| "scopeText ScopeServer = ''server''"
| "scopeText ScopeDatabase = ''database''"

lemma scopeText_inj [simp]: "scopeText a = scopeText b \<longleftrightarrow> a = b"
  by (cases a; cases b) simp_all

instantiation scopeType :: linorder
begin

definition "(a :: scopeType) \<le> b \<longleftrightarrow> scopeText a \<le> scopeText b"
definition "(a :: scopeType) < b \<longleftrightarrow> scopeText a < scopeText b"

instance
  by standard (auto simp: less_eq_scopeType_def less_scopeType_def less_le_not_le order_less_le)

end

type_synonym ancestry = "accessScope list"

abbreviation globalScope :: accessScope where
  "globalScope \<equiv> \<lparr>sc_type = ScopeGlobal, sc_id = uuid_nil\<rparr>"

abbreviation serverScope :: "uuid \<Rightarrow> accessScope" where
  "serverScope i \<equiv> \<lparr>sc_type = ScopeServer, sc_id = i\<rparr>"

abbreviation databaseScope :: "uuid \<Rightarrow> accessScope" where
  "databaseScope i \<equiv> \<lparr>sc_type = ScopeDatabase, sc_id = i\<rparr>"

fun ancestryCovers :: "ancestry \<Rightarrow> accessScope \<Rightarrow> bool" where
  "ancestryCovers [] s = False"
| "ancestryCovers (c # cs) s = (if sc_type c = sc_type s \<and> sc_id c = sc_id s then True else ancestryCovers cs s)"

fun allow :: "grant list \<Rightarrow> string \<Rightarrow> ancestry \<Rightarrow> bool" where
  "allow [] perm anc = False"
| "allow (g # gs) perm anc =
     (if gr_permission g \<noteq> perm then allow gs perm anc
      else if sc_type (gr_scope g) = ScopeGlobal \<or> ancestryCovers anc (gr_scope g) then True
      else allow gs perm anc)"

fun hasGlobal :: "grant list \<Rightarrow> string \<Rightarrow> bool" where
  "hasGlobal [] perm = False"
| "hasGlobal (g # gs) perm =
     (if gr_permission g = perm \<and> sc_type (gr_scope g) = ScopeGlobal then True else hasGlobal gs perm)"

record readSet =
  rs_all :: bool
  rs_serverIds :: "uuid list"
  rs_databaseIds :: "uuid list"

fun readFrom :: "readSet \<Rightarrow> grant list \<Rightarrow> string \<Rightarrow> readSet" where
  "readFrom rs [] perm = rs"
| "readFrom rs (g # gs) perm =
     (if gr_permission g \<noteq> perm then readFrom rs gs perm
      else case sc_type (gr_scope g) of
        ScopeGlobal \<Rightarrow> \<lparr>rs_all = True, rs_serverIds = [], rs_databaseIds = []\<rparr>
      | ScopeServer \<Rightarrow> readFrom (rs\<lparr>rs_serverIds := rs_serverIds rs @ [sc_id (gr_scope g)]\<rparr>) gs perm
      | ScopeDatabase \<Rightarrow> readFrom (rs\<lparr>rs_databaseIds := rs_databaseIds rs @ [sc_id (gr_scope g)]\<rparr>) gs perm)"

definition readableScope :: "grant list \<Rightarrow> string \<Rightarrow> readSet" where
  "readableScope gs perm = readFrom \<lparr>rs_all = False, rs_serverIds = [], rs_databaseIds = []\<rparr> gs perm"

subsection \<open>What the decisions mean\<close>

named_theorems authz_iff \<open>the decision functions as statements about the grants\<close>

lemma scope_eqI: "sc_type s = sc_type t \<Longrightarrow> sc_id s = sc_id t \<Longrightarrow> s = (t :: accessScope)"
  by (cases s; cases t) simp

lemma covers_iff [authz_iff]: "ancestryCovers anc s \<longleftrightarrow> s \<in> set anc"
  by (induction anc) (auto intro: scope_eqI)

lemma allow_iff [authz_iff]:
  "allow gs perm anc \<longleftrightarrow>
     (\<exists>g \<in> set gs. gr_permission g = perm \<and> (sc_type (gr_scope g) = ScopeGlobal \<or> gr_scope g \<in> set anc))"
  by (induction gs) (auto simp: covers_iff)

lemma hasGlobal_iff [authz_iff]:
  "hasGlobal gs perm \<longleftrightarrow> (\<exists>g \<in> set gs. gr_permission g = perm \<and> sc_type (gr_scope g) = ScopeGlobal)"
  by (induction gs) auto

lemma hasGlobal_allow: "hasGlobal gs perm \<longleftrightarrow> allow gs perm []"
  by (simp add: authz_iff)

lemma allow_mono: "allow gs perm anc \<Longrightarrow> set gs \<subseteq> set hs \<Longrightarrow> set anc \<subseteq> set anc' \<Longrightarrow> allow hs perm anc'"
  unfolding allow_iff by blast

definition heldIds :: "scopeType \<Rightarrow> grant list \<Rightarrow> string \<Rightarrow> uuid list" where
  "heldIds t gs perm =
     map (sc_id \<circ> gr_scope) (filter (\<lambda>g. gr_permission g = perm \<and> sc_type (gr_scope g) = t) gs)"

lemma readFrom_eq:
  "readFrom rs gs perm =
     (if hasGlobal gs perm then \<lparr>rs_all = True, rs_serverIds = [], rs_databaseIds = []\<rparr>
      else rs\<lparr>rs_serverIds := rs_serverIds rs @ heldIds ScopeServer gs perm,
              rs_databaseIds := rs_databaseIds rs @ heldIds ScopeDatabase gs perm\<rparr>)"
proof (induction gs arbitrary: rs)
  case (Cons g gs)
  then show ?case by (cases "sc_type (gr_scope g)") (auto simp: heldIds_def)
qed (simp add: heldIds_def)

lemma readableScope_eq [authz_iff]:
  "readableScope gs perm =
     (if hasGlobal gs perm then \<lparr>rs_all = True, rs_serverIds = [], rs_databaseIds = []\<rparr>
      else \<lparr>rs_all = False, rs_serverIds = heldIds ScopeServer gs perm, rs_databaseIds = heldIds ScopeDatabase gs perm\<rparr>)"
  by (simp add: readableScope_def readFrom_eq)

lemma heldIds_iff [authz_iff]:
  "i \<in> set (heldIds t gs perm)
     \<longleftrightarrow> (\<exists>g \<in> set gs. gr_permission g = perm \<and> gr_scope g = \<lparr>sc_type = t, sc_id = i\<rparr>)"
  by (auto simp: heldIds_def image_iff intro!: scope_eqI)

text \<open>The restriction of an API token keeps exactly the grants of its permissions
  (\<open>restrictToScopes\<close> of \<open>app/auth/service.go\<close>).\<close>

definition restrictToScopes :: "grant list \<Rightarrow> string list \<Rightarrow> grant list" where
  "restrictToScopes gs scopes = filter (\<lambda>g. gr_permission g \<in> set scopes) gs"

lemma allow_restrict: "allow (restrictToScopes gs scopes) perm anc \<longleftrightarrow> perm \<in> set scopes \<and> allow gs perm anc"
  by (auto simp: authz_iff restrictToScopes_def)

end
