(* ===== verification/Accounts.thy ===== *)
theory Accounts
  imports Authz Jobs
begin

text \<open>
  Operator accounts, roles and role grants: \<open>domain/user\<close>, the repositories
  \<open>infra/postgres/user_repository.go\<close>, \<open>user_repository_admin.go\<close>, \<open>role_repository.go\<close> and the use cases
  of \<open>app/user\<close>.  The tables are lists of records, with the counter that supplies fresh UUIDs and the
  clock of the store; a service call is one function of the store that returns its result and the store
  it leaves, also when it fails half way.  Third-party functions (bcrypt, the random source, the
  signature of sessions, the collation of \<open>citext\<close>, the address parser of \<open>net/mail\<close> and the Unicode
  tables) are the fields of \<open>authEnv\<close>.
\<close>

subsection \<open>The data\<close>

record authEnv =
  ae_bcrypt :: "uuid \<Rightarrow> string \<Rightarrow> string"
  ae_check :: "string \<Rightarrow> string \<Rightarrow> bool"
  ae_fold :: "string \<Rightarrow> string"
  ae_mailbox :: "string \<Rightarrow> bool"
  ae_runes :: "string \<Rightarrow> bool"
  ae_random :: "uuid \<Rightarrow> string"
  ae_sha :: "string \<Rightarrow> string"
  ae_sign :: "idText \<Rightarrow> int \<Rightarrow> int \<Rightarrow> string"
  ae_claims :: "int \<Rightarrow> string \<Rightarrow> (idText \<times> int) option"

record user =
  us_id :: uuid
  us_email :: string
  us_name :: string
  us_status :: string
  us_hash :: "string option"
  us_epoch :: int
  us_createdAt :: int
  us_version :: nat

abbreviation statusActive :: string where "statusActive \<equiv> ''active''"
abbreviation statusSuspended :: string where "statusSuspended \<equiv> ''suspended''"

record role =
  ro_id :: uuid
  ro_name :: string
  ro_description :: string
  ro_isSystem :: bool
  ro_permissions :: "string list"

record userRole =
  ur_id :: uuid
  ur_userId :: uuid
  ur_roleId :: uuid
  ur_scopeType :: scopeType
  ur_scopeId :: "uuid option"

record token =
  tk_id :: uuid
  tk_userId :: uuid
  tk_name :: string
  tk_prefix :: string
  tk_hash :: string
  tk_scopes :: "string list"
  tk_lastUsedAt :: "int option"
  tk_expiresAt :: "int option"
  tk_revokedAt :: "int option"
  tk_createdAt :: int

record accounts =
  ac_users :: "user list"
  ac_roles :: "role list"
  ac_userRoles :: "userRole list"
  ac_tokens :: "token list"
  ac_next :: uuid
  ac_now :: int

definition permissionCatalog :: "string list" where
  "permissionCatalog = [''server:read'', ''server:write'', ''instance:read'', ''instance:write'',
     ''database:read'', ''database:write'', ''operation:read'', ''operation:write'', ''backup:read'', ''backup:write'',
     ''destination:read'', ''destination:write'', ''schedule:read'', ''schedule:write'',
     ''notification:read'', ''notification:write'', ''user:read'', ''user:write'', ''token:read'', ''token:write'',
     ''audit:read'']"

subsection \<open>The user repository\<close>

definition userGet :: "uuid \<Rightarrow> accounts \<Rightarrow> apperr + user" where
  "userGet i s = (case List.find (\<lambda>u. us_id u = i) (ac_users s) of
     None \<Rightarrow> Inl (NotFound ''user not found'') | Some u \<Rightarrow> Inr u)"

definition credentialsByEmail :: "authEnv \<Rightarrow> string \<Rightarrow> accounts \<Rightarrow> apperr + (user \<times> string)" where
  "credentialsByEmail e email s =
     (case List.find (\<lambda>u. ae_fold e (us_email u) = ae_fold e email) (ac_users s) of
        None \<Rightarrow> Inl (NotFound ''user not found'')
      | Some u \<Rightarrow> (case us_hash u of
          None \<Rightarrow> Inl (NotFound ''user has no password set'') | Some h \<Rightarrow> Inr (u, h)))"

definition roleById :: "uuid \<Rightarrow> accounts \<Rightarrow> role option" where
  "roleById i s = List.find (\<lambda>r. ro_id r = i) (ac_roles s)"

definition roleNamed :: "string \<Rightarrow> accounts \<Rightarrow> role option" where
  "roleNamed n s = List.find (\<lambda>r. ro_name r = n) (ac_roles s)"

text \<open>\<open>GrantsFor\<close>: one row per permission and scope, without duplicates.\<close>

definition grantOf :: "userRole \<Rightarrow> string \<Rightarrow> grant" where
  "grantOf ur perm = \<lparr>gr_permission = perm, gr_scope = \<lparr>sc_type = ur_scopeType ur,
     sc_id = (case ur_scopeId ur of None \<Rightarrow> uuid_nil | Some i \<Rightarrow> i)\<rparr>\<rparr>"

definition grantsFor :: "uuid \<Rightarrow> accounts \<Rightarrow> grant list" where
  "grantsFor i s = remdups (concat (map (\<lambda>ur. case roleById (ur_roleId ur) s of
       None \<Rightarrow> [] | Some r \<Rightarrow> map (grantOf ur) (ro_permissions r))
     (filter (\<lambda>ur. ur_userId ur = i) (ac_userRoles s))))"

definition rolesFor :: "uuid \<Rightarrow> accounts \<Rightarrow> string list" where
  "rolesFor i s = sort (concat (map (\<lambda>ur. case roleById (ur_roleId ur) s of None \<Rightarrow> [] | Some r \<Rightarrow> [ro_name r])
     (filter (\<lambda>ur. ur_userId ur = i \<and> ur_scopeType ur = ScopeGlobal) (ac_userRoles s))))"

definition holdsRole :: "uuid \<Rightarrow> string \<Rightarrow> accounts \<Rightarrow> bool" where
  "holdsRole i n s \<longleftrightarrow> list_ex (\<lambda>ur. ur_userId ur = i \<and> ur_scopeType ur = ScopeGlobal
     \<and> list_ex (\<lambda>r. ro_id r = ur_roleId ur \<and> ro_name r = n) (ac_roles s)) (ac_userRoles s)"

definition activeOwners :: "accounts \<Rightarrow> uuid list" where
  "activeOwners s =
     remdups (map us_id (filter (\<lambda>u. holdsRole (us_id u) ''owner'' s \<and> us_status u = statusActive) (ac_users s)))"

definition countActiveOwners :: "accounts \<Rightarrow> nat" where
  "countActiveOwners s = length (activeOwners s)"

definition userExists :: "uuid \<Rightarrow> accounts \<Rightarrow> bool" where
  "userExists i s \<longleftrightarrow> list_ex (\<lambda>u. us_id u = i) (ac_users s)"

text \<open>The shape of every \<open>UPDATE users\<close>: the row's version goes up, no row is an error.\<close>

definition userUpdate :: "uuid \<Rightarrow> (user \<Rightarrow> user) \<Rightarrow> accounts \<Rightarrow> apperr option \<times> accounts" where
  "userUpdate i f s =
     (if userExists i s
      then (None, s\<lparr>ac_users := map (\<lambda>u. if us_id u = i then (f u)\<lparr>us_version := us_version u + 1\<rparr> else u) (ac_users s)\<rparr>)
      else (Some (NotFound ''user not found''), s))"

definition emailTaken :: "authEnv \<Rightarrow> uuid \<Rightarrow> string \<Rightarrow> accounts \<Rightarrow> bool" where
  "emailTaken e i email s \<longleftrightarrow> list_ex (\<lambda>u. us_id u \<noteq> i \<and> ae_fold e (us_email u) = ae_fold e email) (ac_users s)"

definition orKeep :: "'a option \<Rightarrow> 'a \<Rightarrow> 'a" where
  "orKeep x y = (case x of None \<Rightarrow> y | Some z \<Rightarrow> z)"

definition profileUpdate :: "authEnv \<Rightarrow> uuid \<Rightarrow> string option \<Rightarrow> string option \<Rightarrow> accounts \<Rightarrow> apperr option \<times> accounts" where
  "profileUpdate e i name email s =
     (if userExists i s \<and> (case email of None \<Rightarrow> False | Some m \<Rightarrow> emailTaken e i m s)
      then (Some (Conflict ''a user with this email already exists''), s)
      else userUpdate i (\<lambda>u. u\<lparr>us_name := orKeep name (us_name u), us_email := orKeep email (us_email u)\<rparr>) s)"

definition bumpTokenEpoch :: "uuid \<Rightarrow> accounts \<Rightarrow> apperr option \<times> accounts" where
  "bumpTokenEpoch i = userUpdate i (\<lambda>u. u\<lparr>us_epoch := us_epoch u + 1\<rparr>)"

definition setPassword :: "uuid \<Rightarrow> string \<Rightarrow> accounts \<Rightarrow> apperr option \<times> accounts" where
  "setPassword i hash = userUpdate i (\<lambda>u. u\<lparr>us_hash := Some hash, us_epoch := us_epoch u + 1\<rparr>)"

definition setStatus :: "uuid \<Rightarrow> string \<Rightarrow> accounts \<Rightarrow> apperr option \<times> accounts" where
  "setStatus i st = userUpdate i (\<lambda>u. u\<lparr>us_status := st\<rparr>)"

definition globalRoleRow :: "uuid \<Rightarrow> uuid \<Rightarrow> uuid \<Rightarrow> userRole" where
  "globalRoleRow i user r =
     \<lparr>ur_id = i, ur_userId = user, ur_roleId = r, ur_scopeType = ScopeGlobal, ur_scopeId = None\<rparr>"

definition setGlobalRole :: "uuid \<Rightarrow> string \<Rightarrow> accounts \<Rightarrow> apperr option \<times> accounts" where
  "setGlobalRole i name s =
     (case roleNamed name s of
        None \<Rightarrow> (Some (Invalid ''role'' ''unknown role''), s)
      | Some r \<Rightarrow>
          if \<not> userExists i s then (Some (Internal ''grant role: violates foreign key constraint''), s)
          else (None, s\<lparr>ac_userRoles := filter (\<lambda>ur. \<not> (ur_userId ur = i \<and> ur_scopeType ur = ScopeGlobal)) (ac_userRoles s)
                  @ [globalRoleRow (ac_next s) i (ro_id r)], ac_next := ac_next s + 1\<rparr>))"

text \<open>Deleting an account deletes its grants and its API tokens with it (\<open>ON DELETE CASCADE\<close>).\<close>

definition userDelete :: "uuid \<Rightarrow> accounts \<Rightarrow> apperr option \<times> accounts" where
  "userDelete i s =
     (if userExists i s
      then (None, s\<lparr>ac_users := filter (\<lambda>u. us_id u \<noteq> i) (ac_users s),
              ac_userRoles := filter (\<lambda>ur. ur_userId ur \<noteq> i) (ac_userRoles s),
              ac_tokens := filter (\<lambda>t. tk_userId t \<noteq> i) (ac_tokens s)\<rparr>)
      else (Some (NotFound ''user not found''), s))"

definition createWithRole :: "authEnv \<Rightarrow> user \<Rightarrow> string \<Rightarrow> string \<Rightarrow> accounts \<Rightarrow> apperr option \<times> accounts" where
  "createWithRole e u hash name s =
     (if emailTaken e (us_id u) (us_email u) s
      then (Some (Internal ''insert user: duplicate key value violates unique constraint''), s)
      else case roleNamed name s of
        None \<Rightarrow> (Some (Internal ''find role''), s)
      | Some r \<Rightarrow>
          (None, s\<lparr>ac_users := ac_users s @ [u\<lparr>us_hash := Some hash, us_epoch := 0, us_createdAt := ac_now s, us_version := 0\<rparr>],
             ac_userRoles := ac_userRoles s @ [globalRoleRow (ac_next s) (us_id u) (ro_id r)],
             ac_next := ac_next s + 1\<rparr>))"

subsection \<open>The grant and role repositories\<close>

record roleGrant =
  rg_id :: uuid
  rg_roleId :: uuid
  rg_roleName :: string
  rg_scopeType :: scopeType
  rg_scopeId :: "uuid option"

definition asGrant :: "accounts \<Rightarrow> userRole \<Rightarrow> roleGrant list" where
  "asGrant s ur = (case roleById (ur_roleId ur) s of None \<Rightarrow> []
     | Some r \<Rightarrow> [\<lparr>rg_id = ur_id ur, rg_roleId = ur_roleId ur, rg_roleName = ro_name r,
                  rg_scopeType = ur_scopeType ur, rg_scopeId = ur_scopeId ur\<rparr>])"

definition listGrants :: "uuid \<Rightarrow> accounts \<Rightarrow> roleGrant list" where
  "listGrants i s = sort_key rg_scopeType (sort_key rg_roleName
     (concat (map (asGrant s) (filter (\<lambda>ur. ur_userId ur = i) (ac_userRoles s)))))"

definition getGrant :: "uuid \<Rightarrow> uuid \<Rightarrow> accounts \<Rightarrow> apperr + roleGrant" where
  "getGrant user i s =
     (case concat (map (asGrant s) (filter (\<lambda>ur. ur_id ur = i \<and> ur_userId ur = user) (ac_userRoles s))) of
        [] \<Rightarrow> Inl (NotFound ''grant not found'') | g # _ \<Rightarrow> Inr g)"

definition insertGrant :: "uuid \<Rightarrow> string \<Rightarrow> scopeType \<Rightarrow> uuid option \<Rightarrow> accounts \<Rightarrow> (apperr + roleGrant) \<times> accounts" where
  "insertGrant user name st sid s =
     (case roleNamed name s of
        None \<Rightarrow> (Inl (Invalid ''role'' ''unknown role''), s)
      | Some r \<Rightarrow>
          if list_ex (\<lambda>ur. ur_userId ur = user \<and> ur_roleId ur = ro_id r \<and> ur_scopeType ur = st \<and> ur_scopeId ur = sid)
               (ac_userRoles s)
          then (Inl (Conflict ''this role is already granted at that scope''), s)
          else if \<not> userExists user s then (Inl (Internal ''add grant: violates foreign key constraint''), s)
          else (Inr \<lparr>rg_id = ac_next s, rg_roleId = ro_id r, rg_roleName = name, rg_scopeType = st, rg_scopeId = sid\<rparr>,
                s\<lparr>ac_userRoles := ac_userRoles s @ [\<lparr>ur_id = ac_next s, ur_userId = user, ur_roleId = ro_id r,
                     ur_scopeType = st, ur_scopeId = sid\<rparr>], ac_next := ac_next s + 1\<rparr>))"

definition deleteGrant :: "uuid \<Rightarrow> uuid \<Rightarrow> accounts \<Rightarrow> apperr option \<times> accounts" where
  "deleteGrant user i s =
     (if list_ex (\<lambda>ur. ur_id ur = i \<and> ur_userId ur = user) (ac_userRoles s)
      then (None, s\<lparr>ac_userRoles := filter (\<lambda>ur. \<not> (ur_id ur = i \<and> ur_userId ur = user)) (ac_userRoles s)\<rparr>)
      else (Some (NotFound ''grant not found''), s))"

definition listRoles :: "accounts \<Rightarrow> role list" where
  "listRoles s = sort_key ro_name (ac_roles s)"

definition roleGet :: "uuid \<Rightarrow> accounts \<Rightarrow> apperr + role" where
  "roleGet i s = (case roleById i s of None \<Rightarrow> Inl (NotFound ''role not found'') | Some r \<Rightarrow> Inr r)"

definition roleInsert :: "role \<Rightarrow> accounts \<Rightarrow> apperr option \<times> accounts" where
  "roleInsert r s =
     (if list_ex (\<lambda>x. ro_name x = ro_name r) (ac_roles s)
      then (Some (Conflict ''a role with this name already exists''), s)
      else (None, s\<lparr>ac_roles := ac_roles s @ [r\<lparr>ro_isSystem := False, ro_permissions := sort (remdups (ro_permissions r))\<rparr>]\<rparr>))"

definition roleUpdate :: "uuid \<Rightarrow> string option \<Rightarrow> string option \<Rightarrow> string list option \<Rightarrow> accounts \<Rightarrow> apperr option \<times> accounts" where
  "roleUpdate i name desc perms s =
     (if \<not> list_ex (\<lambda>x. ro_id x = i) (ac_roles s) then (Some (NotFound ''role not found''), s)
      else if (case name of None \<Rightarrow> False | Some n \<Rightarrow> list_ex (\<lambda>x. ro_id x \<noteq> i \<and> ro_name x = n) (ac_roles s))
      then (Some (Conflict ''a role with this name already exists''), s)
      else (None, s\<lparr>ac_roles := map (\<lambda>r. if ro_id r = i then r\<lparr>ro_name := orKeep name (ro_name r),
               ro_description := orKeep desc (ro_description r),
               ro_permissions := orKeep (map_option (\<lambda>ps. sort (remdups ps)) perms) (ro_permissions r)\<rparr> else r) (ac_roles s)\<rparr>))"

definition roleDelete :: "uuid \<Rightarrow> accounts \<Rightarrow> apperr option \<times> accounts" where
  "roleDelete i s =
     (if list_ex (\<lambda>x. ro_id x = i) (ac_roles s)
      then (None, s\<lparr>ac_roles := filter (\<lambda>r. ro_id r \<noteq> i) (ac_roles s),
              ac_userRoles := filter (\<lambda>ur. ur_roleId ur \<noteq> i) (ac_userRoles s)\<rparr>)
      else (Some (NotFound ''role not found''), s))"

definition countRoleAssignments :: "uuid \<Rightarrow> accounts \<Rightarrow> nat" where
  "countRoleAssignments i s = length (filter (\<lambda>ur. ur_roleId ur = i) (ac_userRoles s))"

subsection \<open>The use cases: validation\<close>

definition maxPasswordBytes :: nat where "maxPasswordBytes = 72"

definition minPasswordLen :: nat where "minPasswordLen = 8"

definition hashPassword :: "authEnv \<Rightarrow> uuid \<Rightarrow> string \<Rightarrow> string option" where
  "hashPassword e salt pw = (if length pw > maxPasswordBytes then None else Some (ae_bcrypt e salt pw))"

definition validatePassword :: "string \<Rightarrow> apperr option" where
  "validatePassword pw =
     (if length pw < minPasswordLen then Some (Invalid ''password'' ''password must be at least 8 characters'')
      else if length pw > maxPasswordBytes
      then Some (Invalid ''password'' ''password must be at most 72 bytes (72 plain letters, fewer with accents or non-Latin letters)'')
      else None)"

definition normalizeEmail :: "authEnv \<Rightarrow> string \<Rightarrow> apperr + string" where
  "normalizeEmail e raw =
     (let email = trimSpace (toLowerAscii raw)
      in if email = [] then Inl (Invalid ''email'' ''email is required'')
         else if \<not> ae_mailbox e email then Inl (Invalid ''email'' ''email is not valid'')
         else Inr email)"

definition ensureRoleExists :: "string \<Rightarrow> accounts \<Rightarrow> apperr option" where
  "ensureRoleExists n s =
     (if list_ex (\<lambda>r. ro_name r = n) (listRoles s) then None else Some (Invalid ''role'' ''unknown role''))"

definition guardLastOwner :: "uuid \<Rightarrow> accounts \<Rightarrow> apperr option" where
  "guardLastOwner i s =
     (if ''owner'' \<notin> set (rolesFor i s) then None
      else if countActiveOwners s \<le> 1
      then Some (Conflict ''this is the last active owner account; assign another owner first'')
      else None)"

definition trimmedName :: "string \<Rightarrow> string \<Rightarrow> apperr + string" where
  "trimmedName msg raw =
     (let n = trimSpace raw in if n = [] \<or> length n > 120 then Inl (Invalid ''name'' msg) else Inr n)"

fun mapOpt :: "('a \<Rightarrow> apperr + 'b) \<Rightarrow> 'a option \<Rightarrow> apperr + 'b option" where
  "mapOpt f None = Inr None"
| "mapOpt f (Some x) = ebind (f x) (\<lambda>y. Inr (Some y))"

subsection \<open>The use cases: accounts\<close>

type_synonym withRoles = "user \<times> string list"

record createInput =
  ki_name :: string
  ki_email :: string
  ki_password :: string
  ki_role :: string

definition errMessage :: "apperr \<Rightarrow> string" where
  "errMessage er = (case er of Internal m \<Rightarrow> m | Invalid _ m \<Rightarrow> m | NotFound m \<Rightarrow> m | Conflict m \<Rightarrow> m
     | Unauthorized m \<Rightarrow> m | Forbidden m \<Rightarrow> m)"

definition newUser :: "uuid \<Rightarrow> string \<Rightarrow> string \<Rightarrow> user" where
  "newUser i email name = \<lparr>us_id = i, us_email = email, us_name = name, us_status = statusActive, us_hash = None,
     us_epoch = 0, us_createdAt = 0, us_version = 0\<rparr>"

definition createUser :: "authEnv \<Rightarrow> createInput \<Rightarrow> accounts \<Rightarrow> (apperr + withRoles) \<times> accounts" where
  "createUser e inp s =
     (let checked = ebind (trimmedName ''name is required and must be at most 120 characters'' (ki_name inp)) (\<lambda>name.
            ebind (normalizeEmail e (ki_email inp)) (\<lambda>email.
            case validatePassword (ki_password inp) of
              Some er \<Rightarrow> Inl er
            | None \<Rightarrow>
                let role = (if ki_role inp = [] then ''viewer'' else ki_role inp)
                in case ensureRoleExists role s of
                     Some er \<Rightarrow> Inl er
                   | None \<Rightarrow> (case hashPassword e (ac_next s) (ki_password inp) of
                        None \<Rightarrow> Inl (Internal ''hash'') | Some h \<Rightarrow> Inr (name, email, role, h))))
      in case checked of
           Inl er \<Rightarrow> (Inl er, s)
         | Inr (name, email, role, h) \<Rightarrow>
             let u = newUser (ac_next s) email name; s1 = s\<lparr>ac_next := ac_next s + 1\<rparr>
             in case createWithRole e u h role s1 of
                  (Some er, s2) \<Rightarrow>
                    ((if strContains (errMessage er) ''duplicate'' \<or> strContains (errMessage er) ''unique''
                      then Inl (Conflict ''a user with this email already exists'') else Inl er), s2)
                | (None, s2) \<Rightarrow> (Inr (u\<lparr>us_createdAt := ac_now s\<rparr>, [role]), s2))"

record updateInput =
  ui_name :: "string option"
  ui_email :: "string option"
  ui_status :: "string option"
  ui_role :: "string option"

text \<open>\<open>Update\<close> in its two halves: everything it reads and checks, and the statements it then sends one
  after the other.\<close>

definition statusCheck :: "uuid \<Rightarrow> uuid \<Rightarrow> string option \<Rightarrow> apperr option" where
  "statusCheck actor i st = (case st of
     None \<Rightarrow> None
   | Some x \<Rightarrow>
       if x \<noteq> statusActive \<and> x \<noteq> statusSuspended
       then Some (Invalid ''status'' ''status must be active or suspended'')
       else if i = actor \<and> x = statusSuspended
       then Some (Invalid ''status'' ''you cannot suspend your own account'')
       else None)"

definition demotes :: "updateInput \<Rightarrow> bool" where
  "demotes inp \<longleftrightarrow> ui_status inp = Some statusSuspended \<or> (ui_role inp \<noteq> None \<and> ui_role inp \<noteq> Some ''owner'')"

definition updateChecks :: "authEnv \<Rightarrow> uuid \<Rightarrow> idText \<Rightarrow> updateInput \<Rightarrow> accounts \<Rightarrow> apperr + (uuid \<times> updateInput)" where
  "updateChecks e actor idt inp s =
     (case parseId idt of
        None \<Rightarrow> Inl (Invalid ''id'' ''id must be a valid UUID'')
      | Some i \<Rightarrow>
          ebind (mapOpt (normalizeEmail e) (ui_email inp)) (\<lambda>email.
          ebind (mapOpt (trimmedName ''name must be 1-120 characters'') (ui_name inp)) (\<lambda>name.
          case statusCheck actor i (ui_status inp) of
            Some er \<Rightarrow> Inl er
          | None \<Rightarrow>
              case (case ui_role inp of None \<Rightarrow> None | Some r \<Rightarrow> ensureRoleExists r s) of
                Some er \<Rightarrow> Inl er
              | None \<Rightarrow>
                  case (if demotes inp then guardLastOwner i s else None) of
                    Some er \<Rightarrow> Inl er
                  | None \<Rightarrow> Inr (i, inp\<lparr>ui_email := email, ui_name := name\<rparr>))))"

text \<open>A sequence of statements stops at the first error and keeps what was already written.\<close>

fun runWrites :: "(accounts \<Rightarrow> apperr option \<times> accounts) list \<Rightarrow> accounts \<Rightarrow> apperr option \<times> accounts" where
  "runWrites [] s = (None, s)"
| "runWrites (f # fs) s = (case f s of (Some er, s') \<Rightarrow> (Some er, s') | (None, s') \<Rightarrow> runWrites fs s')"

definition updateWrites :: "authEnv \<Rightarrow> uuid \<Rightarrow> updateInput \<Rightarrow> accounts \<Rightarrow> apperr option \<times> accounts" where
  "updateWrites e i inp =
     runWrites ((if ui_name inp \<noteq> None \<or> ui_email inp \<noteq> None then [profileUpdate e i (ui_name inp) (ui_email inp)] else [])
       @ (case ui_status inp of None \<Rightarrow> [] | Some st \<Rightarrow> [setStatus i st])
       @ (case ui_role inp of None \<Rightarrow> [] | Some r \<Rightarrow> [setGlobalRole i r]))"

definition profile :: "uuid \<Rightarrow> accounts \<Rightarrow> apperr + withRoles" where
  "profile i s = ebind (userGet i s) (\<lambda>u. Inr (u, rolesFor i s))"

definition updateUser :: "authEnv \<Rightarrow> uuid \<Rightarrow> idText \<Rightarrow> updateInput \<Rightarrow> accounts \<Rightarrow> (apperr + withRoles) \<times> accounts" where
  "updateUser e actor idt inp s =
     (case updateChecks e actor idt inp s of
        Inl er \<Rightarrow> (Inl er, s)
      | Inr (i, inp') \<Rightarrow> (case updateWrites e i inp' s of
            (Some er, s') \<Rightarrow> (Inl er, s')
          | (None, s') \<Rightarrow> (profile i s', s')))"

definition resetPassword :: "authEnv \<Rightarrow> idText \<Rightarrow> string \<Rightarrow> accounts \<Rightarrow> apperr option \<times> accounts" where
  "resetPassword e idt pw s =
     (case parseId idt of
        None \<Rightarrow> (Some (Invalid ''id'' ''id must be a valid UUID''), s)
      | Some i \<Rightarrow> (case validatePassword pw of
          Some er \<Rightarrow> (Some er, s)
        | None \<Rightarrow> (case hashPassword e (ac_next s) pw of
            None \<Rightarrow> (Some (Internal ''hash''), s)
          | Some h \<Rightarrow> setPassword i h s)))"

definition deleteChecks :: "uuid \<Rightarrow> idText \<Rightarrow> accounts \<Rightarrow> apperr + uuid" where
  "deleteChecks actor idt s =
     (case parseId idt of
        None \<Rightarrow> Inl (Invalid ''id'' ''id must be a valid UUID'')
      | Some i \<Rightarrow>
          if i = actor then Inl (Invalid ''id'' ''you cannot delete your own account'')
          else case guardLastOwner i s of Some er \<Rightarrow> Inl er | None \<Rightarrow> Inr i)"

definition deleteUser :: "uuid \<Rightarrow> idText \<Rightarrow> accounts \<Rightarrow> apperr option \<times> accounts" where
  "deleteUser actor idt s =
     (case deleteChecks actor idt s of Inl er \<Rightarrow> (Some er, s) | Inr i \<Rightarrow> userDelete i s)"

definition updateProfile :: "authEnv \<Rightarrow> uuid \<Rightarrow> string option \<Rightarrow> string option \<Rightarrow> accounts \<Rightarrow> (apperr + withRoles) \<times> accounts" where
  "updateProfile e i name email s =
     (case ebind (mapOpt (trimmedName ''name must be 1-120 characters'') name) (\<lambda>n.
             ebind (mapOpt (normalizeEmail e) email) (\<lambda>m.
             if n = None \<and> m = None then Inl (Invalid ''body'' ''nothing to update'') else Inr (n, m))) of
        Inl er \<Rightarrow> (Inl er, s)
      | Inr (n, m) \<Rightarrow> (case profileUpdate e i n m s of
            (Some er, s') \<Rightarrow> (Inl er, s')
          | (None, s') \<Rightarrow> (profile i s', s')))"

definition changePassword :: "authEnv \<Rightarrow> uuid \<Rightarrow> string \<Rightarrow> string \<Rightarrow> accounts \<Rightarrow> apperr option \<times> accounts" where
  "changePassword e i current new s =
     (case validatePassword new of
        Some er \<Rightarrow> (Some er, s)
      | None \<Rightarrow> (case userGet i s of
          Inl er \<Rightarrow> (Some er, s)
        | Inr u \<Rightarrow> (case credentialsByEmail e (us_email u) s of
            Inl er \<Rightarrow> (Some (Internal (errMessage er)), s)
          | Inr (c, h) \<Rightarrow>
              if \<not> ae_check e h current
              then (Some (Invalid ''current_password'' ''current password is incorrect''), s)
              else (case hashPassword e (ac_next s) new of
                None \<Rightarrow> (Some (Internal ''hash''), s)
              | Some h' \<Rightarrow> setPassword i h' s))))"

subsection \<open>The use cases: grants and roles\<close>

definition grantsOfUser :: "idText \<Rightarrow> accounts \<Rightarrow> apperr + roleGrant list" where
  "grantsOfUser idt s = (case parseId idt of
     None \<Rightarrow> Inl (Invalid ''id'' ''id must be a valid UUID'') | Some i \<Rightarrow> Inr (listGrants i s))"

definition parseScopeType :: "string \<Rightarrow> scopeType option" where
  "parseScopeType t = List.find (\<lambda>st. scopeText st = t) [ScopeGlobal, ScopeServer, ScopeDatabase]"

record addGrantInput =
  gi_role :: string
  gi_scopeType :: string
  gi_scopeId :: idText

definition addGrant :: "idText \<Rightarrow> addGrantInput \<Rightarrow> accounts \<Rightarrow> (apperr + roleGrant) \<times> accounts" where
  "addGrant idt inp s =
     (case parseId idt of
        None \<Rightarrow> (Inl (Invalid ''id'' ''id must be a valid UUID''), s)
      | Some i \<Rightarrow> (case parseScopeType (gi_scopeType inp) of
          None \<Rightarrow> (Inl (Invalid ''scope_type'' ''scope_type must be global, server or database''), s)
        | Some st \<Rightarrow> (case ensureRoleExists (gi_role inp) s of
            Some er \<Rightarrow> (Inl er, s)
          | None \<Rightarrow>
              if st = ScopeGlobal then
                (if gi_scopeId inp \<noteq> IdEmpty
                 then (Inl (Invalid ''scope_id'' ''scope_id must be empty for global scope''), s)
                 else insertGrant i (gi_role inp) st None s)
              else (case parseId (gi_scopeId inp) of
                None \<Rightarrow> (Inl (Invalid ''scope_id'' ''scope_id must be a valid UUID''), s)
              | Some sid \<Rightarrow> insertGrant i (gi_role inp) st (Some sid) s))))"

definition removeGrant :: "idText \<Rightarrow> idText \<Rightarrow> accounts \<Rightarrow> apperr option \<times> accounts" where
  "removeGrant idt gidt s =
     (case parseId idt of
        None \<Rightarrow> (Some (Invalid ''id'' ''id must be a valid UUID''), s)
      | Some i \<Rightarrow> (case parseId gidt of
          None \<Rightarrow> (Some (Invalid ''grant_id'' ''grant_id must be a valid UUID''), s)
        | Some gi \<Rightarrow> (case getGrant i gi s of
            Inl er \<Rightarrow> (Some er, s)
          | Inr g \<Rightarrow>
              case (if rg_roleName g = ''owner'' \<and> rg_scopeType g = ScopeGlobal then guardLastOwner i s else None) of
                Some er \<Rightarrow> (Some er, s)
              | None \<Rightarrow> deleteGrant i gi s)))"

record roleInput =
  li_name :: "string option"
  li_description :: "string option"
  li_permissions :: "string list option"

text \<open>A role name is checked rune by rune; for the runes outside ASCII \<open>unicode.IsLower\<close> and
  \<open>unicode.IsDigit\<close> decide (\<open>ae_runes\<close>).\<close>

definition roleByteOk :: "char \<Rightarrow> bool" where
  "roleByteOk c \<longleftrightarrow> isLowerByte c \<or> isDigitByte c \<or> c = CHR ''-'' \<or> c = CHR ''_'' \<or> CHR 0x80 \<le> c"

definition validateRoleName :: "authEnv \<Rightarrow> string \<Rightarrow> apperr + string" where
  "validateRoleName e raw =
     (let name = trimSpace (toLowerAscii raw)
      in if length name < 2 \<or> length name > 40 then Inl (Invalid ''name'' ''name must be 2-40 characters'')
         else if \<not> (list_all roleByteOk name \<and> ae_runes e name)
         then Inl (Invalid ''name'' ''name may only contain lowercase letters, digits, hyphens and underscores'')
         else Inr name)"

fun permissionsFrom :: "string list \<Rightarrow> string list \<Rightarrow> apperr + string list" where
  "permissionsFrom out [] = Inr out"
| "permissionsFrom out (p # ps) =
     (if p \<notin> set permissionCatalog then Inl (Invalid ''permissions'' (''unknown permission: '' @ p))
      else if p \<in> set out then permissionsFrom out ps
      else permissionsFrom (out @ [p]) ps)"

definition validatePermissions :: "string list \<Rightarrow> apperr + string list" where
  "validatePermissions ps = permissionsFrom [] ps"

definition createRole :: "authEnv \<Rightarrow> roleInput \<Rightarrow> accounts \<Rightarrow> (apperr + role) \<times> accounts" where
  "createRole e inp s =
     (case li_name inp of
        None \<Rightarrow> (Inl (Invalid ''name'' ''name is required''), s)
      | Some raw \<Rightarrow> (case ebind (validateRoleName e raw) (\<lambda>n.
            ebind (validatePermissions (orKeep (li_permissions inp) [])) (\<lambda>ps. Inr (n, ps))) of
          Inl er \<Rightarrow> (Inl er, s)
        | Inr (n, ps) \<Rightarrow>
            let ro = \<lparr>ro_id = ac_next s, ro_name = n, ro_description = trimSpace (orKeep (li_description inp) []),
                      ro_isSystem = False, ro_permissions = ps\<rparr>
            in case roleInsert ro (s\<lparr>ac_next := ac_next s + 1\<rparr>) of
                 (Some er, s') \<Rightarrow> (Inl er, s') | (None, s') \<Rightarrow> (Inr ro, s')))"

definition updateRole :: "authEnv \<Rightarrow> idText \<Rightarrow> roleInput \<Rightarrow> accounts \<Rightarrow> (apperr + role) \<times> accounts" where
  "updateRole e idt inp s =
     (case parseId idt of
        None \<Rightarrow> (Inl (Invalid ''id'' ''id must be a valid UUID''), s)
      | Some i \<Rightarrow> (case roleGet i s of
          Inl er \<Rightarrow> (Inl er, s)
        | Inr old \<Rightarrow>
            if ro_isSystem old then (Inl (Invalid ''id'' ''system roles cannot be modified''), s)
            else (case ebind (mapOpt (validateRoleName e) (li_name inp)) (\<lambda>n.
                    ebind (mapOpt validatePermissions (li_permissions inp)) (\<lambda>ps. Inr (n, ps))) of
                Inl er \<Rightarrow> (Inl er, s)
              | Inr (n, ps) \<Rightarrow> (case roleUpdate i n (map_option trimSpace (li_description inp)) ps s of
                    (Some er, s') \<Rightarrow> (Inl er, s')
                  | (None, s') \<Rightarrow> (roleGet i s', s')))))"

definition deleteRole :: "idText \<Rightarrow> accounts \<Rightarrow> apperr option \<times> accounts" where
  "deleteRole idt s =
     (case parseId idt of
        None \<Rightarrow> (Some (Invalid ''id'' ''id must be a valid UUID''), s)
      | Some i \<Rightarrow> (case roleGet i s of
          Inl er \<Rightarrow> (Some er, s)
        | Inr r \<Rightarrow>
            if ro_isSystem r then (Some (Invalid ''id'' ''system roles cannot be deleted''), s)
            else if countRoleAssignments i s > 0
            then (Some (Conflict ''role is assigned to users; reassign them first''), s)
            else roleDelete i s))"

subsection \<open>Bootstrap\<close>

text \<open>\<open>EnsureAdmin\<close> of \<open>app/auth/service.go\<close>.\<close>

definition ensureAdmin :: "authEnv \<Rightarrow> string \<Rightarrow> string \<Rightarrow> accounts \<Rightarrow> (apperr + bool) \<times> accounts" where
  "ensureAdmin e email pw s =
     (if ac_users s \<noteq> [] then (Inr False, s)
      else case hashPassword e (ac_next s) pw of
        None \<Rightarrow> (Inl (Internal ''hash''), s)
      | Some h \<Rightarrow>
          let u = newUser (ac_next s) (trimSpace (toLowerAscii email)) ''Administrator''
          in case createWithRole e u h ''owner'' (s\<lparr>ac_next := ac_next s + 1\<rparr>) of
               (Some er, s') \<Rightarrow> (Inl er, s') | (None, s') \<Rightarrow> (Inr True, s'))"

end
