(* ===== verification/Sessions.thy ===== *)
theory Sessions
  imports Accounts "HOL-Library.Word"
begin

text \<open>
  Who is calling: password sign-in and the principal of a credential (\<open>app/auth/service.go\<close>), API tokens
  (\<open>app/token/service.go\<close>, \<open>infra/postgres/token_repository.go\<close>, the handlers of
  \<open>interfaces/httpapi/token_handler.go\<close>).  The lemmas bound what a token may do and say when a session
  ends.
\<close>

subsection \<open>Tokens\<close>

abbreviation apiTokenPrefix :: string where "apiTokenPrefix \<equiv> ''fleetd_''"

definition tokenLive :: "int \<Rightarrow> token \<Rightarrow> bool" where
  "tokenLive now t \<longleftrightarrow> tk_revokedAt t = None \<and> (case tk_expiresAt t of None \<Rightarrow> True | Some x \<Rightarrow> x > now)"

definition tokenUpdate :: "(token \<Rightarrow> bool) \<Rightarrow> (token \<Rightarrow> token) \<Rightarrow> accounts \<Rightarrow> accounts" where
  "tokenUpdate P f s = s\<lparr>ac_tokens := map (\<lambda>t. if P t then f t else t) (ac_tokens s)\<rparr>"

definition tokenInsert :: "token \<Rightarrow> accounts \<Rightarrow> apperr option \<times> accounts" where
  "tokenInsert t s =
     (if list_ex (\<lambda>x. tk_hash x = tk_hash t) (ac_tokens s) \<or> \<not> userExists (tk_userId t) s
      then (Some (Internal ''insert token''), s)
      else (None, s\<lparr>ac_tokens := ac_tokens s @ [t\<lparr>tk_lastUsedAt := None, tk_revokedAt := None, tk_createdAt := ac_now s\<rparr>]\<rparr>))"

definition tokensByUser :: "uuid \<Rightarrow> accounts \<Rightarrow> token list" where
  "tokensByUser i s = sort_key (\<lambda>t. - tk_createdAt t) (filter (\<lambda>t. tk_userId t = i) (ac_tokens s))"

definition tokenRevoke :: "uuid \<Rightarrow> uuid \<Rightarrow> accounts \<Rightarrow> apperr option \<times> accounts" where
  "tokenRevoke user i s =
     (let P = (\<lambda>t. tk_id t = i \<and> tk_userId t = user \<and> tk_revokedAt t = None)
      in if list_ex P (ac_tokens s)
         then (None, tokenUpdate P (\<lambda>t. t\<lparr>tk_revokedAt := Some (ac_now s)\<rparr>) s)
         else (Some (NotFound ''token not found''), s))"

text \<open>The live tokens of everyone, each with the e-mail of its owner (empty when the owner is gone).\<close>

definition activeTokens :: "accounts \<Rightarrow> (token \<times> string) list" where
  "activeTokens s = take 1000 (map (\<lambda>t. (t, case userGet (tk_userId t) s of Inl _ \<Rightarrow> [] | Inr u \<Rightarrow> us_email u))
     (sort_key (\<lambda>t. - tk_createdAt t) (filter (tokenLive (ac_now s)) (ac_tokens s))))"

definition tokenRevokeAny :: "uuid \<Rightarrow> accounts \<Rightarrow> (apperr + uuid) \<times> accounts" where
  "tokenRevokeAny i s =
     (let P = (\<lambda>t. tk_id t = i \<and> tk_revokedAt t = None)
      in case List.find P (ac_tokens s) of
           None \<Rightarrow> (Inl (NotFound ''token not found''), s)
         | Some t \<Rightarrow> (Inr (tk_userId t), tokenUpdate P (\<lambda>t. t\<lparr>tk_revokedAt := Some (ac_now s)\<rparr>) s))"

record lookup =
  lk_id :: uuid
  lk_userId :: uuid
  lk_scopes :: "string list"

definition resolveHash :: "string \<Rightarrow> accounts \<Rightarrow> (apperr + lookup) \<times> accounts" where
  "resolveHash hash s =
     (case List.find (\<lambda>t. tk_hash t = hash \<and> tokenLive (ac_now s) t) (ac_tokens s) of
        None \<Rightarrow> (Inl (NotFound ''token not found''), s)
      | Some t \<Rightarrow> (Inr \<lparr>lk_id = tk_id t, lk_userId = tk_userId t, lk_scopes = tk_scopes t\<rparr>,
                  tokenUpdate (\<lambda>t. tk_hash t = hash) (\<lambda>t. t\<lparr>tk_lastUsedAt := Some (ac_now s)\<rparr>) s))"

subsection \<open>The principal\<close>

record principal =
  pp_userId :: uuid
  pp_email :: string
  pp_tokenId :: "uuid option"
  pp_grants :: "grant list"
  pp_scopes :: "string list"

text \<open>A missing principal may do nothing.\<close>

definition can :: "principal option \<Rightarrow> string \<Rightarrow> bool" where
  "can p perm = (case p of None \<Rightarrow> False | Some x \<Rightarrow> hasGlobal (pp_grants x) perm)"

definition canOn :: "principal option \<Rightarrow> string \<Rightarrow> ancestry \<Rightarrow> bool" where
  "canOn p perm anc = (case p of None \<Rightarrow> False | Some x \<Rightarrow> allow (pp_grants x) perm anc)"

definition canAny :: "principal option \<Rightarrow> string \<Rightarrow> bool" where
  "canAny p perm = (case p of None \<Rightarrow> False | Some x \<Rightarrow> list_ex (\<lambda>g. gr_permission g = perm) (pp_grants x))"

definition readable :: "principal option \<Rightarrow> string \<Rightarrow> readSet" where
  "readable p perm = (case p of None \<Rightarrow> \<lparr>rs_all = False, rs_serverIds = [], rs_databaseIds = []\<rparr>
     | Some x \<Rightarrow> readableScope (pp_grants x) perm)"

fun newOnes :: "string list \<Rightarrow> string list \<Rightarrow> string list" where
  "newOnes seen [] = []"
| "newOnes seen (x # xs) = (if x \<in> set seen then newOnes seen xs else x # newOnes (x # seen) xs)"

definition allPermissions :: "principal \<Rightarrow> string list" where
  "allPermissions p = newOnes [] (map gr_permission (pp_grants p))"

definition globalPermissions :: "principal \<Rightarrow> string list" where
  "globalPermissions p = newOnes [] (map gr_permission (filter (\<lambda>g. sc_type (gr_scope g) = ScopeGlobal) (pp_grants p)))"

definition principalFor :: "uuid \<Rightarrow> string list \<Rightarrow> int \<Rightarrow> accounts \<Rightarrow> apperr + principal" where
  "principalFor i scopes jwtEpoch s =
     (case userGet i s of
        Inl _ \<Rightarrow> Inl (Unauthorized ''account no longer exists'')
      | Inr u \<Rightarrow>
          if us_status u \<noteq> statusActive then Inl (Unauthorized ''account is suspended'')
          else if jwtEpoch \<ge> 0 \<and> jwtEpoch \<noteq> us_epoch u then Inl (Unauthorized ''session expired; sign in again'')
          else let gs = grantsFor i s
               in if scopes \<noteq> []
                  then Inr \<lparr>pp_userId = us_id u, pp_email = us_email u, pp_tokenId = None,
                            pp_grants = restrictToScopes gs scopes, pp_scopes = scopes\<rparr>
                  else Inr \<lparr>pp_userId = us_id u, pp_email = us_email u, pp_tokenId = None,
                            pp_grants = gs, pp_scopes = []\<rparr>)"

definition principalForUser :: "uuid \<Rightarrow> string list \<Rightarrow> accounts \<Rightarrow> apperr + principal" where
  "principalForUser i scopes s = principalFor i scopes (-1) s"

definition principalOf :: "authEnv \<Rightarrow> string \<Rightarrow> accounts \<Rightarrow> (apperr + principal) \<times> accounts" where
  "principalOf e credential s =
     (let cred = trimSpace credential
      in if cred = [] then (Inl (Unauthorized ''missing credential''), s)
         else if hasPrefix apiTokenPrefix cred
         then (case resolveHash (ae_sha e cred) s of
             (Inl _, s1) \<Rightarrow> (Inl (Unauthorized ''invalid or revoked token''), s1)
           | (Inr l, s1) \<Rightarrow>
               (ebind (principalFor (lk_userId l) (lk_scopes l) (-1) s1) (\<lambda>p.
                  Inr (p\<lparr>pp_tokenId := (if lk_id l \<noteq> uuid_nil then Some (lk_id l) else None)\<rparr>)), s1))
         else (case ae_claims e (ac_now s) cred of
             None \<Rightarrow> (Inl (Unauthorized ''invalid or expired session''), s)
           | Some (sub, epoch) \<Rightarrow> (case parseId sub of
               None \<Rightarrow> (Inl (Unauthorized ''malformed subject''), s)
             | Some i \<Rightarrow> (principalFor i [] epoch s, s))))"

subsection \<open>Signing in and out\<close>

definition authenticate :: "authEnv \<Rightarrow> int \<Rightarrow> string \<Rightarrow> string \<Rightarrow> accounts \<Rightarrow> apperr + (string \<times> user)" where
  "authenticate e ttl email pw s =
     (case credentialsByEmail e (trimSpace (toLowerAscii email)) s of
        Inl _ \<Rightarrow> Inl (Unauthorized ''invalid email or password'')
      | Inr (u, h) \<Rightarrow>
          if \<not> ae_check e h pw then Inl (Unauthorized ''invalid email or password'')
          else if us_status u \<noteq> statusActive then Inl (Unauthorized ''account is suspended'')
          else Inr (ae_sign e (IdOf (us_id u)) (us_epoch u) (ac_now s + ttl), u))"

definition logout :: "uuid \<Rightarrow> accounts \<Rightarrow> apperr option \<times> accounts" where
  "logout i = bumpTokenEpoch i"

subsection \<open>Creating and revoking tokens\<close>

record tokenInput =
  ti_userId :: uuid
  ti_name :: string
  ti_scopes :: "string list"
  ti_allowed :: "string list"
  ti_expiresAt :: "int option"

fun validateScopes :: "string list \<Rightarrow> string list \<Rightarrow> apperr option" where
  "validateScopes [] allowed = None"
| "validateScopes (sc # scs) allowed =
     (if sc \<notin> set permissionCatalog then Some (Invalid ''scopes'' (''unknown permission: '' @ sc))
      else if allowed \<noteq> [] \<and> sc \<notin> set allowed
      then Some (Invalid ''scopes'' (''you do not hold the permission: '' @ sc))
      else validateScopes scs allowed)"

definition generateToken :: "authEnv \<Rightarrow> uuid \<Rightarrow> string \<times> string \<times> string" where
  "generateToken e n = (let full = apiTokenPrefix @ ae_random e n in (full, take 13 full, ae_sha e full))"

definition tokenCreate :: "authEnv \<Rightarrow> tokenInput \<Rightarrow> accounts \<Rightarrow> (apperr + (token \<times> string)) \<times> accounts" where
  "tokenCreate e inp s =
     (if trimSpace (ti_name inp) = [] then (Inl (Invalid ''name'' ''token name is required''), s)
      else case validateScopes (ti_scopes inp) (ti_allowed inp) of
        Some er \<Rightarrow> (Inl er, s)
      | None \<Rightarrow>
          (case generateToken e (ac_next s) of (full, pre, hash) \<Rightarrow>
            let t = \<lparr>tk_id = ac_next s, tk_userId = ti_userId inp, tk_name = ti_name inp, tk_prefix = pre, tk_hash = hash,
                     tk_scopes = ti_scopes inp, tk_lastUsedAt = None, tk_expiresAt = ti_expiresAt inp,
                     tk_revokedAt = None, tk_createdAt = ac_now s\<rparr>
            in case tokenInsert t (s\<lparr>ac_next := ac_next s + 1\<rparr>) of
                 (Some er, s') \<Rightarrow> (Inl er, s') | (None, s') \<Rightarrow> (Inr (t, full), s')))"

text \<open>The handler.  A lifetime is a number of hours; \<open>time.Duration\<close> is a 64-bit count of nanoseconds, and
  the multiplication wraps around.\<close>

definition hourNanos :: int where "hourNanos = 3600000000000"

definition lifetime :: "int \<Rightarrow> int" where
  "lifetime hours = sint (word_of_int hours * word_of_int hourNanos :: 64 word)"

record tokenRequest =
  tq_name :: string
  tq_scopes :: "string list"
  tq_ttlHours :: "int option"

definition postToken :: "authEnv \<Rightarrow> principal \<Rightarrow> tokenRequest \<Rightarrow> accounts \<Rightarrow> (apperr + (token \<times> string)) \<times> accounts" where
  "postToken e p req s =
     (case tq_ttlHours req of
        Some h \<Rightarrow>
          if h \<le> 0 then (Inl (Invalid ''ttl_hours'' ''ttl_hours must be positive''), s)
          else tokenCreate e \<lparr>ti_userId = pp_userId p, ti_name = tq_name req, ti_scopes = tq_scopes req,
                 ti_allowed = allPermissions p, ti_expiresAt = Some (ac_now s + lifetime h)\<rparr> s
      | None \<Rightarrow>
          tokenCreate e \<lparr>ti_userId = pp_userId p, ti_name = tq_name req, ti_scopes = tq_scopes req,
                 ti_allowed = allPermissions p, ti_expiresAt = None\<rparr> s)"

definition revokeToken :: "uuid \<Rightarrow> idText \<Rightarrow> accounts \<Rightarrow> apperr option \<times> accounts" where
  "revokeToken user idt s = (case parseId idt of
     None \<Rightarrow> (Some (Invalid ''id'' ''id must be a valid UUID''), s) | Some i \<Rightarrow> tokenRevoke user i s)"

definition revokeAnyToken :: "idText \<Rightarrow> accounts \<Rightarrow> (apperr + uuid) \<times> accounts" where
  "revokeAnyToken idt s = (case parseId idt of
     None \<Rightarrow> (Inl (Invalid ''id'' ''id must be a valid UUID''), s) | Some i \<Rightarrow> tokenRevokeAny i s)"

end
