(* ===== verification/Owners.thy ===== *)
theory Owners
  imports Sessions
begin

text \<open>
  What every operation on accounts, roles, grants and tokens keeps: the invariant \<open>acOk\<close> of the tables,
  an active owner, and that a session once ended stays ended.  A change of the store is followed by
  \<open>evolves\<close> (the invariant, and accounts that only move forward) and by \<open>owns\<close> (an owner left alone);
  each operation then keeps both (\<open>sound\<close>), and the step relation \<open>accountStep\<close> with the locale
  \<open>settling\<close> lifts this to every reachable store.
\<close>

subsection \<open>What holds of every store\<close>

definition acOk :: "accounts \<Rightarrow> bool" where
  "acOk s \<longleftrightarrow> distinct (map us_id (ac_users s)) \<and> (\<forall>u \<in> set (ac_users s). us_id u < ac_next s \<and> 0 \<le> us_epoch u)
     \<and> distinct (map ro_id (ac_roles s)) \<and> (\<forall>r \<in> set (ac_roles s). ro_id r < ac_next s)
     \<and> distinct (map ro_name (ac_roles s))
     \<and> distinct (map ur_id (ac_userRoles s)) \<and> (\<forall>ur \<in> set (ac_userRoles s). ur_id ur < ac_next s)
     \<and> (\<exists>r \<in> set (ac_roles s). ro_name r = ''owner'' \<and> ro_isSystem r)"

text \<open>How a store may move on: the invariant holds, fresh UUIDs only grow, an account keeps its UUID and
  its epoch never goes back, and a UUID that is no longer an account is not one again.\<close>

definition evolves :: "accounts \<Rightarrow> accounts \<Rightarrow> bool" where
  "evolves s s' \<longleftrightarrow> acOk s' \<and> ac_next s \<le> ac_next s'
     \<and> (\<forall>u' \<in> set (ac_users s'). ac_next s \<le> us_id u'
          \<or> (\<exists>u \<in> set (ac_users s). us_id u = us_id u' \<and> us_epoch u \<le> us_epoch u'))"

named_theorems evolves_intros \<open>one rule per change of the store\<close>

lemma evolves_acOk: "evolves s s' \<Longrightarrow> acOk s'"
  by (simp add: evolves_def)

lemma evolves_refl [evolves_intros]: "acOk s \<Longrightarrow> evolves s s"
  by (auto simp: evolves_def)

lemma evolves_trans: "evolves a b \<Longrightarrow> evolves b c \<Longrightarrow> evolves a c"
  by (auto simp: evolves_def) (metis le_trans order.trans)

lemma acOk_next: "acOk s \<Longrightarrow> acOk (s\<lparr>ac_next := Suc (ac_next s)\<rparr>)"
  by (simp add: acOk_def less_Suc_eq)

lemma evolves_next [evolves_intros]: "acOk s \<Longrightarrow> evolves s (s\<lparr>ac_next := ac_next s + 1\<rparr>)"
  by (auto simp: evolves_def acOk_next)

lemma evolves_tokens [evolves_intros]: "acOk s \<Longrightarrow> evolves s (s\<lparr>ac_tokens := ts\<rparr>)"
  by (auto simp: evolves_def acOk_def)

lemma evolves_tokenUpdate [evolves_intros]: "acOk s \<Longrightarrow> evolves s (tokenUpdate P f s)"
  by (simp add: tokenUpdate_def evolves_intros)

lemma evolves_now [evolves_intros]: "acOk s \<Longrightarrow> evolves s (s\<lparr>ac_now := t\<rparr>)"
  by (auto simp: evolves_def acOk_def)

lemma evolves_users_map:
  assumes "acOk s" "\<And>u. us_id (g u) = us_id u" "\<And>u. us_epoch u \<le> us_epoch (g u)"
  shows "evolves s (s\<lparr>ac_users := map g (ac_users s)\<rparr>)"
proof -
  have [simp]: "map (us_id \<circ> g) us = map us_id us" for us by (simp add: assms(2))
  have "0 \<le> us_epoch (g u)" if "0 \<le> us_epoch u" for u using that assms(3) [of u] by simp
  with assms(1) have "acOk (s\<lparr>ac_users := map g (ac_users s)\<rparr>)"
    by (simp add: acOk_def assms(2))
  then show ?thesis using assms(2,3) by (auto simp: evolves_def)
qed

lemma evolves_userUpdate [evolves_intros]:
  assumes "acOk s" "\<And>u. us_id (f u) = us_id u" "\<And>u. us_epoch u \<le> us_epoch (f u)"
  shows "evolves s (snd (userUpdate i f s))"
  using assms by (auto simp: userUpdate_def intro!: evolves_refl evolves_users_map)

lemma evolves_user_ops [evolves_intros]:
  assumes "acOk s"
  shows "evolves s (snd (profileUpdate e i n m s))" "evolves s (snd (bumpTokenEpoch i s))"
    "evolves s (snd (setPassword i h s))" "evolves s (snd (setStatus i st s))"
  using assms
  by (auto simp: profileUpdate_def bumpTokenEpoch_def setPassword_def setStatus_def intro!: evolves_intros)

lemma distinct_map_filter': "distinct (map f xs) \<Longrightarrow> distinct (map f (filter P xs))"
  by (simp add: distinct_map_filter)

lemma evolves_userDelete [evolves_intros]: "acOk s \<Longrightarrow> evolves s (snd (userDelete i s))"
  by (auto simp: userDelete_def evolves_def acOk_def distinct_map_filter')

lemma evolves_roleDelete:
  assumes "acOk s" "\<forall>r \<in> set (ac_roles s). ro_id r = i \<longrightarrow> \<not> ro_isSystem r"
  shows "evolves s (snd (roleDelete i s))"
  using assms by (fastforce simp: roleDelete_def evolves_def acOk_def distinct_map_filter')

lemma evolves_deleteGrant [evolves_intros]: "acOk s \<Longrightarrow> evolves s (snd (deleteGrant user i s))"
  by (auto simp: deleteGrant_def evolves_def acOk_def distinct_map_filter')

lemma evolves_addUserRole:
  assumes "acOk s" "distinct (map ur_id urs)" "set urs \<subseteq> set (ac_userRoles s)" "ur_id x = ac_next s"
  shows "evolves s (s\<lparr>ac_userRoles := urs @ [x], ac_next := Suc (ac_next s)\<rparr>)"
  using assms by (fastforce simp: evolves_def acOk_def)

lemma acOk_userRoles: "acOk s \<Longrightarrow> distinct (map ur_id (ac_userRoles s))"
  by (simp add: acOk_def)

lemma evolves_setGlobalRole [evolves_intros]: "acOk s \<Longrightarrow> evolves s (snd (setGlobalRole i n s))"
  by (auto simp: setGlobalRole_def globalRoleRow_def distinct_map_filter' acOk_userRoles split: option.split
      intro!: evolves_refl evolves_addUserRole)

lemma evolves_insertGrant [evolves_intros]: "acOk s \<Longrightarrow> evolves s (snd (insertGrant user n st sid s))"
  by (auto simp: insertGrant_def acOk_userRoles split: option.split intro!: evolves_refl evolves_addUserRole)

lemma evolves_roleInsert [evolves_intros]:
  "acOk s \<Longrightarrow> ro_id r = ac_next s \<Longrightarrow> evolves s (snd (roleInsert r (s\<lparr>ac_next := ac_next s + 1\<rparr>)))"
  by (fastforce simp: roleInsert_def evolves_def acOk_def list_ex_iff)

lemma evolves_then: "evolves s w \<Longrightarrow> (acOk w \<Longrightarrow> evolves w w') \<Longrightarrow> evolves s w'"
  by (blast intro: evolves_trans evolves_acOk)

lemma evolves_createWithRole [evolves_intros]:
  assumes "acOk s" "us_id u = ac_next s"
  shows "evolves s (snd (createWithRole e u h n (s\<lparr>ac_next := ac_next s + 1\<rparr>)))"
proof -
  let ?s = "s\<lparr>ac_next := Suc (ac_next s)\<rparr>"
  have "evolves s ?s" using evolves_next [OF assms(1)] by simp
  moreover have "evolves s (?s\<lparr>ac_users := ac_users s @ [x], ac_userRoles := ac_userRoles s @ [globalRoleRow (Suc (ac_next s)) j k],
      ac_next := Suc (Suc (ac_next s))\<rparr>)" if "us_id x = ac_next s" "us_epoch x = 0" for x j k
    using assms(1) that
    by (auto simp: evolves_def acOk_def globalRoleRow_def image_iff less_Suc_eq)
  ultimately show ?thesis
    using assms by (auto simp: createWithRole_def split: option.split)
qed

lemma distinct_names_map:
  assumes "distinct (map k xs)" "distinct (map n xs)" "\<And>x. k x \<noteq> i \<Longrightarrow> g x = x" "\<And>x. k (g x) = k x"
    and "\<And>x y. x \<in> set xs \<Longrightarrow> y \<in> set xs \<Longrightarrow> k x = i \<Longrightarrow> k y \<noteq> i \<Longrightarrow> n (g x) \<noteq> n y"
  shows "distinct (map n (map g xs))"
  using assms(1,2,5)
proof (induction xs)
  case (Cons x xs)
  have "n (g x) \<noteq> n (g y)" if "y \<in> set xs" for y
  proof (cases "k x = i")
    case True
    with that Cons.prems(1) have "k y \<noteq> i" by (auto simp: image_iff)
    then show ?thesis using True Cons.prems(3) that assms(3) by auto
  next
    case x: False
    show ?thesis
    proof (cases "k y = i")
      case True
      then have "n (g y) \<noteq> n x" using x Cons.prems(3) that by auto
      then show ?thesis using x assms(3) by metis
    next
      case False
      moreover have "n x \<noteq> n y" using that Cons.prems(2) by force
      ultimately show ?thesis using x assms(3) by metis
    qed
  qed
  then show ?case using Cons by auto
qed simp

lemma evolves_roleUpdate:
  assumes ok: "acOk s" and sys: "\<forall>r \<in> set (ac_roles s). ro_id r = i \<longrightarrow> \<not> ro_isSystem r"
  shows "evolves s (snd (roleUpdate i n d ps s))"
proof (cases "snd (roleUpdate i n d ps s) = s")
  case False
  let ?g = "\<lambda>r :: role. if ro_id r = i then r\<lparr>ro_name := orKeep n (ro_name r), ro_description := orKeep d (ro_description r),
      ro_permissions := orKeep (map_option (\<lambda>ps. sort (remdups ps)) ps) (ro_permissions r)\<rparr> else r"
  from False have res: "snd (roleUpdate i n d ps s) = s\<lparr>ac_roles := map ?g (ac_roles s)\<rparr>"
    and free: "\<not> (case n of None \<Rightarrow> False | Some n \<Rightarrow> list_ex (\<lambda>x. ro_id x \<noteq> i \<and> ro_name x = n) (ac_roles s))"
    by (auto simp: roleUpdate_def split: if_splits)
  define g :: "role \<Rightarrow> role" where "g = ?g"
  have id: "ro_id (g r) = ro_id r" for r by (simp add: g_def)
  have other: "ro_id r \<noteq> i \<Longrightarrow> g r = r" for r by (simp add: g_def)
  have "distinct (map ro_name (map g (ac_roles s)))"
  proof (rule distinct_names_map [where k = ro_id and i = i])
    fix x y assume xy: "x \<in> set (ac_roles s)" "y \<in> set (ac_roles s)" "ro_id x = i" "ro_id y \<noteq> i"
    show "ro_name (g x) \<noteq> ro_name y"
    proof (cases n)
      case None
      have "ro_name x \<noteq> ro_name y"
        using ok xy by (auto simp: acOk_def distinct_map dest: inj_onD)
      then show ?thesis using None by (simp add: g_def orKeep_def)
    next
      case (Some m)
      then show ?thesis using free xy by (auto simp: g_def orKeep_def list_ex_iff)
    qed
  qed (use ok id other in \<open>simp_all add: acOk_def\<close>)
  moreover obtain r where "r \<in> set (ac_roles s)" "ro_name r = ''owner''" "ro_isSystem r"
    using ok by (auto simp: acOk_def)
  then have "\<exists>r \<in> set (map g (ac_roles s)). ro_name r = ''owner'' \<and> ro_isSystem r"
    using sys other by (metis imageI list.set_map)
  ultimately have "acOk (s\<lparr>ac_roles := map g (ac_roles s)\<rparr>)"
    using ok by (simp add: acOk_def id o_def)
  then show ?thesis by (auto simp: res g_def [symmetric] evolves_def)
qed (use ok in \<open>simp add: evolves_refl\<close>)

subsection \<open>Owners\<close>

definition owns :: "uuid \<Rightarrow> accounts \<Rightarrow> bool" where
  "owns i s \<longleftrightarrow> holdsRole i ''owner'' s \<and> (\<exists>u \<in> set (ac_users s). us_id u = i \<and> us_status u = statusActive)"

lemma activeOwners_iff: "i \<in> set (activeOwners s) \<longleftrightarrow> owns i s"
  by (auto simp: activeOwners_def owns_def)

lemma holdsRole_iff:
  "holdsRole i n s \<longleftrightarrow> (\<exists>ur \<in> set (ac_userRoles s). ur_userId ur = i \<and> ur_scopeType ur = ScopeGlobal
     \<and> (\<exists>r \<in> set (ac_roles s). ro_id r = ur_roleId ur \<and> ro_name r = n))"
  by (simp add: holdsRole_def list_ex_iff)

lemma roleById_iff:
  "distinct (map ro_id (ac_roles s)) \<Longrightarrow> roleById i s = Some r \<longleftrightarrow> r \<in> set (ac_roles s) \<and> ro_id r = i"
  unfolding roleById_def
proof (induction "ac_roles s" arbitrary: s)
  case (Cons x xs)
  have "x # xs = ac_roles (s\<lparr>ac_roles := x # xs\<rparr>)" by simp
  then show ?case
    using Cons.hyps(1) [of "s\<lparr>ac_roles := xs\<rparr>"] Cons.prems
    unfolding Cons.hyps(2) [symmetric] by (auto simp: image_iff)
qed simp

lemma rolesFor_iff: "acOk s \<Longrightarrow> n \<in> set (rolesFor i s) \<longleftrightarrow> holdsRole i n s"
proof -
  assume "acOk s"
  then have d: "distinct (map ro_id (ac_roles s))" by (simp add: acOk_def)
  have "n \<in> set (case roleById k s of None \<Rightarrow> [] | Some r \<Rightarrow> [ro_name r])
      \<longleftrightarrow> (\<exists>r \<in> set (ac_roles s). ro_id r = k \<and> ro_name r = n)" for k
  proof (cases "roleById k s")
    case (Some a)
    have "\<And>r. a = r \<longleftrightarrow> r \<in> set (ac_roles s) \<and> ro_id r = k"
      using roleById_iff [OF d, of k] Some by simp
    then show ?thesis using Some by (simp, metis)
  qed (use roleById_iff [OF d, of k] in auto)
  then show ?thesis by (auto simp: rolesFor_def holdsRole_iff)
qed

text \<open>What the guard gives: somebody else is an active owner.\<close>

lemma guard_other:
  assumes "acOk s" "guardLastOwner i s = None" "owns j s"
  shows "\<exists>k. k \<noteq> i \<and> owns k s"
proof (cases "j = i")
  case True
  with assms have "holdsRole i ''owner'' s" by (simp add: owns_def)
  with assms have "1 < length (activeOwners s)"
    by (auto simp: guardLastOwner_def rolesFor_iff countActiveOwners_def split: if_splits)
  moreover have "distinct (activeOwners s)" by (simp add: activeOwners_def)
  ultimately have "1 < card (set (activeOwners s))" by (simp add: distinct_card)
  then have "\<not> set (activeOwners s) \<subseteq> {i}"
    by (metis card.empty card_mono finite.emptyI finite.insertI card_insert_disjoint empty_iff One_nat_def not_le)
  then show ?thesis by (auto simp: activeOwners_iff)
qed (use assms in auto)

named_theorems owns_intros \<open>changes that leave an owner alone\<close>

lemma owns_cong:
  "ac_users s' = ac_users s \<Longrightarrow> ac_userRoles s' = ac_userRoles s \<Longrightarrow> ac_roles s' = ac_roles s \<Longrightarrow> owns j s' = owns j s"
  by (simp add: owns_def holdsRole_def)

lemma owns_users_map:
  assumes "owns j s" "\<And>u. us_id (g u) = us_id u" "\<And>u. us_id u = j \<Longrightarrow> us_status u = statusActive \<Longrightarrow> us_status (g u) = statusActive"
  shows "owns j (s\<lparr>ac_users := map g (ac_users s)\<rparr>)"
  using assms by (auto simp: owns_def holdsRole_def)

lemma owns_userUpdate:
  assumes "owns j s" "\<And>u. us_id (f u) = us_id u" "j \<noteq> i \<or> (\<forall>u. us_status u = statusActive \<longrightarrow> us_status (f u) = statusActive)"
  shows "owns j (snd (userUpdate i f s))"
  using assms by (auto simp: userUpdate_def intro!: owns_users_map)

lemma owns_user_ops [owns_intros]:
  assumes "owns j s"
  shows "owns j (snd (profileUpdate e i n m s))" "owns j (snd (bumpTokenEpoch i s))" "owns j (snd (setPassword i h s))"
    "j \<noteq> i \<or> st = statusActive \<Longrightarrow> owns j (snd (setStatus i st s))"
  using assms
  by (auto simp: profileUpdate_def bumpTokenEpoch_def setPassword_def setStatus_def intro!: owns_userUpdate)

lemma owns_roles_append:
  assumes "owns j s" "\<And>ur. ur \<in> set (ac_userRoles s) \<Longrightarrow> ur_userId ur = j \<Longrightarrow> ur_scopeType ur = ScopeGlobal \<Longrightarrow> ur \<in> set urs"
  shows "owns j (s\<lparr>ac_userRoles := urs\<rparr>)"
  using assms by (auto simp: owns_def holdsRole_iff)

lemma owns_next [owns_intros]: "owns j s \<Longrightarrow> owns j (s\<lparr>ac_next := n\<rparr>)"
  by (simp add: owns_def holdsRole_def)

lemma owns_rows [owns_intros]:
  assumes "owns j s" "\<And>ur. ur \<in> set (ac_userRoles s) \<Longrightarrow> ur_userId ur = j \<Longrightarrow> ur_scopeType ur = ScopeGlobal \<Longrightarrow> ur \<in> set urs"
  shows "owns j (s\<lparr>ac_userRoles := urs, ac_next := n\<rparr>)"
  using assms by (intro owns_next owns_roles_append)

lemma owns_setGlobalRole_other [owns_intros]: "owns j s \<Longrightarrow> j \<noteq> i \<Longrightarrow> owns j (snd (setGlobalRole i n s))"
  by (auto simp: setGlobalRole_def split: option.split intro!: owns_rows)

lemma roleNamed_Some: "roleNamed n s = Some r \<Longrightarrow> r \<in> set (ac_roles s) \<and> ro_name r = n"
  unfolding roleNamed_def by (drule find_SomeD) simp

lemma owns_setGlobalRole_owner [owns_intros]:
  assumes "owns j s" shows "owns j (snd (setGlobalRole i ''owner'' s))"
proof (cases "j = i")
  case True
  show ?thesis
  proof (cases "roleNamed ''owner'' s")
    case (Some r)
    from roleNamed_Some [OF Some] True assms show ?thesis
      by (auto simp: setGlobalRole_def Some owns_def holdsRole_iff globalRoleRow_def)
  qed (use assms in \<open>simp add: setGlobalRole_def\<close>)
qed (use assms in \<open>rule owns_setGlobalRole_other\<close>)

lemma owns_userDelete [owns_intros]: "owns j s \<Longrightarrow> j \<noteq> i \<Longrightarrow> owns j (snd (userDelete i s))"
  by (auto simp: userDelete_def owns_def holdsRole_iff)

lemma owns_createWithRole [owns_intros]: "owns j s \<Longrightarrow> owns j (snd (createWithRole e u h n s))"
  by (auto simp: createWithRole_def owns_def holdsRole_iff split: option.split)

lemma owns_insertGrant [owns_intros]: "owns j s \<Longrightarrow> owns j (snd (insertGrant u n st sid s))"
  by (auto simp: insertGrant_def split: option.split intro!: owns_rows)

lemma owns_deleteGrant_other [owns_intros]: "owns j s \<Longrightarrow> j \<noteq> u \<Longrightarrow> owns j (snd (deleteGrant u gi s))"
  by (auto simp: deleteGrant_def intro!: owns_roles_append)

lemma owns_roleInsert [owns_intros]: "owns j s \<Longrightarrow> owns j (snd (roleInsert r s))"
  by (auto simp: roleInsert_def owns_def holdsRole_iff)

lemma owner_is_system:
  assumes "acOk s" "r \<in> set (ac_roles s)" "ro_name r = ''owner''"
  shows "ro_isSystem r"
proof -
  from assms(1) obtain x where "x \<in> set (ac_roles s)" "ro_name x = ''owner''" "ro_isSystem x"
    and d: "distinct (map ro_name (ac_roles s))" by (auto simp: acOk_def)
  with assms distinct_key [OF d, of r x] show ?thesis by simp
qed

lemma owns_roles_change:
  assumes "acOk s" "owns j s" "ac_users s' = ac_users s"
    and "\<And>ur. ur \<in> set (ac_userRoles s) \<Longrightarrow> ur_roleId ur \<noteq> i \<Longrightarrow> ur \<in> set (ac_userRoles s')"
    and "\<And>r. r \<in> set (ac_roles s) \<Longrightarrow> ro_id r \<noteq> i \<Longrightarrow> r \<in> set (ac_roles s')"
    and "\<forall>r \<in> set (ac_roles s). ro_id r = i \<longrightarrow> \<not> ro_isSystem r"
  shows "owns j s'"
  using assms owner_is_system [OF assms(1)] unfolding owns_def holdsRole_iff by metis

lemma owns_roleUpdate:
  assumes "acOk s" "owns j s" "\<forall>r \<in> set (ac_roles s). ro_id r = i \<longrightarrow> \<not> ro_isSystem r"
  shows "owns j (snd (roleUpdate i n d ps s))"
  using assms(2)
  by (auto simp: roleUpdate_def image_iff intro!: owns_roles_change [OF assms(1,2) _ _ _ assms(3)] bexI)

lemma owns_roleDelete:
  assumes "acOk s" "owns j s" "\<forall>r \<in> set (ac_roles s). ro_id r = i \<longrightarrow> \<not> ro_isSystem r"
  shows "owns j (snd (roleDelete i s))"
  using assms(2) by (auto simp: roleDelete_def intro!: owns_roles_change [OF assms(1,2) _ _ _ assms(3)])

lemma getGrant_row:
  assumes "acOk s" "getGrant user gi s = Inr g" "ur \<in> set (ac_userRoles s)" "ur_id ur = gi" "ur_userId ur = user"
  shows "rg_scopeType g = ur_scopeType ur \<and> (\<exists>r \<in> set (ac_roles s). ro_id r = ur_roleId ur \<and> ro_name r = rg_roleName g)"
proof -
  from assms(1) have d: "distinct (map ro_id (ac_roles s))" and u: "distinct (map ur_id (ac_userRoles s))"
    by (simp_all add: acOk_def)
  have only: "x = ur" if "x \<in> set (ac_userRoles s)" "ur_id x = gi" for x
    using distinct_key [OF u that(1) assms(3)] that assms(4) by simp
  have hd: "g \<in> set gs" if "(case gs of [] \<Rightarrow> Inl er | g # _ \<Rightarrow> Inr g) = Inr g" for gs er
    using that by (cases gs) auto
  from assms(2) have "g \<in> set (concat (map (asGrant s) (filter (\<lambda>ur. ur_id ur = gi \<and> ur_userId ur = user) (ac_userRoles s))))"
    unfolding getGrant_def by (rule hd)
  then obtain x where "x \<in> set (ac_userRoles s)" "ur_id x = gi" "g \<in> set (asGrant s x)" by auto
  with only [of x] have "g \<in> set (asGrant s ur)" by simp
  then show ?thesis using roleById_iff [OF d, of "ur_roleId ur"]
    by (cases "roleById (ur_roleId ur) s") (auto simp: asGrant_def)
qed

lemma owns_deleteGrant:
  assumes "acOk s" "owns j s" "getGrant user gi s = Inr g" "\<not> (rg_roleName g = ''owner'' \<and> rg_scopeType g = ScopeGlobal)"
  shows "owns j (snd (deleteGrant user gi s))"
proof -
  from assms(2) obtain ur r where ur: "ur \<in> set (ac_userRoles s)" "ur_userId ur = j" "ur_scopeType ur = ScopeGlobal"
    "r \<in> set (ac_roles s)" "ro_id r = ur_roleId ur" "ro_name r = ''owner''"
    by (auto simp: owns_def holdsRole_iff)
  have "\<not> (ur_id ur = gi \<and> ur_userId ur = user)"
  proof
    assume "ur_id ur = gi \<and> ur_userId ur = user"
    with getGrant_row [OF assms(1,3) ur(1)] obtain x where x: "rg_scopeType g = ur_scopeType ur" "x \<in> set (ac_roles s)"
      "ro_id x = ur_roleId ur" "ro_name x = rg_roleName g" by auto
    from assms(1) have "distinct (map ro_id (ac_roles s))" by (simp add: acOk_def)
    from distinct_key [OF this x(2) ur(4)] x ur have "x = r" by simp
    with x ur assms(4) show False by simp
  qed
  with ur assms(2) show ?thesis by (auto simp: deleteGrant_def owns_def holdsRole_iff)
qed

subsection \<open>Every operation keeps the invariant and an owner\<close>

definition staffed :: "accounts \<Rightarrow> bool" where
  "staffed s \<longleftrightarrow> (\<exists>j. owns j s)"

lemma staffedI [intro]: "owns j s \<Longrightarrow> staffed s"
  by (auto simp: staffed_def)

lemma staffed_count: "staffed s \<longleftrightarrow> 1 \<le> countActiveOwners s"
proof -
  have "staffed s \<longleftrightarrow> activeOwners s \<noteq> []"
    by (auto simp: staffed_def simp flip: activeOwners_iff) (metis list.set_sel(1) activeOwners_iff)
  then show ?thesis by (cases "activeOwners s") (simp_all add: countActiveOwners_def)
qed

lemma evolves_runWrites:
  assumes "\<And>f s. f \<in> set fs \<Longrightarrow> acOk s \<Longrightarrow> evolves s (snd (f s))" "acOk s"
  shows "evolves s (snd (runWrites fs s))"
  using assms
proof (induction fs arbitrary: s)
  case (Cons f fs)
  obtain r s' where fs: "f s = (r, s')" by (cases "f s")
  with Cons.prems(1) [of f s] Cons.prems(2) have e: "evolves s s'" by simp
  show ?case
  proof (cases r)
    case None
    have "evolves s' (snd (runWrites fs s'))"
      by (rule Cons.IH) (use Cons.prems(1) e in \<open>auto intro: evolves_acOk\<close>)
    then show ?thesis using e None fs by (auto intro: evolves_trans)
  qed (use e fs in simp)
qed (simp add: evolves_refl)

lemma owns_runWrites:
  assumes "\<And>f s. f \<in> set fs \<Longrightarrow> owns j s \<Longrightarrow> owns j (snd (f s))" "owns j s"
  shows "owns j (snd (runWrites fs s))"
  using assms
proof (induction fs arbitrary: s)
  case (Cons f fs)
  obtain r s' where fs: "f s = (r, s')" by (cases "f s")
  with Cons.prems(1) [of f s] Cons.prems(2) have "owns j s'" by simp
  then show ?case using Cons fs by (auto split: option.split)
qed simp

definition sound :: "accounts \<Rightarrow> accounts \<Rightarrow> bool" where
  "sound s s' \<longleftrightarrow> evolves s s' \<and> (staffed s \<longrightarrow> staffed s')"

named_theorems sound_intros \<open>one rule per operation\<close>

lemma sound_refl [sound_intros]: "acOk s \<Longrightarrow> sound s s"
  by (simp add: sound_def evolves_refl)

lemma soundI: "evolves s s' \<Longrightarrow> (\<And>j. owns j s \<Longrightarrow> owns j s') \<Longrightarrow> sound s s'"
  by (auto simp: sound_def staffed_def)

lemma guarded_sound:
  assumes "acOk s" "guardLastOwner i s = None" "evolves s s'" "\<And>j. owns j s \<Longrightarrow> j \<noteq> i \<Longrightarrow> owns j s'"
  shows "sound s s'"
  using assms guard_other [OF assms(1,2)] unfolding sound_def staffed_def by blast

lemma sound_newUser:
  assumes "acOk s"
  shows "sound s (snd (createWithRole e (newUser (ac_next s) m n) h r (s\<lparr>ac_next := ac_next s + 1\<rparr>)))"
proof (rule soundI)
  have "us_id (newUser (ac_next s) m n) = ac_next s" by (simp add: newUser_def)
  then show "evolves s (snd (createWithRole e (newUser (ac_next s) m n) h r (s\<lparr>ac_next := ac_next s + 1\<rparr>)))"
    by (rule evolves_createWithRole [OF assms])
qed (intro owns_createWithRole owns_next)

lemma sound_createUser [sound_intros]:
  assumes "acOk s" shows "sound s (snd (createUser e inp s))"
  using sound_newUser [OF assms] assms
  by (auto simp: createUser_def Let_def split_beta sound_refl split: sum.split option.split)

lemma sound_ensureAdmin [sound_intros]:
  assumes "acOk s" shows "sound s (snd (ensureAdmin e m pw s))"
  using sound_newUser [OF assms] assms
  by (auto simp: ensureAdmin_def Let_def split_beta sound_refl split: option.split)

lemma evolves_updateWrites [evolves_intros]: "acOk s \<Longrightarrow> evolves s (snd (updateWrites e i inp s))"
  unfolding updateWrites_def by (rule evolves_runWrites) (auto intro: evolves_intros split: option.splits if_splits)

lemma owns_updateWrites:
  assumes "owns j s" "j \<noteq> i \<or> ((ui_status inp = None \<or> ui_status inp = Some statusActive) \<and> \<not> demotes inp)"
  shows "owns j (snd (updateWrites e i inp s))"
  unfolding updateWrites_def
proof (rule owns_runWrites [OF _ assms(1)])
  fix f t
  assume f: "f \<in> set ((if ui_name inp \<noteq> None \<or> ui_email inp \<noteq> None then [profileUpdate e i (ui_name inp) (ui_email inp)] else [])
       @ (case ui_status inp of None \<Rightarrow> [] | Some st \<Rightarrow> [setStatus i st])
       @ (case ui_role inp of None \<Rightarrow> [] | Some r \<Rightarrow> [setGlobalRole i r]))"
    and o: "owns j t"
  from f consider "f = profileUpdate e i (ui_name inp) (ui_email inp)"
    | st where "ui_status inp = Some st" "f = setStatus i st" | r where "ui_role inp = Some r" "f = setGlobalRole i r"
    by (cases "ui_status inp"; cases "ui_role inp") (auto split: if_splits)
  then show "owns j (snd (f t))"
  proof cases
    case (3 r)
    then show ?thesis using o assms(2) by (cases "j = i") (auto simp: demotes_def intro: owns_intros)
  qed (use o assms(2) in \<open>auto intro: owns_intros\<close>)
qed

lemma updateChecks_Inr:
  assumes "updateChecks e actor idt inp s = Inr (i, inp')"
  shows "ui_status inp' = ui_status inp" "ui_role inp' = ui_role inp" "parseId idt = Some i"
    "demotes inp \<Longrightarrow> guardLastOwner i s = None"
    "ui_status inp = None \<or> ui_status inp = Some statusActive \<or> ui_status inp = Some statusSuspended"
  using assms
  by (auto simp: updateChecks_def result_simps statusCheck_def split: option.splits if_splits)

lemma sound_updateWrites:
  assumes "acOk s" "updateChecks e actor idt inp s = Inr (i, inp')"
  shows "sound s (snd (updateWrites e i inp' s))"
proof (cases "demotes inp")
  case True
  show ?thesis
    by (rule guarded_sound [where i = i])
      (use assms True in \<open>auto intro: evolves_intros owns_updateWrites updateChecks_Inr\<close>)
next
  case False
  note c = updateChecks_Inr [OF assms(2)]
  have "\<not> demotes inp'" using False c by (simp add: demotes_def)
  moreover have "ui_status inp' \<noteq> Some statusSuspended" using False c by (simp add: demotes_def)
  then have "ui_status inp' = None \<or> ui_status inp' = Some statusActive" using c by auto
  ultimately show ?thesis using assms(1) by (intro soundI evolves_intros owns_updateWrites) auto
qed

lemma sound_updateUser [sound_intros]:
  assumes "acOk s" shows "sound s (snd (updateUser e actor idt inp s))"
  using assms sound_updateWrites [OF assms]
  by (auto simp: updateUser_def sound_refl split: sum.split prod.splits option.split) (metis snd_conv)+

lemma sound_resetPassword [sound_intros]: "acOk s \<Longrightarrow> sound s (snd (resetPassword e idt pw s))"
  by (auto simp: resetPassword_def split: option.split intro!: soundI evolves_intros intro: owns_intros)

lemma sound_changePassword [sound_intros]: "acOk s \<Longrightarrow> sound s (snd (changePassword e i cur new s))"
  by (auto simp: changePassword_def split: option.split sum.split intro!: soundI evolves_intros intro: owns_intros)

lemma sound_deleteUser [sound_intros]:
  assumes "acOk s" shows "sound s (snd (deleteUser actor idt s))"
proof (cases "deleteChecks actor idt s")
  case (Inr i)
  then have "guardLastOwner i s = None" by (auto simp: deleteChecks_def split: option.splits if_splits)
  then show ?thesis using assms Inr
    by (auto simp: deleteUser_def intro!: guarded_sound [where i = i] evolves_intros intro: owns_intros)
qed (use assms in \<open>simp add: deleteUser_def sound_refl\<close>)

lemma sound_updateProfile [sound_intros]:
  assumes "acOk s" shows "sound s (snd (updateProfile e i n m s))"
proof -
  have "sound s (snd (profileUpdate e i n m s))" for n m
    using assms by (auto intro!: soundI evolves_intros intro: owns_intros)
  then show ?thesis using assms
    by (auto simp: updateProfile_def split_beta sound_refl split: sum.split option.split)
qed

lemma sound_addGrant [sound_intros]: "acOk s \<Longrightarrow> sound s (snd (addGrant idt inp s))"
  by (auto simp: addGrant_def split: option.split intro!: soundI evolves_intros intro: owns_intros)

lemma sound_removeGrant [sound_intros]:
  assumes "acOk s" shows "sound s (snd (removeGrant idt gidt s))"
proof -
  have "sound s (snd (deleteGrant i gi s))"
    if g: "getGrant i gi s = Inr g" "(if rg_roleName g = ''owner'' \<and> rg_scopeType g = ScopeGlobal then guardLastOwner i s else None) = None"
    for i gi g
  proof (cases "rg_roleName g = ''owner'' \<and> rg_scopeType g = ScopeGlobal")
    case True
    with g assms show ?thesis by (auto intro!: guarded_sound [where i = i] evolves_intros intro: owns_intros)
  next
    case False
    then show ?thesis using g assms by (auto intro!: soundI evolves_intros owns_deleteGrant)
  qed
  then show ?thesis using assms
    by (auto simp: removeGrant_def sound_refl split: option.split sum.split)
qed

lemma roleGet_system:
  assumes "acOk s" "roleGet i s = Inr r" "\<not> ro_isSystem r"
  shows "\<forall>x \<in> set (ac_roles s). ro_id x = i \<longrightarrow> \<not> ro_isSystem x"
proof -
  from assms(1) have d: "distinct (map ro_id (ac_roles s))" by (simp add: acOk_def)
  from assms(2) have "roleById i s = Some r" by (auto simp: roleGet_def split: option.splits)
  then have "r \<in> set (ac_roles s)" "ro_id r = i" using roleById_iff [OF d] by auto
  then show ?thesis using distinct_key [OF d, of r] assms(3) by metis
qed

lemma sound_createRole [sound_intros]:
  assumes "acOk s" shows "sound s (snd (createRole e inp s))"
proof -
  have "sound s (snd (roleInsert r (s\<lparr>ac_next := ac_next s + 1\<rparr>)))" if "ro_id r = ac_next s" for r
    by (rule soundI) (use assms that in \<open>auto intro!: evolves_roleInsert owns_roleInsert owns_next simp del: add_Suc_right One_nat_def\<close>)
  then show ?thesis using assms
    by (auto simp: createRole_def Let_def split_beta sound_refl split: option.split sum.split)
qed

lemma sound_updateRole [sound_intros]:
  assumes "acOk s" shows "sound s (snd (updateRole e idt inp s))"
proof -
  have "sound s (snd (roleUpdate i n d ps s))" if "roleGet i s = Inr r" "\<not> ro_isSystem r" for i r n d ps
    using assms roleGet_system [OF assms that]
    by (auto intro!: soundI evolves_roleUpdate owns_roleUpdate)
  then show ?thesis using assms
    by (auto simp: updateRole_def Let_def split_beta sound_refl split: option.split sum.split)
qed

lemma sound_deleteRole [sound_intros]:
  assumes "acOk s" shows "sound s (snd (deleteRole idt s))"
proof -
  have "sound s (snd (roleDelete i s))" if "roleGet i s = Inr r" "\<not> ro_isSystem r" for i r
    using assms roleGet_system [OF assms that]
    by (auto intro!: soundI evolves_roleDelete owns_roleDelete)
  then show ?thesis using assms
    by (auto simp: deleteRole_def sound_refl split: option.split sum.split)
qed

lemma sound_tokens:
  "acOk s \<Longrightarrow> sound s (tokenUpdate P f s)"
  "acOk s \<Longrightarrow> sound s (snd (tokenInsert t (s\<lparr>ac_next := ac_next s + 1\<rparr>)))"
proof -
  assume ok: "acOk s"
  show "sound s (tokenUpdate P f s)"
    by (rule soundI) (use ok in \<open>auto simp: tokenUpdate_def owns_cong [of "s\<lparr>ac_tokens := ts\<rparr>" s for ts] intro!: evolves_intros\<close>)
  let ?n = "s\<lparr>ac_next := ac_next s + 1\<rparr>"
  have n: "sound s ?n" by (rule soundI) (use ok in \<open>auto intro: evolves_next owns_next simp del: One_nat_def\<close>)
  then have "acOk ?n" by (auto simp: sound_def dest: evolves_acOk)
  have "sound s (?n\<lparr>ac_tokens := ts\<rparr>)" for ts
    by (rule soundI) (use n \<open>acOk ?n\<close> in \<open>auto simp: sound_def owns_def holdsRole_def evolves_def acOk_def\<close>)
  then show "sound s (snd (tokenInsert t ?n))" using n by (simp add: tokenInsert_def)
qed

lemma sound_postToken [sound_intros]: "acOk s \<Longrightarrow> sound s (snd (postToken e p req s))"
  by (auto simp: postToken_def tokenCreate_def generateToken_def Let_def split_beta sound_refl sound_tokens
      split: option.split simp del: One_nat_def)

lemma sound_revoke [sound_intros]:
  "acOk s \<Longrightarrow> sound s (snd (revokeToken user idt s))"
  "acOk s \<Longrightarrow> sound s (snd (revokeAnyToken idt s))"
  by (auto simp: revokeToken_def tokenRevoke_def revokeAnyToken_def tokenRevokeAny_def Let_def sound_refl sound_tokens
      split: option.split)

lemma sound_principalOf [sound_intros]: "acOk s \<Longrightarrow> sound s (snd (principalOf e cred s))"
  by (auto simp: principalOf_def resolveHash_def Let_def split_beta sound_refl sound_tokens
      split: option.split sum.split)

lemma sound_logout [sound_intros]: "acOk s \<Longrightarrow> sound s (snd (logout i s))"
  by (auto simp: logout_def intro!: soundI evolves_intros intro: owns_intros)

lemma sound_now [sound_intros]: "acOk s \<Longrightarrow> sound s (s\<lparr>ac_now := t\<rparr>)"
  by (rule soundI) (auto simp: owns_def holdsRole_def intro!: evolves_intros)

subsection \<open>Reachable stores\<close>

inductive accountStep :: "authEnv \<Rightarrow> accounts \<Rightarrow> accounts \<Rightarrow> bool" for e where
  create: "accountStep e s (snd (createUser e inp s))"
| bootstrap: "accountStep e s (snd (ensureAdmin e m pw s))"
| update: "accountStep e s (snd (updateUser e actor idt uinp s))"
| reset: "accountStep e s (snd (resetPassword e idt pw s))"
| delete: "accountStep e s (snd (deleteUser actor idt s))"
| self: "accountStep e s (snd (updateProfile e i n em s))"
| change: "accountStep e s (snd (changePassword e i cur new s))"
| grant: "accountStep e s (snd (addGrant idt ginp s))"
| ungrant: "accountStep e s (snd (removeGrant idt gidt s))"
| newRole: "accountStep e s (snd (createRole e rinp s))"
| editRole: "accountStep e s (snd (updateRole e idt rinp s))"
| dropRole: "accountStep e s (snd (deleteRole idt s))"
| signOut: "accountStep e s (snd (logout i s))"
| newToken: "accountStep e s (snd (postToken e p req s))"
| dropToken: "accountStep e s (snd (revokeToken i idt s))"
| dropAny: "accountStep e s (snd (revokeAnyToken idt s))"
| resolve: "accountStep e s (snd (principalOf e cred s))"
| tick: "ac_now s \<le> t \<Longrightarrow> accountStep e s (s\<lparr>ac_now := t\<rparr>)"

lemma accountStep_sound: "accountStep e s s' \<Longrightarrow> acOk s \<Longrightarrow> sound s s'"
  by (induction rule: accountStep.induct) (rule sound_intros; assumption)+

text \<open>A session of account \<open>i\<close> at epoch \<open>ep\<close> is over once the account has moved past it or is gone.\<close>

definition sessionOver :: "uuid \<times> int \<Rightarrow> accounts \<Rightarrow> bool" where
  "sessionOver x s \<longleftrightarrow> fst x < ac_next s \<and> (\<forall>u \<in> set (ac_users s). us_id u = fst x \<longrightarrow> snd x < us_epoch u)"

lemma sessionOver_evolves:
  assumes "evolves s s'" "sessionOver x s" shows "sessionOver x s'"
proof -
  have "snd x < us_epoch u'" if u': "u' \<in> set (ac_users s')" "us_id u' = fst x" for u'
  proof -
    from assms(1) u'(1) consider "ac_next s \<le> us_id u'"
      | u where "u \<in> set (ac_users s)" "us_id u = us_id u'" "us_epoch u \<le> us_epoch u'"
      unfolding evolves_def by blast
    then show ?thesis using assms(2) u'(2) by cases (auto simp: sessionOver_def)
  qed
  then show ?thesis using assms by (auto simp: sessionOver_def evolves_def)
qed

lemma accountStep_keeps:
  assumes "acOk s" "accountStep e s s'"
  shows "acOk s'" "staffed s \<Longrightarrow> staffed s'" "sessionOver x s \<Longrightarrow> sessionOver x s'"
  using accountStep_sound [OF assms(2,1)] evolves_acOk sessionOver_evolves unfolding sound_def by blast+

interpretation owner: settling "accountStep e" acOk "\<lambda>u :: unit. staffed" for e
  by unfold_locales (rule accountStep_keeps; assumption)+

interpretation session: settling "accountStep e" acOk sessionOver for e
  by unfold_locales (rule accountStep_keeps; assumption)+

text \<open>C11. As long as every operation runs on its own, there is always an active account that holds the owner
  role globally: whatever sequence of account, role, grant, token and sign-in operations is run, in
  any order and whether they succeed or fail.\<close>

theorem owner_remains:
  assumes "acOk s" "1 \<le> countActiveOwners s" "(accountStep e)\<^sup>*\<^sup>* s s'"
  shows "acOk s' \<and> 1 \<le> countActiveOwners s'"
  using owner.inv_steps [OF assms(3,1)] owner.settled_steps [OF assms(3,1)] assms(2)
  by (simp add: staffed_count)

definition exAuthEnv :: authEnv where
  "exAuthEnv = \<lparr>ae_bcrypt = (\<lambda>n pw. natStr n @ ''$'' @ pw), ae_check = (\<lambda>h pw. suffix (''$'' @ pw) h), ae_fold = toLowerAscii,
     ae_mailbox = (\<lambda>m. CHR ''@'' \<in> set m), ae_runes = (\<lambda>n. True), ae_random = natStr, ae_sha = (\<lambda>t. CHR ''h'' # t),
     ae_sign = (\<lambda>idt ep x. (case parseId idt of None \<Rightarrow> [] | Some i \<Rightarrow> natStr i) @ ''.'' @ natStr (nat ep) @ ''.'' @ natStr (nat x)),
     ae_claims = (\<lambda>now t. None)\<rparr>"

definition exOwner :: "uuid \<Rightarrow> string \<Rightarrow> user" where
  "exOwner i m = \<lparr>us_id = i, us_email = m, us_name = m, us_status = statusActive, us_hash = Some ''1$password'',
     us_epoch = 0, us_createdAt = 0, us_version = 0\<rparr>"

definition exRoles :: "role list" where
  "exRoles = [\<lparr>ro_id = 1, ro_name = ''owner'', ro_description = [], ro_isSystem = True, ro_permissions = [''token:write'', ''user:write'']\<rparr>,
     \<lparr>ro_id = 2, ro_name = ''viewer'', ro_description = [], ro_isSystem = True, ro_permissions = [''user:read'']\<rparr>]"

definition exAccounts :: accounts where
  "exAccounts = \<lparr>ac_users = [exOwner 3 ''ann@x'', exOwner 4 ''bob@x''], ac_roles = exRoles,
     ac_userRoles = [globalRoleRow 5 3 1, globalRoleRow 6 4 1], ac_tokens = [], ac_next = 7, ac_now = 100\<rparr>"

lemma exAccounts_ok: "acOk exAccounts" "countActiveOwners exAccounts = 2"
  by (auto simp: exAccounts_def acOk_def exRoles_def exOwner_def globalRoleRow_def countActiveOwners_def activeOwners_def
      holdsRole_def)

lemma owner_remains_witness:
  "1 \<le> countActiveOwners (snd (deleteUser 4 (IdOf 3) exAccounts))
     \<and> 1 \<le> countActiveOwners (snd (deleteUser 3 (IdOf 4) (snd (deleteUser 4 (IdOf 3) exAccounts))))"
proof -
  let ?s = "snd (deleteUser 4 (IdOf 3) exAccounts)"
  have "accountStep exAuthEnv exAccounts ?s" "accountStep exAuthEnv ?s (snd (deleteUser 3 (IdOf 4) ?s))"
    by (rule accountStep.delete)+
  then have "(accountStep exAuthEnv)\<^sup>*\<^sup>* exAccounts ?s" "(accountStep exAuthEnv)\<^sup>*\<^sup>* exAccounts (snd (deleteUser 3 (IdOf 4) ?s))"
    by (auto intro: rtranclp_trans)
  then show ?thesis using owner_remains [OF exAccounts_ok(1), of exAuthEnv] exAccounts_ok(2) by simp
qed

text \<open>The guard reads before the statements that follow it, in transactions of their own: two
  administrators who suspend each other at the same time both pass it, and afterwards no active owner
  is left.\<close>

theorem owner_race:
  "\<exists>s w1 w2. acOk s \<and> countActiveOwners s = 2
     \<and> updateChecks exAuthEnv 3 (IdOf 4) \<lparr>ui_name = None, ui_email = None, ui_status = Some statusSuspended, ui_role = None\<rparr> s = Inr (4, w1)
     \<and> updateChecks exAuthEnv 4 (IdOf 3) \<lparr>ui_name = None, ui_email = None, ui_status = Some statusSuspended, ui_role = None\<rparr> s = Inr (3, w2)
     \<and> fst (updateWrites exAuthEnv 4 w1 s) = None
     \<and> fst (updateWrites exAuthEnv 3 w2 (snd (updateWrites exAuthEnv 4 w1 s))) = None
     \<and> countActiveOwners (snd (updateWrites exAuthEnv 3 w2 (snd (updateWrites exAuthEnv 4 w1 s)))) = 0"
proof -
  let ?w = "\<lparr>ui_name = None, ui_email = None, ui_status = Some statusSuspended, ui_role = None\<rparr>"
  have "updateChecks exAuthEnv 3 (IdOf 4) ?w exAccounts = Inr (4, ?w)"
    "updateChecks exAuthEnv 4 (IdOf 3) ?w exAccounts = Inr (3, ?w)"
    "fst (updateWrites exAuthEnv 4 ?w exAccounts) = None"
    "fst (updateWrites exAuthEnv 3 ?w (snd (updateWrites exAuthEnv 4 ?w exAccounts))) = None"
    "countActiveOwners (snd (updateWrites exAuthEnv 3 ?w (snd (updateWrites exAuthEnv 4 ?w exAccounts)))) = 0"
    by code_simp+
  then show ?thesis using exAccounts_ok by blast
qed

text \<open>An owner who is suspended cannot be deleted or demoted while one active owner is left, although
  that would lock nobody out: the guard does not look at the status of the account.\<close>

lemma suspended_owner_kept:
  assumes "acOk s" "holdsRole i ''owner'' s" "\<not> owns i s" "countActiveOwners s = 1" "actor \<noteq> i"
  shows "deleteUser actor (IdOf i) s
     = (Some (Conflict ''this is the last active owner account; assign another owner first''), s)"
  using assms by (auto simp: deleteUser_def deleteChecks_def guardLastOwner_def rolesFor_iff)

subsection \<open>Sessions end\<close>

text \<open>What the code relies on of the signature library: a session verifies as what was signed or, once
  expired, not at all; and a signed session has no white space around it and is not an API token.\<close>

definition jwtOk :: "authEnv \<Rightarrow> bool" where
  "jwtOk e \<longleftrightarrow> (\<forall>sub ep x. trimSpace (ae_sign e sub ep x) = ae_sign e sub ep x
     \<and> \<not> hasPrefix apiTokenPrefix (ae_sign e sub ep x)
     \<and> (\<forall>t. ae_claims e t (ae_sign e sub ep x) = None \<or> ae_claims e t (ae_sign e sub ep x) = Some (sub, ep)))"

lemma userGet_Inr: "userGet i s = Inr u \<Longrightarrow> u \<in> set (ac_users s) \<and> us_id u = i"
  by (auto simp: userGet_def dest: find_SomeD split: option.splits)

lemma authenticate_Inr:
  "authenticate e ttl m pw s = Inr (tok, u) \<Longrightarrow>
     u \<in> set (ac_users s) \<and> us_status u = statusActive \<and> tok = ae_sign e (IdOf (us_id u)) (us_epoch u) (ac_now s + ttl)"
  by (auto simp: authenticate_def credentialsByEmail_def dest: find_SomeD split: option.splits sum.splits if_splits)

text \<open>The epoch of an account never goes back, so a session issued at epoch \<open>ep\<close> is over as soon as the
  epoch is advanced once.\<close>

lemma evolves_steps: "(accountStep e)\<^sup>*\<^sup>* s s' \<Longrightarrow> acOk s \<Longrightarrow> evolves s s'"
proof (induction rule: rtranclp_induct)
  case (step t u)
  then have "evolves s t" by blast
  moreover have "evolves t u" using accountStep_sound step evolves_acOk \<open>evolves s t\<close> by (auto simp: sound_def)
  ultimately show ?case by (rule evolves_trans)
qed (rule evolves_refl)

lemma epoch_bumped:
  assumes "acOk s" "userUpdate i f s = (None, s')" "\<And>u. us_id (f u) = us_id u" "\<And>u. us_epoch (f u) = us_epoch u + 1"
    and "\<forall>u \<in> set (ac_users s). us_id u = i \<longrightarrow> ep \<le> us_epoch u"
  shows "sessionOver (i, ep) s'"
  using assms by (auto simp: userUpdate_def userExists_def list_ex_iff sessionOver_def acOk_def split: if_splits)

definition endsSessions :: "authEnv \<Rightarrow> uuid \<Rightarrow> (accounts \<Rightarrow> apperr option \<times> accounts) \<Rightarrow> bool" where
  "endsSessions e i f \<longleftrightarrow> f = logout i \<or> (\<exists>pw. f = resetPassword e (IdOf i) pw) \<or> (\<exists>cur new. f = changePassword e i cur new)"

lemma endsSessions_over:
  assumes "acOk s" "endsSessions e i f" "f s = (None, s')" "\<forall>u \<in> set (ac_users s). us_id u = i \<longrightarrow> ep \<le> us_epoch u"
  shows "sessionOver (i, ep) s'"
proof -
  have "\<exists>g. userUpdate i g s = (None, s') \<and> (\<forall>u. us_id (g u) = us_id u) \<and> (\<forall>u. us_epoch (g u) = us_epoch u + 1)"
    using assms(2,3)
    by (fastforce simp: endsSessions_def logout_def bumpTokenEpoch_def resetPassword_def changePassword_def setPassword_def
        split: option.splits sum.splits if_splits)
  with epoch_bumped [OF assms(1) _ _ _ assms(4)] show ?thesis by metis
qed

lemma over_refused:
  assumes "sessionOver (i, ep) s" "0 \<le> ep"
  shows "\<exists>msg. principalFor i [] ep s = Inl (Unauthorized msg)"
proof (cases "userGet i s")
  case (Inr u)
  from userGet_Inr [OF Inr] assms have "ep \<noteq> us_epoch u" by (auto simp: sessionOver_def)
  then show ?thesis using assms(2) by (auto simp: principalFor_def Inr)
qed (simp add: principalFor_def)

text \<open>C12. Signing out, an administrator's password reset and a password change each end every browser
  session of the account that was issued before: whatever operations run before and after, the session
  never identifies anyone again.\<close>

theorem signed_out:
  assumes "jwtOk e" "acOk s" "authenticate e ttl m pw s = Inr (tok, u)" "(accountStep e)\<^sup>*\<^sup>* s s1"
    and "endsSessions e (us_id u) f" "f s1 = (None, s2)" "(accountStep e)\<^sup>*\<^sup>* s2 s3"
  shows "\<exists>msg. fst (principalOf e tok s3) = Inl (Unauthorized msg)"
proof -
  from authenticate_Inr [OF assms(3)] have u: "u \<in> set (ac_users s)"
    and tok: "tok = ae_sign e (IdOf (us_id u)) (us_epoch u) (ac_now s + ttl)" by auto
  from evolves_steps [OF assms(4,2)] have ev: "evolves s s1" .
  have "us_epoch u \<le> us_epoch u'" if u': "u' \<in> set (ac_users s1)" "us_id u' = us_id u" for u'
  proof -
    have "us_id u < ac_next s" using u assms(2) by (simp add: acOk_def)
    with ev u' obtain v where v: "v \<in> set (ac_users s)" "us_id v = us_id u" "us_epoch v \<le> us_epoch u'"
      unfolding evolves_def by (metis not_le)
    moreover have "distinct (map us_id (ac_users s))" using assms(2) by (simp add: acOk_def)
    ultimately show ?thesis using distinct_key u by metis
  qed
  then have "sessionOver (us_id u, us_epoch u) s2"
    using endsSessions_over [OF evolves_acOk [OF ev] assms(5,6)] by blast
  moreover have "acOk s2"
  proof -
    have "acOk (snd (f s1))" if "endsSessions e i f" for i
      using that evolves_acOk [OF ev] sound_logout sound_resetPassword sound_changePassword evolves_acOk
      unfolding endsSessions_def sound_def by blast
    with assms(5,6) show ?thesis by force
  qed
  ultimately have "sessionOver (us_id u, us_epoch u) s3" using session.settled_steps [OF assms(7)] by blast
  moreover have "0 \<le> us_epoch u" using u assms(2) by (simp add: acOk_def)
  ultimately obtain msg where "principalFor (us_id u) [] (us_epoch u) s3 = Inl (Unauthorized msg)"
    using over_refused by blast
  moreover have "trimSpace tok = tok" "\<not> hasPrefix apiTokenPrefix tok"
    "ae_claims e (ac_now s3) tok = None \<or> ae_claims e (ac_now s3) tok = Some (IdOf (us_id u), us_epoch u)"
    using assms(1) by (simp_all add: jwtOk_def tok)
  ultimately show ?thesis by (auto simp: principalOf_def)
qed

definition exJwt :: authEnv where
  "exJwt = exAuthEnv\<lparr>ae_sign := (\<lambda>sub ep x. if sub = IdOf 3 \<and> ep = 0 then ''s'' else ''x''),
     ae_claims := (\<lambda>t c. if c = ''s'' then Some (IdOf 3, 0) else None)\<rparr>"

lemma exJwt_ok: "jwtOk exJwt"
proof -
  have "trimSpace ''s'' = ''s''" "trimSpace ''x'' = ''x''" by code_simp+
  then show ?thesis by (simp add: jwtOk_def exJwt_def)
qed

lemma signed_out_witness:
  "pp_userId (projr (fst (principalOf exJwt ''s'' exAccounts))) = 3
     \<and> (\<exists>msg. fst (principalOf exJwt ''s'' (snd (logout 3 exAccounts))) = Inl (Unauthorized msg))"
proof -
  have "authenticate exJwt 60 ''ann@x'' ''password'' exAccounts = Inr (''s'', exOwner 3 ''ann@x'')"
    "logout 3 exAccounts = (None, snd (logout 3 exAccounts))"
    "pp_userId (projr (fst (principalOf exJwt ''s'' exAccounts))) = 3" by code_simp+
  then show ?thesis
    using signed_out [OF exJwt_ok exAccounts_ok(1), of 60 "''ann@x''" "''password''" "''s''" "exOwner 3 ''ann@x''"
        exAccounts "logout 3"]
    by (auto simp: endsSessions_def exOwner_def)
qed

end
