(* ===== verification/Access.thy ===== *)
theory Access
  imports Owners Backups
begin

text \<open>
  What a caller may reach: the ancestry of a resource (\<open>app/authz/resolver.go\<close> over
  \<open>infra/postgres/authz_repository.go\<close>), the permission checks of \<open>interfaces/httpapi/middleware_auth.go\<close>
  and the scope conditions of the list queries (\<open>database_repository.go\<close>, \<open>backup_repository.go\<close>,
  \<open>instance_repository.go\<close>).  The lemmas say that lists show what may be opened, and what an API token
  may do.  An instance without a server has \<open>NULL\<close> there; what reading it into a \<open>uuid.UUID\<close> gives is
  the database driver's (the parameter \<open>nullId\<close>, for \<open>google/uuid\<close> the nil UUID).
\<close>

subsection \<open>The ancestry of a resource\<close>

definition serverRead :: "apperr + uuid \<Rightarrow> inst \<Rightarrow> apperr + uuid" where
  "serverRead nullId i = (case in_serverId i of None \<Rightarrow> nullId | Some x \<Rightarrow> Inr x)"

definition serverOfInstance :: "apperr + uuid \<Rightarrow> 'a backupstore_scheme \<Rightarrow> uuid \<Rightarrow> apperr + uuid" where
  "serverOfInstance nullId w i = (case List.find (\<lambda>x. in_id x = i) (iv_instances w) of
     None \<Rightarrow> Inl (NotFound ''instance not found'') | Some x \<Rightarrow> serverRead nullId x)"

definition lineageOfDatabase :: "apperr + uuid \<Rightarrow> 'a backupstore_scheme \<Rightarrow> uuid \<Rightarrow> apperr + (uuid \<times> uuid)" where
  "lineageOfDatabase nullId w i =
     (case List.find (\<lambda>d. dr_id d = i) (iv_databases w) of
        None \<Rightarrow> Inl (NotFound ''database not found'')
      | Some d \<Rightarrow> (case List.find (\<lambda>x. in_id x = dr_instanceId d) (iv_instances w) of
          None \<Rightarrow> Inl (NotFound ''database not found'')
        | Some x \<Rightarrow> ebind (serverRead nullId x) (\<lambda>sid. Inr (dr_instanceId d, sid))))"

definition databaseOfBackup :: "'a backupstore_scheme \<Rightarrow> uuid \<Rightarrow> apperr + uuid" where
  "databaseOfBackup w i = (case List.find (\<lambda>b. bk_id b = i) (bs_backups w) of
     None \<Rightarrow> Inl (NotFound ''backup not found'') | Some b \<Rightarrow> Inr (bk_databaseId b))"

definition jobResource :: "'a backupstore_scheme \<Rightarrow> uuid \<Rightarrow> apperr + (string \<times> uuid)" where
  "jobResource w i = (case List.find (\<lambda>j. jb_id j = i) (js_jobs w) of
     None \<Rightarrow> Inl (NotFound ''operation not found'')
   | Some j \<Rightarrow> Inr (jb_resourceType j, case jb_resourceId j of None \<Rightarrow> uuid_nil | Some x \<Rightarrow> x))"

text \<open>A resource type is text where it comes from a job; other text than these five is not a type, and
  such a resource is covered by nothing.\<close>

definition resourceNamed :: "string \<Rightarrow> resourceType option" where
  "resourceNamed s = map_of [(''server'', ResourceServer), (''instance'', ResourceInstance), (''database'', ResourceDatabase),
     (''backup'', ResourceBackup), (''operation'', ResourceOperation)] s"

partial_function (option) ancestryOf ::
  "apperr + uuid \<Rightarrow> 'a backupstore_scheme \<Rightarrow> resourceType option \<Rightarrow> uuid \<Rightarrow> (apperr + ancestry) option" where
  "ancestryOf nullId w t i =
     (case t of
        None \<Rightarrow> Some (Inr [])
      | Some ResourceServer \<Rightarrow> Some (Inr [serverScope i])
      | Some ResourceInstance \<Rightarrow> Some (ebind (serverOfInstance nullId w i) (\<lambda>sid. Inr [serverScope sid]))
      | Some ResourceDatabase \<Rightarrow>
          Some (ebind (lineageOfDatabase nullId w i) (\<lambda>(iid, sid). Inr [databaseScope i, serverScope sid]))
      | Some ResourceBackup \<Rightarrow> (case databaseOfBackup w i of
            Inl e \<Rightarrow> Some (Inl e) | Inr d \<Rightarrow> ancestryOf nullId w (Some ResourceDatabase) d)
      | Some ResourceOperation \<Rightarrow> (case jobResource w i of
            Inl e \<Rightarrow> Some (Inl e)
          | Inr (rt, rid) \<Rightarrow>
              if rt = [] \<or> rid = uuid_nil then Some (Inr []) else ancestryOf nullId w (resourceNamed rt) rid))"

lemma ancestryOf_simps [simp]:
  "ancestryOf nullId w None i = Some (Inr [])"
  "ancestryOf nullId w (Some ResourceServer) i = Some (Inr [serverScope i])"
  "ancestryOf nullId w (Some ResourceInstance) i = Some (ebind (serverOfInstance nullId w i) (\<lambda>sid. Inr [serverScope sid]))"
  "ancestryOf nullId w (Some ResourceDatabase) i =
     Some (ebind (lineageOfDatabase nullId w i) (\<lambda>(iid, sid). Inr [databaseScope i, serverScope sid]))"
  "ancestryOf nullId w (Some ResourceBackup) i = (case databaseOfBackup w i of
     Inl e \<Rightarrow> Some (Inl e) | Inr d \<Rightarrow> ancestryOf nullId w (Some ResourceDatabase) d)"
  by (subst ancestryOf.simps, simp)+

subsection \<open>The checks\<close>

definition requirePerm :: "principal option \<Rightarrow> string \<Rightarrow> apperr option" where
  "requirePerm p perm =
     (if p = None then Some (Unauthorized ''authentication required'')
      else if perm \<noteq> [] \<and> \<not> can p perm then Some (Forbidden ''insufficient permissions'') else None)"

definition requireAnyPerm :: "principal option \<Rightarrow> string \<Rightarrow> apperr option" where
  "requireAnyPerm p perm =
     (if p = None then Some (Unauthorized ''authentication required'')
      else if \<not> canAny p perm then Some (Forbidden ''insufficient permissions'') else None)"

definition authorizeResource ::
  "apperr + uuid \<Rightarrow> 'a backupstore_scheme \<Rightarrow> principal option \<Rightarrow> string \<Rightarrow> resourceType \<Rightarrow> uuid \<Rightarrow> apperr option option" where
  "authorizeResource nullId w p perm t i =
     (if p = None then Some (Some (Unauthorized ''authentication required''))
      else Option.bind (ancestryOf nullId w (Some t) i) (\<lambda>r. case r of
        Inl e \<Rightarrow> Some (Some e)
      | Inr anc \<Rightarrow> Some (if \<not> canOn p perm anc then Some (Forbidden ''insufficient permissions'') else None)))"

definition requireResourcePerm ::
  "apperr + uuid \<Rightarrow> 'a backupstore_scheme \<Rightarrow> principal option \<Rightarrow> string \<Rightarrow> resourceType \<Rightarrow> string \<Rightarrow> idText
     \<Rightarrow> apperr option option" where
  "requireResourcePerm nullId w p perm t idParam idt =
     (if p = None then Some (Some (Unauthorized ''authentication required''))
      else case parseId idt of
        None \<Rightarrow> Some (Some (Invalid idParam ''must be a valid UUID''))
      | Some i \<Rightarrow> Option.bind (ancestryOf nullId w (Some t) i) (\<lambda>r. case r of
          Inl e \<Rightarrow> Some (Some e)
        | Inr anc \<Rightarrow> Some (if \<not> canOn p perm anc then Some (Forbidden ''insufficient permissions'') else None)))"

definition readScope :: "principal option \<Rightarrow> string \<Rightarrow> readSet option" where
  "readScope p perm =
     (if p = None then Some \<lparr>rs_all = False, rs_serverIds = [], rs_databaseIds = []\<rparr>
      else let rs = readable p perm in if rs_all rs then None else Some rs)"

subsection \<open>The lists\<close>

definition onServers :: "uuid list \<Rightarrow> inst \<Rightarrow> bool" where
  "onServers ids i \<longleftrightarrow> (case in_serverId i of None \<Rightarrow> False | Some x \<Rightarrow> x \<in> set ids)"

record dbFilter =
  df_instanceId :: "uuid option"
  df_status :: "dbStatus option"
  df_search :: string
  df_scope :: "readSet option"
  df_limit :: int
  df_offset :: int

text \<open>Search text is matched by the store (\<open>ILIKE\<close>) as a pattern in which the text's own wildcards are
  escaped.\<close>

definition likeEscape :: "string \<Rightarrow> string" where
  "likeEscape s = concat (map (\<lambda>c. if c = BSL \<or> c = CHR ''%'' \<or> c = CHR ''_'' then [BSL, c] else [c]) s)"

definition dbMatches :: "(string \<Rightarrow> string \<Rightarrow> bool) \<Rightarrow> dbFilter \<Rightarrow> dbrow \<Rightarrow> inst \<Rightarrow> bool" where
  "dbMatches ilike f d i \<longleftrightarrow> dbLive d
     \<and> (df_instanceId f = None \<or> df_instanceId f = Some (dr_instanceId d))
     \<and> (df_status f = None \<or> df_status f = Some (dr_status d))
     \<and> (df_search f = [] \<or> ilike (dr_name d) (''%'' @ likeEscape (df_search f) @ ''%''))
     \<and> (case df_scope f of None \<Rightarrow> True | Some rs \<Rightarrow> dr_id d \<in> set (rs_databaseIds rs) \<or> onServers (rs_serverIds rs) i)"

definition databaseList :: "(string \<Rightarrow> string \<Rightarrow> bool) \<Rightarrow> dbFilter \<Rightarrow> 'a backupstore_scheme \<Rightarrow> dbrow list \<times> nat" where
  "databaseList ilike f w = pageOf (df_limit f) (df_offset f) (sort_key (\<lambda>d. - dr_createdAt d)
     (filter (\<lambda>d. list_ex (\<lambda>i. in_id i = dr_instanceId d \<and> \<not> in_deleted i \<and> dbMatches ilike f d i) (iv_instances w))
        (iv_databases w)))"

record backupFilter =
  bf_databaseId :: "uuid option"
  bf_status :: "backupStatus option"
  bf_search :: string
  bf_scope :: "readSet option"
  bf_limit :: int
  bf_offset :: int

definition dbInstances :: "'a backupstore_scheme \<Rightarrow> uuid \<Rightarrow> (dbrow \<Rightarrow> inst \<Rightarrow> bool) \<Rightarrow> bool" where
  "dbInstances w db P \<longleftrightarrow> list_ex (\<lambda>d. dr_id d = db
     \<and> list_ex (\<lambda>i. in_id i = dr_instanceId d \<and> P d i) (iv_instances w)) (iv_databases w)"

definition backupMatches :: "(string \<Rightarrow> string \<Rightarrow> bool) \<Rightarrow> backupFilter \<Rightarrow> 'a backupstore_scheme \<Rightarrow> backup \<Rightarrow> bool" where
  "backupMatches ilike f w b \<longleftrightarrow>
     (bf_databaseId f = None \<or> bf_databaseId f = Some (bk_databaseId b))
     \<and> (bf_status f = None \<or> bf_status f = Some (bk_status b))
     \<and> (bf_search f = [] \<or> dbInstances w (bk_databaseId b) (\<lambda>d i.
          ilike (dr_name d) (''%'' @ likeEscape (bf_search f) @ ''%'')
          \<or> ilike (in_name i) (''%'' @ likeEscape (bf_search f) @ ''%'')))
     \<and> (case bf_scope f of None \<Rightarrow> True | Some rs \<Rightarrow> bk_databaseId b \<in> set (rs_databaseIds rs)
          \<or> dbInstances w (bk_databaseId b) (\<lambda>d i. onServers (rs_serverIds rs) i))"

definition backupList :: "(string \<Rightarrow> string \<Rightarrow> bool) \<Rightarrow> backupFilter \<Rightarrow> 'a backupstore_scheme \<Rightarrow> backup list \<times> nat" where
  "backupList ilike f w = pageOf (bf_limit f) (bf_offset f)
     (sort_key (\<lambda>b. - bk_createdAt b) (filter (backupMatches ilike f w) (bs_backups w)))"

record instFilter =
  if_serverId :: "uuid option"
  if_kind :: "instKind option"
  if_scope :: "readSet option"

definition instMatches :: "instFilter \<Rightarrow> 'a backupstore_scheme \<Rightarrow> inst \<Rightarrow> bool" where
  "instMatches f w i \<longleftrightarrow> \<not> in_deleted i
     \<and> (if_serverId f = None \<or> if_serverId f = in_serverId i)
     \<and> (if_kind f = None \<or> if_kind f = Some (in_kind i))
     \<and> (case if_scope f of None \<Rightarrow> True | Some rs \<Rightarrow> onServers (rs_serverIds rs) i
          \<or> list_ex (\<lambda>d. dr_instanceId d = in_id i \<and> dr_id d \<in> set (rs_databaseIds rs)) (iv_databases w))"

text \<open>The list of operations: without a global permission, the caller's own.\<close>

definition operationList :: "principal option \<Rightarrow> jobFilter \<Rightarrow> 'a backupstore_scheme \<Rightarrow> job list \<times> nat" where
  "operationList p f w = jobList (f\<lparr>jf_createdBy := (case p of None \<Rightarrow> None
     | Some x \<Rightarrow> if \<not> can p ''operation:read'' then Some (pp_userId x) else None)\<rparr>) w"

subsection \<open>The attention list of the overview\<close>

record attention =
  at_kind :: string
  at_serverId :: uuid
  at_databaseId :: uuid

definition attentionPerm :: "string \<Rightarrow> string" where
  "attentionPerm k =
     (if k \<in> {''server_offline'', ''agent_outdated'', ''agent_unsupported''} then ''server:read''
      else if k = ''instance_unreachable'' then ''instance:read''
      else if k = ''database_missing'' then ''database:read''
      else if k = ''operation_failed'' then ''operation:read''
      else ''backup:read'')"

definition attentionAncestry :: "attention \<Rightarrow> ancestry" where
  "attentionAncestry a = (if at_databaseId a \<noteq> uuid_nil then [databaseScope (at_databaseId a)] else [])
     @ (if at_serverId a \<noteq> uuid_nil then [serverScope (at_serverId a)] else [])"

definition maxAttention :: nat where "maxAttention = 20"

fun attentionShown :: "principal option \<Rightarrow> attention list \<Rightarrow> attention list \<Rightarrow> attention list" where
  "attentionShown p out [] = out"
| "attentionShown p out (a # as) =
     (if length out = maxAttention then out
      else if \<not> canOn p (attentionPerm (at_kind a)) (attentionAncestry a) then attentionShown p out as
      else attentionShown p (out @ [a]) as)"

subsection \<open>Decisions about a resource\<close>

text \<open>A resource of the job table names a server, instance, database or backup, never another operation;
  then the ancestry is always found, whatever the rest of the store holds.\<close>

definition jobsNameResources :: "'a backupstore_scheme \<Rightarrow> bool" where
  "jobsNameResources w \<longleftrightarrow> (\<forall>j \<in> set (js_jobs w). jb_resourceType j \<noteq> ''operation'')"

lemma ancestry_defined:
  assumes "jobsNameResources w"
  shows "\<exists>r. ancestryOf nullId w t i = Some r"
proof -
  have base: "\<exists>r. ancestryOf nullId w t i = Some r" if "t \<noteq> Some ResourceOperation" for t i
  proof (cases t)
    case (Some x)
    then show ?thesis using that by (cases x) (auto split: sum.split)
  qed simp
  show ?thesis
  proof (cases "t = Some ResourceOperation")
    case True
    show ?thesis
    proof (cases "jobResource w i")
      case (Inr x)
      obtain rt rid where x: "x = (rt, rid)" by (cases x)
      from Inr x have "\<exists>j \<in> set (js_jobs w). jb_resourceType j = rt"
        by (auto simp: jobResource_def dest!: find_SomeD split: option.splits)
      then have "rt \<noteq> ''operation''" using assms by (auto simp: jobsNameResources_def)
      then have "resourceNamed rt \<noteq> Some ResourceOperation" by (auto simp: resourceNamed_def split: if_splits)
      from base [OF this, of rid] show ?thesis by (subst ancestryOf.simps) (auto simp: True Inr x)
    qed (subst ancestryOf.simps, simp add: True)
  qed (use base in blast)
qed

lemma find_key: "distinct (map k xs) \<Longrightarrow> x \<in> set xs \<Longrightarrow> List.find (\<lambda>y. k y = k x) xs = Some x"
  by (induction xs) (auto simp: image_iff)

lemma canOn_iff: "canOn (Some p) perm anc \<longleftrightarrow> allow (pp_grants p) perm anc"
  by (simp add: canOn_def)

lemma database_allowed_iff:
  assumes "distinct (map dr_id (iv_databases w))" "distinct (map in_id (iv_instances w))"
    and "d \<in> set (iv_databases w)" "i \<in> set (iv_instances w)" "in_id i = dr_instanceId d" "nullId = Inr uuid_nil"
  shows "authorizeResource nullId w (Some p) perm ResourceDatabase (dr_id d) = Some None
     \<longleftrightarrow> allow (pp_grants p) perm [databaseScope (dr_id d),
           serverScope (case in_serverId i of None \<Rightarrow> uuid_nil | Some x \<Rightarrow> x)]"
  using assms find_key [OF assms(1,3)] find_key [OF assms(2,4)]
  by (auto simp: authorizeResource_def lineageOfDatabase_def serverRead_def canOn_iff split: option.split)

lemma readScope_iff:
  assumes "\<forall>g \<in> set (pp_grants p). gr_scope g \<noteq> serverScope uuid_nil"
  shows "(case readScope (Some p) perm of None \<Rightarrow> True
      | Some rs \<Rightarrow> db \<in> set (rs_databaseIds rs) \<or> onServers (rs_serverIds rs) i)
     \<longleftrightarrow> allow (pp_grants p) perm [databaseScope db, serverScope (case in_serverId i of None \<Rightarrow> uuid_nil | Some x \<Rightarrow> x)]"
proof (cases "hasGlobal (pp_grants p) perm")
  case True
  then show ?thesis by (auto simp: readScope_def readable_def readableScope_eq allow_iff hasGlobal_iff)
next
  case False
  then have "(case readScope (Some p) perm of None \<Rightarrow> True
      | Some rs \<Rightarrow> db \<in> set (rs_databaseIds rs) \<or> onServers (rs_serverIds rs) i)
    \<longleftrightarrow> db \<in> set (heldIds ScopeDatabase (pp_grants p) perm) \<or> onServers (heldIds ScopeServer (pp_grants p) perm) i"
    by (simp add: readScope_def readable_def readableScope_eq)
  also have "\<dots> \<longleftrightarrow> allow (pp_grants p) perm [databaseScope db, serverScope (case in_serverId i of None \<Rightarrow> uuid_nil | Some x \<Rightarrow> x)]"
    using assms False
    by (auto simp: heldIds_iff allow_iff hasGlobal_iff onServers_def split: option.splits)
  finally show ?thesis .
qed

lemma pageOf_all: "length rows \<le> nat limit \<Longrightarrow> fst (pageOf limit 0 rows) = rows"
  by (simp add: pageOf_def Let_def)

lemma set_databaseList:
  assumes "df_offset f = 0" "length (iv_databases w) \<le> nat (df_limit f)"
  shows "set (fst (databaseList ilike f w)) = {d \<in> set (iv_databases w).
     \<exists>i \<in> set (iv_instances w). in_id i = dr_instanceId d \<and> \<not> in_deleted i \<and> dbMatches ilike f d i}"
proof -
  have "length (filter P (iv_databases w)) \<le> nat (df_limit f)" for P
    using assms(2) length_filter_le [of P "iv_databases w"] by linarith
  then show ?thesis using assms(1) by (auto simp: databaseList_def pageOf_all list_ex_iff)
qed

lemma set_backupList:
  assumes "bf_offset f = 0" "length (bs_backups w) \<le> nat (bf_limit f)"
  shows "set (fst (backupList ilike f w)) = {b \<in> set (bs_backups w). backupMatches ilike f w b}"
proof -
  have "length (filter P (bs_backups w)) \<le> nat (bf_limit f)" for P
    using assms(2) length_filter_le [of P "bs_backups w"] by linarith
  then show ?thesis using assms(1) by (auto simp: backupList_def pageOf_all)
qed

definition linked :: "'a backupstore_scheme \<Rightarrow> bool" where
  "linked w \<longleftrightarrow> distinct (map dr_id (iv_databases w)) \<and> distinct (map in_id (iv_instances w)) \<and> distinct (map bk_id (bs_backups w))
     \<and> (\<forall>d \<in> set (iv_databases w). \<exists>i \<in> set (iv_instances w). in_id i = dr_instanceId d)
     \<and> (\<forall>b \<in> set (bs_backups w). \<exists>d \<in> set (iv_databases w). dr_id d = bk_databaseId b)"

lemma listed_database:
  assumes "linked w" "nullId = Inr uuid_nil" "\<forall>g \<in> set (pp_grants p). gr_scope g \<noteq> serverScope uuid_nil"
    and "d \<in> set (iv_databases w)" "i \<in> set (iv_instances w)" "in_id i = dr_instanceId d"
  shows "dbMatches ilike (f\<lparr>df_scope := readScope (Some p) perm\<rparr>) d i
     \<longleftrightarrow> dbMatches ilike (f\<lparr>df_scope := None\<rparr>) d i
       \<and> authorizeResource nullId w (Some p) perm ResourceDatabase (dr_id d) = Some None"
proof -
  have "distinct (map dr_id (iv_databases w))" "distinct (map in_id (iv_instances w))"
    using assms(1) by (simp_all add: linked_def)
  note a = database_allowed_iff [OF this assms(4-6,2), of p perm]
  show ?thesis unfolding a readScope_iff [OF assms(3), symmetric, where perm = perm and db = "dr_id d" and i = i]
    by (auto simp: dbMatches_def)
qed

lemma listed_backup:
  assumes "linked w" "nullId = Inr uuid_nil" "\<forall>g \<in> set (pp_grants p). gr_scope g \<noteq> serverScope uuid_nil"
    and "b \<in> set (bs_backups w)"
  shows "backupMatches ilike (f\<lparr>bf_scope := readScope (Some p) perm\<rparr>) w b
     \<longleftrightarrow> backupMatches ilike (f\<lparr>bf_scope := None\<rparr>) w b
       \<and> authorizeResource nullId w (Some p) perm ResourceBackup (bk_id b) = Some None"
proof -
  have dis: "distinct (map dr_id (iv_databases w))" "distinct (map in_id (iv_instances w))" "distinct (map bk_id (bs_backups w))"
    using assms(1) by (simp_all add: linked_def)
  obtain d i where d: "d \<in> set (iv_databases w)" "dr_id d = bk_databaseId b"
    and i: "i \<in> set (iv_instances w)" "in_id i = dr_instanceId d"
    using assms(1,4) unfolding linked_def by metis
  have sub: "dbInstances w (dr_id d) (\<lambda>d'. Q) \<longleftrightarrow> Q i" for Q
    using d i distinct_key [OF dis(1)] distinct_key [OF dis(2)]
    by (auto simp: dbInstances_def list_ex_iff) metis
  have "authorizeResource nullId w (Some p) perm ResourceBackup (bk_id b)
      = authorizeResource nullId w (Some p) perm ResourceDatabase (dr_id d)"
    using find_key [OF dis(3) assms(4)] d(2) by (simp add: authorizeResource_def databaseOfBackup_def)
  with database_allowed_iff [OF dis(1,2) d(1) i assms(2), of p perm]
  have a: "authorizeResource nullId w (Some p) perm ResourceBackup (bk_id b) = Some None
     \<longleftrightarrow> allow (pp_grants p) perm [databaseScope (dr_id d), serverScope (case in_serverId i of None \<Rightarrow> uuid_nil | Some x \<Rightarrow> x)]"
    by simp
  show ?thesis unfolding a readScope_iff [OF assms(3), symmetric, where perm = perm and db = "dr_id d" and i = i]
    by (cases "readScope (Some p) perm") (auto simp: backupMatches_def sub simp flip: d(2))
qed

text \<open>C13. A list shows exactly what the caller may open: the databases (backups) listed for a caller are
  those of the unrestricted list that the permission check of a single database (backup) lets through,
  whatever the filters.\<close>

theorem lists_show_what_opens:
  assumes "linked w" "nullId = Inr uuid_nil" "\<forall>g \<in> set (pp_grants p). gr_scope g \<noteq> serverScope uuid_nil"
    and "df_offset f = 0" "length (iv_databases w) \<le> nat (df_limit f)"
    and "bf_offset h = 0" "length (bs_backups w) \<le> nat (bf_limit h)"
  shows "set (fst (databaseList ilike (f\<lparr>df_scope := readScope (Some p) perm\<rparr>) w))
      = {d \<in> set (fst (databaseList ilike (f\<lparr>df_scope := None\<rparr>) w)).
           authorizeResource nullId w (Some p) perm ResourceDatabase (dr_id d) = Some None}
    \<and> set (fst (backupList ilike (h\<lparr>bf_scope := readScope (Some p) perm\<rparr>) w))
      = {b \<in> set (fst (backupList ilike (h\<lparr>bf_scope := None\<rparr>) w)).
           authorizeResource nullId w (Some p) perm ResourceBackup (bk_id b) = Some None}"
proof -
  have "set (fst (databaseList ilike (f\<lparr>df_scope := readScope (Some p) perm\<rparr>) w))
      = {d \<in> set (fst (databaseList ilike (f\<lparr>df_scope := None\<rparr>) w)).
           authorizeResource nullId w (Some p) perm ResourceDatabase (dr_id d) = Some None}"
    using listed_database [OF assms(1-3), where ilike = ilike and f = f and perm = perm] assms(4,5)
    by (auto simp: set_databaseList)
  moreover have "set (fst (backupList ilike (h\<lparr>bf_scope := readScope (Some p) perm\<rparr>) w))
      = {b \<in> set (fst (backupList ilike (h\<lparr>bf_scope := None\<rparr>) w)).
           authorizeResource nullId w (Some p) perm ResourceBackup (bk_id b) = Some None}"
    using listed_backup [OF assms(1-3), where ilike = ilike and f = h and perm = perm] assms(6,7)
    by (auto simp: set_backupList)
  ultimately show ?thesis ..
qed

text \<open>The list of instances is wider: a grant on a database shows its instance, which may not be opened.\<close>

lemma instances_listed_wider:
  assumes "linked w" "nullId = Inr uuid_nil" "i \<in> set (iv_instances w)" "\<not> in_deleted i" "d \<in> set (iv_databases w)"
    and "dr_instanceId d = in_id i" "pp_grants p = [\<lparr>gr_permission = perm, gr_scope = databaseScope (dr_id d)\<rparr>]"
  shows "instMatches \<lparr>if_serverId = None, if_kind = None, if_scope = readScope (Some p) perm\<rparr> w i"
    and "authorizeResource nullId w (Some p) perm ResourceInstance (in_id i) = Some (Some (Forbidden ''insufficient permissions''))"
proof -
  show "instMatches \<lparr>if_serverId = None, if_kind = None, if_scope = readScope (Some p) perm\<rparr> w i"
    using assms(4-7) by (auto simp: instMatches_def readScope_def readable_def readableScope_eq heldIds_def list_ex_iff)
  have "distinct (map in_id (iv_instances w))" using assms(1) by (simp add: linked_def)
  from find_key [OF this assms(3)]
  show "authorizeResource nullId w (Some p) perm ResourceInstance (in_id i) = Some (Some (Forbidden ''insufficient permissions''))"
    using assms(2,7) by (auto simp: authorizeResource_def serverOfInstance_def serverRead_def canOn_iff allow_iff split: option.split)
qed

subsection \<open>API tokens\<close>

lemma hourNanos_word: "word_of_int h * word_of_int hourNanos = (word_of_int (h * hourNanos) :: 64 word)"
  by (rule of_int_mult [symmetric])

lemma lifetime_eq: "lifetime h = signed_take_bit 63 (h * hourNanos)"
  unfolding lifetime_def hourNanos_word sint_sbintrunc' by simp

lemma lifetime_exact: "0 < h \<Longrightarrow> h \<le> 2562047 \<Longrightarrow> lifetime h = h * hourNanos"
  unfolding lifetime_eq
  by (rule signed_take_bit_int_eq_self) (simp_all add: hourNanos_def)

lemma lifetime_wraps: "lifetime 2562048 < 0"
  unfolding lifetime_eq by (simp add: hourNanos_def)

lemma grantsFor_tokens [simp]: "grantsFor i (s\<lparr>ac_tokens := ts\<rparr>) = grantsFor i s"
  by (simp add: grantsFor_def roleById_def)

lemma grantsFor_tokenUpdate [simp]: "grantsFor i (tokenUpdate P f s) = grantsFor i s"
  by (simp add: tokenUpdate_def)

lemma userGet_tokens [simp]: "userGet i (tokenUpdate P f s) = userGet i s" "userGet i (s\<lparr>ac_tokens := ts\<rparr>) = userGet i s"
  by (simp_all add: tokenUpdate_def userGet_def)

lemma principalFor_Inr:
  assumes "principalFor i scopes ep s = Inr p"
  shows "pp_userId p = i \<and> pp_scopes p = scopes \<and> (\<exists>u \<in> set (ac_users s). us_id u = i \<and> us_status u = statusActive)
    \<and> pp_grants p = (if scopes = [] then grantsFor i s else restrictToScopes (grantsFor i s) scopes)"
  using assms by (auto simp: principalFor_def Let_def dest: userGet_Inr split: sum.splits if_splits)

lemma principalFor_tokenUpdate [simp]: "principalFor i scopes ep (tokenUpdate P f s) = principalFor i scopes ep s"
  by (simp only: principalFor_def userGet_tokens grantsFor_tokenUpdate)

lemma resolveHash_Inr:
  assumes "resolveHash h s = (Inr l, s')"
  shows "\<exists>t \<in> set (ac_tokens s). tk_hash t = h \<and> tokenLive (ac_now s) t \<and> lk_userId l = tk_userId t \<and> lk_scopes l = tk_scopes t
    \<and> (\<exists>P f. s' = tokenUpdate P f s)"
  using assms by (fastforce simp: resolveHash_def dest!: find_SomeD split: option.splits)

lemma principalOf_Inr:
  assumes "principalOf e cred s = (Inr p, s')"
  obtains i scopes ep where "principalFor i scopes ep s = Inr (p\<lparr>pp_tokenId := None\<rparr>)"
    "hasPrefix apiTokenPrefix (trimSpace cred) \<Longrightarrow> \<exists>t \<in> set (ac_tokens s). tk_hash t = ae_sha e (trimSpace cred)
       \<and> tokenLive (ac_now s) t \<and> tk_userId t = i \<and> tk_scopes t = scopes"
proof (cases "hasPrefix apiTokenPrefix (trimSpace cred)")
  case True
  then have ne: "trimSpace cred \<noteq> []" by auto
  obtain r s1 where r: "resolveHash (ae_sha e (trimSpace cred)) s = (r, s1)" by fastforce
  with assms True ne obtain l q where l: "r = Inr l" and q: "principalFor (lk_userId l) (lk_scopes l) (-1) s1 = Inr q"
    "p = q\<lparr>pp_tokenId := (if lk_id l \<noteq> uuid_nil then Some (lk_id l) else None)\<rparr>"
    by (auto simp: principalOf_def Let_def result_simps split: sum.splits)
  from resolveHash_Inr [OF r [unfolded l]] obtain t P f where t: "t \<in> set (ac_tokens s)" "tk_hash t = ae_sha e (trimSpace cred)"
    "tokenLive (ac_now s) t" "lk_userId l = tk_userId t" "lk_scopes l = tk_scopes t" "s1 = tokenUpdate P f s" by blast
  from q have "pp_tokenId q = None" by (auto simp: principalFor_def Let_def split: sum.splits if_splits)
  with q t have "principalFor (lk_userId l) (lk_scopes l) (-1) s = Inr (p\<lparr>pp_tokenId := None\<rparr>)" by simp
  then show ?thesis using that t by metis
next
  case False
  with assms obtain i ep where "principalFor i [] ep s = Inr p"
    by (auto simp: principalOf_def Let_def split: if_splits option.splits)
  moreover from this have "p = p\<lparr>pp_tokenId := None\<rparr>" by (auto simp: principalFor_def Let_def split: sum.splits if_splits)
  ultimately show ?thesis using that False by metis
qed

text \<open>C15. Nobody acts beyond an account: whatever the credential, the caller is an active account, and what
  the caller may do to a resource is what the roles of that account allow.  An API token acts for the
  account that made it only while it is neither revoked nor expired, and when it has scopes, only with
  those permissions.\<close>

theorem token_bound:
  assumes "principalOf e cred s = (Inr p, s')"
  shows "(\<exists>u \<in> set (ac_users s). us_id u = pp_userId p \<and> us_status u = statusActive)
    \<and> (canOn (Some p) perm anc
         \<longrightarrow> allow (grantsFor (pp_userId p) s) perm anc \<and> (pp_scopes p = [] \<or> perm \<in> set (pp_scopes p)))
    \<and> (hasPrefix apiTokenPrefix (trimSpace cred)
         \<longrightarrow> (\<exists>t \<in> set (ac_tokens s). tk_hash t = ae_sha e (trimSpace cred) \<and> tokenLive (ac_now s) t
               \<and> tk_userId t = pp_userId p \<and> tk_scopes t = pp_scopes p))"
proof -
  obtain i scopes ep where q: "principalFor i scopes ep s = Inr (p\<lparr>pp_tokenId := None\<rparr>)"
    and t: "hasPrefix apiTokenPrefix (trimSpace cred) \<Longrightarrow> \<exists>t \<in> set (ac_tokens s). tk_hash t = ae_sha e (trimSpace cred)
       \<and> tokenLive (ac_now s) t \<and> tk_userId t = i \<and> tk_scopes t = scopes"
    by (rule principalOf_Inr [OF assms]) blast
  from principalFor_Inr [OF q] have p: "pp_userId p = i" "pp_scopes p = scopes"
    "pp_grants p = (if scopes = [] then grantsFor i s else restrictToScopes (grantsFor i s) scopes)"
    "\<exists>u \<in> set (ac_users s). us_id u = i \<and> us_status u = statusActive" by simp_all
  moreover have "allow (pp_grants p) perm anc \<longleftrightarrow> allow (grantsFor i s) perm anc \<and> (scopes = [] \<or> perm \<in> set scopes)"
    by (auto simp: p(3) allow_restrict)
  ultimately show ?thesis using t by (simp add: canOn_iff)
qed

definition exTokens :: accounts where
  "exTokens = exAccounts\<lparr>ac_tokens := [\<lparr>tk_id = 9, tk_userId = 3, tk_name = ''ci'', tk_prefix = ''fleetd_'',
     tk_hash = ''hfleetd_9'', tk_scopes = [''token:write''], tk_lastUsedAt = None, tk_expiresAt = Some 500, tk_revokedAt = None,
     tk_createdAt = 0\<rparr>], ac_next := 10\<rparr>"

definition exPrincipal :: principal where
  "exPrincipal = \<lparr>pp_userId = 3, pp_email = ''ann@x'', pp_tokenId = Some 9,
     pp_grants = [\<lparr>gr_permission = ''token:write'', gr_scope = globalScope\<rparr>], pp_scopes = [''token:write'']\<rparr>"

lemma exPrincipal_of: "principalOf exAuthEnv ''fleetd_9'' exTokens = (Inr exPrincipal, snd (principalOf exAuthEnv ''fleetd_9'' exTokens))"
proof -
  have "fst (principalOf exAuthEnv ''fleetd_9'' exTokens) = Inr exPrincipal" by code_simp
  then show ?thesis by (metis prod.collapse)
qed

lemma token_bound_witness:
  "\<not> canOn (Some exPrincipal) ''user:write'' [] \<and> canOn (Some exPrincipal) ''token:write'' []
     \<and> allow (grantsFor 3 exTokens) ''user:write'' []"
  using token_bound [OF exPrincipal_of, of "''user:write''" "[]"]
  by (simp add: canOn_iff) (code_simp)

lemma principalFor_cong:
  assumes "ac_users s' = ac_users s" "ac_roles s' = ac_roles s" "ac_userRoles s' = ac_userRoles s"
  shows "principalFor i scopes ep s' = principalFor i scopes ep s \<and> grantsFor i s' = grantsFor i s"
proof -
  have g: "grantsFor i s' = grantsFor i s" using assms by (simp add: grantsFor_def roleById_def)
  moreover have "userGet i s' = userGet i s" using assms by (simp add: userGet_def)
  ultimately show ?thesis by (simp only: principalFor_def)
qed

lemma principalFor_unscoped:
  "principalFor i scopes ep s = Inr p \<Longrightarrow> \<exists>q. principalFor i [] (-1) s = Inr q"
  by (auto simp: principalFor_def split: sum.splits if_splits)

lemma principalOf_same:
  "principalOf e cred s = (r, s') \<Longrightarrow> ac_users s' = ac_users s \<and> ac_roles s' = ac_roles s \<and> ac_userRoles s' = ac_userRoles s"
  by (auto simp: principalOf_def resolveHash_def tokenUpdate_def Let_def split: if_splits option.splits sum.splits prod.splits)

text \<open>The scopes of a token are not inherited by the tokens it creates: with a token limited to
  \<open>token:write\<close> one may create a token without scopes, and that one acts with every grant of the account
  (the check of the requested scopes does not refuse an empty list).\<close>

theorem scoped_token_escalates:
  assumes "principalOf e cred s = (Inr p, s1)" "requirePerm (Some p) ''token:write'' = None"
    and "trimSpace name \<noteq> []" "trimSpace (apiTokenPrefix @ ae_random e (ac_next s1)) = apiTokenPrefix @ ae_random e (ac_next s1)"
    and "\<forall>t \<in> set (ac_tokens s1). tk_hash t \<noteq> ae_sha e (apiTokenPrefix @ ae_random e (ac_next s1))"
  shows "\<exists>t full s2 q s3. postToken e p \<lparr>tq_name = name, tq_scopes = [], tq_ttlHours = None\<rparr> s1 = (Inr (t, full), s2)
    \<and> principalOf e full s2 = (Inr q, s3) \<and> pp_userId q = pp_userId p \<and> pp_scopes q = []
    \<and> pp_grants q = grantsFor (pp_userId p) s1"
proof -
  let ?full = "apiTokenPrefix @ ae_random e (ac_next s1)"
  obtain i scopes ep where pf: "principalFor i scopes ep s = Inr (p\<lparr>pp_tokenId := None\<rparr>)"
    by (rule principalOf_Inr [OF assms(1)]) blast
  note same = principalOf_same [OF assms(1)]
  have "pp_userId p = i" using principalFor_Inr [OF pf] by simp
  with pf obtain q where q: "principalFor (pp_userId p) [] (-1) s = Inr q" using principalFor_unscoped by blast
  then obtain u where u: "u \<in> set (ac_users s1)" "us_id u = pp_userId p" using principalFor_Inr [OF q] same by auto
  define t where "t = \<lparr>tk_id = ac_next s1, tk_userId = pp_userId p, tk_name = name, tk_prefix = take 13 ?full,
     tk_hash = ae_sha e ?full, tk_scopes = [], tk_lastUsedAt = None, tk_expiresAt = None, tk_revokedAt = None,
     tk_createdAt = ac_now s1\<rparr>"
  let ?s2 = "s1\<lparr>ac_next := Suc (ac_next s1), ac_tokens := ac_tokens s1 @ [t]\<rparr>"
  have post: "postToken e p \<lparr>tq_name = name, tq_scopes = [], tq_ttlHours = None\<rparr> s1 = (Inr (t, ?full), ?s2)"
    using assms(3,5) u
    by (auto simp: postToken_def tokenCreate_def generateToken_def tokenInsert_def userExists_def list_ex_iff Let_def t_def)
  have "List.find (\<lambda>t. tk_hash t = ae_sha e ?full \<and> tokenLive (ac_now s1) t) (ac_tokens s1 @ [t]) = Some t"
    by (rule find_fresh) (use assms(5) in \<open>auto simp: t_def tokenLive_def\<close>)
  then have res: "fst (resolveHash (ae_sha e ?full) ?s2) = Inr \<lparr>lk_id = ac_next s1, lk_userId = pp_userId p, lk_scopes = []\<rparr>"
    "\<exists>P f. snd (resolveHash (ae_sha e ?full) ?s2) = tokenUpdate P f ?s2"
    by (auto simp: resolveHash_def t_def)
  obtain r s3 where rs: "resolveHash (ae_sha e ?full) ?s2 = (r, s3)" by fastforce
  with res obtain P f where r: "r = Inr \<lparr>lk_id = ac_next s1, lk_userId = pp_userId p, lk_scopes = []\<rparr>" "s3 = tokenUpdate P f ?s2" by auto
  have "principalFor (pp_userId p) [] (-1) s3 = Inr q"
    unfolding r(2) principalFor_tokenUpdate using q same principalFor_cong [of ?s2 s "pp_userId p" "[]" "-1"] by simp
  moreover have "\<not> trimSpace ?full = []" "hasPrefix apiTokenPrefix (trimSpace ?full)" by (simp_all only: assms(4), simp_all)
  ultimately have "principalOf e ?full ?s2
      = (Inr (q\<lparr>pp_tokenId := (if ac_next s1 \<noteq> uuid_nil then Some (ac_next s1) else None)\<rparr>), s3)"
    using rs by (simp only: principalOf_def Let_def assms(4)) (simp add: r(1))
  moreover have "pp_grants q = grantsFor (pp_userId p) s1" "pp_scopes q = []" "pp_userId q = pp_userId p"
    using principalFor_Inr [OF q] principalFor_cong [of s1 s "pp_userId p" "[]" "-1"] same by simp_all
  ultimately show ?thesis using post by fastforce
qed

lemma scoped_token_escalates_witness:
  "\<exists>t full s2 q s3. postToken exAuthEnv exPrincipal \<lparr>tq_name = ''x'', tq_scopes = [], tq_ttlHours = None\<rparr>
       (snd (principalOf exAuthEnv ''fleetd_9'' exTokens)) = (Inr (t, full), s2)
     \<and> principalOf exAuthEnv full s2 = (Inr q, s3) \<and> pp_userId q = 3 \<and> pp_scopes q = []
     \<and> pp_grants q = grantsFor 3 (snd (principalOf exAuthEnv ''fleetd_9'' exTokens))"
proof -
  let ?s = "snd (principalOf exAuthEnv ''fleetd_9'' exTokens)"
  have "requirePerm (Some exPrincipal) ''token:write'' = None" "trimSpace ''x'' \<noteq> []"
    "trimSpace (apiTokenPrefix @ ae_random exAuthEnv (ac_next ?s)) = apiTokenPrefix @ ae_random exAuthEnv (ac_next ?s)"
    "\<forall>t \<in> set (ac_tokens ?s). tk_hash t \<noteq> ae_sha exAuthEnv (apiTokenPrefix @ ae_random exAuthEnv (ac_next ?s))"
    by code_simp+
  from scoped_token_escalates [OF exPrincipal_of this] show ?thesis by (simp add: exPrincipal_def)
qed

text \<open>A lifetime of up to 2562047 hours is kept exactly; one hour more wraps around the 64-bit
  nanosecond count, and the token that is created has expired before it is handed out.\<close>

theorem token_lifetime:
  assumes "postToken e p req s = (Inr (t, full), s')" "tq_ttlHours req = Some h"
  shows "0 < h \<and> (h \<le> 2562047 \<longrightarrow> tk_expiresAt t = Some (ac_now s + h * hourNanos)) \<and> (h = 2562048 \<longrightarrow> \<not> tokenLive (ac_now s) t)"
proof -
  have pos: "0 < h" using assms by (auto simp: postToken_def split: if_splits)
  from assms have "tk_expiresAt t = Some (ac_now s + lifetime h)"
    by (auto simp: postToken_def tokenCreate_def generateToken_def Let_def split: if_splits option.splits prod.splits)
  then show ?thesis using pos lifetime_exact [of h] lifetime_wraps by (auto simp: tokenLive_def)
qed

lemma token_lifetime_witness:
  "\<exists>t full s'. postToken exAuthEnv exPrincipal \<lparr>tq_name = ''x'', tq_scopes = [], tq_ttlHours = Some 2562048\<rparr> exTokens = (Inr (t, full), s')
     \<and> \<not> tokenLive (ac_now exTokens) t"
proof -
  let ?r = "\<lparr>tq_name = ''x'', tq_scopes = [], tq_ttlHours = Some 2562048\<rparr>"
  have "isl (fst (postToken exAuthEnv exPrincipal ?r exTokens)) = False"
    by (code_simp)
  from not_isl_pair [OF this] obtain t full s' where r: "postToken exAuthEnv exPrincipal ?r exTokens = (Inr (t, full), s')" by auto
  from token_lifetime [OF r, of 2562048] show ?thesis using r by auto
qed

definition exHost :: "uuid \<Rightarrow> uuid option \<Rightarrow> inst" where
  "exHost i srv = \<lparr>in_id = i, in_serverId = srv, in_name = ''db'', in_engine = EngineMariaDB, in_kind = KindManaged, in_port = 3306,
     in_username = None, in_rootSecretRef = None, in_containerId = None, in_status = InstRunning, in_deleted = False\<rparr>"

definition exRow :: "uuid \<Rightarrow> uuid \<Rightarrow> dbrow" where
  "exRow i inst = \<lparr>dr_id = i, dr_instanceId = inst, dr_name = ''shop'', dr_charset = [], dr_collation = [], dr_status = StActive,
     dr_system = False, dr_sizeBytes = 0, dr_connections = 0, dr_lockedAt = None, dr_lockedBy = None,
     dr_missingSince = None, dr_lastSeenAt = None, dr_labels = [], dr_createdAt = 0, dr_deletedAt = None, dr_version = 0\<rparr>"

definition exBackups :: backupstore where
  "exBackups = \<lparr>iv_instances = [exHost 1 (Some 7), exHost 2 None], iv_databases = [exRow 3 1, exRow 4 1, exRow 5 2],
     js_jobs = [], js_logs = [], js_next = 20, js_now = 0, bs_backups = [], bs_dests = [], bs_ext = []\<rparr>"

text \<open>A reader of server 7 sees its two databases and not the one on an external server; of another
  reader the list shows one database.\<close>

lemma lists_show_what_opens_witness:
  "{d \<in> {exRow 3 1, exRow 4 1, exRow 5 2}. authorizeResource (Inr 0) exBackups
       (Some (exPrincipal\<lparr>pp_grants := [\<lparr>gr_permission = ''database:read'', gr_scope = serverScope 7\<rparr>]\<rparr>)) ''database:read''
       ResourceDatabase (dr_id d) = Some None} = {exRow 3 1, exRow 4 1}"
proof -
  let ?p = "exPrincipal\<lparr>pp_grants := [\<lparr>gr_permission = ''database:read'', gr_scope = serverScope 7\<rparr>]\<rparr>"
  let ?f = "\<lparr>df_instanceId = None, df_status = None, df_search = [], df_scope = None, df_limit = 10, df_offset = 0\<rparr>"
  let ?h = "\<lparr>bf_databaseId = None, bf_status = None, bf_search = [], bf_scope = None, bf_limit = 10, bf_offset = 0\<rparr>"
  have "linked exBackups" "\<forall>g \<in> set (pp_grants ?p). gr_scope g \<noteq> serverScope uuid_nil"
    "length (iv_databases exBackups) \<le> nat (df_limit ?f)" "length (bs_backups exBackups) \<le> nat (bf_limit ?h)"
    by (simp_all add: linked_def exBackups_def exHost_def exRow_def)
  then have "set (fst (databaseList (\<lambda>_ _. True) (?f\<lparr>df_scope := readScope (Some ?p) ''database:read''\<rparr>) exBackups))
     = {d \<in> set (fst (databaseList (\<lambda>_ _. True) (?f\<lparr>df_scope := None\<rparr>) exBackups)).
          authorizeResource (Inr 0) exBackups (Some ?p) ''database:read'' ResourceDatabase (dr_id d) = Some None}"
    using lists_show_what_opens [of exBackups "Inr 0" ?p ?f ?h "\<lambda>_ _. True" "''database:read''"] by simp
  moreover have "fst (databaseList (\<lambda>_ _. True) (?f\<lparr>df_scope := readScope (Some ?p) ''database:read''\<rparr>) exBackups) = [exRow 3 1, exRow 4 1]"
    "fst (databaseList (\<lambda>_ _. True) (?f\<lparr>df_scope := None\<rparr>) exBackups) = [exRow 3 1, exRow 4 1, exRow 5 2]" by code_simp+
  ultimately show ?thesis by simp
qed

text \<open>The attention list shows the first items the caller may read, at most twenty.\<close>

lemma attentionShown_eq:
  "length out \<le> maxAttention \<Longrightarrow> attentionShown p out as = out
     @ take (maxAttention - length out) (filter (\<lambda>a. canOn p (attentionPerm (at_kind a)) (attentionAncestry a)) as)"
proof (induction as arbitrary: out)
  case (Cons a as)
  then show ?case by (auto simp: take_Cons')
qed simp

subsection \<open>The policy\<close>

text \<open>What the hierarchy of resources promises, without any of the code's lookups: a scope covers a
  resource when the resource is it or lies under it.\<close>

inductive covered :: "'a backupstore_scheme \<Rightarrow> resourceType \<Rightarrow> uuid \<Rightarrow> accessScope \<Rightarrow> bool" for w where
  server: "covered w ResourceServer i (serverScope i)"
| instance_of: "x \<in> set (iv_instances w) \<Longrightarrow> in_serverId x = Some i \<Longrightarrow> covered w ResourceInstance (in_id x) (serverScope i)"
| database_self: "d \<in> set (iv_databases w) \<Longrightarrow> covered w ResourceDatabase (dr_id d) (databaseScope (dr_id d))"
| database_of: "d \<in> set (iv_databases w) \<Longrightarrow> covered w ResourceInstance (dr_instanceId d) sc \<Longrightarrow> covered w ResourceDatabase (dr_id d) sc"
| backup_of: "b \<in> set (bs_backups w) \<Longrightarrow> covered w ResourceDatabase (bk_databaseId b) sc \<Longrightarrow> covered w ResourceBackup (bk_id b) sc"
| operation_on: "j \<in> set (js_jobs w) \<Longrightarrow> jb_resourceId j = Some i \<Longrightarrow> i \<noteq> uuid_nil \<Longrightarrow> resourceNamed (jb_resourceType j) = Some t
    \<Longrightarrow> covered w t i sc \<Longrightarrow> covered w ResourceOperation (jb_id j) sc"

inductive_simps covered_simps:
  "covered w ResourceServer i sc"
  "covered w ResourceInstance i sc"
  "covered w ResourceDatabase i sc"
  "covered w ResourceBackup i sc"
  "covered w ResourceOperation i sc"

text \<open>An account may do something to a resource when one of its roles has the permission, globally or on a
  scope that covers the resource.\<close>

definition policy :: "accounts \<Rightarrow> 'a backupstore_scheme \<Rightarrow> uuid \<Rightarrow> string \<Rightarrow> resourceType \<Rightarrow> uuid \<Rightarrow> bool" where
  "policy s w user perm t i \<longleftrightarrow> (\<exists>ur \<in> set (ac_userRoles s). \<exists>r \<in> set (ac_roles s). ur_userId ur = user \<and> ro_id r = ur_roleId ur
     \<and> perm \<in> set (ro_permissions r)
     \<and> (ur_scopeType ur = ScopeGlobal
        \<or> (\<exists>k. ur_scopeId ur = Some k \<and> covered w t i \<lparr>sc_type = ur_scopeType ur, sc_id = k\<rparr>)))"

definition scopesOk :: "accounts \<Rightarrow> bool" where
  "scopesOk s \<longleftrightarrow> (\<forall>ur \<in> set (ac_userRoles s). (ur_scopeId ur = None \<longleftrightarrow> ur_scopeType ur = ScopeGlobal) \<and> ur_scopeId ur \<noteq> Some uuid_nil)"

lemma ancestry_server:
  assumes "linked w" "ancestryOf (Inr uuid_nil) w (Some ResourceInstance) i = Some (Inr anc)" "sc \<noteq> serverScope uuid_nil"
  shows "sc \<in> set anc \<longleftrightarrow> covered w ResourceInstance i sc"
proof -
  have d: "distinct (map in_id (iv_instances w))" using assms(1) by (simp add: linked_def)
  from assms(2) obtain x where x: "List.find (\<lambda>x. in_id x = i) (iv_instances w) = Some x"
    "anc = [serverScope (case in_serverId x of None \<Rightarrow> uuid_nil | Some k \<Rightarrow> k)]"
    by (auto simp: serverOfInstance_def serverRead_def result_simps split: option.splits)
  from find_SomeD [OF x(1)] have "x \<in> set (iv_instances w)" "in_id x = i" by auto
  then have "covered w ResourceInstance i sc \<longleftrightarrow> (\<exists>k. in_serverId x = Some k \<and> sc = serverScope k)"
    unfolding covered_simps using distinct_key [OF d] by blast
  then show ?thesis using assms(3) x(2) by (cases "in_serverId x") auto
qed

lemma ancestry_database:
  assumes "linked w" "ancestryOf (Inr uuid_nil) w (Some ResourceDatabase) i = Some (Inr anc)" "sc \<noteq> serverScope uuid_nil"
  shows "sc \<in> set anc \<longleftrightarrow> covered w ResourceDatabase i sc"
proof -
  have d: "distinct (map dr_id (iv_databases w))" "distinct (map in_id (iv_instances w))"
    using assms(1) by (simp_all add: linked_def)
  from assms(2) obtain r x where r: "List.find (\<lambda>d. dr_id d = i) (iv_databases w) = Some r"
    and x: "List.find (\<lambda>x. in_id x = dr_instanceId r) (iv_instances w) = Some x"
    and anc: "anc = [databaseScope i, serverScope (case in_serverId x of None \<Rightarrow> uuid_nil | Some k \<Rightarrow> k)]"
    by (auto simp: lineageOfDatabase_def serverRead_def result_simps split: option.splits)
  from find_SomeD [OF r] have r': "r \<in> set (iv_databases w)" "dr_id r = i" by auto
  have "ancestryOf (Inr uuid_nil) w (Some ResourceInstance) (dr_instanceId r)
      = Some (Inr [serverScope (case in_serverId x of None \<Rightarrow> uuid_nil | Some k \<Rightarrow> k)])"
    using x by (simp add: serverOfInstance_def serverRead_def split: option.split)
  from ancestry_server [OF assms(1) this assms(3)]
  have "sc = serverScope (case in_serverId x of None \<Rightarrow> uuid_nil | Some k \<Rightarrow> k) \<longleftrightarrow> covered w ResourceInstance (dr_instanceId r) sc"
    by simp
  moreover have "covered w ResourceDatabase i sc \<longleftrightarrow> sc = databaseScope i \<or> covered w ResourceInstance (dr_instanceId r) sc"
    unfolding covered_simps(3) using r' distinct_key [OF d(1)] by blast
  ultimately show ?thesis by (auto simp: anc)
qed

lemma ancestry_covered:
  assumes "linked w" "distinct (map jb_id (js_jobs w))" "jobsNameResources w"
    and "ancestryOf (Inr uuid_nil) w (Some t) i = Some (Inr anc)" "sc \<noteq> serverScope uuid_nil"
  shows "sc \<in> set anc \<longleftrightarrow> covered w t i sc"
proof -
  have simple: "sc \<in> set anc \<longleftrightarrow> covered w t i sc"
    if a: "ancestryOf (Inr uuid_nil) w (Some t) i = Some (Inr anc)" and "t \<noteq> ResourceOperation" for t i anc
  proof (cases t)
    case ResourceServer
    then show ?thesis using a by (auto simp: covered_simps)
  next
    case ResourceInstance
    then show ?thesis using ancestry_server [OF assms(1) _ assms(5)] a by blast
  next
    case ResourceDatabase
    then show ?thesis using ancestry_database [OF assms(1) _ assms(5)] a by blast
  next
    case ResourceBackup
    with a obtain b where b: "List.find (\<lambda>b. bk_id b = i) (bs_backups w) = Some b"
      and a': "ancestryOf (Inr uuid_nil) w (Some ResourceDatabase) (bk_databaseId b) = Some (Inr anc)"
      by (auto simp: databaseOfBackup_def split: option.splits)
    have "distinct (map bk_id (bs_backups w))" using assms(1) by (simp add: linked_def)
    note key = distinct_key [OF this]
    from find_SomeD [OF b] have b': "b \<in> set (bs_backups w)" "bk_id b = i" by auto
    have "y = b" if "y \<in> set (bs_backups w)" "bk_id y = i" for y
      using key [OF that(1) b'(1)] that(2) b'(2) by simp
    with b' have "covered w ResourceBackup i sc \<longleftrightarrow> covered w ResourceDatabase (bk_databaseId b) sc"
      unfolding covered_simps(4) by metis
    then show ?thesis using ancestry_database [OF assms(1) a' assms(5)] ResourceBackup by simp
  qed (use that in simp)
  show ?thesis
  proof (cases "t = ResourceOperation")
    case True
    from assms(4) obtain rt rid where jr: "jobResource w i = Inr (rt, rid)"
      and anc: "(if rt = [] \<or> rid = uuid_nil then Some (Inr []) else ancestryOf (Inr uuid_nil) w (resourceNamed rt) rid) = Some (Inr anc)"
      unfolding True by (subst (asm) ancestryOf.simps) (auto split: sum.splits prod.splits)
    then obtain j where j: "j \<in> set (js_jobs w)" "jb_id j = i" "rt = jb_resourceType j"
      "rid = (case jb_resourceId j of None \<Rightarrow> uuid_nil | Some x \<Rightarrow> x)"
      by (auto simp: jobResource_def dest!: find_SomeD split: option.splits)
    have "covered w ResourceOperation i sc \<longleftrightarrow> (\<exists>k t. jb_resourceId j = Some k \<and> k \<noteq> uuid_nil
        \<and> resourceNamed (jb_resourceType j) = Some t \<and> covered w t k sc)"
    proof -
      have "y = j" if "y \<in> set (js_jobs w)" "jb_id y = i" for y
        using distinct_key [OF assms(2) that(1) j(1)] that(2) j(2) by simp
      with j(1,2) show ?thesis unfolding covered_simps(5) neq0_conv by metis
    qed
    then have cov: "covered w ResourceOperation i sc \<longleftrightarrow> rid \<noteq> uuid_nil \<and> (\<exists>t. resourceNamed rt = Some t \<and> covered w t rid sc)"
      using j(3,4) by (cases "jb_resourceId j") auto
    have "resourceNamed rt \<noteq> Some ResourceOperation"
      using assms(3) j(1,3) by (auto simp: resourceNamed_def jobsNameResources_def split: if_splits)
    moreover have "resourceNamed [] = None" by (simp add: resourceNamed_def)
    ultimately show ?thesis unfolding True cov using anc simple
      by (cases "resourceNamed rt") (auto split: if_splits)
  qed (use simple assms(4) in blast)
qed

lemma grantsFor_allow:
  assumes "acOk s" "scopesOk s" and anc: "\<And>sc. sc \<noteq> serverScope uuid_nil \<Longrightarrow> sc \<in> set anc \<longleftrightarrow> covered w t i sc"
  shows "allow (grantsFor user s) perm anc \<longleftrightarrow> policy s w user perm t i"
proof -
  have d: "distinct (map ro_id (ac_roles s))" using assms(1) by (simp add: acOk_def)
  have row: "g \<in> set (case roleById k s of None \<Rightarrow> [] | Some r \<Rightarrow> map (grantOf ur) (ro_permissions r))
      \<longleftrightarrow> (\<exists>r \<in> set (ac_roles s). ro_id r = k \<and> g \<in> grantOf ur ` set (ro_permissions r))" for g k ur
  proof (cases "roleById k s")
    case (Some a)
    with roleById_iff [OF d, of k] have "a \<in> set (ac_roles s)" "ro_id a = k" by auto
    moreover have "r = a" if "r \<in> set (ac_roles s)" "ro_id r = k" for r
      using roleById_iff [OF d, of k r] that Some by simp
    ultimately show ?thesis unfolding Some option.case set_map by metis
  next
    case None
    then have "\<not> (r \<in> set (ac_roles s) \<and> ro_id r = k)" for r using roleById_iff [OF d, of k r] by simp
    then show ?thesis using None by auto
  qed
  have "g \<in> set (grantsFor user s) \<longleftrightarrow> (\<exists>ur \<in> set (ac_userRoles s). ur_userId ur = user
      \<and> (\<exists>r \<in> set (ac_roles s). ro_id r = ur_roleId ur \<and> g \<in> grantOf ur ` set (ro_permissions r)))" for g
    by (simp only: grantsFor_def set_remdups set_concat set_map set_filter image_image UN_iff mem_Collect_eq row) blast
  note mem = this
  have [simp]: "gr_permission (grantOf ur p) = p" "sc_type (gr_scope (grantOf ur p)) = ur_scopeType ur" for ur p
    by (simp_all add: grantOf_def)
  have eq: "allow (grantsFor user s) perm anc \<longleftrightarrow> (\<exists>ur \<in> set (ac_userRoles s). \<exists>r \<in> set (ac_roles s).
      ur_userId ur = user \<and> ro_id r = ur_roleId ur \<and> perm \<in> set (ro_permissions r)
      \<and> (ur_scopeType ur = ScopeGlobal \<or> gr_scope (grantOf ur perm) \<in> set anc))" (is "_ = ?R")
  proof
    assume "allow (grantsFor user s) perm anc"
    then obtain g where "g \<in> set (grantsFor user s)" "gr_permission g = perm"
      "sc_type (gr_scope g) = ScopeGlobal \<or> gr_scope g \<in> set anc" by (auto simp: allow_iff)
    then obtain ur r where "ur \<in> set (ac_userRoles s)" "r \<in> set (ac_roles s)" "ur_userId ur = user" "ro_id r = ur_roleId ur"
      "perm \<in> set (ro_permissions r)" "ur_scopeType ur = ScopeGlobal \<or> gr_scope (grantOf ur perm) \<in> set anc"
      unfolding mem by auto
    then show ?R by blast
  next
    assume ?R
    then obtain ur where "grantOf ur perm \<in> set (grantsFor user s)"
      "ur_scopeType ur = ScopeGlobal \<or> gr_scope (grantOf ur perm) \<in> set anc" unfolding mem by blast
    then show "allow (grantsFor user s) perm anc" by (force simp: allow_iff)
  qed
  have "ur_scopeType ur = ScopeGlobal \<or> gr_scope (grantOf ur perm) \<in> set anc
      \<longleftrightarrow> ur_scopeType ur = ScopeGlobal \<or> (\<exists>k. ur_scopeId ur = Some k \<and> covered w t i \<lparr>sc_type = ur_scopeType ur, sc_id = k\<rparr>)"
    if "ur \<in> set (ac_userRoles s)" for ur
  proof (cases "ur_scopeType ur = ScopeGlobal")
    case False
    with that assms(2) obtain k where k: "ur_scopeId ur = Some k" "k \<noteq> uuid_nil" by (auto simp: scopesOk_def)
    then have "gr_scope (grantOf ur perm) = \<lparr>sc_type = ur_scopeType ur, sc_id = k\<rparr>" by (simp add: grantOf_def)
    then show ?thesis using k anc [of "gr_scope (grantOf ur perm)"] by simp
  qed simp
  then show ?thesis unfolding eq policy_def by (intro bex_cong refl conj_cong)
qed

lemma restrictToScopes_grantsFor:
  "allow (if scopes = [] then gs else restrictToScopes gs scopes) perm anc \<longleftrightarrow> allow gs perm anc \<and> (scopes = [] \<or> perm \<in> set scopes)"
  by (auto simp: allow_restrict)

text \<open>C14. The code decides what the policy says: for whatever credential, the check of a resource that
  exists lets the caller through exactly when the account behind the credential may do it by the policy,
  and, for a limited API token, the permission is one of the token's; a resource that is not there is
  reported as such.\<close>

theorem access_refines_policy:
  assumes "acOk s" "scopesOk s" "linked w" "distinct (map jb_id (js_jobs w))" "jobsNameResources w"
    and "principalOf e cred s = (Inr p, s')"
  shows "\<exists>r. ancestryOf (Inr uuid_nil) w (Some t) i = Some r
    \<and> authorizeResource (Inr uuid_nil) w (Some p) perm t i = Some (case r of
        Inl er \<Rightarrow> Some er
      | Inr anc \<Rightarrow> if policy s w (pp_userId p) perm t i \<and> (pp_scopes p = [] \<or> perm \<in> set (pp_scopes p)) then None
                 else Some (Forbidden ''insufficient permissions''))"
proof -
  obtain j scopes ep where q: "principalFor j scopes ep s = Inr (p\<lparr>pp_tokenId := None\<rparr>)"
    by (rule principalOf_Inr [OF assms(6)]) blast
  from principalFor_Inr [OF q] have p: "pp_userId p = j" "pp_scopes p = scopes"
    "pp_grants p = (if scopes = [] then grantsFor j s else restrictToScopes (grantsFor j s) scopes)" by simp_all
  obtain r where r: "ancestryOf (Inr uuid_nil) w (Some t) i = Some r" using ancestry_defined [OF assms(5)] by blast
  have "canOn (Some p) perm anc \<longleftrightarrow> policy s w j perm t i \<and> (scopes = [] \<or> perm \<in> set scopes)" if "r = Inr anc" for anc
  proof -
    have "allow (grantsFor j s) perm anc \<longleftrightarrow> policy s w j perm t i"
      by (rule grantsFor_allow [OF assms(1,2)]) (rule ancestry_covered [OF assms(3-5) r [unfolded that]])
    then show ?thesis by (simp only: canOn_iff p(3) restrictToScopes_grantsFor)
  qed
  then show ?thesis using r p by (cases r) (auto simp: authorizeResource_def)
qed

lemma access_refines_policy_witness:
  "policy exTokens exBackups 3 ''token:write'' ResourceDatabase 4
   \<and> authorizeResource (Inr uuid_nil) exBackups (Some exPrincipal) ''token:write'' ResourceDatabase 4 = Some None
   \<and> policy exTokens exBackups 3 ''user:write'' ResourceDatabase 4
   \<and> authorizeResource (Inr uuid_nil) exBackups (Some exPrincipal) ''user:write'' ResourceDatabase 4
       = Some (Some (Forbidden ''insufficient permissions''))"
proof -
  have pol: "policy exTokens exBackups 3 ''token:write'' ResourceDatabase 4" "policy exTokens exBackups 3 ''user:write'' ResourceDatabase 4"
    by (simp_all add: policy_def exTokens_def exAccounts_def exRoles_def globalRoleRow_def)
  have "acOk exTokens" "scopesOk exTokens" "linked exBackups" "distinct (map jb_id (js_jobs exBackups))" "jobsNameResources exBackups"
    by (simp_all add: exTokens_def exAccounts_def exRoles_def exOwner_def globalRoleRow_def acOk_def scopesOk_def linked_def
        exBackups_def exHost_def exRow_def jobsNameResources_def)
  note w = access_refines_policy [OF this exPrincipal_of, of ResourceDatabase 4]
  have "ancestryOf (Inr uuid_nil) exBackups (Some ResourceDatabase) 4 = Some (Inr [databaseScope 4, serverScope 7])"
    by (simp add: lineageOfDatabase_def serverRead_def exBackups_def exRow_def exHost_def)
  then show ?thesis using w [of "''token:write''"] w [of "''user:write''"] pol by (simp add: exPrincipal_def)
qed

end
