(* ===== verification/SignIn.thy ===== *)
theory SignIn
  imports Sessions "HOL-Library.Finite_Map"
begin

text \<open>
  The two brakes on password guessing in front of \<open>Authenticate\<close>: the limit per address
  (\<open>interfaces/httpapi/ratelimit.go\<close>) and the lock of an account
  (\<open>account_guard.go\<close>, used by the login handler of \<open>auth_handler.go\<close>).  Both keep the times of recent
  events and forget those older than a window.  That such a log bounds the events of every window is
  proved once, in the locale \<open>window_log\<close>, of which both are instances.  Times are nanoseconds; a run of
  the process sees a clock that does not go back (Go's monotonic clock).
\<close>

subsection \<open>The limit per address\<close>

record limiter =
  li_hits :: "string \<Rightarrow> int list option"
  li_limit :: int
  li_window :: int

definition hitsOf :: "limiter \<Rightarrow> string \<Rightarrow> int list" where
  "hitsOf l key = (case li_hits l key of None \<Rightarrow> [] | Some ts \<Rightarrow> ts)"

definition newer :: "int \<Rightarrow> int list \<Rightarrow> int list" where
  "newer cutoff ts = filter (\<lambda>t. t > cutoff) ts"

definition limiterAllow :: "int \<Rightarrow> string \<Rightarrow> limiter \<Rightarrow> bool \<times> limiter" where
  "limiterAllow now key l =
     (let recent = newer (now - li_window l) (hitsOf l key)
      in if int (length recent) \<ge> li_limit l then (False, l\<lparr>li_hits := (li_hits l)(key \<mapsto> recent)\<rparr>)
         else (True, l\<lparr>li_hits := (li_hits l)(key \<mapsto> recent @ [now])\<rparr>))"

definition limiterGc :: "int \<Rightarrow> limiter \<Rightarrow> limiter" where
  "limiterGc now l = l\<lparr>li_hits := (\<lambda>k. case li_hits l k of
     None \<Rightarrow> None
   | Some ts \<Rightarrow> if ts = [] \<or> \<not> last ts > now - li_window l then None else Some ts)\<rparr>"

subsection \<open>The lock of an account\<close>

record guard =
  gu_fails :: "(string, int list) fmap"
  gu_limit :: nat
  gu_window :: int

definition accountKey :: "string \<Rightarrow> string" where
  "accountKey email = toLowerAscii (trimSpace email)"

definition guardRecent :: "int \<Rightarrow> string \<Rightarrow> guard \<Rightarrow> int list \<times> guard" where
  "guardRecent now key g =
     (let kept = newer (now - gu_window g) (case fmlookup (gu_fails g) key of None \<Rightarrow> [] | Some ts \<Rightarrow> ts)
      in if kept = [] then ([], g\<lparr>gu_fails := fmdrop key (gu_fails g)\<rparr>)
         else (kept, g\<lparr>gu_fails := fmupd key kept (gu_fails g)\<rparr>))"

text \<open>\<open>Locked\<close>: how long the account stays locked, if it is.\<close>

definition guardLocked :: "int \<Rightarrow> string \<Rightarrow> guard \<Rightarrow> int option \<times> guard" where
  "guardLocked now email g =
     (let (f, g1) = guardRecent now (accountKey email) g
      in if length f < gu_limit g then (None, g1)
         else (Some (f ! (length f - gu_limit g) + gu_window g - now), g1))"

text \<open>\<open>Failed\<close>; above 100000 accounts the map gives up one entry, in Go's unspecified order (\<open>victim\<close>).\<close>

definition guardFailed :: "int \<Rightarrow> string \<Rightarrow> string \<Rightarrow> guard \<Rightarrow> guard" where
  "guardFailed now victim email g =
     (let key = accountKey email
      in if key = [] then g
         else let (r, g1) = guardRecent now key g;
                  f = r @ [now];
                  f' = (if length f > gu_limit g then drop (length f - gu_limit g) f else f);
                  fails = fmupd key f' (gu_fails g1)
              in g1\<lparr>gu_fails := (if int (fcard (fmdom fails)) > 100000 then fmdrop victim fails else fails)\<rparr>)"

definition guardSucceeded :: "string \<Rightarrow> guard \<Rightarrow> guard" where
  "guardSucceeded email g = g\<lparr>gu_fails := fmdrop (accountKey email) (gu_fails g)\<rparr>"

subsection \<open>The login handler\<close>

datatype 'a loginReply = TooMany int | Refused apperr | SignedIn 'a

text \<open>The handler around a sign-in whose password check would give \<open>r\<close>.\<close>

definition loginAround :: "int \<Rightarrow> string \<Rightarrow> string \<Rightarrow> apperr + 'a \<Rightarrow> guard \<Rightarrow> 'a loginReply \<times> guard" where
  "loginAround now victim email r g =
     (case guardLocked now email g of
        (Some wait, g1) \<Rightarrow> (TooMany wait, g1)
      | (None, g1) \<Rightarrow> (case r of
            Inl er \<Rightarrow> (Refused er, if kindOf er = KindUnauthorized then guardFailed now victim email g1 else g1)
          | Inr x \<Rightarrow> (SignedIn x, guardSucceeded email g1)))"

definition login :: "authEnv \<Rightarrow> int \<Rightarrow> string \<Rightarrow> string \<Rightarrow> string \<Rightarrow> accounts \<Rightarrow> guard \<Rightarrow> (string \<times> user) loginReply \<times> guard" where
  "login e ttl victim email pw s g = loginAround (ac_now s) victim email (authenticate e ttl email pw s) g"

definition newGuard :: guard where
  "newGuard = \<lparr>gu_fails = fmempty, gu_limit = 10, gu_window = 15 * 60 * 1000000000\<rparr>"

subsection \<open>A log with a window\<close>

lemma newer_append [simp]: "newer c (xs @ ys) = newer c xs @ newer c ys"
  by (simp add: newer_def)

lemma newer_newer: "c \<le> c' \<Longrightarrow> newer c' (newer c ts) = newer c' ts"
  by (auto simp: newer_def intro: filter_cong)

definition inWindow :: "int \<Rightarrow> int \<Rightarrow> int list \<Rightarrow> nat" where
  "inWindow w t ts = length (filter (\<lambda>x. t - w < x \<and> x \<le> t) ts)"

lemma inWindow_snoc:
  assumes "\<forall>x \<in> set ts. x \<le> now" "length (newer (now - w) ts) < n" "\<forall>t. inWindow w t ts \<le> n"
  shows "inWindow w t (ts @ [now]) \<le> n"
proof (cases "now \<le> t")
  case True
  have "filter (\<lambda>x. t - w < x \<and> x \<le> t) ts = filter (\<lambda>x. t - w < x) (newer (now - w) ts)"
    using assms(1) True by (auto simp: newer_def intro!: filter_cong)
  then have "inWindow w t ts \<le> length (newer (now - w) ts)" by (simp add: inWindow_def)
  then show ?thesis using assms(2) by (simp add: inWindow_def)
next
  case False
  then show ?thesis using assms(3) by (simp add: inWindow_def)
qed

text \<open>A state whose events are logged for one key: an event is counted only when fewer than \<open>limit\<close> are
  recent, and then the log has it as its last entry.\<close>

locale window_log =
  fixes step :: "int \<Rightarrow> 'e \<Rightarrow> 's \<Rightarrow> 's" and counted :: "int \<Rightarrow> 'e \<Rightarrow> 's \<Rightarrow> bool"
    and stored :: "'s \<Rightarrow> int list" and okay :: "'e \<Rightarrow> bool" and rightly :: "'s \<Rightarrow> bool"
    and limit :: nat and window :: int
  assumes rightly_step: "rightly s \<Longrightarrow> rightly (step now e s)"
    and log_step: "rightly s \<Longrightarrow> okay e \<Longrightarrow> sorted (stored s) \<Longrightarrow> \<forall>t \<in> set (stored s). t \<le> now
          \<Longrightarrow> sorted (stored (step now e s)) \<and> (\<forall>t \<in> set (stored (step now e s)). t \<le> now)
            \<and> newer (now - window) (stored (step now e s))
              = newer (now - window) (stored s) @ newer (now - window) (if counted now e s then [now] else [])"
    and counted_few: "rightly s \<Longrightarrow> counted now e s \<Longrightarrow> length (newer (now - window) (stored s)) < limit"
begin

fun hits :: "(int \<times> 'e) list \<Rightarrow> 's \<Rightarrow> int list" where
  "hits [] s = []"
| "hits ((now, e) # evs) s = (if counted now e s then [now] else []) @ hits evs (step now e s)"

text \<open>What the log must remember of the past \<open>ts\<close>: from time \<open>now\<close> on, the recent entries.\<close>

definition remembers :: "int \<Rightarrow> int list \<Rightarrow> 's \<Rightarrow> bool" where
  "remembers now ts s \<longleftrightarrow> sorted (stored s) \<and> (\<forall>t \<in> set (stored s). t \<le> now) \<and> (\<forall>t \<in> set ts. t \<le> now)
     \<and> newer (now - window) (stored s) = newer (now - window) ts \<and> (\<forall>t. inWindow window t ts \<le> limit)"

lemma remembers_later:
  assumes "remembers now ts s" "now \<le> now'" shows "remembers now' ts s"
proof -
  have "newer (now' - window) (stored s) = newer (now' - window) (newer (now - window) (stored s))"
    using assms(2) by (simp add: newer_newer)
  also have "\<dots> = newer (now' - window) (newer (now - window) ts)" using assms(1) by (simp add: remembers_def)
  also have "\<dots> = newer (now' - window) ts" using assms(2) by (simp add: newer_newer)
  finally show ?thesis using assms by (fastforce simp: remembers_def)
qed

lemma remembers_step:
  assumes "remembers now ts s" "okay e" "rightly s"
  shows "remembers now (ts @ (if counted now e s then [now] else [])) (step now e s)"
proof -
  have l: "sorted (stored (step now e s)) \<and> (\<forall>t \<in> set (stored (step now e s)). t \<le> now)
      \<and> newer (now - window) (stored (step now e s))
        = newer (now - window) (stored s) @ newer (now - window) (if counted now e s then [now] else [])"
    by (rule log_step) (use assms in \<open>auto simp: remembers_def\<close>)
  have "\<forall>t. inWindow window t (ts @ [now]) \<le> limit" if "counted now e s"
    using inWindow_snoc [of ts now window limit] counted_few [OF assms(3) that] assms(1) by (auto simp: remembers_def)
  then show ?thesis using l assms(1) by (auto simp: remembers_def)
qed

lemma hits_bounded:
  assumes "remembers now ts s" "rightly s" "sorted (map fst evs)" "\<forall>(t, e) \<in> set evs. now \<le> t \<and> okay e"
  shows "inWindow window t (ts @ hits evs s) \<le> limit"
  using assms
proof (induction evs arbitrary: now ts s)
  case Nil
  then show ?case by (simp add: remembers_def)
next
  case (Cons x evs)
  obtain n e where x: "x = (n, e)" by (cases x)
  with Cons.prems have "remembers n ts s" by (auto intro: remembers_later)
  then have "remembers n (ts @ (if counted n e s then [n] else [])) (step n e s)"
    using Cons.prems x by (intro remembers_step) auto
  moreover have "\<forall>(t, e) \<in> set evs. n \<le> t \<and> okay e" using Cons.prems x by auto
  ultimately have "inWindow window t ((ts @ (if counted n e s then [n] else [])) @ hits evs (step n e s)) \<le> limit"
    using Cons.prems x by (intro Cons.IH) (auto intro: rightly_step)
  then show ?case by (simp add: x)
qed

lemma fresh_hits_bounded:
  assumes "stored s = []" "rightly s" "sorted (map fst evs)" "\<forall>(t, e) \<in> set evs. okay e"
  shows "inWindow window t (hits evs s) \<le> limit"
proof (cases evs)
  case (Cons x xs)
  have "remembers (fst x) [] s" using assms(1) by (simp add: remembers_def newer_def inWindow_def)
  moreover have "\<forall>(t, e) \<in> set evs. fst x \<le> t \<and> okay e" using assms(3,4) Cons by fastforce
  ultimately show ?thesis using hits_bounded [of "fst x" "[]" s evs t] assms(2,3) by simp
qed (simp add: inWindow_def)

end

subsection \<open>The limit per address bounds every window\<close>

text \<open>A run of the limiter: attempts of an address, or a sweep of the garbage collector.  The accepted
  attempts of one address are collected.\<close>

fun limiterStep :: "int \<Rightarrow> string option \<Rightarrow> limiter \<Rightarrow> limiter" where
  "limiterStep now None l = limiterGc now l"
| "limiterStep now (Some k) l = snd (limiterAllow now k l)"

fun acceptedAt :: "string \<Rightarrow> (int \<times> string option) list \<Rightarrow> limiter \<Rightarrow> int list" where
  "acceptedAt key [] l = []"
| "acceptedAt key ((now, e) # evs) l =
     (if e = Some key \<and> fst (limiterAllow now key l) then [now] else []) @ acceptedAt key evs (limiterStep now e l)"

definition limiterCfg :: "int \<Rightarrow> int \<Rightarrow> limiter \<Rightarrow> bool" where
  "limiterCfg limit window l \<longleftrightarrow> li_limit l = limit \<and> li_window l = window"

lemma newer_none: "sorted ts \<Longrightarrow> ts = [] \<or> \<not> last ts > c \<Longrightarrow> newer c ts = []"
  by (cases ts rule: rev_cases) (auto simp: newer_def sorted_append filter_empty_conv)

lemma sorted_newer: "sorted ts \<Longrightarrow> sorted (newer c ts)"
  by (simp add: newer_def sorted_wrt_filter)

lemma newer_idem [simp]: "newer c (newer c ts) = newer c ts"
  by (simp add: newer_newer)

lemma set_newer: "t \<in> set (newer c ts) \<Longrightarrow> t \<in> set ts"
  by (simp add: newer_def)

interpretation lim: window_log limiterStep "\<lambda>now e l. e = Some key \<and> fst (limiterAllow now key l)" "\<lambda>l. hitsOf l key"
    "\<lambda>e. True" "limiterCfg (int limit) window" limit window
  for key limit window
proof
  fix l now e
  assume cfg: "limiterCfg (int limit) window l"
  show "limiterCfg (int limit) window (limiterStep now e l)"
    using cfg by (cases e) (auto simp: limiterCfg_def limiterAllow_def limiterGc_def Let_def)
  show "length (newer (now - window) (hitsOf l key)) < limit" if "e = Some key \<and> fst (limiterAllow now key l)"
    using that cfg by (auto simp: limiterAllow_def limiterCfg_def Let_def split: if_splits)
  assume s: "sorted (hitsOf l key)" and le: "\<forall>t \<in> set (hitsOf l key). t \<le> now"
  let ?l = "limiterStep now e l"
  consider "e = None" | k where "e = Some k" "k \<noteq> key" | "e = Some key" by (cases e) auto
  then show "sorted (hitsOf ?l key) \<and> (\<forall>t \<in> set (hitsOf ?l key). t \<le> now) \<and> newer (now - window) (hitsOf ?l key)
      = newer (now - window) (hitsOf l key) @ newer (now - window) (if e = Some key \<and> fst (limiterAllow now key l) then [now] else [])"
  proof cases
    case 1
    then show ?thesis using s le cfg newer_none [OF s, of "now - window"]
      by (auto simp: limiterGc_def limiterCfg_def hitsOf_def newer_def split: option.splits)
  next
    case (2 k)
    then have "hitsOf ?l key = hitsOf l key" by (auto simp: limiterAllow_def hitsOf_def Let_def)
    then show ?thesis using s le 2 by (auto simp: newer_def)
  next
    case 3
    have srt: "sorted (newer (now - window) (hitsOf l key))" by (rule sorted_newer [OF s])
    have "hitsOf ?l key = newer (now - window) (hitsOf l key) @ (if fst (limiterAllow now key l) then [now] else [])"
      using cfg 3 by (auto simp: limiterAllow_def limiterCfg_def hitsOf_def Let_def split: if_splits)
    then show ?thesis using 3 srt le by (auto simp: sorted_append dest: set_newer)
  qed
qed

lemma acceptedAt_eq: "acceptedAt key evs l = lim.hits key evs l"
  by (induction evs arbitrary: l) auto

text \<open>C16. However the attempts of an address fall, and whenever the map is swept, no window of time sees
  more accepted attempts than the limit.\<close>

theorem limiter_bounds:
  assumes "li_hits l = Map.empty" "li_limit l = int limit" "sorted (map fst evs)"
  shows "inWindow (li_window l) t (acceptedAt key evs l) \<le> limit"
  using lim.fresh_hits_bounded [of l key limit "li_window l" evs t] assms
  by (simp add: acceptedAt_eq hitsOf_def limiterCfg_def split_beta)

lemma limiter_bounds_witness:
  "acceptedAt ''a'' [(0, Some ''a''), (20, Some ''a''), (30, None), (40, Some ''a''), (61, Some ''a'')]
      \<lparr>li_hits = Map.empty, li_limit = 2, li_window = 60\<rparr> = [0, 20, 61]
   \<and> inWindow 60 50 [0, 20, 61] \<le> 2"
proof -
  let ?l = "\<lparr>li_hits = Map.empty, li_limit = 2, li_window = 60\<rparr>"
  let ?evs = "[(0, Some ''a''), (20, Some ''a''), (30, None), (40, Some ''a''), (61, Some ''a'')]"
  have "acceptedAt ''a'' ?evs ?l = [0, 20, 61]" by code_simp
  then show ?thesis using limiter_bounds [of ?l 2 ?evs 50 "''a''"] by simp
qed

subsection \<open>The lock of an account\<close>

definition failsOf :: "string \<Rightarrow> guard \<Rightarrow> int list" where
  "failsOf key g = (case fmlookup (gu_fails g) key of None \<Rightarrow> [] | Some ts \<Rightarrow> ts)"

type_synonym 'a attempt = "string \<times> string \<times> (apperr + 'a)"

fun guardStep :: "int \<Rightarrow> 'a attempt \<Rightarrow> guard \<Rightarrow> guard" where
  "guardStep now (victim, email, r) g = snd (loginAround now victim email r g)"

text \<open>An attempt whose password was checked and found wrong (or whose account was refused).\<close>

fun guessed :: "string \<Rightarrow> int \<Rightarrow> 'a attempt \<Rightarrow> guard \<Rightarrow> bool" where
  "guessed key now (victim, email, r) g \<longleftrightarrow> accountKey email = key \<and> key \<noteq> []
     \<and> (case fst (loginAround now victim email r g) of Refused er \<Rightarrow> kindOf er = KindUnauthorized | _ \<Rightarrow> False)"

fun guessesAt :: "string \<Rightarrow> (int \<times> 'a attempt) list \<Rightarrow> guard \<Rightarrow> int list" where
  "guessesAt key [] g = []"
| "guessesAt key ((now, a) # evs) g = (if guessed key now a g then [now] else []) @ guessesAt key evs (guardStep now a g)"

text \<open>Attempts that neither sign in to the account nor evict its entry.\<close>

fun onlyGuesses :: "string \<Rightarrow> 'a attempt \<Rightarrow> bool" where
  "onlyGuesses key (victim, email, r) \<longleftrightarrow> victim \<noteq> key \<and> (accountKey email = key \<longrightarrow> (\<exists>er. r = Inl er))"

definition guardCfg :: "nat \<Rightarrow> int \<Rightarrow> guard \<Rightarrow> bool" where
  "guardCfg limit window g \<longleftrightarrow> gu_limit g = limit \<and> gu_window g = window"

lemma guardRecent_simps [simp]:
  "fst (guardRecent now key g) = newer (now - gu_window g) (failsOf key g)"
  "failsOf key (snd (guardRecent now key g)) = newer (now - gu_window g) (failsOf key g)"
  "k \<noteq> key \<Longrightarrow> failsOf k (snd (guardRecent now key g)) = failsOf k g"
  "gu_limit (snd (guardRecent now key g)) = gu_limit g"
  "gu_window (snd (guardRecent now key g)) = gu_window g"
  by (auto simp: guardRecent_def failsOf_def Let_def)

lemma guardLocked_simps [simp]:
  "fst (guardLocked now email g) = None \<longleftrightarrow> length (newer (now - gu_window g) (failsOf (accountKey email) g)) < gu_limit g"
  "snd (guardLocked now email g) = snd (guardRecent now (accountKey email) g)"
  by (auto simp: guardLocked_def split_beta Let_def)

lemma guardFailed_simps [simp]:
  "gu_limit (guardFailed now victim email g) = gu_limit g" "gu_window (guardFailed now victim email g) = gu_window g"
  "k \<noteq> accountKey email \<Longrightarrow> k \<noteq> victim \<Longrightarrow> failsOf k (guardFailed now victim email g) = failsOf k g"
  "accountKey email \<noteq> [] \<Longrightarrow> accountKey email \<noteq> victim
     \<Longrightarrow> length (newer (now - gu_window g) (failsOf (accountKey email) g)) < gu_limit g
     \<Longrightarrow> failsOf (accountKey email) (guardFailed now victim email g)
        = newer (now - gu_window g) (failsOf (accountKey email) g) @ [now]"
proof -
  show "gu_limit (guardFailed now victim email g) = gu_limit g" "gu_window (guardFailed now victim email g) = gu_window g"
    by (auto simp: guardFailed_def split_beta Let_def)
  show "failsOf k (guardFailed now victim email g) = failsOf k g" if "k \<noteq> accountKey email" "k \<noteq> victim"
    using that guardRecent_simps(3) [OF that(1), of now g]
    by (auto simp: guardFailed_def split_beta Let_def failsOf_def simp del: guardRecent_simps(3))
  show "failsOf (accountKey email) (guardFailed now victim email g) = newer (now - gu_window g) (failsOf (accountKey email) g) @ [now]"
    if "accountKey email \<noteq> []" "accountKey email \<noteq> victim"
      "length (newer (now - gu_window g) (failsOf (accountKey email) g)) < gu_limit g"
    using that by (auto simp: guardFailed_def split_beta Let_def failsOf_def)
qed

lemma guardFailed_empty: "accountKey email = [] \<Longrightarrow> guardFailed now victim email g = g"
  by (simp add: guardFailed_def)

lemma loginAround_eq:
  "loginAround now victim email r g =
     (let g1 = snd (guardRecent now (accountKey email) g)
      in if length (newer (now - gu_window g) (failsOf (accountKey email) g)) < gu_limit g
         then (case r of Inl er \<Rightarrow> (Refused er, if kindOf er = KindUnauthorized then guardFailed now victim email g1 else g1)
            | Inr x \<Rightarrow> (SignedIn x, guardSucceeded email g1))
         else (TooMany (the (fst (guardLocked now email g))), g1))"
proof (cases "guardLocked now email g")
  case (Pair w g1)
  then have "g1 = snd (guardRecent now (accountKey email) g)" using guardLocked_simps(2) [of now email g] by simp
  moreover have "w = None \<longleftrightarrow> length (newer (now - gu_window g) (failsOf (accountKey email) g)) < gu_limit g"
    using guardLocked_simps(1) [of now email g] Pair by simp
  ultimately show ?thesis using Pair by (cases w) (auto simp: loginAround_def Let_def)
qed

lemma guessed_iff:
  "guessed key now (victim, email, r) g \<longleftrightarrow> accountKey email = key \<and> key \<noteq> []
     \<and> length (newer (now - gu_window g) (failsOf key g)) < gu_limit g \<and> (\<exists>er. r = Inl er \<and> kindOf er = KindUnauthorized)"
  by (cases r) (auto simp: loginAround_eq Let_def)

declare guessed.simps [simp del]

interpretation lock: window_log guardStep "guessed key" "failsOf key" "onlyGuesses key" "guardCfg limit window" limit window
  for key limit window
proof
  fix g now and a :: "'a attempt"
  obtain victim email r where a: "a = (victim, email, r)" by (cases a)
  assume cfg: "guardCfg limit window g"
  then have c: "gu_limit g = limit" "gu_window g = window" by (simp_all add: guardCfg_def)
  show "guardCfg limit window (guardStep now a g)"
    using cfg by (auto simp: a guardCfg_def loginAround_eq guardSucceeded_def Let_def split: sum.split)
  show "length (newer (now - window) (failsOf key g)) < limit" if "guessed key now a g"
    using that c by (simp add: a guessed_iff)
  assume ok: "onlyGuesses key a" and s: "sorted (failsOf key g)" and le: "\<forall>t \<in> set (failsOf key g). t \<le> now"
  let ?g = "guardStep now a g"
  have "failsOf key ?g = failsOf key g \<and> \<not> guessed key now a g
     \<or> failsOf key ?g = newer (now - window) (failsOf key g) @ (if guessed key now a g then [now] else [])"
  proof (cases "accountKey email = key")
    case False
    have "failsOf key (guardSucceeded email h) = failsOf key h" for h
      using False by (auto simp: guardSucceeded_def failsOf_def)
    then have "failsOf key ?g = failsOf key g"
      using False ok by (auto simp: a loginAround_eq Let_def split: sum.split)
    then show ?thesis using False by (simp add: a guessed_iff)
  next
    case True
    with ok obtain er where r: "r = Inl er" "victim \<noteq> key" by (auto simp: a)
    then show ?thesis using True c
      by (cases "key = []") (auto simp: a loginAround_eq Let_def guessed_iff guardFailed_empty)
  qed
  moreover have "sorted (newer (now - window) (failsOf key g))" by (rule sorted_newer [OF s])
  ultimately show "sorted (failsOf key ?g) \<and> (\<forall>t \<in> set (failsOf key ?g). t \<le> now) \<and> newer (now - window) (failsOf key ?g)
      = newer (now - window) (failsOf key g) @ newer (now - window) (if guessed key now a g then [now] else [])"
    using s le by (auto simp: sorted_append newer_def)
qed

lemma guessesAt_eq: "guessesAt key evs g = lock.hits key evs g"
  by (induction key evs g rule: guessesAt.induct) auto


definition exGuess :: "int \<Rightarrow> int \<times> nat attempt" where
  "exGuess t = (t, [], '' Ann@x'', Inl (Unauthorized ''invalid email or password''))"


text \<open>The time a locked caller is told to wait is exact: until then the account stays locked, and then it is
  not, if nothing else happens.\<close>

lemma newer_split: "newer c ts = newer c (take k ts) @ newer c (drop k ts)"
  by (simp flip: newer_append)

lemma newer_nth:
  assumes "sorted ts" "k < length ts" "c < ts ! k" shows "length ts - k \<le> length (newer c ts)"
proof -
  have "\<forall>x \<in> set (drop k ts). c < x"
  proof
    fix x assume "x \<in> set (drop k ts)"
    then obtain i where i: "i < length ts - k" "x = ts ! (k + i)" by (auto simp: in_set_conv_nth)
    then have "ts ! k \<le> ts ! (k + i)" using assms(1,2) by (intro sorted_nth_mono) auto
    then show "c < x" using assms(3) i by simp
  qed
  then have "newer c (drop k ts) = drop k ts" by (simp add: newer_def filter_id_conv)
  then show ?thesis using newer_split [of c ts k] by simp
qed

lemma newer_not_nth:
  assumes "sorted ts" "k < length ts" "\<not> c < ts ! k" shows "length (newer c ts) < length ts - k"
proof -
  have "x \<le> ts ! k" if x: "x \<in> set (take (Suc k) ts)" for x
  proof -
    obtain i where i: "i \<le> k" "x = ts ! i" using x assms(2) by (auto simp: in_set_conv_nth less_Suc_eq_le)
    then show ?thesis using assms(1,2) by (simp add: sorted_nth_mono)
  qed
  then have "newer c (take (Suc k) ts) = []" using assms(3) by (force simp: newer_def filter_empty_conv)
  then have "length (newer c ts) \<le> length (drop (Suc k) ts)"
    using newer_split [of c ts "Suc k"] length_filter_le [of "\<lambda>t. c < t" "drop (Suc k) ts"]
    by (simp add: newer_def)
  then show ?thesis using assms(2) by simp
qed

lemma lock_wait_exact:
  assumes "guardLocked now email g = (Some wait, g1)" "sorted (failsOf (accountKey email) g)" "now \<le> later" "0 < gu_limit g"
  shows "fst (guardLocked later email g1) \<noteq> None \<longleftrightarrow> later < now + wait"
proof -
  let ?f = "newer (now - gu_window g) (failsOf (accountKey email) g)"
  let ?k = "length ?f - gu_limit g"
  have g1: "g1 = snd (guardRecent now (accountKey email) g)" using guardLocked_simps(2) [of now email g] assms(1) by simp
  have long: "gu_limit g \<le> length ?f" using guardLocked_simps(1) [of now email g] assms(1) by auto
  have wait: "wait = ?f ! ?k + gu_window g - now"
    using assms(1) guardRecent_simps(1) [of now "accountKey email" g]
    by (auto simp: guardLocked_def split_beta Let_def split: if_splits)
  have srt: "sorted ?f" by (rule sorted_newer [OF assms(2)])
  have k: "?k < length ?f" "length ?f - ?k = gu_limit g" using long assms(4) by auto
  have "fst (guardLocked later email g1) \<noteq> None \<longleftrightarrow> gu_limit g \<le> length (newer (later - gu_window g) ?f)"
    using guardLocked_simps(1) [of later email g1] by (simp add: g1 not_less)
  also have "\<dots> \<longleftrightarrow> later - gu_window g < ?f ! ?k"
    using newer_nth [OF srt k(1), of "later - gu_window g"] newer_not_nth [OF srt k(1), of "later - gu_window g"] k(2)
    by fastforce
  also have "\<dots> \<longleftrightarrow> later < now + wait" by (auto simp: wait)
  finally show ?thesis .
qed

end
