(* ===== verification/Agents.thy ===== *)
theory Agents
  imports Operations
begin

text \<open>
  Hosts and their agents: \<open>domain/server\<close>, \<open>domain/regtoken\<close>, \<open>infra/postgres/server_repository.go\<close>,
  \<open>server_repository_agent.go\<close> and \<open>regtoken_repository.go\<close>, the use cases of \<open>app/agent\<close> and
  \<open>app/server\<close>, and the endpoints an agent calls about its jobs (\<open>interfaces/httpapi/agent_handler.go\<close>).
  The store of the operations gets the tables of hosts and of registration tokens.  The random source,
  SHA-256, the parser of \<open>inet\<close> and Go's Unicode tables outside ASCII are the fields of \<open>agentEnv\<close>.
  Registering is three transactions, each a definition of its own, so that two agents registering at
  the same time can be interleaved.
\<close>

subsection \<open>The data\<close>

record agentEnv =
  ge_random :: "uuid \<Rightarrow> string"
  ge_suffix :: "uuid \<Rightarrow> string"
  ge_sha :: "string \<Rightarrow> string"
  ge_inet :: "string \<Rightarrow> bool"
  ge_lower :: "string \<Rightarrow> string"
  ge_runes :: "string \<Rightarrow> bool"

datatype serverStatus = SvPending | SvOnline | SvOffline | SvDraining | SvError

text \<open>A row of \<open>servers\<close>: the fields of \<open>Server\<close> and the column of the agent's token.\<close>

record server =
  sv_id :: uuid
  sv_name :: string
  sv_hostname :: string
  sv_address :: "string option"
  sv_status :: serverStatus
  sv_agentVersion :: "string option"
  sv_dbVersion :: "string option"
  sv_os :: "string option"
  sv_labels :: "(string \<times> string) list"
  sv_tags :: "string list"
  sv_heartbeatAt :: "int option"
  sv_createdAt :: int
  sv_version :: nat
  sv_deletedAt :: "int option"
  sv_tokenHash :: "string option"

record regToken =
  rk_id :: uuid
  rk_name :: string
  rk_hash :: string
  rk_createdBy :: "uuid option"
  rk_expiresAt :: int
  rk_usedAt :: "int option"
  rk_serverId :: "uuid option"
  rk_createdAt :: int

text \<open>The measurements of a heartbeat; a floating-point number is kept as its bits.\<close>

record measures =
  ms_cpu :: "int option"
  ms_memUsed :: "int option"
  ms_memTotal :: "int option"
  ms_diskUsed :: "int option"
  ms_diskTotal :: "int option"
  ms_connections :: "int option"

record heartbeatInfo =
  hb_agentVersion :: string
  hb_address :: "string option"
  hb_dbVersion :: "string option"
  hb_os :: "string option"
  hb_measures :: measures
  hb_dockerOk :: "bool option"

record healthSample =
  hs_serverId :: uuid
  hs_serverName :: string
  hs_measures :: measures
  hs_collectedAt :: int

record agentstore = copystore +
  ag_servers :: "server list"
  ag_regTokens :: "regToken list"
  ag_health :: "(uuid \<times> measures \<times> bool option \<times> int) list"
  ag_history :: "(uuid \<times> measures \<times> int) list"

subsection \<open>Hosts: the domain\<close>

definition serverByteOk :: "char \<Rightarrow> bool" where
  "serverByteOk c \<longleftrightarrow> isLowerByte c \<or> isDigitByte c \<or> c = CHR ''-'' \<or> c = CHR ''_'' \<or> CHR 0x80 \<le> c"

definition serverNameCheck :: "agentEnv \<Rightarrow> string \<Rightarrow> apperr option" where
  "serverNameCheck e name =
     (if name = [] then Some (Invalid ''name'' ''name is required'')
      else if length name < 2 \<or> length name > 63
        then Some (Invalid ''name'' ''name must be between 2 and 63 characters'')
      else if \<not> (list_all serverByteOk name \<and> ge_runes e name)
        then Some (Invalid ''name'' (''name may only contain lowercase letters, digits, '-' and '_'' @ [SQ]))
      else None)"

definition newServer :: "agentEnv \<Rightarrow> uuid \<Rightarrow> string \<Rightarrow> string \<Rightarrow> string option \<Rightarrow> string option \<Rightarrow> (string \<times> string) list
    \<Rightarrow> string list \<Rightarrow> apperr + server" where
  "newServer e i name hostname address os labels tags =
     (let n = trimSpace name; h = trimSpace hostname
      in case serverNameCheck e n of
           Some er \<Rightarrow> Inl er
         | None \<Rightarrow>
             if h = [] then Inl (Invalid ''hostname'' ''hostname is required'')
             else if length h > 253 then Inl (Invalid ''hostname'' ''hostname must be at most 253 characters'')
             else Inr \<lparr>sv_id = i, sv_name = n, sv_hostname = h, sv_address = address, sv_status = SvPending,
                    sv_agentVersion = None, sv_dbVersion = None, sv_os = os, sv_labels = labels, sv_tags = tags,
                    sv_heartbeatAt = None, sv_createdAt = 0, sv_version = 0, sv_deletedAt = None, sv_tokenHash = None\<rparr>)"

subsection \<open>Hosts: the repository\<close>

abbreviation serverLive :: "server \<Rightarrow> bool" where "serverLive s \<equiv> sv_deletedAt s = None"

definition serverGet :: "uuid \<Rightarrow> 'a agentstore_scheme \<Rightarrow> apperr + server" where
  "serverGet i w = (case List.find (\<lambda>s. sv_id s = i \<and> serverLive s) (ag_servers w) of
     None \<Rightarrow> Inl (NotFound ''server not found'') | Some s \<Rightarrow> Inr s)"

definition nameTaken :: "uuid \<Rightarrow> string \<Rightarrow> 'a agentstore_scheme \<Rightarrow> bool" where
  "nameTaken i n w \<longleftrightarrow> list_ex (\<lambda>s. sv_id s \<noteq> i \<and> serverLive s \<and> sv_name s = n) (ag_servers w)"

text \<open>\<open>$4::inet\<close>: a text that is not an address is an error of the statement.\<close>

definition inetOk :: "agentEnv \<Rightarrow> string option \<Rightarrow> bool" where
  "inetOk e a \<longleftrightarrow> (case a of None \<Rightarrow> True | Some x \<Rightarrow> ge_inet e x)"

definition serverCreate :: "agentEnv \<Rightarrow> server \<Rightarrow> 'a agentstore_scheme \<Rightarrow> (apperr + server) \<times> 'a agentstore_scheme" where
  "serverCreate e s w =
     (if \<not> inetOk e (sv_address s) then (Inl (Internal ''insert server''), w)
      else if nameTaken (sv_id s) (sv_name s) w then (Inl (Conflict ''a server with this name already exists''), w)
      else let s' = s\<lparr>sv_createdAt := js_now w, sv_version := 0\<rparr>
           in (Inr s', w\<lparr>ag_servers := ag_servers w @ [s']\<rparr>))"

text \<open>The shape of the \<open>UPDATE servers \<dots> WHERE id = $1 AND deleted_at IS NULL\<close> statements.\<close>

definition serverUpdate :: "uuid \<Rightarrow> (server \<Rightarrow> server) \<Rightarrow> 'a agentstore_scheme \<Rightarrow> apperr option \<times> 'a agentstore_scheme" where
  "serverUpdate i f w =
     (if list_ex (\<lambda>s. sv_id s = i \<and> serverLive s) (ag_servers w)
      then (None, w\<lparr>ag_servers := map (\<lambda>s. if sv_id s = i \<and> serverLive s
              then (f s)\<lparr>sv_version := sv_version s + 1\<rparr> else s) (ag_servers w)\<rparr>)
      else (Some (NotFound ''server not found''), w))"

definition serverSave :: "server \<Rightarrow> 'a agentstore_scheme \<Rightarrow> apperr option \<times> 'a agentstore_scheme" where
  "serverSave s w =
     (if list_ex (\<lambda>x. sv_id x = sv_id s \<and> serverLive x) (ag_servers w) \<and> nameTaken (sv_id s) (sv_name s) w
      then (Some (Conflict ''a server with this name already exists''), w)
      else serverUpdate (sv_id s) (\<lambda>x. x\<lparr>sv_name := sv_name s, sv_labels := sv_labels s, sv_tags := sv_tags s\<rparr>) w)"

definition serverSoftDelete :: "uuid \<Rightarrow> 'a agentstore_scheme \<Rightarrow> apperr option \<times> 'a agentstore_scheme" where
  "serverSoftDelete i w = serverUpdate i (\<lambda>s. s\<lparr>sv_deletedAt := Some (js_now w)\<rparr>) w"

definition hasActiveInstances :: "uuid \<Rightarrow> 'a agentstore_scheme \<Rightarrow> bool" where
  "hasActiveInstances i w \<longleftrightarrow> list_ex (\<lambda>x. in_serverId x = Some i \<and> \<not> in_deleted x) (iv_instances w)"

definition setAgentToken :: "uuid \<Rightarrow> string \<Rightarrow> 'a agentstore_scheme \<Rightarrow> apperr option \<times> 'a agentstore_scheme" where
  "setAgentToken i hash w =
     (if list_ex (\<lambda>s. sv_id s = i \<and> serverLive s) (ag_servers w)
         \<and> list_ex (\<lambda>s. sv_id s \<noteq> i \<and> sv_tokenHash s = Some hash) (ag_servers w)
      then (Some (Internal ''set agent token''), w)
      else serverUpdate i (\<lambda>s. s\<lparr>sv_tokenHash := Some hash, sv_status := SvOnline, sv_heartbeatAt := Some (js_now w)\<rparr>) w)"

definition clearAgentToken :: "uuid \<Rightarrow> 'a agentstore_scheme \<Rightarrow> apperr option \<times> 'a agentstore_scheme" where
  "clearAgentToken i w = serverUpdate i (\<lambda>s. s\<lparr>sv_tokenHash := None, sv_status := SvOffline\<rparr>) w"

definition serverByToken :: "string \<Rightarrow> 'a agentstore_scheme \<Rightarrow> apperr + server" where
  "serverByToken hash w = (case List.find (\<lambda>s. sv_tokenHash s = Some hash \<and> serverLive s) (ag_servers w) of
     None \<Rightarrow> Inl (Unauthorized ''unknown agent token'') | Some s \<Rightarrow> Inr s)"

definition keepNew :: "'b option \<Rightarrow> 'b option \<Rightarrow> 'b option" where
  "keepNew new old = (case new of None \<Rightarrow> old | Some x \<Rightarrow> Some x)"

text \<open>\<open>Heartbeat\<close>: three statements outside a transaction.  The first updates the host, if it is still
  there; the others insert rows that refer to it.\<close>

definition heartbeat :: "agentEnv \<Rightarrow> uuid \<Rightarrow> heartbeatInfo \<Rightarrow> 'a agentstore_scheme \<Rightarrow> apperr option \<times> 'a agentstore_scheme" where
  "heartbeat e i info w =
     (if \<not> inetOk e (hb_address info) then (Some (Internal ''heartbeat servers''), w)
      else let w1 = snd (serverUpdate i (\<lambda>s. s\<lparr>sv_status := SvOnline, sv_heartbeatAt := Some (js_now w),
                   sv_agentVersion := Some (hb_agentVersion info), sv_address := keepNew (hb_address info) (sv_address s),
                   sv_dbVersion := keepNew (hb_dbVersion info) (sv_dbVersion s), sv_os := keepNew (hb_os info) (sv_os s)\<rparr>) w)
           in if \<not> list_ex (\<lambda>s. sv_id s = i) (ag_servers w) then (Some (Internal ''heartbeat health''), w1)
              else (None, w1\<lparr>ag_health := filter (\<lambda>h. fst h \<noteq> i) (ag_health w1)
                                 @ [(i, hb_measures info, hb_dockerOk info, js_now w)],
                     ag_history := ag_history w1 @ [(i, hb_measures info, js_now w)]\<rparr>))"

definition staleServer :: "int \<Rightarrow> server \<Rightarrow> bool" where
  "staleServer cutoff s \<longleftrightarrow> sv_status s = SvOnline \<and> serverLive s
     \<and> (case sv_heartbeatAt s of None \<Rightarrow> True | Some t \<Rightarrow> t < cutoff)"

definition markOffline :: "int \<Rightarrow> 'a agentstore_scheme \<Rightarrow> uuid list \<times> 'a agentstore_scheme" where
  "markOffline cutoff w = (map sv_id (filter (staleServer cutoff) (ag_servers w)),
     w\<lparr>ag_servers := map (\<lambda>s. if staleServer cutoff s
        then s\<lparr>sv_status := SvOffline, sv_version := sv_version s + 1\<rparr> else s) (ag_servers w)\<rparr>)"

definition latestHealth :: "'a agentstore_scheme \<Rightarrow> healthSample list" where
  "latestHealth w = concat (map (\<lambda>h. case h of (i, m, d, t) \<Rightarrow>
     (case List.find (\<lambda>s. sv_id s = i \<and> serverLive s) (ag_servers w) of None \<Rightarrow> []
      | Some s \<Rightarrow> [\<lparr>hs_serverId = i, hs_serverName = sv_name s, hs_measures = m, hs_collectedAt = t\<rparr>])) (ag_health w))"

definition healthHistory :: "uuid \<Rightarrow> int \<Rightarrow> 'a agentstore_scheme \<Rightarrow> healthSample list" where
  "healthHistory i since w = map (\<lambda>(j, m, t). \<lparr>hs_serverId = j, hs_serverName = [], hs_measures = m, hs_collectedAt = t\<rparr>)
     (sort_key (\<lambda>h. snd (snd h)) (filter (\<lambda>h. fst h = i \<and> since \<le> snd (snd h)) (ag_history w)))"

definition pruneHistory :: "int \<Rightarrow> 'a agentstore_scheme \<Rightarrow> nat \<times> 'a agentstore_scheme" where
  "pruneHistory cutoff w =
     (length (filter (\<lambda>h. snd (snd h) < cutoff) (ag_history w)),
      w\<lparr>ag_history := filter (\<lambda>h. \<not> snd (snd h) < cutoff) (ag_history w)\<rparr>)"

subsection \<open>Registration tokens: the repository\<close>

definition regTokenCreate :: "regToken \<Rightarrow> 'a agentstore_scheme \<Rightarrow> apperr option \<times> 'a agentstore_scheme" where
  "regTokenCreate t w =
     (if list_ex (\<lambda>x. rk_hash x = rk_hash t) (ag_regTokens w) then (Some (Internal ''insert registration token''), w)
      else (None, w\<lparr>ag_regTokens := ag_regTokens w @ [t\<lparr>rk_usedAt := None, rk_createdAt := js_now w\<rparr>]\<rparr>))"

definition regTokenByHash :: "string \<Rightarrow> 'a agentstore_scheme \<Rightarrow> apperr + regToken" where
  "regTokenByHash h w = (case List.find (\<lambda>t. rk_hash t = h) (ag_regTokens w) of
     None \<Rightarrow> Inl (NotFound ''registration token not found'') | Some t \<Rightarrow> Inr t)"

definition markUsed :: "uuid \<Rightarrow> uuid \<Rightarrow> 'a agentstore_scheme \<Rightarrow> apperr option \<times> 'a agentstore_scheme" where
  "markUsed i server w =
     (if list_ex (\<lambda>t. rk_id t = i \<and> rk_usedAt t = None) (ag_regTokens w)
      then (None, w\<lparr>ag_regTokens := map (\<lambda>t. if rk_id t = i \<and> rk_usedAt t = None
              then t\<lparr>rk_usedAt := Some (js_now w), rk_serverId := Some server\<rparr> else t) (ag_regTokens w)\<rparr>)
      else (Some (Conflict ''registration token already used''), w))"

definition regTokenList :: "'a agentstore_scheme \<Rightarrow> regToken list" where
  "regTokenList w = take 100 (sort_key (\<lambda>t. - rk_createdAt t) (ag_regTokens w))"

definition regTokenDelete :: "uuid \<Rightarrow> 'a agentstore_scheme \<Rightarrow> apperr option \<times> 'a agentstore_scheme" where
  "regTokenDelete i w =
     (if list_ex (\<lambda>t. rk_id t = i) (ag_regTokens w)
      then (None, w\<lparr>ag_regTokens := filter (\<lambda>t. rk_id t \<noteq> i) (ag_regTokens w)\<rparr>)
      else (Some (NotFound ''registration token not found''), w))"

subsection \<open>Managing hosts\<close>

text \<open>\<open>app/server/service.go\<close>.\<close>

record serverInput =
  si_name :: string
  si_hostname :: string
  si_address :: "string option"
  si_os :: "string option"
  si_labels :: "(string \<times> string) list"
  si_tags :: "string list"

definition registerServer :: "agentEnv \<Rightarrow> serverInput \<Rightarrow> 'a agentstore_scheme \<Rightarrow> (apperr + server) \<times> 'a agentstore_scheme" where
  "registerServer e inp w =
     (case newServer e (js_next w) (si_name inp) (si_hostname inp) (si_address inp) (si_os inp) (si_labels inp) (si_tags inp) of
        Inl er \<Rightarrow> (Inl er, w)
      | Inr s \<Rightarrow> serverCreate e s (w\<lparr>js_next := js_next w + 1\<rparr>))"

record serverPatch =
  sp_name :: "string option"
  sp_tags :: "string list option"
  sp_labels :: "(string \<times> string) list option"

definition renamed :: "agentEnv \<Rightarrow> string option \<Rightarrow> server \<Rightarrow> apperr + server" where
  "renamed e name s = (case name of
     None \<Rightarrow> Inr s
   | Some n \<Rightarrow> (case serverNameCheck e (trimSpace n) of Some er \<Rightarrow> Inl er | None \<Rightarrow> Inr (s\<lparr>sv_name := trimSpace n\<rparr>)))"

definition patched :: "serverPatch \<Rightarrow> server \<Rightarrow> server" where
  "patched p s = s\<lparr>sv_tags := (case sp_tags p of None \<Rightarrow> sv_tags s | Some ts \<Rightarrow> ts),
     sv_labels := (case sp_labels p of None \<Rightarrow> sv_labels s | Some ls \<Rightarrow> ls)\<rparr>"

definition updateServer :: "agentEnv \<Rightarrow> idText \<Rightarrow> serverPatch \<Rightarrow> 'a agentstore_scheme \<Rightarrow> (apperr + server) \<times> 'a agentstore_scheme" where
  "updateServer e idt p w =
     (case parseId idt of
        None \<Rightarrow> (Inl (Invalid ''id'' ''id must be a valid UUID''), w)
      | Some i \<Rightarrow>
          if sp_name p = None \<and> sp_tags p = None \<and> sp_labels p = None
          then (Inl (Invalid ''body'' ''at least one field must be provided''), w)
          else (case ebind (serverGet i w) (renamed e (sp_name p)) of
              Inl er \<Rightarrow> (Inl er, w)
            | Inr s \<Rightarrow> (case serverSave (patched p s) w of
                (Some er, w') \<Rightarrow> (Inl er, w') | (None, w') \<Rightarrow> (Inr ((patched p s)\<lparr>sv_version := sv_version s + 1\<rparr>), w'))))"

definition deleteServer :: "idText \<Rightarrow> 'a agentstore_scheme \<Rightarrow> apperr option \<times> 'a agentstore_scheme" where
  "deleteServer idt w =
     (case parseId idt of
        None \<Rightarrow> (Some (Invalid ''id'' ''id must be a valid UUID''), w)
      | Some i \<Rightarrow> (case serverGet i w of
          Inl er \<Rightarrow> (Some er, w)
        | Inr _ \<Rightarrow>
            if hasActiveInstances i w
            then (Some (Conflict ''remove all instances on this server before deleting it''), w)
            else serverSoftDelete i w))"

definition getServer :: "idText \<Rightarrow> 'a agentstore_scheme \<Rightarrow> apperr + server" where
  "getServer idt w = (case parseId idt of
     None \<Rightarrow> Inl (Invalid ''id'' ''id must be a valid UUID'') | Some i \<Rightarrow> serverGet i w)"

subsection \<open>Tokens of agents\<close>

text \<open>\<open>newToken\<close>: the raw token and its hash, from the \<open>n\<close>-th random value.\<close>

definition newAgentToken :: "agentEnv \<Rightarrow> string \<Rightarrow> uuid \<Rightarrow> string \<times> string" where
  "newAgentToken e pre n = (let raw = pre @ ''_'' @ ge_random e n in (raw, ge_sha e raw))"

definition dayNanos :: int where "dayNanos = 24 * 3600 * 1000000000"

text \<open>\<open>ttl\<close> is a \<open>time.Duration\<close>.\<close>

definition createRegToken :: "agentEnv \<Rightarrow> string \<Rightarrow> int \<Rightarrow> uuid option \<Rightarrow> 'a agentstore_scheme
    \<Rightarrow> (apperr + (regToken \<times> string)) \<times> 'a agentstore_scheme" where
  "createRegToken e name ttl by w =
     (case newAgentToken e ''fleetr'' (js_next w) of (raw, hash) \<Rightarrow>
       let t = \<lparr>rk_id = js_next w, rk_name = trimSpace name, rk_hash = hash, rk_createdBy = by,
                rk_expiresAt = js_now w + (if ttl \<le> 0 \<or> ttl > 7 * dayNanos then dayNanos else ttl),
                rk_usedAt = None, rk_serverId = None, rk_createdAt = js_now w\<rparr>
       in case regTokenCreate t (w\<lparr>js_next := js_next w + 1\<rparr>) of
            (Some er, w') \<Rightarrow> (Inl er, w') | (None, w') \<Rightarrow> (Inr (t, raw), w'))"

definition revokeRegToken :: "idText \<Rightarrow> 'a agentstore_scheme \<Rightarrow> apperr option \<times> 'a agentstore_scheme" where
  "revokeRegToken idt w = (case parseId idt of
     None \<Rightarrow> (Some (Invalid ''id'' ''id must be a valid UUID''), w) | Some i \<Rightarrow> regTokenDelete i w)"

definition revokeAgentToken :: "idText \<Rightarrow> 'a agentstore_scheme \<Rightarrow> apperr option \<times> 'a agentstore_scheme" where
  "revokeAgentToken idt w = (case parseId idt of
     None \<Rightarrow> (Some (Invalid ''id'' ''id must be a valid UUID''), w) | Some i \<Rightarrow> clearAgentToken i w)"

definition rotateAgentToken :: "agentEnv \<Rightarrow> idText \<Rightarrow> uuid option \<Rightarrow> 'a agentstore_scheme
    \<Rightarrow> (apperr + (regToken \<times> string)) \<times> 'a agentstore_scheme" where
  "rotateAgentToken e idt by w =
     (case parseId idt of
        None \<Rightarrow> (Inl (Invalid ''id'' ''id must be a valid UUID''), w)
      | Some i \<Rightarrow> (case serverGet i w of
          Inl er \<Rightarrow> (Inl er, w)
        | Inr s \<Rightarrow> (case clearAgentToken i w of
            (Some er, w1) \<Rightarrow> (Inl er, w1)
          | (None, w1) \<Rightarrow> (case newAgentToken e ''fleetr'' (js_next w1) of (raw, hash) \<Rightarrow>
              let t = \<lparr>rk_id = js_next w1, rk_name = ''Re-enroll '' @ sv_name s, rk_hash = hash, rk_createdBy = by,
                       rk_expiresAt = js_now w1 + dayNanos, rk_usedAt = None, rk_serverId = Some i, rk_createdAt = js_now w1\<rparr>
              in case regTokenCreate t (w1\<lparr>js_next := js_next w1 + 1\<rparr>) of
                   (Some er, w2) \<Rightarrow> (Inl er, w2) | (None, w2) \<Rightarrow> (Inr (t, raw), w2)))))"

subsection \<open>Registering\<close>

text \<open>\<open>range\<close> over a string: the number of bytes of the first rune.  A byte that starts none is one of its
  own.\<close>

definition runeWidth :: "string \<Rightarrow> nat" where
  "runeWidth s = (case s of [] \<Rightarrow> 0 | c # cs \<Rightarrow>
     (let n = (if CHR 0xC2 \<le> c \<and> c \<le> CHR 0xDF then 2 else if CHR 0xE0 \<le> c \<and> c \<le> CHR 0xEF then 3
               else if CHR 0xF0 \<le> c \<and> c \<le> CHR 0xF4 then 4 else 1)
      in if n - 1 \<le> length cs \<and> list_all (\<lambda>x. CHR 0x80 \<le> x \<and> x \<le> CHR 0xBF) (take (n - 1) cs) then n else 1))"

lemma runeWidth_pos: "s \<noteq> [] \<Longrightarrow> 0 < runeWidth s"
  by (cases s) (simp_all add: runeWidth_def Let_def)

function runesOf :: "string \<Rightarrow> string list" where
  "runesOf s = (if s = [] then [] else take (runeWidth s) s # runesOf (drop (runeWidth s) s))"
  by pat_completeness auto
termination
  by (relation "measure length") (use runeWidth_pos in \<open>simp_all add: diff_less\<close>)

declare runesOf.simps [simp del]

text \<open>What \<open>sanitizeName\<close> keeps of a rune; outside ASCII \<open>ge_lower\<close> is what it writes, the lower-case letter
  or digit or nothing.\<close>

definition sanitizeRune :: "agentEnv \<Rightarrow> string \<Rightarrow> string" where
  "sanitizeRune e r = (case r of
     [c] \<Rightarrow>
       (let l = lowerByte c
        in if CHR 0x80 \<le> c then []
           else if isLowerByte l \<or> isDigitByte l \<or> l = CHR ''-'' \<or> l = CHR ''_'' then [l]
           else if l = CHR ''.'' then ''-'' else [])
   | _ \<Rightarrow> ge_lower e r)"

definition trimSet :: "string \<Rightarrow> string \<Rightarrow> string" where
  "trimSet cset s = rev (trimLeftSet cset (rev (trimLeftSet cset s)))"

definition sanitizeName :: "agentEnv \<Rightarrow> uuid \<Rightarrow> string \<Rightarrow> string" where
  "sanitizeName e n hostname =
     (let name = trimSet ''-_'' (concat (map (sanitizeRune e) (runesOf hostname)));
          name' = (if length name < 2 then ''server-'' @ ge_suffix e n else name)
      in if length name' > 63 then take 63 name' else name')"

record registerInput =
  ri_token :: string
  ri_hostname :: string
  ri_address :: "string option"
  ri_os :: "string option"

text \<open>\<open>createServer\<close>: the name, then the name with a random suffix, twice.\<close>

fun createLoop :: "agentEnv \<Rightarrow> registerInput \<Rightarrow> string \<Rightarrow> nat list \<Rightarrow> 'a agentstore_scheme
    \<Rightarrow> (apperr + server) \<times> 'a agentstore_scheme" where
  "createLoop e inp name [] w = (Inl (Conflict ''could not allocate a unique server name''), w)"
| "createLoop e inp name (attempt # rest) w =
     (let candidate = (if attempt > 0 then name @ ''-'' @ ge_suffix e (js_next w) else name)
      in case newServer e (js_next w + 1) candidate (ri_hostname inp) (ri_address inp) (ri_os inp) [] [] of
           Inl er \<Rightarrow> (Inl er, w)
         | Inr s \<Rightarrow> (case serverCreate e s (w\<lparr>js_next := js_next w + 2\<rparr>) of
             (Inr s', w') \<Rightarrow> (Inr s', w')
           | (Inl er, w') \<Rightarrow> if kindOf er \<noteq> KindConflict then (Inl er, w') else createLoop e inp name rest w'))"

definition createServer :: "agentEnv \<Rightarrow> registerInput \<Rightarrow> 'a agentstore_scheme \<Rightarrow> (apperr + server) \<times> 'a agentstore_scheme" where
  "createServer e inp w =
     createLoop e inp (sanitizeName e (js_next w) (ri_hostname inp)) [0, 1, 2] (w\<lparr>js_next := js_next w + 1\<rparr>)"

text \<open>\<open>Register\<close>: reading the token, attaching the host, consuming the token, issuing the agent's token.\<close>

definition registerCheck :: "agentEnv \<Rightarrow> registerInput \<Rightarrow> 'a agentstore_scheme \<Rightarrow> apperr + regToken" where
  "registerCheck e inp w =
     (if ri_token inp = [] \<or> ri_hostname inp = []
      then Inl (Invalid ''token'' ''token and hostname are required'')
      else case regTokenByHash (ge_sha e (ri_token inp)) w of
        Inl _ \<Rightarrow> Inl (Unauthorized ''invalid registration token'')
      | Inr t \<Rightarrow>
          if rk_usedAt t \<noteq> None then Inl (Unauthorized ''registration token already used'')
          else if js_now w > rk_expiresAt t then Inl (Unauthorized ''registration token expired'')
          else Inr t)"

definition attachServer :: "agentEnv \<Rightarrow> registerInput \<Rightarrow> regToken \<Rightarrow> 'a agentstore_scheme
    \<Rightarrow> (apperr + server) \<times> 'a agentstore_scheme" where
  "attachServer e inp t w = (case rk_serverId t of
     Some i \<Rightarrow> (serverGet i w, w) | None \<Rightarrow> createServer e inp w)"

definition issueAgentToken :: "agentEnv \<Rightarrow> uuid \<Rightarrow> 'a agentstore_scheme \<Rightarrow> (apperr + string) \<times> 'a agentstore_scheme" where
  "issueAgentToken e i w =
     (case newAgentToken e ''fleeta'' (js_next w) of (raw, hash) \<Rightarrow>
       (case setAgentToken i hash (w\<lparr>js_next := js_next w + 1\<rparr>) of
          (Some er, w') \<Rightarrow> (Inl er, w') | (None, w') \<Rightarrow> (Inr raw, w')))"

definition register :: "agentEnv \<Rightarrow> registerInput \<Rightarrow> 'a agentstore_scheme \<Rightarrow> (apperr + (server \<times> string)) \<times> 'a agentstore_scheme" where
  "register e inp w =
     (case registerCheck e inp w of
        Inl er \<Rightarrow> (Inl er, w)
      | Inr t \<Rightarrow> (case attachServer e inp t w of
          (Inl er, w1) \<Rightarrow> (Inl er, w1)
        | (Inr s, w1) \<Rightarrow> (case markUsed (rk_id t) (sv_id s) w1 of
            (Some er, w2) \<Rightarrow> (Inl er, w2)
          | (None, w2) \<Rightarrow> (case issueAgentToken e (sv_id s) w2 of
              (Inl er, w3) \<Rightarrow> (Inl er, w3)
            | (Inr raw, w3) \<Rightarrow> (Inr (s, raw), w3)))))"

definition agentAuth :: "agentEnv \<Rightarrow> string \<Rightarrow> 'a agentstore_scheme \<Rightarrow> apperr + server" where
  "agentAuth e raw w =
     (if raw = [] then Inl (Unauthorized ''agent token required'') else serverByToken (ge_sha e raw) w)"

definition markStale :: "int \<Rightarrow> 'a agentstore_scheme \<Rightarrow> uuid list \<times> 'a agentstore_scheme" where
  "markStale olderThan w = markOffline (js_now w - olderThan) w"

definition serverMetrics :: "idText \<Rightarrow> int \<Rightarrow> 'a agentstore_scheme \<Rightarrow> apperr + healthSample list" where
  "serverMetrics idt since w = (case parseId idt of
     None \<Rightarrow> Inl (Invalid ''id'' ''id must be a valid UUID'')
   | Some i \<Rightarrow> ebind (serverGet i w) (\<lambda>_. Inr (healthHistory i since w)))"

subsection \<open>What an agent may ask about jobs\<close>

record jobReport =
  jr_status :: string
  jr_progress :: "int option"
  jr_result :: "jobResult option"
  jr_error :: "string option"

text \<open>The lookup both handlers start with.\<close>

definition jobOfAgent :: "uuid \<Rightarrow> idText \<Rightarrow> 'a agentstore_scheme \<Rightarrow> apperr + uuid" where
  "jobOfAgent server idt w =
     (case parseId idt of
        None \<Rightarrow> Inl (Invalid ''id'' ''id must be a valid UUID'')
      | Some i \<Rightarrow> ebind (jobGet i w) (\<lambda>j.
          if jb_serverId j \<noteq> Some server then Inl (Forbidden ''job does not belong to this agent'') else Inr i))"

definition agentAppendLogs :: "uuid \<Rightarrow> idText \<Rightarrow> joblog list \<Rightarrow> 'a agentstore_scheme \<Rightarrow> apperr option \<times> 'a agentstore_scheme" where
  "agentAppendLogs server idt ls w =
     (case jobOfAgent server idt w of Inl er \<Rightarrow> (Some er, w) | Inr i \<Rightarrow> (None, appendLogs i ls w))"

definition agentUpdateJob :: "env \<Rightarrow> uuid \<Rightarrow> idText \<Rightarrow> jobReport \<Rightarrow> 'a agentstore_scheme \<Rightarrow> apperr option \<times> 'a agentstore_scheme" where
  "agentUpdateJob ev server idt req w =
     (case jobOfAgent server idt w of
        Inl er \<Rightarrow> (Some er, w)
      | Inr i \<Rightarrow>
          if jr_status req = ''running''
          then (None, case jr_progress req of None \<Rightarrow> w | Some n \<Rightarrow> opProgress i n w)
          else if jr_status req = ''succeeded'' then complete ev i JobSucceeded (jr_result req) None w
          else if jr_status req = ''failed'' then complete ev i JobFailed (jr_result req) (jr_error req) w
          else (Some (Invalid ''status'' ''status must be running, succeeded or failed''), w))"

definition agentClaim :: "claimEnv \<Rightarrow> uuid \<Rightarrow> 'a agentstore_scheme \<Rightarrow> (apperr + (job \<times> payload) option) \<times> 'a agentstore_scheme" where
  "agentClaim e server w = claim e (Some server) w"

end
