(* ===== verification/Enrolment.thy ===== *)
theory Enrolment
  imports Agents
begin

text \<open>
  What the tokens of \<open>Agents\<close> promise: a registration token enrols one agent whatever requests overlap,
  and an agent whose token was revoked or replaced, or whose host was deleted, is cut off for ever.  The
  step relation \<open>agentStep\<close> has the three transactions of a registration as steps of their own.
\<close>

subsection \<open>Values that do not repeat\<close>

text \<open>SHA-256 has no collisions and the random source does not repeat itself.\<close>

definition freshTokens :: "agentEnv \<Rightarrow> bool" where
  "freshTokens e \<longleftrightarrow> inj (ge_sha e) \<and> inj (ge_random e)"

definition madeIn :: "agentEnv \<Rightarrow> string \<Rightarrow> nat \<Rightarrow> nat \<Rightarrow> string \<Rightarrow> bool" where
  "madeIn e pre a b h \<longleftrightarrow> (\<exists>m. a \<le> m \<and> m < b \<and> h = snd (newAgentToken e pre m))"

lemma madeIn_mono: "madeIn e pre a b h \<Longrightarrow> a' \<le> a \<Longrightarrow> b \<le> b' \<Longrightarrow> madeIn e pre a' b' h"
  by (auto simp: madeIn_def intro: le_trans less_le_trans)

lemma madeIn_apart: "freshTokens e \<Longrightarrow> madeIn e pre a b h \<Longrightarrow> madeIn e pre c d h \<Longrightarrow> b \<le> c \<Longrightarrow> False"
  by (auto simp: madeIn_def freshTokens_def newAgentToken_def Let_def inj_eq)

lemma madeIn_next: "madeIn e pre n (Suc n) (snd (newAgentToken e pre n))"
  by (auto simp: madeIn_def)

subsection \<open>How the tables grow\<close>

definition hashesApart :: "server list \<Rightarrow> bool" where
  "hashesApart ss \<longleftrightarrow> (\<forall>s \<in> set ss. \<forall>t \<in> set ss. sv_tokenHash s \<noteq> None \<longrightarrow> sv_tokenHash s = sv_tokenHash t \<longrightarrow> s = t)"

lemma hashesApartD: "hashesApart ss \<Longrightarrow> s \<in> set ss \<Longrightarrow> t \<in> set ss \<Longrightarrow> sv_tokenHash s = Some h \<Longrightarrow> sv_tokenHash t = Some h \<Longrightarrow> s = t"
  unfolding hashesApart_def by (metis option.distinct(1))

lemma hashesApartI:
  "(\<And>s t h. s \<in> set ss \<Longrightarrow> t \<in> set ss \<Longrightarrow> sv_tokenHash s = Some h \<Longrightarrow> sv_tokenHash t = Some h \<Longrightarrow> s = t) \<Longrightarrow> hashesApart ss"
  unfolding hashesApart_def by (metis not_None_eq)

definition agOk :: "agentEnv \<Rightarrow> 'a agentstore_scheme \<Rightarrow> bool" where
  "agOk e w \<longleftrightarrow> distinct (map rk_id (ag_regTokens w)) \<and> distinct (map rk_hash (ag_regTokens w))
     \<and> distinct (map sv_id (ag_servers w))
     \<and> hashesApart (ag_servers w)
     \<and> (\<forall>t \<in> set (ag_regTokens w). rk_id t < js_next w \<and> madeIn e ''fleetr'' 0 (js_next w) (rk_hash t))
     \<and> (\<forall>s \<in> set (ag_servers w). sv_id s < js_next w
          \<and> (\<forall>h. sv_tokenHash s = Some h \<longrightarrow> madeIn e ''fleeta'' 0 (js_next w) h))"

text \<open>A token keeps its identity and, once used, stays used; other tokens are new.  A host keeps its identity,
  a deleted one stays deleted, and its token is the one it had, none or a new one.\<close>

definition tokenFrom :: "agentEnv \<Rightarrow> nat \<Rightarrow> nat \<Rightarrow> regToken list \<Rightarrow> regToken \<Rightarrow> bool" where
  "tokenFrom e a b ts t' \<longleftrightarrow>
     (\<exists>t \<in> set ts. rk_id t = rk_id t' \<and> rk_hash t = rk_hash t' \<and> (rk_usedAt t \<noteq> None \<longrightarrow> rk_usedAt t' \<noteq> None))
     \<or> (a \<le> rk_id t' \<and> madeIn e ''fleetr'' a b (rk_hash t'))"

definition hashFrom :: "agentEnv \<Rightarrow> nat \<Rightarrow> nat \<Rightarrow> string option \<Rightarrow> string option \<Rightarrow> bool" where
  "hashFrom e a b old new \<longleftrightarrow> (case new of None \<Rightarrow> True | Some h \<Rightarrow> old = new \<or> madeIn e ''fleeta'' a b h)"

definition serverFrom :: "agentEnv \<Rightarrow> nat \<Rightarrow> nat \<Rightarrow> server list \<Rightarrow> server \<Rightarrow> bool" where
  "serverFrom e a b ss s' \<longleftrightarrow>
     (\<exists>s \<in> set ss. sv_id s = sv_id s' \<and> (serverLive s' \<longrightarrow> serverLive s) \<and> hashFrom e a b (sv_tokenHash s) (sv_tokenHash s'))
     \<or> (a \<le> sv_id s' \<and> hashFrom e a b None (sv_tokenHash s'))"

definition grows :: "agentEnv \<Rightarrow> 'a agentstore_scheme \<Rightarrow> 'a agentstore_scheme \<Rightarrow> bool" where
  "grows e w w' \<longleftrightarrow> js_next w \<le> js_next w'
     \<and> (\<forall>t' \<in> set (ag_regTokens w'). tokenFrom e (js_next w) (js_next w') (ag_regTokens w) t')
     \<and> (\<forall>s' \<in> set (ag_servers w'). serverFrom e (js_next w) (js_next w') (ag_servers w) s')"

definition soundFor :: "agentEnv \<Rightarrow> 'a agentstore_scheme \<Rightarrow> 'a agentstore_scheme \<Rightarrow> bool" where
  "soundFor e w w' \<longleftrightarrow> (agOk e w \<longrightarrow> agOk e w' \<and> grows e w w')"

lemma hashFrom_same [simp]: "hashFrom e a b h h" "hashFrom e a b h None"
  by (auto simp: hashFrom_def split: option.splits)

lemma hashFrom_trans:
  "hashFrom e a b h h' \<Longrightarrow> hashFrom e b c h' h'' \<Longrightarrow> a \<le> b \<Longrightarrow> b \<le> c \<Longrightarrow> hashFrom e a c h h''"
  by (auto simp: hashFrom_def split: option.splits intro: madeIn_mono)

lemma tokenFrom_same: "t \<in> set ts \<Longrightarrow> tokenFrom e a b ts t"
  by (auto simp: tokenFrom_def)

lemma serverFrom_same: "s \<in> set ss \<Longrightarrow> serverFrom e a b ss s"
  unfolding serverFrom_def by (rule disjI1, rule bexI [of _ s]) simp_all

lemma tokenFrom_trans:
  assumes "tokenFrom e b c ts' t''" "\<And>t'. t' \<in> set ts' \<Longrightarrow> tokenFrom e a b ts t'" "a \<le> b" "b \<le> c"
  shows "tokenFrom e a c ts t''"
  using assms(1) unfolding tokenFrom_def
proof (elim disjE bexE conjE)
  fix t' assume t': "t' \<in> set ts'" "rk_id t' = rk_id t''" "rk_hash t' = rk_hash t''"
    "rk_usedAt t' \<noteq> None \<longrightarrow> rk_usedAt t'' \<noteq> None"
  from assms(2) [OF this(1)] show "(\<exists>t \<in> set ts. rk_id t = rk_id t'' \<and> rk_hash t = rk_hash t''
      \<and> (rk_usedAt t \<noteq> None \<longrightarrow> rk_usedAt t'' \<noteq> None)) \<or> (a \<le> rk_id t'' \<and> madeIn e ''fleetr'' a c (rk_hash t''))"
    unfolding tokenFrom_def t'(2,3)
  proof (elim disjE bexE conjE)
    fix t assume "t \<in> set ts" "rk_id t = rk_id t''" "rk_hash t = rk_hash t''" "rk_usedAt t \<noteq> None \<longrightarrow> rk_usedAt t' \<noteq> None"
    then show ?thesis using t'(4) by (intro disjI1 bexI [of _ t]) simp_all
  next
    assume "a \<le> rk_id t''" "madeIn e ''fleetr'' a b (rk_hash t'')"
    then show ?thesis using assms(4) by (intro disjI2 conjI) (simp_all add: madeIn_mono)
  qed
next
  assume "b \<le> rk_id t''" "madeIn e ''fleetr'' b c (rk_hash t'')"
  then show "(\<exists>t \<in> set ts. rk_id t = rk_id t'' \<and> rk_hash t = rk_hash t''
      \<and> (rk_usedAt t \<noteq> None \<longrightarrow> rk_usedAt t'' \<noteq> None)) \<or> (a \<le> rk_id t'' \<and> madeIn e ''fleetr'' a c (rk_hash t''))"
    using assms(3) by (intro disjI2 conjI) (simp_all add: madeIn_mono)
qed

lemma serverFrom_trans:
  assumes "serverFrom e b c ss' s''" "\<And>s'. s' \<in> set ss' \<Longrightarrow> serverFrom e a b ss s'" "a \<le> b" "b \<le> c"
  shows "serverFrom e a c ss s''"
  using assms(1) unfolding serverFrom_def
proof (elim disjE bexE conjE)
  fix s' assume s': "s' \<in> set ss'" "sv_id s' = sv_id s''" "serverLive s'' \<longrightarrow> serverLive s'"
    "hashFrom e b c (sv_tokenHash s') (sv_tokenHash s'')"
  from assms(2) [OF this(1)] show "(\<exists>s \<in> set ss. sv_id s = sv_id s'' \<and> (serverLive s'' \<longrightarrow> serverLive s)
      \<and> hashFrom e a c (sv_tokenHash s) (sv_tokenHash s'')) \<or> (a \<le> sv_id s'' \<and> hashFrom e a c None (sv_tokenHash s''))"
    unfolding serverFrom_def s'(2)
  proof (elim disjE bexE conjE)
    fix s assume s: "s \<in> set ss" "sv_id s = sv_id s''" "serverLive s' \<longrightarrow> serverLive s"
      "hashFrom e a b (sv_tokenHash s) (sv_tokenHash s')"
    have "hashFrom e a c (sv_tokenHash s) (sv_tokenHash s'')" by (rule hashFrom_trans [OF s(4) s'(4) assms(3,4)])
    then show ?thesis using s(1-3) s'(3) by (intro disjI1 bexI [of _ s]) simp_all
  next
    assume "a \<le> sv_id s''" "hashFrom e a b None (sv_tokenHash s')"
    then show ?thesis using hashFrom_trans [OF _ s'(4) assms(3,4)] by (intro disjI2 conjI) simp_all
  qed
next
  assume "b \<le> sv_id s''" "hashFrom e b c None (sv_tokenHash s'')"
  then show "(\<exists>s \<in> set ss. sv_id s = sv_id s'' \<and> (serverLive s'' \<longrightarrow> serverLive s)
      \<and> hashFrom e a c (sv_tokenHash s) (sv_tokenHash s'')) \<or> (a \<le> sv_id s'' \<and> hashFrom e a c None (sv_tokenHash s''))"
    using assms(3,4) hashFrom_trans [OF hashFrom_same(2), of e b c "sv_tokenHash s''" a None]
    by (intro disjI2 conjI) simp_all
qed

lemma grows_refl: "grows e w w"
  by (simp add: grows_def tokenFrom_same serverFrom_same)

lemma grows_trans: "grows e w w' \<Longrightarrow> grows e w' w'' \<Longrightarrow> grows e w w''"
  unfolding grows_def by (meson le_trans tokenFrom_trans serverFrom_trans)

lemma soundFor_refl [simp]: "soundFor e w w"
  by (simp add: soundFor_def grows_refl)

lemma soundFor_trans: "soundFor e w w' \<Longrightarrow> soundFor e w' w'' \<Longrightarrow> soundFor e w w''"
  by (auto simp: soundFor_def intro: grows_trans)

named_theorems sound_rules \<open>what each operation on hosts and tokens keeps\<close>

lemma sound_keep:
  assumes "ag_servers w' = ag_servers w" "ag_regTokens w' = ag_regTokens w" "js_next w \<le> js_next w'"
  shows "soundFor e w w'"
proof -
  have "agOk e w \<Longrightarrow> agOk e w'"
    using assms madeIn_mono [OF _ order_refl assms(3)] by (simp add: agOk_def) (meson less_le_trans)
  then show ?thesis using assms by (simp add: soundFor_def grows_def tokenFrom_same serverFrom_same)
qed

lemma sound_regTokens:
  assumes "ag_servers w' = ag_servers w" "js_next w' = js_next w"
    and "\<forall>t' \<in> set (ag_regTokens w'). \<exists>t \<in> set (ag_regTokens w). rk_id t = rk_id t' \<and> rk_hash t = rk_hash t'
           \<and> (rk_usedAt t \<noteq> None \<longrightarrow> rk_usedAt t' \<noteq> None)"
    and "distinct (map rk_id (ag_regTokens w)) \<Longrightarrow> distinct (map rk_id (ag_regTokens w'))"
    and "distinct (map rk_hash (ag_regTokens w)) \<Longrightarrow> distinct (map rk_hash (ag_regTokens w'))"
  shows "soundFor e w w'"
proof -
  have "agOk e w \<Longrightarrow> agOk e w'" unfolding agOk_def assms(1,2) using assms(3-5) by metis
  moreover have "grows e w w'" using assms(1-3) by (simp add: grows_def serverFrom_same tokenFrom_def)
  ultimately show ?thesis by (simp add: soundFor_def)
qed

lemma sound_regTokenCreate:
  assumes "rk_id t = js_next w" "rk_hash t = snd (newAgentToken e ''fleetr'' (js_next w))"
  shows "soundFor e w (snd (regTokenCreate t (w\<lparr>js_next := js_next w + 1\<rparr>)))"
proof (cases "list_ex (\<lambda>x. rk_hash x = rk_hash t) (ag_regTokens w)")
  case True
  then show ?thesis by (simp add: regTokenCreate_def sound_keep)
next
  case False
  have new: "madeIn e ''fleetr'' (js_next w) (Suc (js_next w)) (rk_hash t)" using madeIn_next assms(2) by simp
  let ?w = "snd (regTokenCreate t (w\<lparr>js_next := js_next w + 1\<rparr>))"
  have "agOk e ?w" if ok: "agOk e w"
    using ok False new assms(1) madeIn_mono [OF _ order_refl, of e _ 0 "js_next w" _ "Suc (js_next w)"]
      madeIn_mono [OF new, of 0 "Suc (js_next w)"]
    by (auto simp: agOk_def regTokenCreate_def list_ex_iff less_Suc_eq image_iff)
  moreover have "grows e w ?w"
    using False new assms(1) by (auto simp: grows_def regTokenCreate_def tokenFrom_same serverFrom_same) (simp add: tokenFrom_def)
  ultimately show ?thesis by (simp add: soundFor_def)
qed

lemma sound_regTokenDelete [sound_rules]: "soundFor e w (snd (regTokenDelete i w))"
  by (cases "list_ex (\<lambda>t. rk_id t = i) (ag_regTokens w)")
    (auto simp: regTokenDelete_def intro!: sound_regTokens distinct_map_filter)

lemma sound_markUsed [sound_rules]: "soundFor e w (snd (markUsed i s w))"
proof (cases "list_ex (\<lambda>t. rk_id t = i \<and> rk_usedAt t = None) (ag_regTokens w)")
  case True
  have "map rk_id (ag_regTokens (snd (markUsed i s w))) = map rk_id (ag_regTokens w)"
    "map rk_hash (ag_regTokens (snd (markUsed i s w))) = map rk_hash (ag_regTokens w)"
    by (simp_all add: markUsed_def)
  then show ?thesis by (intro sound_regTokens) (auto simp: markUsed_def)
qed (simp add: markUsed_def)

lemma sound_servers:
  assumes "ag_regTokens w' = ag_regTokens w" "js_next w \<le> js_next w'"
    and "ag_servers w' = map g (ag_servers w)" "\<forall>s. sv_id (g s) = sv_id s \<and> (serverLive (g s) \<longrightarrow> serverLive s)"
    and "\<forall>s \<in> set (ag_servers w). hashFrom e (js_next w) (js_next w') (sv_tokenHash s) (sv_tokenHash (g s))"
    and "\<And>s t h. agOk e w \<Longrightarrow> s \<in> set (ag_servers w) \<Longrightarrow> t \<in> set (ag_servers w) \<Longrightarrow>
           sv_tokenHash (g s) = Some h \<Longrightarrow> sv_tokenHash (g t) = Some h \<Longrightarrow> s = t"
  shows "soundFor e w w'"
proof -
  have ids: "map sv_id (map g (ag_servers w)) = map sv_id (ag_servers w)" using assms(4) by simp
  have "agOk e w'" if ok: "agOk e w"
  proof -
    have "madeIn e ''fleeta'' 0 (js_next w') h" if "s \<in> set (ag_servers w)" "sv_tokenHash (g s) = Some h" for s h
    proof -
      from assms(5) that have "sv_tokenHash s = Some h \<or> madeIn e ''fleeta'' (js_next w) (js_next w') h"
        by (force simp: hashFrom_def)
      moreover have "sv_tokenHash s = Some h \<Longrightarrow> madeIn e ''fleeta'' 0 (js_next w) h" using ok that(1) by (simp add: agOk_def)
      ultimately show ?thesis using madeIn_mono assms(2) by (meson le0 order_refl)
    qed
    moreover have "rk_id t < js_next w'" "madeIn e ''fleetr'' 0 (js_next w') (rk_hash t)" if "t \<in> set (ag_regTokens w)" for t
      using ok that assms(2) by (auto simp: agOk_def intro: madeIn_mono less_le_trans)
    moreover have "sv_id s < js_next w'" if "s \<in> set (ag_servers w)" for s
      using ok that assms(2) by (auto simp: agOk_def intro: less_le_trans)
    moreover have "distinct (map sv_id (ag_servers w'))" using ok ids by (simp only: agOk_def assms(3))
    moreover have "hashesApart (ag_servers w')"
    proof (rule hashesApartI)
      fix s' t' h assume "s' \<in> set (ag_servers w')" "t' \<in> set (ag_servers w')"
        and h: "sv_tokenHash s' = Some h" "sv_tokenHash t' = Some h"
      then obtain s t where "s \<in> set (ag_servers w)" "t \<in> set (ag_servers w)" and g: "s' = g s" "t' = g t"
        unfolding assms(3) by auto
      from assms(6) [OF ok this(1,2)] h show "s' = t'" unfolding g by blast
    qed
    ultimately show ?thesis
      using ok assms(1,4) by (simp add: agOk_def assms(3))
  qed
  moreover have "grows e w w'"
    using assms(1-5) by (auto simp: grows_def tokenFrom_same serverFrom_def)
  ultimately show ?thesis by (simp add: soundFor_def)
qed

text \<open>A host's statement that leaves its identity alone and does not give it a token.\<close>

lemma sound_serverUpdate:
  assumes "\<forall>s. sv_id (f s) = sv_id s \<and> (sv_tokenHash (f s) = sv_tokenHash s \<or> sv_tokenHash (f s) = None)"
  shows "soundFor e w (snd (serverUpdate i f w))"
proof (cases "list_ex (\<lambda>s. sv_id s = i \<and> serverLive s) (ag_servers w)")
  case True
  let ?g = "\<lambda>s. if sv_id s = i \<and> serverLive s then (f s)\<lparr>sv_version := sv_version s + 1\<rparr> else s"
  have g: "sv_tokenHash (?g s) = sv_tokenHash s \<or> sv_tokenHash (?g s) = None" for s using assms by simp
  show ?thesis
  proof (rule sound_servers [where g = ?g])
    show "\<forall>s \<in> set (ag_servers w). hashFrom e (js_next w) (js_next (snd (serverUpdate i f w))) (sv_tokenHash s) (sv_tokenHash (?g s))"
      using g by (metis hashFrom_same)
    show "s = t" if "agOk e w" "s \<in> set (ag_servers w)" "t \<in> set (ag_servers w)"
        "sv_tokenHash (?g s) = Some h" "sv_tokenHash (?g t) = Some h" for s t h
    proof -
      have "sv_tokenHash s = Some h" "sv_tokenHash t = Some h"
        using g [of s] g [of t] that(4,5) by (metis option.distinct(1))+
      then show ?thesis using that(1) hashesApartD [OF _ that(2,3)] by (simp add: agOk_def)
    qed
  qed (use True assms in \<open>simp_all add: serverUpdate_def\<close>)
qed (simp add: serverUpdate_def)

lemma sound_setAgentToken:
  "soundFor e w (snd (setAgentToken i (snd (newAgentToken e ''fleeta'' (js_next w))) (w\<lparr>js_next := js_next w + 1\<rparr>)))"
proof -
  let ?h = "snd (newAgentToken e ''fleeta'' (js_next w))"
  let ?live = "list_ex (\<lambda>s. sv_id s = i \<and> serverLive s) (ag_servers w)"
  let ?dup = "list_ex (\<lambda>s. sv_id s \<noteq> i \<and> sv_tokenHash s = Some ?h) (ag_servers w)"
  let ?g = "\<lambda>s. if sv_id s = i \<and> serverLive s then s\<lparr>sv_tokenHash := Some ?h, sv_status := SvOnline,
      sv_heartbeatAt := Some (js_now w), sv_version := sv_version s + 1\<rparr> else s"
  consider "\<not> ?live" | "?live" "?dup" | "?live" "\<not> ?dup" by blast
  then show ?thesis
  proof cases
    case 3
    have w': "snd (setAgentToken i ?h (w\<lparr>js_next := js_next w + 1\<rparr>))
        = w\<lparr>js_next := js_next w + 1, ag_servers := map ?g (ag_servers w)\<rparr>"
      using 3 by (simp add: setAgentToken_def serverUpdate_def)
    show ?thesis
    proof (rule sound_servers [where g = ?g])
      show "\<forall>s \<in> set (ag_servers w). hashFrom e (js_next w)
          (js_next (snd (setAgentToken i ?h (w\<lparr>js_next := js_next w + 1\<rparr>)))) (sv_tokenHash s) (sv_tokenHash (?g s))"
        unfolding w' using madeIn_next [of e "''fleeta''" "js_next w"] by (simp add: hashFrom_def split: option.split)
      show "s = t" if ok: "agOk e w" and s: "s \<in> set (ag_servers w)" "t \<in> set (ag_servers w)"
          and h: "sv_tokenHash (?g s) = Some h" "sv_tokenHash (?g t) = Some h" for s t h
      proof -
        have inj: "sv_id s = sv_id t \<Longrightarrow> s = t" using ok s by (auto simp: agOk_def distinct_map dest: inj_onD)
        have same: "sv_tokenHash s = Some h \<Longrightarrow> sv_tokenHash t = Some h \<Longrightarrow> s = t"
          using ok hashesApartD [OF _ s] by (simp add: agOk_def)
        have other: "sv_id x \<noteq> i \<Longrightarrow> sv_tokenHash x \<noteq> Some ?h" if "x \<in> set (ag_servers w)" for x
          using 3(2) that by (auto simp: list_ex_iff)
        show ?thesis
        proof (cases "sv_id s = i \<and> serverLive s"; cases "sv_id t = i \<and> serverLive t")
          assume "sv_id s = i \<and> serverLive s" "\<not> (sv_id t = i \<and> serverLive t)"
          moreover from this h have "sv_tokenHash t = Some ?h" by (auto split: if_splits)
          ultimately show ?thesis using other [OF s(2)] inj by metis
        next
          assume "\<not> (sv_id s = i \<and> serverLive s)" "sv_id t = i \<and> serverLive t"
          moreover from this h have "sv_tokenHash s = Some ?h" by (auto split: if_splits)
          ultimately show ?thesis using other [OF s(1)] inj by metis
        next
          assume "sv_id s = i \<and> serverLive s" "sv_id t = i \<and> serverLive t"
          then show ?thesis using inj by simp
        next
          assume "\<not> (sv_id s = i \<and> serverLive s)" "\<not> (sv_id t = i \<and> serverLive t)"
          then show ?thesis using same h by (simp only: if_False)
        qed
      qed
    qed (unfold w', simp_all)
  qed (simp_all add: setAgentToken_def serverUpdate_def sound_keep)
qed

lemma sound_serverCreate:
  assumes "sv_tokenHash s = None" "js_next w \<le> sv_id s" "sv_id s < n"
  shows "soundFor e w (snd (serverCreate e' s (w\<lparr>js_next := n\<rparr>)))"
proof (cases "inetOk e' (sv_address s) \<and> \<not> nameTaken (sv_id s) (sv_name s) (w\<lparr>js_next := n\<rparr>)")
  case True
  let ?w = "snd (serverCreate e' s (w\<lparr>js_next := n\<rparr>))"
  have n: "js_next w \<le> n" using assms by simp
  have "agOk e ?w" if ok: "agOk e w"
  proof -
    have "sv_id x < n" "sv_id x \<noteq> sv_id s" if "x \<in> set (ag_servers w)" for x
      using ok that n assms(2) by (auto simp: agOk_def intro: less_le_trans dest: leD)
    moreover have "madeIn e ''fleeta'' 0 n h" if "x \<in> set (ag_servers w)" "sv_tokenHash x = Some h" for x h
      using ok that by (intro madeIn_mono [OF _ order_refl n]) (simp add: agOk_def)
    moreover have "rk_id t < n" "madeIn e ''fleetr'' 0 n (rk_hash t)" if "t \<in> set (ag_regTokens w)" for t
      using ok that n by (auto simp: agOk_def intro: madeIn_mono less_le_trans)
    moreover have "ag_servers ?w = ag_servers w @ [s\<lparr>sv_createdAt := js_now w, sv_version := 0\<rparr>]"
      "ag_regTokens ?w = ag_regTokens w" "js_next ?w = n"
      using True by (simp_all add: serverCreate_def Let_def)
    moreover have "hashesApart (ag_servers w @ [s\<lparr>sv_createdAt := js_now w, sv_version := 0\<rparr>])"
      using ok assms(1) by (auto simp: agOk_def intro!: hashesApartI dest: hashesApartD)
    moreover have "distinct (map sv_id (ag_servers w))" "distinct (map rk_id (ag_regTokens w))" "distinct (map rk_hash (ag_regTokens w))"
      using ok by (simp_all add: agOk_def)
    ultimately show ?thesis using assms(1,3) unfolding agOk_def by (simp add: image_iff) metis
  qed
  moreover have "grows e w ?w"
    using True assms n by (auto simp: grows_def serverCreate_def Let_def tokenFrom_same serverFrom_same) (simp add: serverFrom_def)
  ultimately show ?thesis by (simp add: soundFor_def)
qed (use assms in \<open>auto simp: serverCreate_def intro!: sound_keep\<close>)

subsection \<open>The operations\<close>

lemma sound_createLoop: "soundFor e w (snd (createLoop e inp name as w))"
proof (induction as arbitrary: w)
  case (Cons a as)
  let ?c = "if a > 0 then name @ ''-'' @ ge_suffix e (js_next w) else name"
  show ?case
  proof (cases "newServer e (js_next w + 1) ?c (ri_hostname inp) (ri_address inp) (ri_os inp) [] []")
    case (Inr s)
    then have s: "sv_tokenHash s = None" "sv_id s = js_next w + 1"
      by (auto simp: newServer_def Let_def split: option.splits if_splits)
    let ?r = "serverCreate e s (w\<lparr>js_next := js_next w + 2\<rparr>)"
    have "soundFor e w (snd ?r)" using sound_serverCreate [of s w "js_next w + 2" e e] s by simp
    then show ?thesis
      using Cons.IH [of "snd ?r"] Inr
      by (cases ?r; cases "fst ?r") (auto simp: Let_def intro: soundFor_trans)
  qed (simp add: Let_def)
qed simp

lemma sound_attachServer [sound_rules]: "soundFor e w (snd (attachServer e inp t w))"
proof (cases "rk_serverId t")
  case None
  show ?thesis unfolding attachServer_def createServer_def None option.case
    by (rule soundFor_trans [OF sound_keep sound_createLoop]) simp_all
qed (simp add: attachServer_def)

lemma sound_issueAgentToken [sound_rules]: "soundFor e w (snd (issueAgentToken e i w))"
  using sound_setAgentToken [of e w i]
  by (cases "newAgentToken e ''fleeta'' (js_next w)")
    (auto simp: issueAgentToken_def split: prod.splits option.splits)

lemma sound_createRegToken [sound_rules]: "soundFor e w (snd (createRegToken e name ttl by w))"
proof (cases "newAgentToken e ''fleetr'' (js_next w)")
  case (Pair raw hash)
  let ?t = "\<lparr>rk_id = js_next w, rk_name = trimSpace name, rk_hash = hash, rk_createdBy = by,
      rk_expiresAt = js_now w + (if ttl \<le> 0 \<or> ttl > 7 * dayNanos then dayNanos else ttl),
      rk_usedAt = None, rk_serverId = None, rk_createdAt = js_now w\<rparr>"
  have "snd (createRegToken e name ttl by w) = snd (regTokenCreate ?t (w\<lparr>js_next := js_next w + 1\<rparr>))"
    by (simp add: createRegToken_def Pair Let_def split: prod.splits option.splits)
  then show ?thesis using sound_regTokenCreate [of ?t w e] Pair by simp
qed

lemma sound_clearAgentToken: "soundFor e w (snd (clearAgentToken i w))"
  unfolding clearAgentToken_def by (rule sound_serverUpdate) simp

lemma sound_rotateAgentToken [sound_rules]: "soundFor e w (snd (rotateAgentToken e idt by w))"
proof (cases "parseId idt")
  case (Some i)
  show ?thesis
  proof (cases "serverGet i w")
    case (Inr s)
    obtain o1 w1 where c: "clearAgentToken i w = (o1, w1)" by fastforce
    have w1: "soundFor e w w1" using sound_clearAgentToken [of e w i] c by simp
    obtain raw hash where n: "newAgentToken e ''fleetr'' (js_next w1) = (raw, hash)" by fastforce
    let ?t = "\<lparr>rk_id = js_next w1, rk_name = ''Re-enroll '' @ sv_name s, rk_hash = hash, rk_createdBy = by,
        rk_expiresAt = js_now w1 + dayNanos, rk_usedAt = None, rk_serverId = Some i, rk_createdAt = js_now w1\<rparr>"
    have "soundFor e w1 (snd (regTokenCreate ?t (w1\<lparr>js_next := js_next w1 + 1\<rparr>)))"
      using sound_regTokenCreate [of ?t w1 e] n by simp
    moreover have "snd (rotateAgentToken e idt by w) = (case o1 of Some er \<Rightarrow> w1
        | None \<Rightarrow> snd (regTokenCreate ?t (w1\<lparr>js_next := js_next w1 + 1\<rparr>)))"
      by (simp add: rotateAgentToken_def Some Inr c n Let_def split: prod.splits option.splits)
    ultimately show ?thesis using w1 by (auto split: option.splits intro: soundFor_trans)
  qed (simp add: rotateAgentToken_def Some)
qed (simp add: rotateAgentToken_def)

lemma sound_revokeAgentToken [sound_rules]: "soundFor e w (snd (revokeAgentToken idt w))"
  by (cases "parseId idt") (simp_all add: revokeAgentToken_def sound_clearAgentToken)

lemma sound_revokeRegToken [sound_rules]: "soundFor e w (snd (revokeRegToken idt w))"
  by (cases "parseId idt") (simp_all add: revokeRegToken_def sound_regTokenDelete)

lemma sound_registerServer [sound_rules]: "soundFor e w (snd (registerServer e inp w))"
proof (cases "newServer e (js_next w) (si_name inp) (si_hostname inp) (si_address inp) (si_os inp) (si_labels inp) (si_tags inp)")
  case (Inr s)
  then have "sv_tokenHash s = None" "sv_id s = js_next w"
    by (auto simp: newServer_def Let_def split: option.splits if_splits)
  then show ?thesis using sound_serverCreate [of s w "js_next w + 1" e e] Inr by (simp add: registerServer_def)
qed (simp add: registerServer_def)

lemma sound_updateServer [sound_rules]: "soundFor e w (snd (updateServer e idt p w))"
proof (cases "parseId idt")
  case (Some i)
  have "soundFor e w (snd (serverSave s w))" for s
    by (simp add: serverSave_def sound_serverUpdate)
  then show ?thesis
    by (auto simp: updateServer_def Some split: sum.splits prod.splits option.splits) (metis snd_conv)+
qed (simp add: updateServer_def)

lemma sound_deleteServer [sound_rules]: "soundFor e w (snd (deleteServer idt w))"
  by (cases "parseId idt")
    (auto simp: deleteServer_def serverSoftDelete_def sound_serverUpdate split: sum.splits)

lemma sound_heartbeat [sound_rules]: "soundFor e w (snd (heartbeat e' i info w))"
proof -
  define w1 where "w1 = snd (serverUpdate i (\<lambda>s. s\<lparr>sv_status := SvOnline, sv_heartbeatAt := Some (js_now w),
                   sv_agentVersion := Some (hb_agentVersion info), sv_address := keepNew (hb_address info) (sv_address s),
                   sv_dbVersion := keepNew (hb_dbVersion info) (sv_dbVersion s), sv_os := keepNew (hb_os info) (sv_os s)\<rparr>) w)"
  have "soundFor e w w1" unfolding w1_def by (rule sound_serverUpdate) simp
  moreover have "soundFor e w1 (w1\<lparr>ag_health := hs, ag_history := hh\<rparr>)" for hs hh by (rule sound_keep) simp_all
  ultimately show ?thesis
    unfolding heartbeat_def w1_def [symmetric] Let_def by (auto intro: soundFor_trans)
qed

lemma sound_markOffline: "soundFor e w (snd (markOffline cutoff w))"
proof (rule sound_servers [where g = "\<lambda>s. if staleServer cutoff s then s\<lparr>sv_status := SvOffline, sv_version := sv_version s + 1\<rparr> else s"])
  fix s t h assume "agOk e w" "s \<in> set (ag_servers w)" "t \<in> set (ag_servers w)"
    and "sv_tokenHash (if staleServer cutoff s then s\<lparr>sv_status := SvOffline, sv_version := sv_version s + 1\<rparr> else s) = Some h"
      "sv_tokenHash (if staleServer cutoff t then t\<lparr>sv_status := SvOffline, sv_version := sv_version t + 1\<rparr> else t) = Some h"
  then show "s = t" by (auto simp: agOk_def split: if_splits dest: hashesApartD)
qed (simp_all add: markOffline_def)

lemma sound_markStale [sound_rules]: "soundFor e w (snd (markStale d w))"
  unfolding markStale_def by (rule sound_markOffline)

subsection \<open>A host at work\<close>

definition exAgentEnv :: agentEnv where
  "exAgentEnv = \<lparr>ge_random = (\<lambda>n. replicate n CHR ''x''), ge_suffix = (\<lambda>n. ''1f3c''), ge_sha = (\<lambda>t. CHR ''h'' # t),
     ge_inet = (\<lambda>a. True), ge_lower = (\<lambda>r. []), ge_runes = (\<lambda>n. True)\<rparr>"

definition noHosts :: agentstore where
  "noHosts = \<lparr>iv_instances = [], iv_databases = [], js_jobs = [], js_logs = [], js_next = 1, js_now = 100,
     bs_backups = [], bs_dests = [], bs_ext = [], cs_copies = [], ag_servers = [], ag_regTokens = [], ag_health = [],
     ag_history = []\<rparr>"

text \<open>One host: a registration token was made, and the machine \<open>DB-1.lan\<close> has enrolled with it.\<close>

definition invited :: agentstore where
  "invited = snd (createRegToken exAgentEnv ''new'' 0 None noHosts)"

definition joining :: registerInput where
  "joining = \<lparr>ri_token = ''fleetr_x'', ri_hostname = ''DB-1.lan'', ri_address = None, ri_os = None\<rparr>"

definition joined :: agentstore where
  "joined = snd (register exAgentEnv joining invited)"

lemma exAgentEnv_fresh: "freshTokens exAgentEnv"
  by (auto simp: freshTokens_def exAgentEnv_def inj_def replicate_eq_replicate)

lemma noHosts_ok: "agOk e noHosts"
  by (simp add: agOk_def noHosts_def hashesApart_def)

lemma invited_ok: "agOk exAgentEnv invited"
  using sound_createRegToken [of exAgentEnv noHosts "''new''" 0 None] noHosts_ok unfolding invited_def soundFor_def by blast

lemma sound_register: "soundFor e w (snd (register e inp w))"
proof (cases "registerCheck e inp w")
  case (Inr t)
  obtain r1 w1 where a: "attachServer e inp t w = (r1, w1)" by fastforce
  have w1: "soundFor e w w1" using sound_attachServer [of e w inp t] a by simp
  show ?thesis
  proof (cases r1)
    case (Inr s)
    obtain o2 w2 where m: "markUsed (rk_id t) (sv_id s) w1 = (o2, w2)" by fastforce
    have w2: "soundFor e w1 w2" using sound_markUsed [of e w1 "rk_id t" "sv_id s"] m by simp
    obtain r3 w3 where i: "issueAgentToken e (sv_id s) w2 = (r3, w3)" by fastforce
    have w3: "soundFor e w2 w3" using sound_issueAgentToken [of e w2 "sv_id s"] i by simp
    show ?thesis
      using soundFor_trans [OF w1 w2] soundFor_trans [OF soundFor_trans [OF w1 w2] w3] \<open>registerCheck e inp w = Inr t\<close> a Inr m i
      by (cases o2; cases r3) (simp_all add: register_def)
  qed (use \<open>registerCheck e inp w = Inr t\<close> a w1 in \<open>simp add: register_def\<close>)
qed (simp add: register_def)

lemma joined_ok: "agOk exAgentEnv joined"
  using sound_register [of exAgentEnv invited joining] invited_ok unfolding joined_def soundFor_def by blast

text \<open>The token of the example, and the store after its use by a first request.\<close>

definition inviteToken :: regToken where
  "inviteToken = hd (ag_regTokens invited)"

definition consumed :: agentstore where
  "consumed = snd (markUsed 1 4 invited)"

definition cutOff :: agentstore where
  "cutOff = snd (revokeAgentToken (IdOf 4) joined)"

lemma invite_read: "registerCheck exAgentEnv joining invited = Inr inviteToken" "rk_id inviteToken = 1"
  by code_simp+

lemma invite_consumed: "markUsed 1 4 invited = (None, consumed)"
  by code_simp

lemma joined_host: "\<exists>s. agentAuth exAgentEnv ''fleeta_xxxxx'' joined = Inr s \<and> sv_id s = 4"
proof -
  have "case agentAuth exAgentEnv ''fleeta_xxxxx'' joined of Inl er \<Rightarrow> False | Inr s \<Rightarrow> sv_id s = 4" by code_simp
  then show ?thesis by (auto split: sum.splits)
qed

lemma joined_cutOff: "revokeAgentToken (IdOf 4) joined = (None, cutOff)"
proof -
  have "fst (revokeAgentToken (IdOf 4) joined) = None" by code_simp
  then show ?thesis by (simp add: cutOff_def prod_eq_iff)
qed

subsection \<open>Any interleaving\<close>

text \<open>A step is an operation on hosts or tokens, one transaction of a registration that is under way, the
  passing of time, or any operation of the rest of the program.\<close>

inductive agentStep :: "agentEnv \<Rightarrow> 'a agentstore_scheme \<Rightarrow> 'a agentstore_scheme \<Rightarrow> bool" for e where
  newRegToken: "agentStep e w (snd (createRegToken e name ttl by w))"
| dropRegToken: "agentStep e w (snd (revokeRegToken idt w))"
| revoke: "agentStep e w (snd (revokeAgentToken idt w))"
| rotate: "agentStep e w (snd (rotateAgentToken e idt by w))"
| attach: "agentStep e w (snd (attachServer e inp t w))"
| consume: "agentStep e w (snd (markUsed i s w))"
| issue: "agentStep e w (snd (issueAgentToken e i w))"
| beat: "agentStep e w (snd (heartbeat e i info w))"
| stale: "agentStep e w (snd (markStale d w))"
| addServer: "agentStep e w (snd (registerServer e sinp w))"
| editServer: "agentStep e w (snd (updateServer e idt p w))"
| dropServer: "agentStep e w (snd (deleteServer idt w))"
| elsewhere: "ag_servers w' = ag_servers w \<Longrightarrow> ag_regTokens w' = ag_regTokens w \<Longrightarrow> js_next w \<le> js_next w'
    \<Longrightarrow> agentStep e w w'"

inductive_cases agentStep_cases [consumes 1]: "agentStep e w w'"

lemma agentStep_sound: "agentStep e w w' \<Longrightarrow> soundFor e w w'"
  by (erule agentStep_cases) (auto intro: sound_rules sound_keep)

text \<open>A registration token that is spent: it was made, and every row with its hash is used.\<close>

definition spentToken :: "agentEnv \<Rightarrow> uuid \<times> string \<Rightarrow> 'a agentstore_scheme \<Rightarrow> bool" where
  "spentToken e x w \<longleftrightarrow> fst x < js_next w \<and> madeIn e ''fleetr'' 0 (js_next w) (snd x)
     \<and> (\<forall>t \<in> set (ag_regTokens w). rk_id t = fst x \<or> rk_hash t = snd x \<longrightarrow> rk_usedAt t \<noteq> None)"

text \<open>An agent's token that is dead: it was made, and no host that is not deleted has its hash.\<close>

definition deadToken :: "agentEnv \<Rightarrow> string \<Rightarrow> 'a agentstore_scheme \<Rightarrow> bool" where
  "deadToken e h w \<longleftrightarrow> madeIn e ''fleeta'' 0 (js_next w) h
     \<and> (\<forall>s \<in> set (ag_servers w). serverLive s \<longrightarrow> sv_tokenHash s \<noteq> Some h)"

lemma spentToken_grows:
  assumes "freshTokens e" "grows e w w'" "spentToken e x w"
  shows "spentToken e x w'"
proof -
  have n: "js_next w \<le> js_next w'" using assms(2) by (simp add: grows_def)
  have made: "madeIn e ''fleetr'' 0 (js_next w) (snd x)" "fst x < js_next w" using assms(3) by (simp_all add: spentToken_def)
  have "rk_usedAt t' \<noteq> None" if t': "t' \<in> set (ag_regTokens w')" "rk_id t' = fst x \<or> rk_hash t' = snd x" for t'
  proof -
    have "tokenFrom e (js_next w) (js_next w') (ag_regTokens w) t'" using assms(2) t'(1) by (simp add: grows_def)
    then consider t where "t \<in> set (ag_regTokens w)" "rk_id t = rk_id t'" "rk_hash t = rk_hash t'"
        "rk_usedAt t \<noteq> None \<longrightarrow> rk_usedAt t' \<noteq> None"
      | "js_next w \<le> rk_id t'" "madeIn e ''fleetr'' (js_next w) (js_next w') (rk_hash t')"
      unfolding tokenFrom_def by blast
    then show ?thesis
    proof cases
      case 1
      then show ?thesis using assms(3) t'(2) unfolding spentToken_def by metis
    next
      case 2
      then show ?thesis using madeIn_apart [OF assms(1) made(1) _ order_refl] made(2) t'(2) by auto
    qed
  qed
  then show ?thesis using made n madeIn_mono [OF made(1) order_refl n] by (auto simp: spentToken_def)
qed

lemma deadToken_grows:
  assumes "freshTokens e" "grows e w w'" "deadToken e h w"
  shows "deadToken e h w'"
proof -
  have n: "js_next w \<le> js_next w'" using assms(2) by (simp add: grows_def)
  have made: "madeIn e ''fleeta'' 0 (js_next w) h" using assms(3) by (simp add: deadToken_def)
  have "sv_tokenHash s' \<noteq> Some h" if s': "s' \<in> set (ag_servers w')" "serverLive s'" for s'
  proof
    assume h: "sv_tokenHash s' = Some h"
    have fresh: "\<not> madeIn e ''fleeta'' (js_next w) (js_next w') h" using madeIn_apart [OF assms(1) made _ order_refl] by blast
    have "serverFrom e (js_next w) (js_next w') (ag_servers w) s'" using assms(2) s'(1) by (simp add: grows_def)
    then obtain s where "s \<in> set (ag_servers w)" "serverLive s" "sv_tokenHash s = Some h"
      using fresh h s'(2) by (auto simp: serverFrom_def hashFrom_def)
    then show False using assms(3) by (simp add: deadToken_def)
  qed
  then show ?thesis using madeIn_mono [OF made order_refl n] by (simp add: deadToken_def)
qed

interpretation spent: settling "agentStep e" "\<lambda>w. freshTokens e \<and> agOk e w" "spentToken e" for e
  by unfold_locales (auto dest!: agentStep_sound intro: spentToken_grows simp: soundFor_def)

interpretation dead: settling "agentStep e" "\<lambda>w. freshTokens e \<and> agOk e w" "deadToken e" for e
  by unfold_locales (auto dest!: agentStep_sound intro: deadToken_grows simp: soundFor_def)

lemma registerCheck_Inr:
  "registerCheck e inp w = Inr t \<Longrightarrow> t \<in> set (ag_regTokens w) \<and> rk_hash t = ge_sha e (ri_token inp) \<and> rk_usedAt t = None"
  by (auto simp: registerCheck_def regTokenByHash_def split: if_splits sum.splits option.splits dest!: find_SomeD)

lemma markUsed_None: "markUsed i s w = (None, w') \<Longrightarrow> \<exists>t \<in> set (ag_regTokens w). rk_id t = i \<and> rk_usedAt t = None"
  by (cases "list_ex (\<lambda>t. rk_id t = i \<and> rk_usedAt t = None) (ag_regTokens w)") (simp_all add: markUsed_def, simp add: list_ex_iff)

lemma markUsed_spent:
  assumes "agOk e w" "t \<in> set (ag_regTokens w)" "markUsed (rk_id t) i w = (None, w')"
  shows "spentToken e (rk_id t, rk_hash t) w'"
proof -
  have d: "distinct (map rk_id (ag_regTokens w))" "distinct (map rk_hash (ag_regTokens w))" using assms(1) by (simp_all add: agOk_def)
  have "x = t" if "x \<in> set (ag_regTokens w)" "rk_id x = rk_id t \<or> rk_hash x = rk_hash t" for x
    using that assms(2) d by (auto simp: distinct_map dest: inj_onD)
  then have "\<not> (x \<noteq> t \<and> (rk_id x = rk_id t \<or> rk_hash x = rk_hash t))" if "x \<in> set (ag_regTokens w)" for x
    using that by blast
  then show ?thesis
    using assms by (auto simp: agOk_def spentToken_def markUsed_def split: if_splits) blast+
qed

lemma agentSteps_sound: "(agentStep e)\<^sup>*\<^sup>* w w' \<Longrightarrow> soundFor e w w'"
  by (induction rule: rtranclp_induct) (auto intro: soundFor_trans agentStep_sound)

text \<open>C8. A registration token enrols one agent.  Whatever happens after a request has read the token, as soon
  as one request has consumed it, every other request that read it fails to consume it (and so issues no
  agent's token), and a request that comes later is refused and changes nothing, for ever.\<close>

theorem registration_single_use:
  assumes "freshTokens e" "agOk e w" "registerCheck e inp w = Inr t" "(agentStep e)\<^sup>*\<^sup>* w w1"
    and "markUsed (rk_id t) i w1 = (None, w2)" "(agentStep e)\<^sup>*\<^sup>* w2 w3"
  shows "markUsed (rk_id t) j w3 = (Some (Conflict ''registration token already used''), w3)
    \<and> (\<exists>er. register e (inp'\<lparr>ri_token := ri_token inp\<rparr>) w3 = (Inl er, w3))"
proof -
  from registerCheck_Inr [OF assms(3)] have t: "t \<in> set (ag_regTokens w)" "rk_hash t = ge_sha e (ri_token inp)" by simp_all
  from agentSteps_sound [OF assms(4)] assms(2) have w1: "agOk e w1" "grows e w w1" by (simp_all add: soundFor_def)
  obtain t1 where t1: "t1 \<in> set (ag_regTokens w1)" "rk_id t1 = rk_id t"
    using markUsed_None [OF assms(5)] by blast
  have "tokenFrom e (js_next w) (js_next w1) (ag_regTokens w) t1" using w1(2) t1(1) by (simp add: grows_def)
  moreover have "rk_id t < js_next w" using assms(2) t(1) by (simp add: agOk_def)
  ultimately obtain t0 where "t0 \<in> set (ag_regTokens w)" "rk_id t0 = rk_id t" "rk_hash t0 = rk_hash t1"
    using t1(2) by (auto simp: tokenFrom_def)
  moreover have "distinct (map rk_id (ag_regTokens w))" using assms(2) by (simp add: agOk_def)
  ultimately have hash: "rk_hash t1 = rk_hash t" using t(1) distinct_key by metis
  have "spentToken e (rk_id t, rk_hash t) w2" using markUsed_spent [OF w1(1) t1(1)] assms(5) t1(2) hash by simp
  moreover have "agOk e w2" using sound_markUsed [of e w1 "rk_id t" i] assms(5) w1(1) by (simp add: soundFor_def)
  ultimately have "spentToken e (rk_id t, rk_hash t) w3" using spent.settled_steps [OF assms(6)] assms(1) by blast
  then have used: "rk_usedAt x \<noteq> None" if "x \<in> set (ag_regTokens w3)" "rk_id x = rk_id t \<or> rk_hash x = rk_hash t" for x
    using that unfolding spentToken_def fst_conv snd_conv by blast
  then have "registerCheck e (inp'\<lparr>ri_token := ri_token inp\<rparr>) w3 \<noteq> Inr x" for x
  proof -
    have "x \<in> set (ag_regTokens w3) \<Longrightarrow> rk_hash x = ge_sha e (ri_token inp) \<Longrightarrow> rk_usedAt x = None \<Longrightarrow> False"
      using used t(2) by metis
    then show ?thesis using registerCheck_Inr [of e "inp'\<lparr>ri_token := ri_token inp\<rparr>" w3 x] by fastforce
  qed
  then obtain er where "registerCheck e (inp'\<lparr>ri_token := ri_token inp\<rparr>) w3 = Inl er" by (metis sum.exhaust)
  moreover have "\<not> list_ex (\<lambda>x. rk_id x = rk_id t \<and> rk_usedAt x = None) (ag_regTokens w3)"
    using used by (auto simp: list_ex_iff)
  ultimately show ?thesis by (simp add: register_def markUsed_def)
qed

theorem registration_single_use_witness:
  "markUsed 1 5 consumed = (Some (Conflict ''registration token already used''), consumed)
    \<and> (\<exists>er. register exAgentEnv joining consumed = (Inl er, consumed))"
proof -
  have "joining\<lparr>ri_token := ri_token joining\<rparr> = joining" by simp
  then show ?thesis
    using registration_single_use [OF exAgentEnv_fresh invited_ok invite_read(1) rtranclp.rtrancl_refl _ rtranclp.rtrancl_refl,
        of 4 consumed 5 joining] invite_consumed invite_read(2) by metis
qed

text \<open>Cutting an agent off: revoking its token, replacing it, or deleting its host.\<close>

definition cutsOff :: "agentEnv \<Rightarrow> uuid \<Rightarrow> 'a agentstore_scheme \<Rightarrow> 'a agentstore_scheme \<Rightarrow> bool" where
  "cutsOff e i w w' \<longleftrightarrow> revokeAgentToken (IdOf i) w = (None, w')
     \<or> (\<exists>by x. rotateAgentToken e (IdOf i) by w = (Inr x, w')) \<or> deleteServer (IdOf i) w = (None, w')"

lemma agentAuth_Inr:
  "agentAuth e raw w = Inr s \<Longrightarrow> s \<in> set (ag_servers w) \<and> serverLive s \<and> sv_tokenHash s = Some (ge_sha e raw)"
  by (auto simp: agentAuth_def serverByToken_def split: if_splits option.splits dest!: find_SomeD)

lemma serverUpdate_dead:
  assumes "agOk e w" "s \<in> set (ag_servers w)" "sv_tokenHash s = Some h" "serverUpdate (sv_id s) f w = (None, w')"
    and "\<forall>x. sv_tokenHash (f x) = None \<or> \<not> serverLive (f x)"
  shows "deadToken e h w'"
proof -
  have apart: "x = s" if "x \<in> set (ag_servers w)" "sv_tokenHash x = Some h" for x
    using hashesApartD [of "ag_servers w" x s h] assms(1-3) that by (simp add: agOk_def)
  have "list_ex (\<lambda>x. sv_id x = sv_id s \<and> serverLive x) (ag_servers w)"
    using assms(4) by (rule_tac ccontr) (simp add: serverUpdate_def)
  then have w': "js_next w' = js_next w" "ag_servers w' = map (\<lambda>x. if sv_id x = sv_id s \<and> serverLive x
      then (f x)\<lparr>sv_version := sv_version x + 1\<rparr> else x) (ag_servers w)"
    using assms(4) by (auto simp: serverUpdate_def)
  have "sv_tokenHash y \<noteq> Some h" if y: "y \<in> set (ag_servers w')" "serverLive y" for y
  proof
    assume h: "sv_tokenHash y = Some h"
    obtain x where x: "x \<in> set (ag_servers w)" "y = (if sv_id x = sv_id s \<and> serverLive x
        then (f x)\<lparr>sv_version := sv_version x + 1\<rparr> else x)" using y(1) unfolding w'(2) set_map by blast
    show False
    proof (cases "sv_id x = sv_id s \<and> serverLive x")
      case True
      then have "sv_tokenHash (f x) = Some h" "serverLive (f x)" using h y(2) x(2) by simp_all
      then show False using assms(5) by (metis option.distinct(1))
    next
      case False
      then have "y = x" using x(2) by (simp only: if_False)
      then show False using apart [OF x(1)] False h y(2) by simp
    qed
  qed
  moreover have "madeIn e ''fleeta'' 0 (js_next w) h" using assms(1-3) by (simp add: agOk_def)
  ultimately show ?thesis by (simp add: deadToken_def w'(1))
qed

lemma deadToken_regTokenCreate: "deadToken e h w \<Longrightarrow> deadToken e h (snd (regTokenCreate t (w\<lparr>js_next := js_next w + 1\<rparr>)))"
  by (auto simp: regTokenCreate_def deadToken_def intro: madeIn_mono)

lemma cutsOff_dead:
  assumes "agOk e w" "s \<in> set (ag_servers w)" "serverLive s" "sv_tokenHash s = Some h" "cutsOff e (sv_id s) w w'"
  shows "deadToken e h w'"
proof -
  have clear: "deadToken e h w1" if "clearAgentToken (sv_id s) w = (None, w1)" for w1
    using serverUpdate_dead [OF assms(1,2,4) that [unfolded clearAgentToken_def]] by simp
  have drop: "deadToken e h w1" if "serverSoftDelete (sv_id s) w = (None, w1)" for w1
    using serverUpdate_dead [OF assms(1,2,4) that [unfolded serverSoftDelete_def]] by simp
  from assms(5) consider "clearAgentToken (sv_id s) w = (None, w')" | "serverSoftDelete (sv_id s) w = (None, w')"
    | who x where "rotateAgentToken e (IdOf (sv_id s)) who w = (Inr x, w')"
    unfolding cutsOff_def by (auto simp: revokeAgentToken_def deleteServer_def split: sum.splits if_splits)
  then show ?thesis
  proof cases
    case 3
    then obtain y where y: "serverGet (sv_id s) w = Inr y" by (cases "serverGet (sv_id s) w") (auto simp: rotateAgentToken_def)
    obtain o1 w1 where c: "clearAgentToken (sv_id s) w = (o1, w1)" by fastforce
    with 3 y have "o1 = None" by (cases o1) (simp_all add: rotateAgentToken_def)
    with c clear have d: "deadToken e h w1" by simp
    obtain t where "w' = snd (regTokenCreate t (w1\<lparr>js_next := js_next w1 + 1\<rparr>))"
      using 3 y c \<open>o1 = None\<close> by (auto simp: rotateAgentToken_def Let_def split: prod.splits option.splits) (metis snd_conv)
    then show ?thesis using deadToken_regTokenCreate [OF d] by simp
  qed (use clear drop in blast)+
qed

text \<open>C9. An agent that was cut off stays out: the token it had is refused for ever, whatever happens next, also
  when the host enrols again (with another token).\<close>

theorem cut_off_agent_stays_out:
  assumes "freshTokens e" "agOk e w" "agentAuth e raw w = Inr s" "cutsOff e (sv_id s) w w1" "(agentStep e)\<^sup>*\<^sup>* w1 w2"
  shows "agentAuth e raw w2 = Inl (Unauthorized ''unknown agent token'')"
proof -
  from agentAuth_Inr [OF assms(3)] have s: "s \<in> set (ag_servers w)" "serverLive s" "sv_tokenHash s = Some (ge_sha e raw)" by simp_all
  have "agentStep e w w1"
    using assms(4) unfolding cutsOff_def by (metis agentStep.revoke agentStep.rotate agentStep.dropServer snd_conv)
  then have "agOk e w1" using agentStep_sound assms(2) unfolding soundFor_def by blast
  then have "deadToken e (ge_sha e raw) w2"
    using dead.settled_steps [OF assms(5)] cutsOff_dead [OF assms(2) s assms(4)] assms(1) by blast
  then have "List.find (\<lambda>s. sv_tokenHash s = Some (ge_sha e raw) \<and> serverLive s) (ag_servers w2) = None"
    by (auto simp: find_None_iff deadToken_def)
  moreover have "raw \<noteq> []" using assms(3) by (auto simp: agentAuth_def)
  ultimately show ?thesis by (simp add: agentAuth_def serverByToken_def)
qed

theorem cut_off_agent_stays_out_witness:
  "agentAuth exAgentEnv ''fleeta_xxxxx'' cutOff = Inl (Unauthorized ''unknown agent token'')"
proof -
  obtain s where s: "agentAuth exAgentEnv ''fleeta_xxxxx'' joined = Inr s" "sv_id s = 4" using joined_host by blast
  have "cutsOff exAgentEnv (sv_id s) joined cutOff" using joined_cutOff s(2) by (simp add: cutsOff_def)
  from cut_off_agent_stays_out [OF exAgentEnv_fresh joined_ok s(1) this rtranclp.rtrancl_refl] show ?thesis .
qed

end
