(* ===== verification/AgentJobs.thy ===== *)
theory AgentJobs
  imports Enrolment
begin

text \<open>
  Agents and the jobs of their host: what an agent can reach through the endpoints of
  \<open>interfaces/httpapi/agent_handler.go\<close>, that a host can always enrol again, and what becomes of a host
  whose name is taken.
\<close>

subsection \<open>Completing a job only adds jobs\<close>

definition appends :: "'a jobstore_scheme \<Rightarrow> 'a jobstore_scheme \<Rightarrow> bool" where
  "appends w w' \<longleftrightarrow> prefix (js_jobs w) (js_jobs w')"

named_theorems appends_rules \<open>operations that leave the jobs that are there alone\<close>

lemma appends_refl [appends_rules]: "appends w w"
  by (simp add: appends_def)

lemma appends_trans: "appends u v \<Longrightarrow> appends v w \<Longrightarrow> appends u w"
  by (auto simp: appends_def intro: prefix_order.trans)

lemma appends_same: "js_jobs w' = js_jobs w \<Longrightarrow> appends w w'"
  by (simp add: appends_def)

lemma appends_opCreate [appends_rules]: "appends w (snd (opCreate t rt ri sv p by w))"
  by (simp add: appends_def opCreate_def jobCreate_def Let_def)

lemma js_jobs_kept [simp]:
  "js_jobs (extCall x w) = js_jobs w" "js_jobs (backupUpdate P f w) = js_jobs w"
  by (simp_all add: extCall_def backupUpdate_def)

lemma instUpdate_jobs [simp]: "js_jobs (instUpdate i g w) = js_jobs w"
  by (simp add: instUpdate_def)

lemma dbCreate_jobs: "dbCreate now d w = Inr w' \<Longrightarrow> js_jobs w' = js_jobs w"
  by (auto simp: dbCreate_def split: if_splits)

lemma dbUpdate_jobs: "dbUpdate i f w = Inr w' \<Longrightarrow> js_jobs w' = js_jobs w"
  by (auto simp: dbUpdate_def split: if_splits)

lemma instSetStatus_jobs: "instSetStatus i st w = Inr w' \<Longrightarrow> js_jobs w' = js_jobs w"
  by (auto simp: instSetStatus_def split: if_splits)

lemma copyExec_jobs [simp]: "js_jobs (snd (copyExec P f w)) = js_jobs w"
  by (simp add: copyExec_def)

lemma appends_ignoreError: "(\<And>w'. r = Inr w' \<Longrightarrow> js_jobs w' = js_jobs w) \<Longrightarrow> appends w (ignoreError w r)"
  by (cases r) (auto simp: ignoreError_def appends_def)

lemma appends_next: "appends w (w\<lparr>js_next := n\<rparr>)"
  by (simp add: appends_def)

lemma appends_restore: "restore inp w = Inr (j, w') \<Longrightarrow> appends w w'"
  by (auto simp: restore_def result_simps Let_def split: option.splits if_splits prod.splits)
    (metis appends_opCreate snd_conv)+

lemma appends_onBackupComplete [appends_rules]: "appends w (onBackupComplete j ok w)"
  by (auto simp: onBackupComplete_def Let_def appends_refl appends_restore split: sum.splits)

lemma appends_dropCopyJob: "dropCopyJob i b c sc by w = Inr (j, w') \<Longrightarrow> appends w w'"
  by (auto simp: dropCopyJob_def result_simps) (metis appends_opCreate snd_conv)

lemma appends_copyExec [appends_rules]: "appends w (snd (copyExec P f w))"
  by (simp add: appends_same)

lemma appends_copyDrop [appends_rules]: "appends w (snd (copyDrop c by w))"
  by (auto simp: copyDrop_def markDropping_def appends_refl split: sum.splits
      intro: appends_trans [OF appends_dropCopyJob appends_copyExec])

lemma appends_onCopyRestored [appends_rules]: "appends w (onCopyRestored i ok err w)"
proof (cases "copyGet i w")
  case (Inr c)
  have "appends w (snd (copyDrop c x (snd (markFailed a m w))))" for x a m
    by (rule appends_trans [OF _ appends_copyDrop]) (simp add: markFailed_def appends_copyExec)
  moreover have "appends w (snd (markReady a b d (extCall y w)))" for a b d y
    by (simp add: markReady_def appends_same)
  ultimately show ?thesis by (simp add: onCopyRestored_def Inr Let_def appends_copyDrop)
qed (simp add: onCopyRestored_def appends_refl)

lemma appends_databaseDelete [appends_rules]: "appends w (snd (databaseDelete i dr by w))"
proof -
  have soft: "appends w (snd (withError (dbSoftDelete now u w2) w2))" if "appends w w2" for now u w2
    using that by (cases "dbSoftDelete now u w2")
      (auto simp: withError_def dbSoftDelete_def appends_def dest: dbUpdate_jobs)
  have ext: "appends w (extCall x (extCall y w1))" if "appends w w1" for x y w1 using that by (simp add: appends_def)
  show ?thesis
    by (auto simp: databaseDelete_def Let_def appends_refl appends_opCreate split: option.splits sum.splits intro!: soft ext)
qed

lemma appends_registerTarget [appends_rules]: "appends w (registerTarget j a b w)"
  by (auto simp: registerTarget_def Let_def appends_def split: sum.splits prod.splits dest!: dbCreate_jobs)

lemma appends_onRestoreComplete [appends_rules]: "appends w (onRestoreComplete j ok w)"
  by (auto simp: onRestoreComplete_def Let_def appends_refl appends_registerTarget split: option.splits
      intro: appends_trans [OF appends_registerTarget appends_databaseDelete])

lemma appends_importOne: "appends w (importOne iid d w)"
  by (auto simp: importOne_def Let_def appends_refl ignoreError_def appends_def split: sum.splits dest!: dbCreate_jobs)

lemma appends_importDiscovered [appends_rules]: "appends w (importDiscovered p r w)"
proof -
  have "appends w (fold (importOne iid) ds w)" for iid ds
    by (induction ds arbitrary: w) (auto simp: appends_refl intro: appends_trans [OF appends_importOne])
  then show ?thesis by (simp add: importDiscovered_def appends_refl split: option.split)
qed

lemma appends_completeVerification [appends_rules]: "appends w (completeVerification j ok err w)"
proof -
  have "appends w (snd (opCreate t rt ri sv p u w2))" if "js_jobs w2 = js_jobs w" for t rt ri sv p u w2
    by (rule appends_trans [OF appends_same [OF that] appends_opCreate])
  then show ?thesis by (simp add: completeVerification_def Let_def setVerify_def appends_refl split: option.split)
qed

lemma appends_completeProvision [appends_rules]: "appends w (completeProvision j ok r err w)"
proof -
  have st: "appends w (ignoreError w1 (instSetStatus i s w1))" if "appends w w1" for i s w1
    by (rule appends_trans [OF that]) (rule appends_ignoreError, erule instSetStatus_jobs)
  have cid: "appends w (instSetContainerID i c w)" for i c by (simp add: instSetContainerID_def appends_same)
  have ext: "appends w (extCall x w1)" if "appends w w1" for x w1 using that by (simp add: appends_def)
  show ?thesis
    by (auto simp: completeProvision_def Let_def appends_refl split: option.splits intro!: st cid ext)
qed

lemma appends_completeRestore [appends_rules]: "appends w (completeRestore e j ok err w)"
proof -
  define w1 where "w1 = (let p = jb_params j in if pr_deleteKeyAfter p \<and> pr_key p \<noteq> [] \<and> pr_destinationId p \<noteq> IdEmpty
                then (case storageFor e (pr_destinationId p) w of
                        Inl _ \<Rightarrow> w | Inr d \<Rightarrow> snd (deleteObject e d (pr_key p) w))
                else w)"
  have w1: "appends w w1" by (auto simp: w1_def Let_def deleteObject_def appends_def split: sum.splits)
  have ext: "appends v (extCall x v')" if "appends v v'" for x and v v' :: "'a copystore_scheme" using that by (simp add: appends_def)
  have "appends w1 (completeRestore e j ok err w)"
    unfolding completeRestore_def Let_def w1_def [unfolded Let_def, symmetric]
    by (auto simp: appends_rules split: option.splits bool.splits intro!: ext)
  then show ?thesis by (rule appends_trans [OF w1])
qed

lemma appends_completeDelete [appends_rules]: "appends w (completeDelete j ok w)"
  by (auto simp: completeDelete_def onCopyDropped_def markDropped_def Let_def appends_def split: option.splits bool.splits)

lemma appends_sideEffects: "appends w (sideEffects e j ok r err w)"
proof -
  have st: "appends w (ignoreError w (dbSetStatus i s w))" for i s
    by (rule appends_ignoreError) (auto simp: dbSetStatus_def dest: dbUpdate_jobs)
  have b: "appends w (onBackupComplete j k w2)" if "js_jobs w2 = js_jobs w" for k w2
    by (rule appends_trans [OF appends_same [OF that] appends_onBackupComplete])
  show ?thesis
    by (cases "jb_type j") (auto simp: sideEffects_def Let_def completeBackup_def backupComplete_def appends_rules
      split: option.splits intro!: st b)
qed

subsection \<open>An agent and other hosts' jobs\<close>

lemma jobUpdate_other: "j \<in> set (js_jobs w) \<Longrightarrow> \<not> P j \<Longrightarrow> j \<in> set (js_jobs (jobUpdate P f w))"
  by (auto simp: jobUpdate_def)

lemma appendsD: "appends w w' \<Longrightarrow> j \<in> set (js_jobs w) \<Longrightarrow> j \<in> set (js_jobs w')"
  by (auto simp: appends_def dest: set_mono_prefix)

lemma complete_other:
  assumes "j \<in> set (js_jobs w)" "jb_id j \<noteq> i"
  shows "j \<in> set (js_jobs (snd (complete ev i st r err w)))"
proof (cases "jobGet i w")
  case (Inr x)
  show ?thesis
  proof (cases "jobComplete i st r err w")
    case (Inr w1)
    then have "j \<in> set (js_jobs w1)"
      using assms by (auto simp: jobComplete_def intro: jobUpdate_other split: if_splits)
    then show ?thesis using \<open>jobGet i w = Inr x\<close> Inr by (simp add: complete_def appendsD [OF appends_sideEffects])
  qed (use assms Inr in \<open>simp add: complete_def\<close>)
qed (use assms in \<open>simp add: complete_def\<close>)

lemma jobOfAgent_Inr:
  "jobOfAgent srv idt w = Inr i \<Longrightarrow> \<exists>x \<in> set (js_jobs w). jb_id x = i \<and> jb_serverId x = Some srv"
  by (auto simp: jobOfAgent_def jobGet_def result_simps split: option.splits if_splits dest!: find_SomeD)

lemma claim_other:
  assumes "distinct (map jb_id (js_jobs w))" "j \<in> set (js_jobs w)" "jb_serverId j \<noteq> Some srv"
  shows "j \<in> set (js_jobs (snd (claim e (Some srv) w)))"
    and "fst (claim e (Some srv) w) = Inr (Some (x, pl)) \<Longrightarrow> jb_serverId x = Some srv"
proof -
  obtain r w1 where c: "claimNext (Some srv) w = (r, w1)" by fastforce
  have own: "jb_serverId x = Some srv \<and> jb_id j \<noteq> jb_id x" and kept: "j \<in> set (js_jobs w1)" if r: "r = Some x" for x
  proof -
    obtain y ys where s: "sort_key jb_createdAt (filter (claimableBy (Some srv)) (js_jobs w)) = y # ys"
      using c r by (auto simp: claimNext_def split: list.splits)
    then have "y \<in> set (sort_key jb_createdAt (filter (claimableBy (Some srv)) (js_jobs w)))" by simp
    then have y: "y \<in> set (js_jobs w)" "jb_serverId y = Some srv" by (simp_all add: claimableBy_def)
    then have ne: "jb_id j \<noteq> jb_id y" using distinct_key [OF assms(1) assms(2) y(1)] assms(3) by auto
    have "x = y\<lparr>jb_status := JobRunning, jb_claimedAt := Some (js_now w), jb_startedAt := Some (js_now w),
        jb_version := jb_version y + 1\<rparr>" and w1: "w1 = jobUpdate (\<lambda>z. jb_id z = jb_id y)
        (\<lambda>z. z\<lparr>jb_status := JobRunning, jb_claimedAt := Some (js_now w), jb_startedAt := Some (js_now w)\<rparr>) w"
      using c r s by (auto simp: claimNext_def Let_def)
    then show "jb_serverId x = Some srv \<and> jb_id j \<noteq> jb_id x" using y(2) ne by simp
    show "j \<in> set (js_jobs w1)" unfolding w1 using ne by (intro jobUpdate_other assms(2)) simp
  qed
  have none: "j \<in> set (js_jobs w1)" if "r = None"
    using c that assms(2) by (auto simp: claimNext_def Let_def split: list.splits)
  show "j \<in> set (js_jobs (snd (claim e (Some srv) w)))"
  proof (cases r)
    case None
    then show ?thesis using none c by (simp add: claim_def)
  next
    case (Some x)
    then show ?thesis
      using kept [OF Some] own [OF Some] complete_other [OF kept [OF Some], of "jb_id x"]
      by (auto simp: claim_def c markRunning_def split: sum.splits option.splits)
  qed
  show "jb_serverId x = Some srv" if "fst (claim e (Some srv) w) = Inr (Some (x, pl))"
  proof (cases r)
    case (Some y)
    then have "x = y" using that by (auto simp: claim_def c split: if_splits sum.splits)
    then show ?thesis using own [OF Some] by simp
  qed (use that in \<open>simp add: claim_def c\<close>)
qed

text \<open>C10. An agent reaches the jobs of its own host only: whatever it claims is one of them, and whatever it
  claims, reports or logs, a job of another host (or of the control plane) stays as it is, with its log,
  although finishing a job starts others.\<close>

theorem agent_reaches_own_jobs:
  assumes "distinct (map jb_id (js_jobs w))" "j \<in> set (js_jobs w)" "jb_serverId j \<noteq> Some srv"
  shows "j \<in> set (js_jobs (snd (agentUpdateJob ev srv idt req w)))
    \<and> j \<in> set (js_jobs (snd (agentAppendLogs srv idt ls w)))
    \<and> listLogs (jb_id j) n lim (snd (agentAppendLogs srv idt ls w)) = listLogs (jb_id j) n lim w
    \<and> j \<in> set (js_jobs (snd (agentClaim ce srv w)))
    \<and> (\<forall>x pl. fst (agentClaim ce srv w) = Inr (Some (x, pl)) \<longrightarrow> jb_serverId x = Some srv)"
proof (intro conjI allI impI)
  have other: "jb_id j \<noteq> i" if i: "jobOfAgent srv idt w = Inr i" for i
  proof
    assume "jb_id j = i"
    with jobOfAgent_Inr [OF i] obtain x where "x \<in> set (js_jobs w)" "jb_id x = jb_id j" "jb_serverId x = Some srv" by auto
    with distinct_key [OF assms(1) _ assms(2)] assms(3) show False by auto
  qed
  show "j \<in> set (js_jobs (snd (agentUpdateJob ev srv idt req w)))"
    using assms(2) other complete_other [OF assms(2)]
    by (auto simp: agentUpdateJob_def opProgress_def jobProgress_def intro!: jobUpdate_other split: sum.splits option.splits)
  show "j \<in> set (js_jobs (snd (agentAppendLogs srv idt ls w)))"
    using assms(2) by (simp add: agentAppendLogs_def appendLogs_def split: sum.split)
  show "listLogs (jb_id j) n lim (snd (agentAppendLogs srv idt ls w)) = listLogs (jb_id j) n lim w"
  proof (cases "jobOfAgent srv idt w")
    case (Inr i)
    have "filter (\<lambda>l. jl_jobId l = jb_id j \<and> n < jl_seq l)
        (map (\<lambda>l. l\<lparr>jl_jobId := i, jl_level := if jl_level l = [] then ''info'' else jl_level l\<rparr>) ls) = []"
      using other [OF Inr] by (auto simp: filter_empty_conv)
    then show ?thesis by (simp add: agentAppendLogs_def Inr appendLogs_def listLogs_def)
  qed (simp add: agentAppendLogs_def)
  show "j \<in> set (js_jobs (snd (agentClaim ce srv w)))"
    unfolding agentClaim_def by (rule claim_other [OF assms])
  show "jb_serverId x = Some srv" if "fst (agentClaim ce srv w) = Inr (Some (x, pl))" for x pl
    using claim_other(2) [OF assms] that unfolding agentClaim_def by blast
qed

definition elsewhereJob :: "job \<times> agentstore" where
  "elsewhereJob = opCreate TypeBackup ''backup'' None (Some 5) noParams None joined"

theorem agent_reaches_own_jobs_witness:
  "\<forall>ev req. fst elsewhereJob \<in> set (js_jobs (snd (agentUpdateJob ev 4 (IdOf (jb_id (fst elsewhereJob))) req (snd elsewhereJob))))"
proof (intro allI)
  fix ev req
  have "distinct (map jb_id (js_jobs (snd elsewhereJob)))" "fst elsewhereJob \<in> set (js_jobs (snd elsewhereJob))"
    "jb_serverId (fst elsewhereJob) \<noteq> Some 4" by code_simp+
  from agent_reaches_own_jobs [OF this, of ev "IdOf (jb_id (fst elsewhereJob))" req]
  show "fst elsewhereJob \<in> set (js_jobs (snd (agentUpdateJob ev 4 (IdOf (jb_id (fst elsewhereJob))) req (snd elsewhereJob))))" by blast
qed

subsection \<open>Enrolling again\<close>

lemma serverGet_Inr_iff: "(\<exists>s. serverGet i w = Inr s) \<longleftrightarrow> (\<exists>s \<in> set (ag_servers w). sv_id s = i \<and> serverLive s)"
  by (auto simp: serverGet_def find_None_iff split: option.splits dest!: find_SomeD)

lemma serverGet_id: "serverGet i w = Inr s \<Longrightarrow> sv_id s = i"
  by (auto simp: serverGet_def split: option.splits dest!: find_SomeD)

text \<open>Issuing a token to a host that is there works, and the token works.\<close>

lemma issueAgentToken_works:
  assumes "freshTokens e" "agOk e w" "\<exists>s \<in> set (ag_servers w). sv_id s = i \<and> serverLive s"
  shows "\<exists>tok w' s. issueAgentToken e i w = (Inr tok, w') \<and> agentAuth e tok w' = Inr s \<and> sv_id s = i \<and> sv_status s = SvOnline"
proof -
  obtain raw hash where n: "newAgentToken e ''fleeta'' (js_next w) = (raw, hash)" by fastforce
  then have hash: "hash = ge_sha e raw" "raw \<noteq> []" by (auto simp: newAgentToken_def Let_def)
  have made: "madeIn e ''fleeta'' (js_next w) (Suc (js_next w)) hash" using madeIn_next [of e "''fleeta''" "js_next w"] n by simp
  have fresh: "sv_tokenHash s \<noteq> Some hash" if "s \<in> set (ag_servers w)" for s
    using assms(2) that madeIn_apart [OF assms(1) _ made order_refl] by (auto simp: agOk_def)
  let ?w = "w\<lparr>js_next := js_next w + 1\<rparr>"
  let ?f = "\<lambda>s. s\<lparr>sv_tokenHash := Some hash, sv_status := SvOnline, sv_heartbeatAt := Some (js_now ?w)\<rparr>"
  let ?g = "\<lambda>s. if sv_id s = i \<and> serverLive s then (?f s)\<lparr>sv_version := sv_version s + 1\<rparr> else s"
  have "setAgentToken i hash ?w = (None, ?w\<lparr>ag_servers := map ?g (ag_servers w)\<rparr>)"
    using assms(3) fresh by (auto simp: setAgentToken_def serverUpdate_def list_ex_iff)
  then have issue: "issueAgentToken e i w = (Inr raw, ?w\<lparr>ag_servers := map ?g (ag_servers w)\<rparr>)"
    by (simp add: issueAgentToken_def n)
  obtain s where s: "List.find (\<lambda>s. sv_tokenHash s = Some hash \<and> serverLive s) (map ?g (ag_servers w)) = Some s"
  proof -
    from assms(3) obtain s1 where s1: "s1 \<in> set (ag_servers w)" "sv_id s1 = i" "serverLive s1" by blast
    have "?g s1 \<in> set (map ?g (ag_servers w))" unfolding set_map by (rule imageI [OF s1(1)])
    moreover have "sv_tokenHash (?g s1) = Some hash \<and> serverLive (?g s1)" using s1 by simp
    ultimately have "List.find (\<lambda>s. sv_tokenHash s = Some hash \<and> serverLive s) (map ?g (ag_servers w)) \<noteq> None"
      unfolding find_None_iff by blast
    then show thesis using that by blast
  qed
  then obtain s0 where s0: "s0 \<in> set (ag_servers w)" "s = ?g s0" "sv_tokenHash s = Some hash"
    by (auto dest!: find_SomeD)
  have "sv_id s0 = i \<and> serverLive s0"
  proof (rule ccontr)
    assume "\<not> (sv_id s0 = i \<and> serverLive s0)"
    then have "s = s0" using s0(2) by (simp only: if_False)
    then show False using fresh [OF s0(1)] s0(3) by simp
  qed
  then have "sv_id s = i" "sv_status s = SvOnline" using s0(2) by simp_all
  moreover have "agentAuth e raw (?w\<lparr>ag_servers := map ?g (ag_servers w)\<rparr>) = Inr s"
    using s hash by (simp add: agentAuth_def serverByToken_def)
  ultimately show ?thesis using issue by blast
qed

lemma clearAgentToken_None:
  assumes "clearAgentToken i w = (None, w')"
  shows "ag_regTokens w' = ag_regTokens w" "js_next w' = js_next w" "js_now w' = js_now w"
    "\<exists>s \<in> set (ag_servers w'). sv_id s = i \<and> serverLive s"
proof -
  have ex: "list_ex (\<lambda>s. sv_id s = i \<and> serverLive s) (ag_servers w)"
    using assms by (rule_tac ccontr) (simp add: clearAgentToken_def serverUpdate_def)
  then show "ag_regTokens w' = ag_regTokens w" "js_next w' = js_next w" "js_now w' = js_now w"
    using assms by (auto simp: clearAgentToken_def serverUpdate_def)
  from ex obtain s where "s \<in> set (ag_servers w)" "sv_id s = i" "serverLive s" by (auto simp: list_ex_iff)
  let ?g = "\<lambda>s. if sv_id s = i \<and> serverLive s
      then (s\<lparr>sv_tokenHash := None, sv_status := SvOffline\<rparr>)\<lparr>sv_version := sv_version s + 1\<rparr> else s"
  have "ag_servers w' = map ?g (ag_servers w)" using ex assms by (auto simp: clearAgentToken_def serverUpdate_def)
  then have "?g s \<in> set (ag_servers w')" using imageI [OF \<open>s \<in> set (ag_servers w)\<close>, of ?g] by (simp only: set_map)
  moreover have "sv_id (?g s) = i \<and> serverLive (?g s)" using \<open>sv_id s = i\<close> \<open>serverLive s\<close> by simp
  ultimately show "\<exists>s \<in> set (ag_servers w'). sv_id s = i \<and> serverLive s" by blast
qed

text \<open>C27. Replacing the token of an agent does not lose the host: the install command it returns enrols the same
  host again (whatever name the machine reports), and the token issued then works.\<close>

theorem rotated_host_enrols_again:
  assumes "freshTokens e" "agOk e w" "rotateAgentToken e (IdOf i) who w = (Inr (t, raw), w1)"
    and "ri_token inp = raw" "ri_hostname inp \<noteq> []"
  shows "\<exists>s tok w2 s'. register e inp w1 = (Inr (s, tok), w2) \<and> sv_id s = i
    \<and> agentAuth e tok w2 = Inr s' \<and> sv_id s' = i \<and> sv_status s' = SvOnline"
proof -
  obtain s0 where s0: "serverGet i w = Inr s0" using assms(3) by (cases "serverGet i w") (auto simp: rotateAgentToken_def)
  obtain o1 wc where c: "clearAgentToken i w = (o1, wc)" by fastforce
  with assms(3) s0 have c: "clearAgentToken i w = (None, wc)" by (cases o1) (simp_all add: rotateAgentToken_def)
  obtain raw' hash where n: "newAgentToken e ''fleetr'' (js_next wc) = (raw', hash)" by fastforce
  let ?t = "\<lparr>rk_id = js_next wc, rk_name = ''Re-enroll '' @ sv_name s0, rk_hash = hash, rk_createdBy = who,
      rk_expiresAt = js_now wc + dayNanos, rk_usedAt = None, rk_serverId = Some i, rk_createdAt = js_now wc\<rparr>"
  let ?wn = "wc\<lparr>js_next := js_next wc + 1\<rparr>"
  have new: "\<not> list_ex (\<lambda>x. rk_hash x = hash) (ag_regTokens wc)"
    and w1: "w1 = ?wn\<lparr>ag_regTokens := ag_regTokens wc @ [?t]\<rparr>" and raw: "raw = raw'" "t = ?t"
    using assms(3) s0 c n by (auto simp: rotateAgentToken_def regTokenCreate_def Let_def split: if_splits)
  have hash: "hash = ge_sha e raw" "raw \<noteq> []" using n raw by (auto simp: newAgentToken_def Let_def)
  have "List.find (\<lambda>x. rk_hash x = hash) (ag_regTokens wc @ [?t]) = Some ?t"
    using new by (intro find_fresh) (auto simp: list_ex_iff)
  then have check: "registerCheck e inp w1 = Inr ?t"
    using assms(4,5) hash by (simp add: registerCheck_def regTokenByHash_def w1 dayNanos_def)
  have live: "\<exists>s \<in> set (ag_servers w1). sv_id s = i \<and> serverLive s" using clearAgentToken_None(4) [OF c] by (simp add: w1)
  then obtain s where s: "serverGet i w1 = Inr s" using serverGet_Inr_iff by blast
  obtain wm where mark: "markUsed (js_next wc) i w1 = (None, wm)" "ag_servers wm = ag_servers w1"
    by (simp add: markUsed_def w1)
  have "agOk e w1" using sound_rotateAgentToken [of e w "IdOf i" who] assms(2,3) by (simp add: soundFor_def)
  then have "agOk e wm" using sound_markUsed [of e w1 "js_next wc" i] mark(1) by (simp add: soundFor_def)
  from issueAgentToken_works [OF assms(1) this, of i] live mark(2)
  obtain tok w2 s' where "issueAgentToken e i wm = (Inr tok, w2)" "agentAuth e tok w2 = Inr s'" "sv_id s' = i" "sv_status s' = SvOnline"
    by auto
  moreover have "register e inp w1 = (Inr (s, tok), w2)"
    using calculation(1) mark(1) s serverGet_id [OF s] by (simp add: register_def check attachServer_def)
  ultimately show ?thesis using serverGet_id [OF s] by blast
qed

definition rotated :: "(apperr + regToken \<times> string) \<times> agentstore" where
  "rotated = rotateAgentToken exAgentEnv (IdOf 4) None joined"

definition rejoining :: registerInput where
  "rejoining = joining\<lparr>ri_token := snd (projr (fst rotated))\<rparr>"

theorem rotated_host_enrols_again_witness:
  "\<exists>s tok w2 s'. register exAgentEnv rejoining (snd rotated) = (Inr (s, tok), w2) \<and> sv_id s = 4
    \<and> agentAuth exAgentEnv tok w2 = Inr s' \<and> sv_id s' = 4 \<and> sv_status s' = SvOnline"
proof -
  have "\<not> isl (fst rotated)" by code_simp
  then obtain t raw where r: "fst rotated = Inr (t, raw)" by (metis isl_def sum.exhaust surj_pair)
  then have "rotateAgentToken exAgentEnv (IdOf 4) None joined = (Inr (t, raw), snd rotated)"
    unfolding rotated_def by (metis prod.collapse)
  moreover have "ri_token rejoining = raw" "ri_hostname rejoining \<noteq> []" by (simp_all add: rejoining_def r joining_def)
  ultimately show ?thesis by (rule rotated_host_enrols_again [OF exAgentEnv_fresh joined_ok])
qed

end
