(* ===== verification/RouteTable.thy ===== *)
theory RouteTable
  imports Authz Backups
begin

text \<open>
  The routes of \<open>interfaces/httpapi/router.go\<close> with the guard of each, the table of audited routes
  (\<open>audit_routes.go\<close>) and the matching of Go's \<open>ServeMux\<close> on them.  A pattern is kept as it is registered;
  \<open>rt_method\<close> and \<open>rt_path\<close> parse it as \<open>ServeMux\<close> does.  The paths of requests are lists of unescaped
  segments, so that a segment may itself hold a slash (\<open>%2F\<close>); a trailing slash is an empty last segment.
\<close>

subsection \<open>Routes\<close>

datatype whichLimiter = LoginLimiter | RegisterLimiter

text \<open>The wrapper around a handler: none, \<open>limiter.Middleware\<close>, \<open>Agents.Auth\<close>, \<open>requirePerm\<close>,
  \<open>requireAnyPerm\<close> or \<open>requireResourcePerm\<close>.\<close>

datatype routeGuard = GuardNone | GuardLimited whichLimiter | GuardAgent | GuardPerm string | GuardAnyPerm string
  | GuardResource string resourceType string

datatype route = Route (rt_pattern: string) (rt_guard: routeGuard) (rt_handler: string)

definition systemRoutes :: "route list" where
  "systemRoutes = [
     Route ''GET /healthz'' (GuardNone) ''healthz'',
     Route ''GET /readyz'' (GuardNone) ''readyz'',
     Route ''GET /metrics'' (GuardNone) ''metrics'',
     Route ''GET /v1/version'' (GuardPerm []) ''version'',
     Route ''GET /openapi.yaml'' (GuardNone) ''Docs.Spec'',
     Route ''GET /docs'' (GuardNone) ''Docs.Page'',
     Route ''GET /install.sh'' (GuardNone) ''Install.Script'',
     Route ''GET /agent/v1/binary/{os}/{arch}'' (GuardNone) ''Install.Binary'',
     Route ''GET /agent/v1/binary/{os}/{arch}/sha256'' (GuardNone) ''Install.BinarySum'']"

definition agentRoutes :: "route list" where
  "agentRoutes = [
     Route ''POST /agent/v1/register'' (GuardLimited RegisterLimiter) ''Agents.Register'',
     Route ''POST /agent/v1/heartbeat'' (GuardAgent) ''Agents.Heartbeat'',
     Route ''POST /agent/v1/jobs/claim'' (GuardAgent) ''Agents.Claim'',
     Route ''POST /agent/v1/jobs/{id}/status'' (GuardAgent) ''Agents.UpdateJob'',
     Route ''POST /agent/v1/jobs/{id}/logs'' (GuardAgent) ''Agents.AppendLogs'']"

definition authRoutes :: "route list" where
  "authRoutes = [
     Route ''POST /v1/auth/login'' (GuardLimited LoginLimiter) ''Auth.Login'',
     Route ''GET /v1/auth/me'' (GuardPerm []) ''Auth.Me'',
     Route ''POST /v1/auth/logout'' (GuardPerm []) ''Auth.Logout'',
     Route ''GET /v1/profile'' (GuardPerm []) ''Users.Profile'',
     Route ''PATCH /v1/profile'' (GuardPerm []) ''Users.UpdateProfile'',
     Route ''POST /v1/profile/password'' (GuardPerm []) ''Users.ChangePassword'']"

definition userRoutes :: "route list" where
  "userRoutes = [
     Route ''GET /v1/users'' (GuardPerm ''user:read'') ''Users.List'',
     Route ''POST /v1/users'' (GuardPerm ''user:write'') ''Users.Create'',
     Route ''PATCH /v1/users/{id}'' (GuardPerm ''user:write'') ''Users.Update'',
     Route ''POST /v1/users/{id}/password'' (GuardPerm ''user:write'') ''Users.ResetPassword'',
     Route ''DELETE /v1/users/{id}'' (GuardPerm ''user:write'') ''Users.Delete'',
     Route ''GET /v1/users/{id}/role-grants'' (GuardPerm ''user:read'') ''Users.ListGrants'',
     Route ''POST /v1/users/{id}/role-grants'' (GuardPerm ''user:write'') ''Users.AddGrant'',
     Route ''DELETE /v1/users/{id}/role-grants/{grantId}'' (GuardPerm ''user:write'') ''Users.RemoveGrant'',
     Route ''GET /v1/roles'' (GuardPerm ''user:read'') ''Users.ListRoles'',
     Route ''POST /v1/roles'' (GuardPerm ''user:write'') ''Users.CreateRole'',
     Route ''PATCH /v1/roles/{id}'' (GuardPerm ''user:write'') ''Users.UpdateRole'',
     Route ''DELETE /v1/roles/{id}'' (GuardPerm ''user:write'') ''Users.DeleteRole'',
     Route ''GET /v1/permissions'' (GuardPerm ''user:read'') ''Users.ListPermissions'',
     Route ''GET /v1/overview'' (GuardPerm []) ''Overview.Overview'']"

definition serverRoutes :: "route list" where
  "serverRoutes = [
     Route ''POST /v1/servers'' (GuardPerm ''server:write'') ''Servers.Register'',
     Route ''GET /v1/servers'' (GuardAnyPerm ''server:read'') ''Servers.List'',
     Route ''GET /v1/servers/{id}'' (GuardResource ''server:read'' ResourceServer ''id'') ''Servers.Get'',
     Route ''PATCH /v1/servers/{id}'' (GuardResource ''server:write'' ResourceServer ''id'') ''Servers.Update'',
     Route ''DELETE /v1/servers/{id}'' (GuardResource ''server:write'' ResourceServer ''id'') ''Servers.Delete'',
     Route ''DELETE /v1/servers/{id}/agent-token'' (GuardResource ''server:write'' ResourceServer ''id'') ''RegTokens.RevokeAgent'',
     Route ''POST /v1/servers/{id}/agent-token/rotate'' (GuardResource ''server:write'' ResourceServer ''id'') ''RegTokens.RotateAgent'',
     Route ''GET /v1/servers/{id}/metrics'' (GuardResource ''server:read'' ResourceServer ''id'') ''Overview.ServerMetrics'',
     Route ''POST /v1/agent-tokens'' (GuardPerm ''server:write'') ''RegTokens.Create'',
     Route ''GET /v1/agent-tokens'' (GuardPerm ''server:read'') ''RegTokens.List'',
     Route ''DELETE /v1/agent-tokens/{id}'' (GuardPerm ''server:write'') ''RegTokens.Revoke'']"

definition instanceRoutes :: "route list" where
  "instanceRoutes = [
     Route ''POST /v1/instances'' (GuardAnyPerm ''instance:write'') ''Instances.Register'',
     Route ''POST /v1/instances/provision'' (GuardAnyPerm ''instance:write'') ''Instances.Provision'',
     Route ''GET /v1/instances'' (GuardAnyPerm ''instance:read'') ''Instances.List'',
     Route ''GET /v1/instances/{id}'' (GuardResource ''instance:read'' ResourceInstance ''id'') ''Instances.Get'',
     Route ''PATCH /v1/instances/{id}'' (GuardResource ''instance:write'' ResourceInstance ''id'') ''Instances.Update'',
     Route ''DELETE /v1/instances/{id}'' (GuardResource ''instance:write'' ResourceInstance ''id'') ''Instances.Delete'',
     Route ''POST /v1/instances/{id}/start'' (GuardResource ''instance:write'' ResourceInstance ''id'') ''Instances.Lifecycle:start'',
     Route ''POST /v1/instances/{id}/stop'' (GuardResource ''instance:write'' ResourceInstance ''id'') ''Instances.Lifecycle:stop'',
     Route ''POST /v1/instances/{id}/restart'' (GuardResource ''instance:write'' ResourceInstance ''id'') ''Instances.Lifecycle:restart'',
     Route ''POST /v1/instances/{id}/probe'' (GuardResource ''instance:read'' ResourceInstance ''id'') ''Instances.Probe'']"

definition databaseRoutes :: "route list" where
  "databaseRoutes = [
     Route ''POST /v1/databases'' (GuardAnyPerm ''database:write'') ''Databases.Create'',
     Route ''GET /v1/databases'' (GuardAnyPerm ''database:read'') ''Databases.List'',
     Route ''GET /v1/databases/{id}'' (GuardResource ''database:read'' ResourceDatabase ''id'') ''Databases.Get'',
     Route ''POST /v1/databases/{id}/lock'' (GuardResource ''database:write'' ResourceDatabase ''id'') ''Databases.Lock'',
     Route ''POST /v1/databases/{id}/unlock'' (GuardResource ''database:write'' ResourceDatabase ''id'') ''Databases.Unlock'',
     Route ''DELETE /v1/databases/{id}'' (GuardResource ''database:write'' ResourceDatabase ''id'') ''Databases.Delete'',
     Route ''GET /v1/databases/{id}/connectivity'' (GuardResource ''database:read'' ResourceDatabase ''id'') ''Connectivity.GetConnectivity'',
     Route ''POST /v1/databases/{id}/public-access'' (GuardResource ''database:write'' ResourceDatabase ''id'') ''Connectivity.EnablePublicAccess'',
     Route ''PATCH /v1/databases/{id}/public-access'' (GuardResource ''database:write'' ResourceDatabase ''id'') ''Connectivity.UpdateAllowedCIDRs'',
     Route ''DELETE /v1/databases/{id}/public-access'' (GuardResource ''database:write'' ResourceDatabase ''id'') ''Connectivity.DisablePublicAccess'',
     Route ''GET /v1/databases/{id}/credentials'' (GuardResource ''database:read'' ResourceDatabase ''id'') ''DBCredentials.List'',
     Route ''POST /v1/databases/{id}/credentials'' (GuardResource ''database:write'' ResourceDatabase ''id'') ''DBCredentials.Create'',
     Route ''POST /v1/databases/{id}/credentials/{credentialId}/rotate'' (GuardResource ''database:write'' ResourceDatabase ''id'') ''DBCredentials.Rotate'',
     Route ''DELETE /v1/databases/{id}/credentials/{credentialId}'' (GuardResource ''database:write'' ResourceDatabase ''id'') ''DBCredentials.Revoke'']"

definition instanceAdminRoutes :: "route list" where
  "instanceAdminRoutes = [
     Route ''GET /v1/instances/{id}/db-users'' (GuardResource ''instance:read'' ResourceInstance ''id'') ''DBAdmin.ListDBUsers'',
     Route ''POST /v1/instances/{id}/db-users'' (GuardResource ''instance:write'' ResourceInstance ''id'') ''DBAdmin.CreateDBUser'',
     Route ''POST /v1/instances/{id}/db-users/drop'' (GuardResource ''instance:write'' ResourceInstance ''id'') ''DBAdmin.DropDBUser'',
     Route ''POST /v1/instances/{id}/db-users/password'' (GuardResource ''instance:write'' ResourceInstance ''id'') ''DBAdmin.SetDBUserPassword'',
     Route ''GET /v1/instances/{id}/db-users/grants'' (GuardResource ''instance:read'' ResourceInstance ''id'') ''DBAdmin.UserGrants'',
     Route ''POST /v1/instances/{id}/grants'' (GuardResource ''instance:write'' ResourceInstance ''id'') ''DBAdmin.Grant'',
     Route ''POST /v1/instances/{id}/grants/revoke'' (GuardResource ''instance:write'' ResourceInstance ''id'') ''DBAdmin.Revoke'',
     Route ''GET /v1/instances/{id}/processes'' (GuardResource ''instance:read'' ResourceInstance ''id'') ''DBAdmin.Processes'',
     Route ''POST /v1/instances/{id}/processes/{pid}/kill'' (GuardResource ''instance:write'' ResourceInstance ''id'') ''DBAdmin.KillProcess'',
     Route ''GET /v1/instances/{id}/status'' (GuardResource ''instance:read'' ResourceInstance ''id'') ''DBAdmin.ServerStatus'',
     Route ''GET /v1/instances/{id}/variables'' (GuardResource ''instance:read'' ResourceInstance ''id'') ''DBAdmin.Variables'',
     Route ''GET /v1/instances/{id}/top-queries'' (GuardResource ''instance:read'' ResourceInstance ''id'') ''DBAdmin.TopQueries'']"

definition databaseAdminRoutes :: "route list" where
  "databaseAdminRoutes = [
     Route ''GET /v1/databases/{id}/grants'' (GuardResource ''database:read'' ResourceDatabase ''id'') ''DBAdmin.SchemaGrants'',
     Route ''POST /v1/databases/{id}/grants'' (GuardResource ''database:write'' ResourceDatabase ''id'') ''DBAdmin.GrantOnDatabase'',
     Route ''POST /v1/databases/{id}/grants/revoke'' (GuardResource ''database:write'' ResourceDatabase ''id'') ''DBAdmin.RevokeOnDatabase'',
     Route ''GET /v1/databases/{id}/db-users'' (GuardResource ''database:read'' ResourceDatabase ''id'') ''DBAdmin.ListDBUsersForDatabase'',
     Route ''GET /v1/databases/{id}/tables'' (GuardResource ''database:read'' ResourceDatabase ''id'') ''DBAdmin.ListTables'',
     Route ''GET /v1/databases/{id}/tables/{table}/rows'' (GuardResource ''database:read'' ResourceDatabase ''id'') ''DBAdmin.TableRows'',
     Route ''GET /v1/databases/{id}/tables/{table}/schema'' (GuardResource ''database:read'' ResourceDatabase ''id'') ''DBAdmin.TableSchema'',
     Route ''GET /v1/databases/{id}/tables/{table}/export'' (GuardResource ''database:read'' ResourceDatabase ''id'') ''DBAdmin.ExportTable'',
     Route ''POST /v1/databases/{id}/tables/{table}/export'' (GuardResource ''database:read'' ResourceDatabase ''id'') ''DBAdmin.ExportRows'',
     Route ''POST /v1/databases/{id}/tables/{table}/browse'' (GuardResource ''database:read'' ResourceDatabase ''id'') ''DBAdmin.BrowseRows'',
     Route ''POST /v1/databases/{id}/tables/{table}/rows'' (GuardResource ''database:write'' ResourceDatabase ''id'') ''DBAdmin.InsertRow'',
     Route ''PATCH /v1/databases/{id}/tables/{table}/rows'' (GuardResource ''database:write'' ResourceDatabase ''id'') ''DBAdmin.UpdateRow'',
     Route ''POST /v1/databases/{id}/tables/{table}/rows/delete'' (GuardResource ''database:write'' ResourceDatabase ''id'') ''DBAdmin.DeleteRow'',
     Route ''POST /v1/databases/{id}/tables/{table}/import'' (GuardResource ''database:write'' ResourceDatabase ''id'') ''DBAdmin.ImportCSV'',
     Route ''POST /v1/databases/{id}/tables'' (GuardResource ''database:write'' ResourceDatabase ''id'') ''DBAdmin.CreateTable'',
     Route ''PATCH /v1/databases/{id}/tables/{table}'' (GuardResource ''database:write'' ResourceDatabase ''id'') ''DBAdmin.AlterTable'',
     Route ''POST /v1/databases/{id}/tables/{table}/drop'' (GuardResource ''database:write'' ResourceDatabase ''id'') ''DBAdmin.DropTable'',
     Route ''POST /v1/databases/{id}/tables/{table}/truncate'' (GuardResource ''database:write'' ResourceDatabase ''id'') ''DBAdmin.TruncateTable'',
     Route ''POST /v1/databases/{id}/tables/{table}/rename'' (GuardResource ''database:write'' ResourceDatabase ''id'') ''DBAdmin.RenameTable'',
     Route ''POST /v1/databases/{id}/tables/{table}/indexes'' (GuardResource ''database:write'' ResourceDatabase ''id'') ''DBAdmin.CreateIndex'',
     Route ''POST /v1/databases/{id}/tables/{table}/indexes/drop'' (GuardResource ''database:write'' ResourceDatabase ''id'') ''DBAdmin.DropIndex'',
     Route ''GET /v1/databases/{id}/tables/{table}/foreign-keys'' (GuardResource ''database:read'' ResourceDatabase ''id'') ''DBAdmin.ForeignKeys'',
     Route ''GET /v1/databases/{id}/tables/{table}/referenced-by'' (GuardResource ''database:read'' ResourceDatabase ''id'') ''DBAdmin.ReferencedBy'',
     Route ''GET /v1/databases/{id}/objects'' (GuardResource ''database:read'' ResourceDatabase ''id'') ''DBAdmin.Objects'',
     Route ''GET /v1/databases/{id}/columns'' (GuardResource ''database:read'' ResourceDatabase ''id'') ''DBAdmin.Columns'',
     Route ''GET /v1/databases/{id}/diagram'' (GuardResource ''database:read'' ResourceDatabase ''id'') ''DBAdmin.Diagram'']"

definition copyRoutes :: "route list" where
  "copyRoutes = [
     Route ''GET /v1/databases/{id}/table-views'' (GuardResource ''database:read'' ResourceDatabase ''id'') ''TableViews.List'',
     Route ''POST /v1/databases/{id}/table-views'' (GuardResource ''database:read'' ResourceDatabase ''id'') ''TableViews.Create'',
     Route ''PATCH /v1/databases/{id}/table-views/{viewId}'' (GuardResource ''database:read'' ResourceDatabase ''id'') ''TableViews.Update'',
     Route ''DELETE /v1/databases/{id}/table-views/{viewId}'' (GuardResource ''database:read'' ResourceDatabase ''id'') ''TableViews.Delete'',
     Route ''GET /v1/databases/{id}/backup-copies'' (GuardResource ''database:read'' ResourceDatabase ''id'') ''DBAdmin.ListCopies'',
     Route ''POST /v1/databases/{id}/backup-copies'' (GuardResource ''backup:write'' ResourceDatabase ''id'') ''DBAdmin.CreateCopy'',
     Route ''GET /v1/databases/{id}/backup-copies/{copyId}'' (GuardResource ''database:read'' ResourceDatabase ''id'') ''DBAdmin.GetCopy'',
     Route ''POST /v1/databases/{id}/backup-copies/{copyId}/extend'' (GuardResource ''backup:write'' ResourceDatabase ''id'') ''DBAdmin.ExtendCopy'',
     Route ''DELETE /v1/databases/{id}/backup-copies/{copyId}'' (GuardResource ''backup:write'' ResourceDatabase ''id'') ''DBAdmin.DiscardCopy'',
     Route ''POST /v1/databases/{id}/backup-copies/{copyId}/diff'' (GuardResource ''database:read'' ResourceDatabase ''id'') ''DBAdmin.DiffCopy'',
     Route ''POST /v1/databases/{id}/backup-copies/{copyId}/restore-rows'' (GuardResource ''database:write'' ResourceDatabase ''id'') ''DBAdmin.RestoreCopyRows'',
     Route ''GET /v1/databases/{id}/changes'' (GuardResource ''database:read'' ResourceDatabase ''id'') ''DBAdmin.ListChanges'',
     Route ''POST /v1/databases/{id}/changes/undo'' (GuardResource ''database:write'' ResourceDatabase ''id'') ''DBAdmin.UndoBatch'',
     Route ''POST /v1/databases/{id}/changes/{changeId}/undo'' (GuardResource ''database:write'' ResourceDatabase ''id'') ''DBAdmin.UndoChange'',
     Route ''GET /v1/databases/{id}/schema/snapshots'' (GuardResource ''database:read'' ResourceDatabase ''id'') ''DBAdmin.SchemaSnapshots'',
     Route ''POST /v1/databases/{id}/schema/snapshots'' (GuardResource ''database:read'' ResourceDatabase ''id'') ''DBAdmin.TakeSchemaSnapshot'',
     Route ''GET /v1/databases/{id}/schema/snapshots/{snapshotId}'' (GuardResource ''database:read'' ResourceDatabase ''id'') ''DBAdmin.SchemaSnapshot'',
     Route ''PUT /v1/databases/{id}/schema/watch'' (GuardResource ''database:write'' ResourceDatabase ''id'') ''DBAdmin.SetSchemaWatch'',
     Route ''POST /v1/schema/compare'' (GuardAnyPerm ''database:read'') ''DBAdmin.CompareSchemas'',
     Route ''GET /v1/databases/{id}/index-insights'' (GuardResource ''database:read'' ResourceDatabase ''id'') ''DBAdmin.IndexInsights'',
     Route ''POST /v1/databases/{id}/explain'' (GuardResource ''database:read'' ResourceDatabase ''id'') ''DBAdmin.Explain'']"

definition fleetRoutes :: "route list" where
  "fleetRoutes = [
     Route ''GET /v1/search/schema'' (GuardAnyPerm ''database:read'') ''Search.Schema'',
     Route ''POST /v1/fleet-runs'' (GuardAnyPerm ''database:read'') ''Fleet.Create'',
     Route ''GET /v1/fleet-runs'' (GuardAnyPerm ''database:read'') ''Fleet.List'',
     Route ''GET /v1/fleet-runs/{id}'' (GuardAnyPerm ''database:read'') ''Fleet.Get'',
     Route ''GET /v1/fleet-runs/{id}/targets'' (GuardAnyPerm ''database:read'') ''Fleet.Targets'',
     Route ''GET /v1/fleet-runs/{id}/results.csv'' (GuardAnyPerm ''database:read'') ''Fleet.ResultsCSV'',
     Route ''POST /v1/fleet-runs/{id}/resume'' (GuardAnyPerm ''database:read'') ''Fleet.Resume'',
     Route ''POST /v1/fleet-runs/{id}/cancel'' (GuardAnyPerm ''database:read'') ''Fleet.Cancel'',
     Route ''POST /v1/fleet-runs/{id}/retry'' (GuardAnyPerm ''database:read'') ''Fleet.Retry'',
     Route ''POST /v1/databases/{id}/query'' (GuardResource ''database:read'' ResourceDatabase ''id'') ''DBAdmin.Query'',
     Route ''POST /v1/databases/{id}/dump/check'' (GuardResource ''backup:write'' ResourceDatabase ''id'') ''DBAdmin.CheckDump'',
     Route ''GET /v1/databases/{id}/dump'' (GuardResource ''backup:write'' ResourceDatabase ''id'') ''DBAdmin.Dump'',
     Route ''POST /v1/databases/{id}/export'' (GuardResource ''database:read'' ResourceDatabase ''id'') ''DBAdmin.ExportQuery'',
     Route ''POST /v1/databases/{id}/import-sql'' (GuardResource ''database:write'' ResourceDatabase ''id'') ''Backups.ImportSQL'',
     Route ''POST /v1/databases/{id}/query/{qid}/cancel'' (GuardResource ''database:read'' ResourceDatabase ''id'') ''DBAdmin.CancelQuery'',
     Route ''GET /v1/databases/{id}/query-history'' (GuardResource ''database:read'' ResourceDatabase ''id'') ''Console.History'',
     Route ''GET /v1/saved-queries'' (GuardAnyPerm ''database:read'') ''Console.ListSaved'',
     Route ''POST /v1/saved-queries'' (GuardAnyPerm ''database:read'') ''Console.CreateSaved'',
     Route ''PATCH /v1/saved-queries/{id}'' (GuardAnyPerm ''database:read'') ''Console.UpdateSaved'',
     Route ''DELETE /v1/saved-queries/{id}'' (GuardAnyPerm ''database:read'') ''Console.DeleteSaved'',
     Route ''GET /v1/db-privileges'' (GuardAnyPerm ''instance:read'') ''DBAdmin.ListPrivileges'']"

definition backupRoutes :: "route list" where
  "backupRoutes = [
     Route ''GET /v1/operations'' (GuardAnyPerm ''operation:read'') ''Operations.List'',
     Route ''GET /v1/operations/{id}'' (GuardResource ''operation:read'' ResourceOperation ''id'') ''Operations.Get'',
     Route ''GET /v1/operations/{id}/logs'' (GuardResource ''operation:read'' ResourceOperation ''id'') ''Operations.Logs'',
     Route ''POST /v1/backups'' (GuardAnyPerm ''backup:write'') ''Backups.Trigger'',
     Route ''GET /v1/backups'' (GuardAnyPerm ''backup:read'') ''Backups.List'',
     Route ''GET /v1/backups/{id}'' (GuardResource ''backup:read'' ResourceBackup ''id'') ''Backups.Get'',
     Route ''POST /v1/backups/{id}/restore'' (GuardResource ''backup:write'' ResourceBackup ''id'') ''Backups.Restore'',
     Route ''GET /v1/backups/{id}/download'' (GuardResource ''backup:read'' ResourceBackup ''id'') ''Backups.Download'',
     Route ''DELETE /v1/backups/{id}'' (GuardResource ''backup:write'' ResourceBackup ''id'') ''Backups.Delete'',
     Route ''POST /v1/backups/{id}/verify'' (GuardResource ''backup:write'' ResourceBackup ''id'') ''Backups.Verify'',
     Route ''POST /v1/moves'' (GuardAnyPerm ''backup:write'') ''Moves.Start'']"

definition backupPlanRoutes :: "route list" where
  "backupPlanRoutes = [
     Route ''POST /v1/backup-destinations'' (GuardPerm ''destination:write'') ''Destinations.Create'',
     Route ''GET /v1/backup-destinations'' (GuardPerm ''destination:read'') ''Destinations.List'',
     Route ''PATCH /v1/backup-destinations/{id}'' (GuardPerm ''destination:write'') ''Destinations.Update'',
     Route ''DELETE /v1/backup-destinations/{id}'' (GuardPerm ''destination:write'') ''Destinations.Delete'',
     Route ''POST /v1/backup-destinations/{id}/test'' (GuardPerm ''destination:write'') ''Destinations.Test'',
     Route ''POST /v1/backup-schedules'' (GuardPerm ''schedule:write'') ''Schedules.Create'',
     Route ''GET /v1/backup-schedules'' (GuardPerm ''schedule:read'') ''Schedules.List'',
     Route ''PATCH /v1/backup-schedules/{id}'' (GuardPerm ''schedule:write'') ''Schedules.Update'',
     Route ''DELETE /v1/backup-schedules/{id}'' (GuardPerm ''schedule:write'') ''Schedules.Delete'']"

definition notificationRoutes :: "route list" where
  "notificationRoutes = [
     Route ''POST /v1/notification-channels'' (GuardPerm ''notification:write'') ''Notifications.CreateChannel'',
     Route ''GET /v1/notification-channels'' (GuardPerm ''notification:read'') ''Notifications.ListChannels'',
     Route ''PATCH /v1/notification-channels/{id}'' (GuardPerm ''notification:write'') ''Notifications.UpdateChannel'',
     Route ''DELETE /v1/notification-channels/{id}'' (GuardPerm ''notification:write'') ''Notifications.DeleteChannel'',
     Route ''POST /v1/notification-channels/{id}/test'' (GuardPerm ''notification:write'') ''Notifications.TestChannel'',
     Route ''POST /v1/alert-rules'' (GuardPerm ''notification:write'') ''Notifications.CreateRule'',
     Route ''GET /v1/alert-rules'' (GuardPerm ''notification:read'') ''Notifications.ListRules'',
     Route ''PATCH /v1/alert-rules/{id}'' (GuardPerm ''notification:write'') ''Notifications.UpdateRule'',
     Route ''DELETE /v1/alert-rules/{id}'' (GuardPerm ''notification:write'') ''Notifications.DeleteRule'']"

definition tokenRoutes :: "route list" where
  "tokenRoutes = [
     Route ''POST /v1/tokens'' (GuardPerm ''token:write'') ''Tokens.Create'',
     Route ''GET /v1/tokens'' (GuardPerm ''token:read'') ''Tokens.List'',
     Route ''DELETE /v1/tokens/{id}'' (GuardPerm ''token:write'') ''Tokens.Revoke'',
     Route ''GET /v1/api-tokens'' (GuardPerm ''user:write'') ''Tokens.ListActive'',
     Route ''DELETE /v1/api-tokens/{id}'' (GuardPerm ''user:write'') ''Tokens.RevokeAny'',
     Route ''GET /v1/audit-events'' (GuardPerm ''audit:read'') ''auditHandler.List'']"

definition routes :: "route list" where
  "routes = systemRoutes @ agentRoutes @ authRoutes @ userRoutes @ serverRoutes @ instanceRoutes @ databaseRoutes
     @ instanceAdminRoutes @ databaseAdminRoutes @ copyRoutes @ fleetRoutes @ backupRoutes @ backupPlanRoutes
     @ notificationRoutes @ tokenRoutes"

subsection \<open>Audited routes\<close>

record auditRoute =
  at_action :: string
  at_resourceType :: string
  at_idParam :: string
  at_fromResponse :: bool

definition auditSession :: "(string \<times> auditRoute) list" where
  "auditSession = [
     (''POST /v1/auth/login'', \<lparr>at_action = ''auth.login'', at_resourceType = ''user'', at_idParam = [], at_fromResponse = False\<rparr>),
     (''POST /v1/auth/logout'', \<lparr>at_action = ''auth.logout'', at_resourceType = ''user'', at_idParam = [], at_fromResponse = False\<rparr>),
     (''PATCH /v1/profile'', \<lparr>at_action = ''profile.update'', at_resourceType = ''user'', at_idParam = [], at_fromResponse = False\<rparr>),
     (''POST /v1/profile/password'', \<lparr>at_action = ''profile.password_change'', at_resourceType = ''user'', at_idParam = [], at_fromResponse = False\<rparr>)]"

definition auditUsers :: "(string \<times> auditRoute) list" where
  "auditUsers = [
     (''POST /v1/users'', \<lparr>at_action = ''user.create'', at_resourceType = ''user'', at_idParam = [], at_fromResponse = True\<rparr>),
     (''PATCH /v1/users/{id}'', \<lparr>at_action = ''user.update'', at_resourceType = ''user'', at_idParam = ''id'', at_fromResponse = False\<rparr>),
     (''POST /v1/users/{id}/password'', \<lparr>at_action = ''user.password_reset'', at_resourceType = ''user'', at_idParam = ''id'', at_fromResponse = False\<rparr>),
     (''DELETE /v1/users/{id}'', \<lparr>at_action = ''user.delete'', at_resourceType = ''user'', at_idParam = ''id'', at_fromResponse = False\<rparr>),
     (''POST /v1/users/{id}/role-grants'', \<lparr>at_action = ''user.grant_add'', at_resourceType = ''user'', at_idParam = ''id'', at_fromResponse = False\<rparr>),
     (''DELETE /v1/users/{id}/role-grants/{grantId}'', \<lparr>at_action = ''user.grant_remove'', at_resourceType = ''user'', at_idParam = ''id'', at_fromResponse = False\<rparr>),
     (''POST /v1/roles'', \<lparr>at_action = ''role.create'', at_resourceType = ''role'', at_idParam = [], at_fromResponse = True\<rparr>),
     (''PATCH /v1/roles/{id}'', \<lparr>at_action = ''role.update'', at_resourceType = ''role'', at_idParam = ''id'', at_fromResponse = False\<rparr>),
     (''DELETE /v1/roles/{id}'', \<lparr>at_action = ''role.delete'', at_resourceType = ''role'', at_idParam = ''id'', at_fromResponse = False\<rparr>),
     (''POST /v1/tokens'', \<lparr>at_action = ''api_token.create'', at_resourceType = ''api_token'', at_idParam = [], at_fromResponse = True\<rparr>),
     (''DELETE /v1/tokens/{id}'', \<lparr>at_action = ''api_token.revoke'', at_resourceType = ''api_token'', at_idParam = ''id'', at_fromResponse = False\<rparr>),
     (''DELETE /v1/api-tokens/{id}'', \<lparr>at_action = ''api_token.revoke_any'', at_resourceType = ''api_token'', at_idParam = ''id'', at_fromResponse = False\<rparr>),
     (''POST /v1/agent-tokens'', \<lparr>at_action = ''agent_token.create'', at_resourceType = ''agent_token'', at_idParam = [], at_fromResponse = True\<rparr>),
     (''DELETE /v1/agent-tokens/{id}'', \<lparr>at_action = ''agent_token.revoke'', at_resourceType = ''agent_token'', at_idParam = ''id'', at_fromResponse = False\<rparr>)]"

definition auditServers :: "(string \<times> auditRoute) list" where
  "auditServers = [
     (''POST /v1/servers'', \<lparr>at_action = ''server.register'', at_resourceType = ''server'', at_idParam = [], at_fromResponse = True\<rparr>),
     (''PATCH /v1/servers/{id}'', \<lparr>at_action = ''server.update'', at_resourceType = ''server'', at_idParam = ''id'', at_fromResponse = False\<rparr>),
     (''DELETE /v1/servers/{id}'', \<lparr>at_action = ''server.delete'', at_resourceType = ''server'', at_idParam = ''id'', at_fromResponse = False\<rparr>),
     (''DELETE /v1/servers/{id}/agent-token'', \<lparr>at_action = ''server.agent_token_revoke'', at_resourceType = ''server'', at_idParam = ''id'', at_fromResponse = False\<rparr>),
     (''POST /v1/servers/{id}/agent-token/rotate'', \<lparr>at_action = ''server.agent_token_rotate'', at_resourceType = ''server'', at_idParam = ''id'', at_fromResponse = False\<rparr>),
     (''POST /v1/instances'', \<lparr>at_action = ''instance.connect'', at_resourceType = ''instance'', at_idParam = [], at_fromResponse = True\<rparr>),
     (''POST /v1/instances/provision'', \<lparr>at_action = ''instance.provision'', at_resourceType = ''instance'', at_idParam = [], at_fromResponse = True\<rparr>),
     (''PATCH /v1/instances/{id}'', \<lparr>at_action = ''instance.update'', at_resourceType = ''instance'', at_idParam = ''id'', at_fromResponse = False\<rparr>),
     (''DELETE /v1/instances/{id}'', \<lparr>at_action = ''instance.delete'', at_resourceType = ''instance'', at_idParam = ''id'', at_fromResponse = False\<rparr>),
     (''POST /v1/instances/{id}/start'', \<lparr>at_action = ''instance.start'', at_resourceType = ''instance'', at_idParam = ''id'', at_fromResponse = False\<rparr>),
     (''POST /v1/instances/{id}/stop'', \<lparr>at_action = ''instance.stop'', at_resourceType = ''instance'', at_idParam = ''id'', at_fromResponse = False\<rparr>),
     (''POST /v1/instances/{id}/restart'', \<lparr>at_action = ''instance.restart'', at_resourceType = ''instance'', at_idParam = ''id'', at_fromResponse = False\<rparr>),
     (''POST /v1/instances/{id}/db-users'', \<lparr>at_action = ''db_user.create'', at_resourceType = ''instance'', at_idParam = ''id'', at_fromResponse = False\<rparr>),
     (''POST /v1/instances/{id}/db-users/drop'', \<lparr>at_action = ''db_user.drop'', at_resourceType = ''instance'', at_idParam = ''id'', at_fromResponse = False\<rparr>),
     (''POST /v1/instances/{id}/db-users/password'', \<lparr>at_action = ''db_user.password'', at_resourceType = ''instance'', at_idParam = ''id'', at_fromResponse = False\<rparr>),
     (''POST /v1/instances/{id}/grants'', \<lparr>at_action = ''db_grant.add'', at_resourceType = ''instance'', at_idParam = ''id'', at_fromResponse = False\<rparr>),
     (''POST /v1/instances/{id}/grants/revoke'', \<lparr>at_action = ''db_grant.revoke'', at_resourceType = ''instance'', at_idParam = ''id'', at_fromResponse = False\<rparr>),
     (''POST /v1/instances/{id}/processes/{pid}/kill'', \<lparr>at_action = ''instance.kill_process'', at_resourceType = ''instance'', at_idParam = ''id'', at_fromResponse = False\<rparr>)]"

definition auditDatabases :: "(string \<times> auditRoute) list" where
  "auditDatabases = [
     (''POST /v1/databases'', \<lparr>at_action = ''database.create'', at_resourceType = ''database'', at_idParam = [], at_fromResponse = True\<rparr>),
     (''POST /v1/databases/{id}/lock'', \<lparr>at_action = ''database.lock'', at_resourceType = ''database'', at_idParam = ''id'', at_fromResponse = False\<rparr>),
     (''POST /v1/databases/{id}/unlock'', \<lparr>at_action = ''database.unlock'', at_resourceType = ''database'', at_idParam = ''id'', at_fromResponse = False\<rparr>),
     (''DELETE /v1/databases/{id}'', \<lparr>at_action = ''database.delete'', at_resourceType = ''database'', at_idParam = ''id'', at_fromResponse = False\<rparr>),
     (''POST /v1/databases/{id}/public-access'', \<lparr>at_action = ''public_access.enable'', at_resourceType = ''database'', at_idParam = ''id'', at_fromResponse = False\<rparr>),
     (''PATCH /v1/databases/{id}/public-access'', \<lparr>at_action = ''public_access.update_cidrs'', at_resourceType = ''database'', at_idParam = ''id'', at_fromResponse = False\<rparr>),
     (''DELETE /v1/databases/{id}/public-access'', \<lparr>at_action = ''public_access.disable'', at_resourceType = ''database'', at_idParam = ''id'', at_fromResponse = False\<rparr>),
     (''POST /v1/databases/{id}/credentials'', \<lparr>at_action = ''credential.create'', at_resourceType = ''database'', at_idParam = ''id'', at_fromResponse = False\<rparr>),
     (''POST /v1/databases/{id}/credentials/{credentialId}/rotate'', \<lparr>at_action = ''credential.rotate'', at_resourceType = ''database'', at_idParam = ''id'', at_fromResponse = False\<rparr>),
     (''DELETE /v1/databases/{id}/credentials/{credentialId}'', \<lparr>at_action = ''credential.revoke'', at_resourceType = ''database'', at_idParam = ''id'', at_fromResponse = False\<rparr>),
     (''POST /v1/databases/{id}/grants'', \<lparr>at_action = ''db_grant.add'', at_resourceType = ''database'', at_idParam = ''id'', at_fromResponse = False\<rparr>),
     (''POST /v1/databases/{id}/grants/revoke'', \<lparr>at_action = ''db_grant.revoke'', at_resourceType = ''database'', at_idParam = ''id'', at_fromResponse = False\<rparr>),
     (''POST /v1/databases/{id}/table-views'', \<lparr>at_action = ''table_view.create'', at_resourceType = ''database'', at_idParam = ''id'', at_fromResponse = False\<rparr>),
     (''PATCH /v1/databases/{id}/table-views/{viewId}'', \<lparr>at_action = ''table_view.update'', at_resourceType = ''database'', at_idParam = ''id'', at_fromResponse = False\<rparr>),
     (''DELETE /v1/databases/{id}/table-views/{viewId}'', \<lparr>at_action = ''table_view.delete'', at_resourceType = ''database'', at_idParam = ''id'', at_fromResponse = False\<rparr>),
     (''PUT /v1/databases/{id}/schema/watch'', \<lparr>at_action = ''schema.watch'', at_resourceType = ''database'', at_idParam = ''id'', at_fromResponse = False\<rparr>),
     (''POST /v1/moves'', \<lparr>at_action = ''database.move'', at_resourceType = ''operation'', at_idParam = [], at_fromResponse = True\<rparr>)]"

definition auditData :: "(string \<times> auditRoute) list" where
  "auditData = [
     (''POST /v1/databases/{id}/query'', \<lparr>at_action = ''sql.execute'', at_resourceType = ''database'', at_idParam = ''id'', at_fromResponse = False\<rparr>),
     (''POST /v1/databases/{id}/tables/{table}/rows'', \<lparr>at_action = ''data.row_insert'', at_resourceType = ''database'', at_idParam = ''id'', at_fromResponse = False\<rparr>),
     (''PATCH /v1/databases/{id}/tables/{table}/rows'', \<lparr>at_action = ''data.row_update'', at_resourceType = ''database'', at_idParam = ''id'', at_fromResponse = False\<rparr>),
     (''POST /v1/databases/{id}/tables/{table}/rows/delete'', \<lparr>at_action = ''data.row_delete'', at_resourceType = ''database'', at_idParam = ''id'', at_fromResponse = False\<rparr>),
     (''POST /v1/databases/{id}/tables/{table}/import'', \<lparr>at_action = ''data.import_csv'', at_resourceType = ''database'', at_idParam = ''id'', at_fromResponse = False\<rparr>),
     (''POST /v1/databases/{id}/import-sql'', \<lparr>at_action = ''data.import_sql'', at_resourceType = ''database'', at_idParam = ''id'', at_fromResponse = False\<rparr>),
     (''POST /v1/databases/{id}/changes/undo'', \<lparr>at_action = ''data.undo'', at_resourceType = ''database'', at_idParam = ''id'', at_fromResponse = False\<rparr>),
     (''POST /v1/databases/{id}/changes/{changeId}/undo'', \<lparr>at_action = ''data.undo'', at_resourceType = ''database'', at_idParam = ''id'', at_fromResponse = False\<rparr>),
     (''POST /v1/databases/{id}/backup-copies/{copyId}/restore-rows'', \<lparr>at_action = ''data.restore_rows'', at_resourceType = ''database'', at_idParam = ''id'', at_fromResponse = False\<rparr>),
     (''GET /v1/databases/{id}/tables/{table}/export'', \<lparr>at_action = ''data.export'', at_resourceType = ''database'', at_idParam = ''id'', at_fromResponse = False\<rparr>),
     (''POST /v1/databases/{id}/tables/{table}/export'', \<lparr>at_action = ''data.export'', at_resourceType = ''database'', at_idParam = ''id'', at_fromResponse = False\<rparr>),
     (''POST /v1/databases/{id}/export'', \<lparr>at_action = ''data.export'', at_resourceType = ''database'', at_idParam = ''id'', at_fromResponse = False\<rparr>),
     (''GET /v1/databases/{id}/dump'', \<lparr>at_action = ''data.dump'', at_resourceType = ''database'', at_idParam = ''id'', at_fromResponse = False\<rparr>),
     (''POST /v1/databases/{id}/tables'', \<lparr>at_action = ''table.create'', at_resourceType = ''database'', at_idParam = ''id'', at_fromResponse = False\<rparr>),
     (''PATCH /v1/databases/{id}/tables/{table}'', \<lparr>at_action = ''table.alter'', at_resourceType = ''database'', at_idParam = ''id'', at_fromResponse = False\<rparr>),
     (''POST /v1/databases/{id}/tables/{table}/drop'', \<lparr>at_action = ''table.drop'', at_resourceType = ''database'', at_idParam = ''id'', at_fromResponse = False\<rparr>),
     (''POST /v1/databases/{id}/tables/{table}/truncate'', \<lparr>at_action = ''table.truncate'', at_resourceType = ''database'', at_idParam = ''id'', at_fromResponse = False\<rparr>),
     (''POST /v1/databases/{id}/tables/{table}/rename'', \<lparr>at_action = ''table.rename'', at_resourceType = ''database'', at_idParam = ''id'', at_fromResponse = False\<rparr>),
     (''POST /v1/databases/{id}/tables/{table}/indexes'', \<lparr>at_action = ''index.create'', at_resourceType = ''database'', at_idParam = ''id'', at_fromResponse = False\<rparr>),
     (''POST /v1/databases/{id}/tables/{table}/indexes/drop'', \<lparr>at_action = ''index.drop'', at_resourceType = ''database'', at_idParam = ''id'', at_fromResponse = False\<rparr>),
     (''POST /v1/databases/{id}/backup-copies'', \<lparr>at_action = ''backup_copy.create'', at_resourceType = ''database'', at_idParam = ''id'', at_fromResponse = False\<rparr>),
     (''POST /v1/databases/{id}/backup-copies/{copyId}/extend'', \<lparr>at_action = ''backup_copy.extend'', at_resourceType = ''database'', at_idParam = ''id'', at_fromResponse = False\<rparr>),
     (''DELETE /v1/databases/{id}/backup-copies/{copyId}'', \<lparr>at_action = ''backup_copy.discard'', at_resourceType = ''database'', at_idParam = ''id'', at_fromResponse = False\<rparr>),
     (''POST /v1/fleet-runs'', \<lparr>at_action = ''fleet_run.create'', at_resourceType = ''fleet_run'', at_idParam = [], at_fromResponse = True\<rparr>),
     (''POST /v1/fleet-runs/{id}/resume'', \<lparr>at_action = ''fleet_run.resume'', at_resourceType = ''fleet_run'', at_idParam = ''id'', at_fromResponse = False\<rparr>),
     (''POST /v1/fleet-runs/{id}/cancel'', \<lparr>at_action = ''fleet_run.cancel'', at_resourceType = ''fleet_run'', at_idParam = ''id'', at_fromResponse = False\<rparr>),
     (''POST /v1/fleet-runs/{id}/retry'', \<lparr>at_action = ''fleet_run.retry'', at_resourceType = ''fleet_run'', at_idParam = ''id'', at_fromResponse = False\<rparr>),
     (''GET /v1/fleet-runs/{id}/results.csv'', \<lparr>at_action = ''fleet_run.export'', at_resourceType = ''fleet_run'', at_idParam = ''id'', at_fromResponse = False\<rparr>)]"

definition auditBackups :: "(string \<times> auditRoute) list" where
  "auditBackups = [
     (''POST /v1/backups'', \<lparr>at_action = ''backup.create'', at_resourceType = ''backup'', at_idParam = [], at_fromResponse = True\<rparr>),
     (''POST /v1/backups/{id}/restore'', \<lparr>at_action = ''backup.restore'', at_resourceType = ''backup'', at_idParam = ''id'', at_fromResponse = False\<rparr>),
     (''POST /v1/backups/{id}/verify'', \<lparr>at_action = ''backup.verify'', at_resourceType = ''backup'', at_idParam = ''id'', at_fromResponse = False\<rparr>),
     (''DELETE /v1/backups/{id}'', \<lparr>at_action = ''backup.delete'', at_resourceType = ''backup'', at_idParam = ''id'', at_fromResponse = False\<rparr>),
     (''GET /v1/backups/{id}/download'', \<lparr>at_action = ''backup.download'', at_resourceType = ''backup'', at_idParam = ''id'', at_fromResponse = False\<rparr>),
     (''POST /v1/backup-destinations'', \<lparr>at_action = ''backup_destination.create'', at_resourceType = ''backup_destination'', at_idParam = [], at_fromResponse = True\<rparr>),
     (''PATCH /v1/backup-destinations/{id}'', \<lparr>at_action = ''backup_destination.update'', at_resourceType = ''backup_destination'', at_idParam = ''id'', at_fromResponse = False\<rparr>),
     (''DELETE /v1/backup-destinations/{id}'', \<lparr>at_action = ''backup_destination.delete'', at_resourceType = ''backup_destination'', at_idParam = ''id'', at_fromResponse = False\<rparr>),
     (''POST /v1/backup-schedules'', \<lparr>at_action = ''backup_schedule.create'', at_resourceType = ''backup_schedule'', at_idParam = [], at_fromResponse = True\<rparr>),
     (''PATCH /v1/backup-schedules/{id}'', \<lparr>at_action = ''backup_schedule.update'', at_resourceType = ''backup_schedule'', at_idParam = ''id'', at_fromResponse = False\<rparr>),
     (''DELETE /v1/backup-schedules/{id}'', \<lparr>at_action = ''backup_schedule.delete'', at_resourceType = ''backup_schedule'', at_idParam = ''id'', at_fromResponse = False\<rparr>)]"

definition auditNotifications :: "(string \<times> auditRoute) list" where
  "auditNotifications = [
     (''POST /v1/notification-channels'', \<lparr>at_action = ''notification_channel.create'', at_resourceType = ''notification_channel'', at_idParam = [], at_fromResponse = True\<rparr>),
     (''PATCH /v1/notification-channels/{id}'', \<lparr>at_action = ''notification_channel.update'', at_resourceType = ''notification_channel'', at_idParam = ''id'', at_fromResponse = False\<rparr>),
     (''DELETE /v1/notification-channels/{id}'', \<lparr>at_action = ''notification_channel.delete'', at_resourceType = ''notification_channel'', at_idParam = ''id'', at_fromResponse = False\<rparr>),
     (''POST /v1/alert-rules'', \<lparr>at_action = ''alert_rule.create'', at_resourceType = ''alert_rule'', at_idParam = [], at_fromResponse = True\<rparr>),
     (''PATCH /v1/alert-rules/{id}'', \<lparr>at_action = ''alert_rule.update'', at_resourceType = ''alert_rule'', at_idParam = ''id'', at_fromResponse = False\<rparr>),
     (''DELETE /v1/alert-rules/{id}'', \<lparr>at_action = ''alert_rule.delete'', at_resourceType = ''alert_rule'', at_idParam = ''id'', at_fromResponse = False\<rparr>)]"

definition auditRoutes :: "(string \<times> auditRoute) list" where
  "auditRoutes = auditSession @ auditUsers @ auditServers @ auditDatabases @ auditData @ auditBackups @ auditNotifications"

subsection \<open>Patterns and matching\<close>

datatype patSeg = Lit string | Wild string

definition segOf :: "string \<Rightarrow> patSeg" where
  "segOf s = (if hasPrefix ''{'' s \<and> last s = CHR ''}'' then Wild (butlast (tl s)) else Lit s)"

definition patMethod :: "string \<Rightarrow> string" where
  "patMethod p = takeWhile (\<lambda>c. c \<noteq> CHR '' '') p"

definition patPath :: "string \<Rightarrow> patSeg list" where
  "patPath p = map segOf (splitByte (CHR ''/'') (drop (length (patMethod p) + 2) p))"

abbreviation rt_method :: "route \<Rightarrow> string" where "rt_method r \<equiv> patMethod (rt_pattern r)"
abbreviation rt_path :: "route \<Rightarrow> patSeg list" where "rt_path r \<equiv> patPath (rt_pattern r)"

definition literalNext :: "string \<Rightarrow> (patSeg list \<times> 'a) list \<Rightarrow> (patSeg list \<times> 'a) list" where
  "literalNext s ps = concat (map (\<lambda>(p, x). case p of Lit l # rest \<Rightarrow> if l = s then [(rest, x)] else [] | _ \<Rightarrow> []) ps)"

definition wildcardNext :: "(patSeg list \<times> 'a) list \<Rightarrow> (patSeg list \<times> 'a) list" where
  "wildcardNext ps = concat (map (\<lambda>(p, x). case p of Wild n # rest \<Rightarrow> [(rest, x)] | _ \<Rightarrow> []) ps)"

text \<open>The routing tree: a literal child first, then the wildcard child, which matches neither an empty
  segment nor one that is a slash.\<close>

fun muxPath :: "(patSeg list \<times> 'a) list \<Rightarrow> string list \<Rightarrow> ('a \<times> string list) option" where
  "muxPath ps [] = (case filter (\<lambda>p. fst p = []) ps of [] \<Rightarrow> None | p # _ \<Rightarrow> Some (snd p, []))"
| "muxPath ps (s # ss) =
     (case muxPath (literalNext s ps) ss of
        Some m \<Rightarrow> Some m
      | None \<Rightarrow>
          if s = [] \<or> s = ''/'' then None
          else case muxPath (wildcardNext ps) ss of None \<Rightarrow> None | Some (x, vs) \<Rightarrow> Some (x, s # vs))"

definition byMethod :: "string \<Rightarrow> route list \<Rightarrow> (patSeg list \<times> route) list" where
  "byMethod m rs = map (\<lambda>r. (rt_path r, r)) (filter (\<lambda>r. rt_method r = m) rs)"

text \<open>A HEAD request falls back to GET.\<close>

definition muxMatch :: "route list \<Rightarrow> string \<Rightarrow> string list \<Rightarrow> (route \<times> string list) option" where
  "muxMatch rs m segs = (case muxPath (byMethod m rs) segs of
     Some x \<Rightarrow> Some x | None \<Rightarrow> if m = ''HEAD'' then muxPath (byMethod ''GET'' rs) segs else None)"

definition muxOther :: "route list \<Rightarrow> string list \<Rightarrow> bool" where
  "muxOther rs segs \<longleftrightarrow> list_ex (\<lambda>r. muxPath [(rt_path r, r)] segs \<noteq> None) rs"

fun wildNames :: "patSeg list \<Rightarrow> string list" where
  "wildNames [] = []"
| "wildNames (Lit l # p) = wildNames p"
| "wildNames (Wild n # p) = n # wildNames p"

text \<open>\<open>r.PathValue\<close>: the segment a wildcard matched, empty for an unknown name.\<close>

definition pathValue :: "string \<Rightarrow> route \<times> string list \<Rightarrow> string" where
  "pathValue n m = (case map_of (zip (wildNames (rt_path (fst m))) (snd m)) n of None \<Rightarrow> [] | Some v \<Rightarrow> v)"

text \<open>\<open>r.URL.Path\<close>: the unescaped path.\<close>

definition urlPath :: "string list \<Rightarrow> string" where
  "urlPath segs = concat (map (\<lambda>s. CHR ''/'' # s) segs)"

end
