(* ===== verification/HttpStack.thy ===== *)
theory HttpStack
  imports Access Agents SignIn RouteTable
begin

text \<open>
  What a request passes before a handler runs: the middleware of \<open>NewRouter\<close> (\<open>interfaces/httpapi/router.go\<close>,
  \<open>ui.go\<close>, \<open>cors.go\<close>, \<open>middleware_auth.go\<close>, \<open>session_cookie.go\<close>), the routing on the table of
  \<open>RouteTable\<close>, and the wrapper of the route.  Logging, recovery from panics, response headers and the audit
  log (\<open>AuditLog\<close>) do not decide which handler runs.
\<close>

subsection \<open>Requests\<close>

text \<open>The header values are empty when a header is missing; \<open>hq_forwarded\<close> holds the values of
  \<open>X-Forwarded-For\<close> and \<open>hq_clean\<close> says that \<open>path.Clean\<close> leaves the escaped path as it is.\<close>

record httpReq =
  hq_method :: string
  hq_segs :: "string list"
  hq_clean :: bool
  hq_authorization :: string
  hq_cookie :: string
  hq_csrf :: string
  hq_forwarded :: "string list"
  hq_remote :: string

text \<open>\<open>RouterDeps\<close>: the switches, with the third-party functions behind the services; \<open>hc_uuid\<close> is
  \<open>uuid.Parse\<close>.\<close>

record httpConf =
  hc_ui :: bool
  hc_trustProxy :: bool
  hc_auth :: authEnv
  hc_agent :: agentEnv
  hc_nullId :: "apperr + uuid"
  hc_uuid :: "string \<Rightarrow> idText"

record httpState =
  hs_accounts :: accounts
  hs_store :: agentstore
  hs_login :: limiter
  hs_register :: limiter

datatype caller = Anyone | TheAgent server | TheUser principal

datatype httpReply = ToDashboard | Preflight | Moved | NoPage | BadMethod | TooManyRequests | Refuse apperr | Hangs
  | Ran string caller "string list"

subsection \<open>Who owns the path\<close>

definition apiOwnedPath :: "string \<Rightarrow> bool" where
  "apiOwnedPath p \<longleftrightarrow> p \<in> {''/healthz'', ''/readyz'', ''/openapi.yaml'', ''/docs'', ''/install.sh''}
     \<or> p = ''/v1'' \<or> hasPrefix ''/v1/'' p \<or> hasPrefix ''/agent/'' p"

subsection \<open>Authentication\<close>

definition publicPaths :: "string list" where
  "publicPaths = [''/healthz'', ''/readyz'', ''/v1/auth/login'', ''/openapi.yaml'', ''/docs'']"

definition skipsAuthn :: "string \<Rightarrow> bool" where
  "skipsAuthn p \<longleftrightarrow> p \<in> set publicPaths \<or> p = ''/install.sh'' \<or> p = ''/metrics'' \<or> hasPrefix ''/agent/'' p"

definition bearerToken :: "httpReq \<Rightarrow> string" where
  "bearerToken r = (if hasPrefix ''Bearer '' (hq_authorization r) then trimSpace (drop 7 (hq_authorization r)) else [])"

definition safeMethod :: "string \<Rightarrow> bool" where
  "safeMethod m \<longleftrightarrow> m = ''GET'' \<or> m = ''HEAD'' \<or> m = ''OPTIONS''"

definition authenticator :: "authEnv \<Rightarrow> httpReq \<Rightarrow> accounts \<Rightarrow> (apperr + principal option) \<times> accounts" where
  "authenticator e r s =
     (if skipsAuthn (urlPath (hq_segs r)) then (Inr None, s)
      else let bearer = bearerToken r; cred = (if bearer = [] then hq_cookie r else bearer)
           in if bearer = [] \<and> cred \<noteq> [] \<and> \<not> safeMethod (hq_method r) \<and> hq_csrf r = []
              then (Inl (Forbidden ''missing X-Fleetdock-CSRF header''), s)
              else case principalOf e cred s of (Inl er, s') \<Rightarrow> (Inl er, s') | (Inr p, s') \<Rightarrow> (Inr (Some p), s'))"

subsection \<open>The address of a caller\<close>

text \<open>\<open>net.SplitHostPort\<close>: the host of \<open>host:port\<close> or \<open>[host]:port\<close>.\<close>

definition splitHost :: "string \<Rightarrow> string option" where
  "splitHost hp =
     (let i = length hp - 1 - length (takeWhile (\<lambda>c. c \<noteq> CHR '':'') (rev hp));
          e = length (takeWhile (\<lambda>c. c \<noteq> CHR '']'') hp)
      in if CHR '':'' \<notin> set hp then None
         else if hd hp = CHR ''['' then
           (if e + 1 \<noteq> i \<or> CHR ''['' \<in> set (drop 1 hp) \<or> CHR '']'' \<in> set (drop (e + 1) hp) then None
            else Some (take (e - 1) (drop 1 hp)))
         else if CHR '':'' \<in> set (take i hp) \<or> CHR ''['' \<in> set hp \<or> CHR '']'' \<in> set hp then None
         else Some (take i hp))"

definition clientIP :: "httpReq \<Rightarrow> bool \<Rightarrow> string" where
  "clientIP r trust =
     (let entry = trimSpace (last (splitByte (CHR '','') (last (hq_forwarded r))));
          peer = (case splitHost (hq_remote r) of None \<Rightarrow> hq_remote r | Some host \<Rightarrow> host)
      in if trust \<and> hq_forwarded r \<noteq> [] \<and> entry \<noteq> [] then entry else peer)"

subsection \<open>The wrapper of a route\<close>

definition theLimiter :: "whichLimiter \<Rightarrow> httpState \<Rightarrow> limiter" where
  "theLimiter l st = (case l of LoginLimiter \<Rightarrow> hs_login st | RegisterLimiter \<Rightarrow> hs_register st)"

definition putLimiter :: "whichLimiter \<Rightarrow> limiter \<Rightarrow> httpState \<Rightarrow> httpState" where
  "putLimiter l x st = (case l of LoginLimiter \<Rightarrow> st\<lparr>hs_login := x\<rparr> | RegisterLimiter \<Rightarrow> st\<lparr>hs_register := x\<rparr>)"

definition asReply :: "principal option \<Rightarrow> apperr option option \<Rightarrow> httpReply + caller" where
  "asReply p r = (case r of
     None \<Rightarrow> Inl Hangs
   | Some (Some er) \<Rightarrow> Inl (Refuse er)
   | Some None \<Rightarrow> Inr (case p of None \<Rightarrow> Anyone | Some q \<Rightarrow> TheUser q))"

definition wrapper :: "httpConf \<Rightarrow> int \<Rightarrow> httpReq \<Rightarrow> principal option \<Rightarrow> route \<times> string list \<Rightarrow> httpState
    \<Rightarrow> (httpReply + caller) \<times> httpState" where
  "wrapper c now r p m st = (case rt_guard (fst m) of
     GuardNone \<Rightarrow> (Inr Anyone, st)
   | GuardLimited l \<Rightarrow> (case limiterAllow now (clientIP r (hc_trustProxy c)) (theLimiter l st) of
       (ok, x) \<Rightarrow> (if ok then Inr Anyone else Inl TooManyRequests, putLimiter l x st))
   | GuardAgent \<Rightarrow> ((case agentAuth (hc_agent c) (bearerToken r) (hs_store st) of
       Inl er \<Rightarrow> Inl (Refuse er) | Inr s \<Rightarrow> Inr (TheAgent s)), st)
   | GuardPerm perm \<Rightarrow> (asReply p (Some (requirePerm p perm)), st)
   | GuardAnyPerm perm \<Rightarrow> (asReply p (Some (requireAnyPerm p perm)), st)
   | GuardResource perm t n \<Rightarrow>
       (asReply p (requireResourcePerm (hc_nullId c) (hs_store st) p perm t n (hc_uuid c (pathValue n m))), st))"

subsection \<open>The whole chain\<close>

definition toRoute :: "httpConf \<Rightarrow> int \<Rightarrow> httpReq \<Rightarrow> principal option \<Rightarrow> httpState \<Rightarrow> httpReply \<times> httpState" where
  "toRoute c now r p st =
     (if \<not> hq_clean r \<and> hq_method r \<noteq> ''CONNECT'' then (Moved, st)
      else case muxMatch routes (hq_method r) (hq_segs r) of
        None \<Rightarrow> (if muxOther routes (hq_segs r) then BadMethod else NoPage, st)
      | Some m \<Rightarrow> (case wrapper c now r p m st of
          (Inl reply, st') \<Rightarrow> (reply, st')
        | (Inr who, st') \<Rightarrow> (Ran (rt_handler (fst m)) who (snd m), st')))"

definition serve :: "httpConf \<Rightarrow> int \<Rightarrow> httpReq \<Rightarrow> httpState \<Rightarrow> httpReply \<times> httpState" where
  "serve c now r st =
     (if hc_ui c \<and> \<not> apiOwnedPath (urlPath (hq_segs r)) then (ToDashboard, st)
      else if hq_method r = ''OPTIONS'' then (Preflight, st)
      else case authenticator (hc_auth c) r (hs_accounts st) of
        (Inl er, ac) \<Rightarrow> (Refuse er, st\<lparr>hs_accounts := ac\<rparr>)
      | (Inr p, ac) \<Rightarrow> toRoute c now r p (st\<lparr>hs_accounts := ac\<rparr>))"

subsection \<open>What the table promises\<close>

definition openGuard :: "routeGuard \<Rightarrow> bool" where
  "openGuard g = (case g of GuardNone \<Rightarrow> True | GuardLimited _ \<Rightarrow> True | GuardAgent \<Rightarrow> True | _ \<Rightarrow> False)"

text \<open>The collection of a resource type in the URLs.\<close>

fun collectionOf :: "resourceType \<Rightarrow> string" where
  "collectionOf ResourceServer = ''servers''"
| "collectionOf ResourceInstance = ''instances''"
| "collectionOf ResourceDatabase = ''databases''"
| "collectionOf ResourceBackup = ''backups''"
| "collectionOf ResourceOperation = ''operations''"

fun guardTyped :: "patSeg list \<Rightarrow> routeGuard \<Rightarrow> bool" where
  "guardTyped p (GuardPerm perm) = (perm = [] \<or> perm \<in> set permissionCatalog)"
| "guardTyped p (GuardAnyPerm perm) = (perm \<in> set permissionCatalog)"
| "guardTyped p (GuardResource perm t n) =
     (perm \<in> set permissionCatalog \<and> take 3 p = [Lit ''v1'', Lit (collectionOf t), Wild n])"
| "guardTyped p g = True"

definition routeTyped :: "route \<Rightarrow> bool" where
  "routeTyped r \<longleftrightarrow> rt_method r \<in> {''GET'', ''POST'', ''PUT'', ''PATCH'', ''DELETE''}
     \<and> distinct (wildNames (rt_path r)) \<and> guardTyped (rt_path r) (rt_guard r)"

text \<open>An audited route is registered, and the value naming its resource is one of its wildcards; a route whose
  resource comes from the response has no such wildcard.\<close>

definition auditParam :: "string \<times> auditRoute \<Rightarrow> bool" where
  "auditParam a \<longleftrightarrow> (at_idParam (snd a) \<noteq> [] \<longrightarrow> at_idParam (snd a) \<in> set (wildNames (patPath (fst a))) \<and> \<not> at_fromResponse (snd a))"

definition auditTyped :: "route list \<Rightarrow> string \<times> auditRoute \<Rightarrow> bool" where
  "auditTyped rs a \<longleftrightarrow> list_ex (\<lambda>r. rt_pattern r = fst a) rs \<and> auditParam a"


lemmas route_sections = routes_def list_all_append

lemma routes_typed_1:
  "list_all routeTyped systemRoutes" "list_all routeTyped agentRoutes" "list_all routeTyped authRoutes"
  by code_simp+

lemma routes_typed_2:
  "list_all routeTyped userRoutes" "list_all routeTyped serverRoutes" "list_all routeTyped instanceRoutes"
  by code_simp+

lemma routes_typed_3:
  "list_all routeTyped databaseRoutes" "list_all routeTyped instanceAdminRoutes" "list_all routeTyped databaseAdminRoutes"
  by code_simp+

lemma routes_typed_4:
  "list_all routeTyped copyRoutes" "list_all routeTyped fleetRoutes" "list_all routeTyped backupRoutes"
  by code_simp+

lemma routes_typed_5:
  "list_all routeTyped backupPlanRoutes" "list_all routeTyped notificationRoutes" "list_all routeTyped tokenRoutes"
  by code_simp+

lemmas routes_typed = routes_typed_1 routes_typed_2 routes_typed_3 routes_typed_4 routes_typed_5

text \<open>The keys of an audit table by their positions in the route tables.\<close>

definition listedAt :: "route list \<Rightarrow> (string \<times> auditRoute) list \<Rightarrow> nat list \<Rightarrow> bool" where
  "listedAt rs as is \<longleftrightarrow> map fst as = map (\<lambda>i. rt_pattern (rs ! i)) is \<and> list_all (\<lambda>i. i < length rs) is"

lemma listedAt_registered: "listedAt rs as is \<Longrightarrow> set rs \<subseteq> set routes \<Longrightarrow> list_all (\<lambda>a. list_ex (\<lambda>r. rt_pattern r = fst a) routes) as"
  unfolding listedAt_def list_all_iff list_ex_iff
  by (metis (no_types, lifting) imageE image_eqI list.set_map nth_mem subsetD)

lemma listed_auditSession: "listedAt (authRoutes) auditSession [0, 2, 4, 5]"
  by code_simp

lemma listed_auditUsers: "listedAt (userRoutes @ tokenRoutes @ serverRoutes) auditUsers [1, 2, 3, 4, 6, 7, 9, 10, 11, 14, 16, 18, 28, 30]"
  by code_simp

lemma listed_auditServers: "listedAt (serverRoutes @ instanceRoutes @ instanceAdminRoutes) auditServers [0, 3, 4, 5, 6, 11, 12, 15, 16, 17, 18, 19, 22, 23, 24, 26, 27, 29]"
  by code_simp

lemma listed_auditDatabases: "listedAt (databaseRoutes @ databaseAdminRoutes @ copyRoutes @ backupRoutes) auditDatabases [0, 3, 4, 5, 7, 8, 9, 11, 12, 13, 15, 16, 41, 42, 43, 57, 71]"
  by code_simp

lemma listed_auditData: "listedAt (fleetRoutes @ databaseAdminRoutes @ copyRoutes) auditData [9, 31, 32, 33, 34, 13, 59, 60, 57, 28, 29, 12, 11, 35, 36, 37, 38, 39, 40, 41, 52, 54, 55, 1, 6, 7, 8, 5]"
  by code_simp

lemma listed_auditBackups: "listedAt (backupRoutes @ backupPlanRoutes) auditBackups [3, 6, 9, 8, 7, 11, 13, 14, 16, 18, 19]"
  by code_simp

lemma listed_auditNotifications: "listedAt (notificationRoutes) auditNotifications [0, 2, 3, 5, 7, 8]"
  by code_simp

lemmas audit_listed = listed_auditSession listed_auditUsers listed_auditServers listed_auditDatabases listed_auditData listed_auditBackups listed_auditNotifications

lemma audit_params:
  "list_all auditParam auditSession"
  "list_all auditParam auditUsers"
  "list_all auditParam auditServers"
  "list_all auditParam auditDatabases"
  "list_all auditParam auditData"
  "list_all auditParam auditBackups"
  "list_all auditParam auditNotifications"
  by code_simp+


end
