(* ===== verification/Guarded.thy ===== *)
theory Guarded
  imports HttpStack Enrolment
begin

text \<open>
  Which requests reach which handler: the paths the authenticator lets through are exactly those of the routes
  that guard themselves, and whatever runs has passed the guard of its route.
\<close>

subsection \<open>Matching\<close>

text \<open>A path that fits a pattern, with the values of its wildcards.\<close>

fun fits :: "patSeg list \<Rightarrow> string list \<Rightarrow> string list \<Rightarrow> bool" where
  "fits [] [] [] = True"
| "fits (Lit l # p) (s # ss) vs = (l = s \<and> fits p ss vs)"
| "fits (Wild n # p) (s # ss) (v # vs) = (v = s \<and> s \<noteq> [] \<and> s \<noteq> ''/'' \<and> fits p ss vs)"
| "fits _ _ _ = False"

fun_cases fits_LitE: "fits (Lit l # p) ss vs" and fits_WildE: "fits (Wild n # p) ss vs"

lemma literalNext_iff: "(p, x) \<in> set (literalNext s ps) \<longleftrightarrow> (Lit s # p, x) \<in> set ps"
  by (force simp: literalNext_def split: list.splits patSeg.splits if_splits)

lemma wildcardNext_iff: "(p, x) \<in> set (wildcardNext ps) \<longleftrightarrow> (\<exists>n. (Wild n # p, x) \<in> set ps)"
  by (force simp: wildcardNext_def split: list.splits patSeg.splits)

lemma muxPath_Some: "muxPath ps ss = Some (x, vs) \<Longrightarrow> \<exists>p. (p, x) \<in> set ps \<and> fits p ss vs"
proof (induction ps ss arbitrary: vs rule: muxPath.induct)
  case (1 ps)
  then obtain p qs where "filter (\<lambda>p. fst p = []) ps = p # qs" "x = snd p" "vs = []"
    by (cases "filter (\<lambda>p. fst p = []) ps") simp_all
  moreover from this(1) have "p \<in> set (filter (\<lambda>p. fst p = []) ps)" by simp
  then have "p \<in> set ps" "fst p = []" by simp_all
  ultimately show ?case by (metis fits.simps(1) prod.collapse)
next
  case (2 ps s ss)
  show ?case
  proof (cases "muxPath (literalNext s ps) ss")
    case None
    with 2(3) obtain ws where w: "\<not> (s = [] \<or> s = ''/'')" "muxPath (wildcardNext ps) ss = Some (x, ws)" "vs = s # ws"
      by (auto split: if_splits option.splits)
    from 2(2) [OF None w(1,2)] obtain p where "(p, x) \<in> set (wildcardNext ps)" "fits p ss ws" by blast
    then obtain n where "(Wild n # p, x) \<in> set ps" by (auto simp: wildcardNext_iff)
    then show ?thesis using w \<open>fits p ss ws\<close> by (intro exI [of _ "Wild n # p"]) simp
  next
    case (Some y)
    with 2(3) have "muxPath (literalNext s ps) ss = Some (x, vs)" by simp
    from 2(1) [OF this] obtain p where "(p, x) \<in> set (literalNext s ps)" "fits p ss vs" by blast
    then show ?thesis by (auto simp: literalNext_iff intro!: exI [of _ "Lit s # p"])
  qed
qed

lemma muxPath_None: "(p, x) \<in> set ps \<Longrightarrow> fits p ss vs \<Longrightarrow> muxPath ps ss \<noteq> None"
proof (induction ps ss arbitrary: p vs rule: muxPath.induct)
  case (1 ps)
  then have "p = []" by (cases "(p, [] :: string list, vs)" rule: fits.cases) auto
  with 1 show ?case by (force simp: filter_empty_conv split: list.splits)
next
  case (2 ps s ss)
  note IH = 2(1,2) and mem = 2(3)
  from 2(4) consider (lit) q where "p = Lit s # q" "fits q ss vs"
    | (wild) n q ws where "p = Wild n # q" "fits q ss ws" "s \<noteq> []" "s \<noteq> ''/''"
    by (cases "(p, s # ss, vs)" rule: fits.cases) auto
  then show ?case
  proof cases
    case lit
    then have "(q, x) \<in> set (literalNext s ps)" using mem by (simp add: literalNext_iff)
    from IH(1) [OF this lit(2)] show ?thesis by (auto split: option.splits)
  next
    case wild
    then have q: "(q, x) \<in> set (wildcardNext ps)" using mem by (auto simp: wildcardNext_iff)
    show ?thesis
    proof (cases "muxPath (literalNext s ps) ss")
      case None
      from IH(2) [OF None _ q wild(2)] show ?thesis using None wild(3,4) by (auto split: option.splits)
    qed simp
  qed
qed


definition methodFits :: "string \<Rightarrow> route \<Rightarrow> bool" where
  "methodFits m r \<longleftrightarrow> rt_method r = m \<or> (m = ''HEAD'' \<and> rt_method r = ''GET'')"

lemma byMethod_mem: "(p, r) \<in> set (byMethod m rs) \<Longrightarrow> r \<in> set rs \<and> p = rt_path r \<and> rt_method r = m"
  by (auto simp: byMethod_def)

lemma muxMatch_Some:
  assumes "muxMatch rs m segs = Some (r, vs)"
  shows "r \<in> set rs \<and> fits (rt_path r) segs vs \<and> methodFits m r"
proof -
  from assms have "muxPath (byMethod m rs) segs = Some (r, vs) \<or> (m = ''HEAD'' \<and> muxPath (byMethod ''GET'' rs) segs = Some (r, vs))"
    by (auto simp: muxMatch_def split: option.splits if_splits)
  then show ?thesis unfolding methodFits_def by (metis byMethod_mem muxPath_Some)
qed

subsection \<open>Paths that guard themselves\<close>

text \<open>The text of a path up to its first wildcard.\<close>

fun litPath :: "patSeg list \<Rightarrow> string" where
  "litPath [] = []"
| "litPath (Lit l # p) = CHR ''/'' # l @ litPath p"
| "litPath (Wild n # p) = ''/''"

lemma urlPath_simps [simp]: "urlPath [] = []" "urlPath (s # ss) = CHR ''/'' # s @ urlPath ss"
  by (simp_all add: urlPath_def)

lemma fits_urlPath: "fits p ss vs \<Longrightarrow> if wildNames p = [] then urlPath ss = litPath p else hasPrefix (litPath p) (urlPath ss)"
  by (induction p ss vs rule: fits.induct) (auto simp: hasPrefix_iff split: if_splits)

lemma hasPrefix_longer: "hasPrefix a s \<Longrightarrow> hasPrefix b s \<Longrightarrow> length a \<le> length b \<Longrightarrow> hasPrefix a b"
  by (auto simp: hasPrefix_iff intro: prefix_length_prefix)

definition selfGuarded :: "route \<Rightarrow> bool" where
  "selfGuarded r \<longleftrightarrow> (let q = litPath (rt_path r); open = openGuard (rt_guard r)
     in if wildNames (rt_path r) = [] then skipsAuthn q = open
        else if open then hasPrefix ''/agent/'' q
        else \<not> hasPrefix ''/agent/'' q \<and> 7 \<le> length q
          \<and> list_all (\<lambda>x. \<not> hasPrefix q x) (''/install.sh'' # ''/metrics'' # publicPaths))"

lemma selfGuarded_skips:
  assumes "selfGuarded r" "fits (rt_path r) ss vs"
  shows "skipsAuthn (urlPath ss) \<longleftrightarrow> openGuard (rt_guard r)"
proof (cases "wildNames (rt_path r) = []")
  case True
  then show ?thesis using assms fits_urlPath [OF assms(2)] by (simp add: selfGuarded_def Let_def)
next
  case False
  let ?q = "litPath (rt_path r)"
  have q: "hasPrefix ?q (urlPath ss)" using fits_urlPath [OF assms(2)] False by simp
  show ?thesis
  proof (cases "openGuard (rt_guard r)")
    case True
    then have "hasPrefix ''/agent/'' ?q" using assms(1) False by (simp add: selfGuarded_def Let_def)
    then have "hasPrefix ''/agent/'' (urlPath ss)" using q by (auto simp: hasPrefix_iff)
    then show ?thesis using True by (simp add: skipsAuthn_def)
  next
    case closed: False
    then have "\<not> hasPrefix ''/agent/'' ?q" "7 \<le> length ?q"
      and no: "\<forall>x \<in> set (''/install.sh'' # ''/metrics'' # publicPaths). \<not> hasPrefix ?q x"
      using assms(1) False by (simp_all add: selfGuarded_def Let_def list_all_iff)
    then have "\<not> hasPrefix ''/agent/'' (urlPath ss)" using hasPrefix_longer [OF _ q, of "''/agent/''"] by auto
    moreover have "urlPath ss \<notin> set (''/install.sh'' # ''/metrics'' # publicPaths)" using no q by blast
    ultimately show ?thesis using closed by (simp add: skipsAuthn_def)
  qed
qed

text \<open>The same for the split between the API and the dashboard.\<close>

definition apiRoute :: "route \<Rightarrow> bool" where
  "apiRoute r \<longleftrightarrow> (let q = litPath (rt_path r)
     in if wildNames (rt_path r) = [] then apiOwnedPath q else hasPrefix ''/v1/'' q \<or> hasPrefix ''/agent/'' q)"

lemma apiRoute_owned: "apiRoute r \<Longrightarrow> fits (rt_path r) ss vs \<Longrightarrow> apiOwnedPath (urlPath ss)"
  using fits_urlPath [of "rt_path r" ss vs]
  by (auto simp: apiRoute_def Let_def apiOwnedPath_def hasPrefix_iff split: if_splits)

definition routeSound :: "route \<Rightarrow> bool" where
  "routeSound r \<longleftrightarrow> selfGuarded r \<and> (rt_pattern r \<noteq> ''GET /metrics'' \<longrightarrow> apiRoute r)"

lemma routes_sound_1:
  "list_all routeSound systemRoutes" "list_all routeSound agentRoutes" "list_all routeSound authRoutes"
  by code_simp+

lemma routes_sound_2:
  "list_all routeSound userRoutes" "list_all routeSound serverRoutes" "list_all routeSound instanceRoutes"
  by code_simp+

lemma routes_sound_3:
  "list_all routeSound databaseRoutes" "list_all routeSound instanceAdminRoutes" "list_all routeSound databaseAdminRoutes"
  by code_simp+

lemma routes_sound_4:
  "list_all routeSound copyRoutes" "list_all routeSound fleetRoutes" "list_all routeSound backupRoutes"
  by code_simp+

lemma routes_sound_5:
  "list_all routeSound backupPlanRoutes" "list_all routeSound notificationRoutes" "list_all routeSound tokenRoutes"
  by code_simp+

lemma routes_sound: "r \<in> set routes \<Longrightarrow> routeSound r"
  using routes_sound_1 routes_sound_2 routes_sound_3 routes_sound_4 routes_sound_5
  by (auto simp: routes_def list_all_iff)

subsection \<open>Complete mediation\<close>

definition credentialOf :: "httpReq \<Rightarrow> string" where
  "credentialOf r = (if bearerToken r = [] then hq_cookie r else bearerToken r)"

text \<open>What a caller must hold for each guard of a user's route.\<close>

definition holds :: "httpConf \<Rightarrow> 'a backupstore_scheme \<Rightarrow> principal \<Rightarrow> route \<times> string list \<Rightarrow> bool" where
  "holds c w p m \<longleftrightarrow> (case rt_guard (fst m) of
     GuardPerm perm \<Rightarrow> perm = [] \<or> can (Some p) perm
   | GuardAnyPerm perm \<Rightarrow> canAny (Some p) perm
   | GuardResource perm t n \<Rightarrow> (case parseId (hc_uuid c (pathValue n m)) of
       None \<Rightarrow> False
     | Some i \<Rightarrow> (case ancestryOf (hc_nullId c) w (Some t) i of
         Some (Inr anc) \<Rightarrow> canOn (Some p) perm anc
       | _ \<Rightarrow> False))
   | _ \<Rightarrow> True)"

lemma asReply_Inr: "asReply p r = Inr who \<longleftrightarrow> r = Some None \<and> who = (case p of None \<Rightarrow> Anyone | Some q \<Rightarrow> TheUser q)"
  by (auto simp: asReply_def split: option.splits)

lemma requireResourcePerm_pass:
  "requireResourcePerm nullId w p perm t n idt = Some None
     \<longleftrightarrow> (\<exists>q i anc. p = Some q \<and> parseId idt = Some i \<and> ancestryOf nullId w (Some t) i = Some (Inr anc) \<and> canOn (Some q) perm anc)"
proof (cases "p = None \<or> parseId idt = None")
  case False
  then obtain q i where q: "p = Some q" "parseId idt = Some i" by auto
  show ?thesis
  proof (cases "ancestryOf nullId w (Some t) i")
    case (Some r)
    then show ?thesis using q by (cases r) (simp_all add: requireResourcePerm_def)
  qed (use q in \<open>simp add: requireResourcePerm_def\<close>)
qed (auto simp: requireResourcePerm_def split: option.split)

lemma wrapper_refuses: "wrapper c now r p m st = (Inl reply, st') \<Longrightarrow> reply \<noteq> Ran h who vs"
  by (auto simp: wrapper_def asReply_def split: routeGuard.splits sum.splits prod.splits if_splits option.splits)

lemma wrapper_Inr:
  assumes "wrapper c now r p m st = (Inr who, st')"
  shows "case rt_guard (fst m) of
      GuardNone \<Rightarrow> who = Anyone
    | GuardLimited l \<Rightarrow> who = Anyone \<and> fst (limiterAllow now (clientIP r (hc_trustProxy c)) (theLimiter l st))
    | GuardAgent \<Rightarrow> (\<exists>s. who = TheAgent s \<and> agentAuth (hc_agent c) (bearerToken r) (hs_store st) = Inr s)
    | _ \<Rightarrow> (\<exists>q. p = Some q \<and> who = TheUser q \<and> holds c (hs_store st) q m)"
  using assms
  by (cases "rt_guard (fst m)")
    (auto simp: wrapper_def asReply_Inr requirePerm_def requireAnyPerm_def requireResourcePerm_pass holds_def
      split: sum.splits prod.splits if_splits)

lemma authenticator_Inr:
  assumes "authenticator e r s = (Inr p, s')"
  shows "if skipsAuthn (urlPath (hq_segs r)) then p = None
    else \<exists>q. p = Some q \<and> principalOf e (credentialOf r) s = (Inr q, s')
      \<and> (bearerToken r = [] \<longrightarrow> safeMethod (hq_method r) \<or> hq_csrf r \<noteq> [] \<or> hq_cookie r = [])"
  using assms by (auto simp: authenticator_def credentialOf_def Let_def split: if_splits prod.splits sum.splits)

text \<open>C18. Every handler that runs has passed its guard.  The handler is the one of a registered route that fits the
  request; a route that guards itself is reached without a user, an agent's route only with the token of that
  agent, and any other route only as an account whose credential the request carries, with what the guard
  asks for in the path of that very request (and never by the cookie alone when the method may change
  something).\<close>

theorem request_guarded:
  assumes "serve c now r st = (Ran h who vs, st')"
  shows "\<exists>x \<in> set routes. rt_handler x = h \<and> methodFits (hq_method r) x \<and> fits (rt_path x) (hq_segs r) vs \<and>
    (case rt_guard x of
       GuardNone \<Rightarrow> who = Anyone
     | GuardLimited l \<Rightarrow> who = Anyone \<and> fst (limiterAllow now (clientIP r (hc_trustProxy c)) (theLimiter l st))
     | GuardAgent \<Rightarrow> (\<exists>s. who = TheAgent s \<and> agentAuth (hc_agent c) (bearerToken r) (hs_store st) = Inr s)
     | _ \<Rightarrow> (\<exists>q ac. who = TheUser q \<and> principalOf (hc_auth c) (credentialOf r) (hs_accounts st) = (Inr q, ac)
         \<and> (bearerToken r = [] \<longrightarrow> safeMethod (hq_method r) \<or> hq_csrf r \<noteq> [] \<or> hq_cookie r = [])
         \<and> holds c (hs_store st) q (x, vs)))"
proof -
  from assms obtain p ac x where a: "authenticator (hc_auth c) r (hs_accounts st) = (Inr p, ac)"
    and m: "muxMatch routes (hq_method r) (hq_segs r) = Some (x, vs)" and h: "rt_handler x = h"
    and w: "wrapper c now r p (x, vs) (st\<lparr>hs_accounts := ac\<rparr>) = (Inr who, st')"
    by (auto simp: serve_def toRoute_def dest: wrapper_refuses split: if_splits prod.splits sum.splits option.splits)
  from muxMatch_Some [OF m] have x: "x \<in> set routes" "fits (rt_path x) (hq_segs r) vs" "methodFits (hq_method r) x" by simp_all
  have skips: "skipsAuthn (urlPath (hq_segs r)) \<longleftrightarrow> openGuard (rt_guard x)"
    using selfGuarded_skips [OF _ x(2)] routes_sound [OF x(1)] by (simp add: routeSound_def)
  have [simp]: "theLimiter l (st\<lparr>hs_accounts := ac\<rparr>) = theLimiter l st" for l
    by (simp add: theLimiter_def split: whichLimiter.split)
  show ?thesis
    using wrapper_Inr [OF w] authenticator_Inr [OF a] skips x h
    by (intro bexI [of _ x]) (auto simp: openGuard_def split: routeGuard.splits)
qed

definition exFront :: httpState where
  "exFront = \<lparr>hs_accounts = exTokens, hs_store = noHosts, hs_login = \<lparr>li_hits = Map.empty, li_limit = 10, li_window = 60\<rparr>,
     hs_register = \<lparr>li_hits = Map.empty, li_limit = 10, li_window = 60\<rparr>\<rparr>"

definition exConf :: httpConf where
  "exConf = \<lparr>hc_ui = False, hc_trustProxy = False, hc_auth = exAuthEnv, hc_agent = exAgentEnv, hc_nullId = Inr uuid_nil,
     hc_uuid = (\<lambda>s. IdBad)\<rparr>"

text \<open>A request of the API token of the example to create another token, and one without credential.\<close>

definition exTokenReq :: httpReq where
  "exTokenReq = \<lparr>hq_method = ''POST'', hq_segs = [''v1'', ''tokens''], hq_clean = True, hq_authorization = ''Bearer fleetd_9'',
     hq_cookie = [], hq_csrf = [], hq_forwarded = [], hq_remote = ''10.0.0.1:80''\<rparr>"

definition exAnonymous :: httpReq where
  "exAnonymous = exTokenReq\<lparr>hq_method := ''HEAD'', hq_segs := [''docs''], hq_authorization := []\<rparr>"

lemma exMatches:
  "muxMatch routes ''POST'' [''v1'', ''tokens''] = Some (Route ''POST /v1/tokens'' (GuardPerm ''token:write'') ''Tokens.Create'', [])"
  "muxMatch routes ''HEAD'' [''docs''] = Some (Route ''GET /docs'' GuardNone ''Docs.Page'', [])"
  by code_simp+

lemma exTokenReq_runs: "\<exists>st'. serve exConf 0 exTokenReq exFront = (Ran ''Tokens.Create'' (TheUser exPrincipal) [], st')"
proof -
  have "\<not> skipsAuthn ''/v1/tokens''" "bearerToken exTokenReq = ''fleetd_9''" by code_simp+
  moreover have "hq_segs exTokenReq = [''v1'', ''tokens'']" "hq_method exTokenReq = ''POST''" "hq_clean exTokenReq"
    by (simp_all add: exTokenReq_def)
  moreover have "hs_accounts exFront = exTokens" "hc_auth exConf = exAuthEnv" "\<not> hc_ui exConf" by (simp_all add: exFront_def exConf_def)
  moreover have "can (Some exPrincipal) ''token:write''" by code_simp
  moreover obtain s1 where "principalOf exAuthEnv ''fleetd_9'' exTokens = (Inr exPrincipal, s1)" using exPrincipal_of by blast
  ultimately show ?thesis
    using exMatches(1)
    by (simp add: serve_def authenticator_def toRoute_def wrapper_def requirePerm_def asReply_def split: prod.split)
qed

theorem request_guarded_witness:
  "\<exists>x \<in> set routes. rt_handler x = ''Tokens.Create'' \<and> fits (rt_path x) [''v1'', ''tokens''] []"
proof -
  obtain st' where "serve exConf 0 exTokenReq exFront = (Ran ''Tokens.Create'' (TheUser exPrincipal) [], st')"
    using exTokenReq_runs by blast
  from request_guarded [OF this] show ?thesis by (auto simp: exTokenReq_def)
qed

subsection \<open>Without a credential\<close>

definition anonymousHandlers :: "string list" where
  "anonymousHandlers = [''healthz'', ''readyz'', ''metrics'', ''Docs.Spec'', ''Docs.Page'', ''Install.Script'', ''Install.Binary'',
     ''Install.BinarySum'', ''Agents.Register'', ''Auth.Login'']"

definition unguarded :: "route \<Rightarrow> bool" where
  "unguarded r \<longleftrightarrow> openGuard (rt_guard r) \<and> rt_guard r \<noteq> GuardAgent"

lemma unguarded_handlers: "map rt_handler (filter unguarded routes) = anonymousHandlers"
  unfolding routes_def filter_append map_append by code_simp

lemma principalOf_empty: "fst (principalOf e [] s) = Inl (Unauthorized ''missing credential'')"
  by (simp add: principalOf_def)

text \<open>C19. A request that carries neither a bearer token nor a session cookie runs nothing but the health checks, the
  documentation, the files an agent is installed from, and the two handlers that take a secret in the
  body, which are limited.  (The metrics handler asks for its own token.)\<close>

theorem anonymous_reach:
  assumes "serve c now r st = (Ran h who vs, st')" "bearerToken r = []" "hq_cookie r = []"
  shows "h \<in> set anonymousHandlers \<and> who = Anyone"
proof -
  from request_guarded [OF assms(1)] obtain x where x: "x \<in> set routes" "rt_handler x = h"
    and g: "case rt_guard x of
       GuardNone \<Rightarrow> who = Anyone
     | GuardLimited l \<Rightarrow> who = Anyone \<and> fst (limiterAllow now (clientIP r (hc_trustProxy c)) (theLimiter l st))
     | GuardAgent \<Rightarrow> (\<exists>s. who = TheAgent s \<and> agentAuth (hc_agent c) (bearerToken r) (hs_store st) = Inr s)
     | _ \<Rightarrow> (\<exists>q ac. who = TheUser q \<and> principalOf (hc_auth c) (credentialOf r) (hs_accounts st) = (Inr q, ac)
         \<and> (bearerToken r = [] \<longrightarrow> safeMethod (hq_method r) \<or> hq_csrf r \<noteq> [] \<or> hq_cookie r = [])
         \<and> holds c (hs_store st) q (x, vs))" by blast
  have "credentialOf r = []" using assms(2,3) by (simp add: credentialOf_def)
  then have no: "principalOf (hc_auth c) (credentialOf r) (hs_accounts st) \<noteq> (Inr q, ac)" for q ac
    using principalOf_empty [of "hc_auth c" "hs_accounts st"] by auto
  have "agentAuth (hc_agent c) (bearerToken r) (hs_store st) \<noteq> Inr s" for s using assms(2) by (simp add: agentAuth_def)
  with g no have "unguarded x" "who = Anyone" by (auto simp: unguarded_def openGuard_def split: routeGuard.splits)
  then have "x \<in> set (filter unguarded routes)" using x(1) by simp
  then have "h \<in> set (map rt_handler (filter unguarded routes))" using x(2) by auto
  then show ?thesis using \<open>who = Anyone\<close> by (simp only: unguarded_handlers)
qed

theorem anonymous_reach_witness: "fst (serve exConf 0 exAnonymous exFront) = Ran ''Docs.Page'' Anyone [] \<and> ''Docs.Page'' \<in> set anonymousHandlers"
proof -
  have "skipsAuthn ''/docs''" "bearerToken exAnonymous = []" by code_simp+
  moreover have "hq_segs exAnonymous = [''docs'']" "hq_method exAnonymous = ''HEAD''" "hq_clean exAnonymous" "hq_cookie exAnonymous = []"
    "\<not> hc_ui exConf" by (simp_all add: exAnonymous_def exTokenReq_def exConf_def)
  ultimately have "\<exists>st'. serve exConf 0 exAnonymous exFront = (Ran ''Docs.Page'' Anyone [], st')"
    using exMatches(2) by (simp add: serve_def authenticator_def toRoute_def wrapper_def)
  then show ?thesis using anonymous_reach \<open>bearerToken exAnonymous = []\<close> \<open>hq_cookie exAnonymous = []\<close> by fastforce
qed

subsection \<open>The bundled dashboard\<close>

text \<open>With the dashboard, the requests of every route but one still reach the API: those for \<open>/metrics\<close> go to the
  dashboard, although the route is registered and the authenticator lets it through.\<close>

theorem metrics_goes_to_dashboard:
  assumes "hc_ui c" "x \<in> set routes" "fits (rt_path x) (hq_segs r) vs"
  shows "fst (serve c now r st) = ToDashboard \<longleftrightarrow> rt_pattern x = ''GET /metrics''"
proof (cases "rt_pattern x = ''GET /metrics''")
  case True
  have p: "patPath ''GET /metrics'' = [Lit ''metrics'']" by code_simp
  have "hq_segs r = [''metrics'']" using assms(3) unfolding True p by (cases "hq_segs r" rule: list.exhaust; cases "tl (hq_segs r)"; cases vs) auto
  moreover have "\<not> apiOwnedPath ''/metrics''" by code_simp
  ultimately show ?thesis using assms(1) True by (simp add: serve_def)
next
  case False
  then have own: "apiOwnedPath (urlPath (hq_segs r))"
    using routes_sound [OF assms(2)] apiRoute_owned [OF _ assms(3)] by (simp add: routeSound_def)
  have "wrapper c now r p m w = (Inl reply, w') \<Longrightarrow> reply \<noteq> ToDashboard" for p m w reply w'
    by (auto simp: wrapper_def asReply_def split: routeGuard.splits sum.splits prod.splits if_splits option.splits)
  then have "fst (toRoute c now r p w) \<noteq> ToDashboard" for p w
    by (auto simp: toRoute_def split: option.splits prod.splits sum.splits)
  then show ?thesis using own False by (auto simp: serve_def split: sum.splits prod.splits)
qed

theorem metrics_goes_to_dashboard_witness:
  "fst (serve (exConf\<lparr>hc_ui := True\<rparr>) 0 (exAnonymous\<lparr>hq_segs := [''metrics'']\<rparr>) exFront) = ToDashboard"
proof -
  let ?x = "Route ''GET /metrics'' GuardNone ''metrics''"
  have "?x \<in> set routes" by (simp add: routes_def systemRoutes_def)
  moreover have "fits (rt_path ?x) (hq_segs (exAnonymous\<lparr>hq_segs := [''metrics'']\<rparr>)) []" by code_simp
  ultimately show ?thesis using metrics_goes_to_dashboard [of "exConf\<lparr>hc_ui := True\<rparr>" ?x _ "[]"] by simp
qed

end
