(* ===== verification/AuditLog.thy ===== *)
theory AuditLog
  imports Guarded "HOL-Library.Finite_Map" "HOL-Library.Product_Lexorder"
begin

text \<open>
  The audit log: what the HTTP layer records of a request (\<open>interfaces/httpapi/audit.go\<close>, with the table of
  \<open>audit_routes.go\<close> in \<open>RouteTable\<close>), the service behind it (\<open>app/audit/service.go\<close>) and its table
  (\<open>infra/postgres/audit_repository.go\<close>).  A handler is what it does to the log: the details it adds, the events
  its services record and what it writes as its response.
\<close>

subsection \<open>Events\<close>

text \<open>A value of the metadata: a text, or another value by its JSON text.\<close>

datatype metaValue = MetaText string | MetaJson string

record auditEvent =
  av_id :: uuid
  av_actorUserId :: "uuid option"
  av_actorEmail :: string
  av_actorKind :: string
  av_tokenId :: "uuid option"
  av_ip :: string
  av_userAgent :: string
  av_action :: string
  av_outcome :: string
  av_resourceType :: string
  av_resourceId :: "uuid option"
  av_resourceName :: string
  av_metadata :: "(string, metaValue) fmap"
  av_createdAt :: int

text \<open>Who made a request and from where.\<close>

record auditReq =
  aq_userId :: "uuid option"
  aq_email :: string
  aq_kind :: string
  aq_tokenId :: "uuid option"
  aq_ip :: string
  aq_userAgent :: string

text \<open>What a handler knows about the event of its request.\<close>

record auditEntry =
  en_resourceId :: "uuid option"
  en_resourceName :: string
  en_meta :: "(string, metaValue) fmap"
  en_actor :: "(uuid option \<times> string) option"
  en_skip :: bool
  en_recorded :: bool
  en_failed :: bool

definition newEntry :: auditEntry where
  "newEntry = \<lparr>en_resourceId = None, en_resourceName = [], en_meta = fmempty, en_actor = None, en_skip = False,
     en_recorded = False, en_failed = False\<rparr>"

text \<open>The table, with what it refers to: the users and their addresses.\<close>

record auditStore =
  al_events :: "auditEvent list"
  al_users :: "(uuid \<times> string) list"
  al_next :: uuid
  al_now :: int

subsection \<open>The repository\<close>

text \<open>Outside the program: \<open>netip.ParseAddr\<close> followed by \<open>String\<close>, \<open>json.Unmarshal\<close> into the fields of
  \<open>createdResource\<close>, and \<open>uuid.Parse\<close>.\<close>

record createdBody =
  cb_id :: string
  cb_operationId :: string
  cb_name :: string
  cb_email :: string
  cb_hostname :: string

record auditEnv =
  ue_addr :: "string \<Rightarrow> string option"
  ue_unmarshal :: "string \<Rightarrow> createdBody option"
  ue_uuid :: "string \<Rightarrow> uuid option"

definition actorKinds :: "string list" where
  "actorKinds = [''user'', ''api_token'', ''system'', ''anonymous'']"

definition auditAppend :: "auditEnv \<Rightarrow> auditEvent \<Rightarrow> auditStore \<Rightarrow> apperr option \<times> auditStore" where
  "auditAppend e ev s =
     (if (case av_actorUserId ev of None \<Rightarrow> False | Some u \<Rightarrow> u \<notin> fst ` set (al_users s))
         \<or> av_actorKind ev \<notin> set actorKinds
      then (Some (Internal ''append audit event''), s)
      else (None, s\<lparr>al_events := al_events s @ [ev\<lparr>av_ip := (case ue_addr e (av_ip ev) of None \<Rightarrow> [] | Some a \<Rightarrow> a),
                av_createdAt := al_now s\<rparr>]\<rparr>))"

record auditFilter =
  fi_actorUserId :: "uuid option"
  fi_actionPrefix :: string
  fi_resourceType :: string
  fi_resourceId :: "uuid option"
  fi_outcome :: string
  fi_since :: "int option"
  fi_until :: "int option"
  fi_after :: "(int \<times> uuid) option"
  fi_limit :: int

definition auditMatches :: "auditFilter \<Rightarrow> auditEvent \<Rightarrow> bool" where
  "auditMatches f ev \<longleftrightarrow>
     (case fi_actorUserId f of None \<Rightarrow> True | Some u \<Rightarrow> av_actorUserId ev = Some u)
     \<and> (fi_actionPrefix f = []
        \<or> (if last (fi_actionPrefix f) = CHR ''.'' then hasPrefix (fi_actionPrefix f) (av_action ev)
           else av_action ev = fi_actionPrefix f))
     \<and> (fi_resourceType f = [] \<or> av_resourceType ev = fi_resourceType f)
     \<and> (case fi_resourceId f of None \<Rightarrow> True | Some i \<Rightarrow> av_resourceId ev = Some i)
     \<and> (fi_outcome f = [] \<or> av_outcome ev = fi_outcome f)
     \<and> (case fi_since f of None \<Rightarrow> True | Some t \<Rightarrow> t \<le> av_createdAt ev)
     \<and> (case fi_until f of None \<Rightarrow> True | Some t \<Rightarrow> av_createdAt ev < t)"

definition position :: "auditEvent \<Rightarrow> int \<times> uuid" where
  "position ev = (av_createdAt ev, av_id ev)"

text \<open>\<open>ORDER BY a.created_at DESC, a.id DESC\<close>; pairs are ordered by their first component, then the second.\<close>

definition latestFirst :: "auditEvent list \<Rightarrow> auditEvent list" where
  "latestFirst evs = rev (sort_key position evs)"

text \<open>The address of the actor is the one in the row, or that of the user.\<close>

definition withEmail :: "auditStore \<Rightarrow> auditEvent \<Rightarrow> auditEvent" where
  "withEmail s ev = (if av_actorEmail ev \<noteq> [] then ev
     else case av_actorUserId ev of None \<Rightarrow> ev
       | Some u \<Rightarrow> (case map_of (al_users s) u of None \<Rightarrow> ev | Some m \<Rightarrow> ev\<lparr>av_actorEmail := m\<rparr>))"

definition auditSelect :: "auditFilter \<Rightarrow> auditStore \<Rightarrow> auditEvent list" where
  "auditSelect f s =
     (let limit = (if fi_limit f \<le> 0 then 50 else fi_limit f)
      in map (withEmail s) (take (nat limit) (latestFirst (filter (\<lambda>ev. auditMatches f ev
           \<and> (case fi_after f of None \<Rightarrow> True | Some c \<Rightarrow> position ev < c)) (al_events s)))))"

text \<open>One batch of \<open>PruneBefore\<close>: which rows a \<open>LIMIT\<close> without order selects is the store's choice.\<close>

definition expiredIds :: "int \<Rightarrow> auditStore \<Rightarrow> uuid list" where
  "expiredIds cutoff s = map av_id (filter (\<lambda>ev. av_createdAt ev < cutoff) (al_events s))"

definition pruneBatch :: "(uuid list \<Rightarrow> uuid list) \<Rightarrow> int \<Rightarrow> auditStore \<Rightarrow> nat \<times> auditStore" where
  "pruneBatch pick cutoff s =
     (let ids = pick (expiredIds cutoff s); gone = filter (\<lambda>ev. av_id ev \<in> set ids) (al_events s)
      in (length gone, s\<lparr>al_events := filter (\<lambda>ev. av_id ev \<notin> set ids) (al_events s)\<rparr>))"

partial_function (option) pruneAll :: "(uuid list \<Rightarrow> uuid list) \<Rightarrow> int \<Rightarrow> nat \<Rightarrow> auditStore \<Rightarrow> (nat \<times> auditStore) option" where
  "pruneAll pick cutoff sofar s =
     (case pruneBatch pick cutoff s of
        (n, s') \<Rightarrow> if n < 5000 then Some (sofar + n, s') else pruneAll pick cutoff (sofar + n) s')"

subsection \<open>The names of resources\<close>

text \<open>The columns that \<open>resourceNames\<close> reads, each as a function of the identifier.\<close>

record nameTables =
  nt_users :: "uuid \<Rightarrow> string option"
  nt_roles :: "uuid \<Rightarrow> string option"
  nt_servers :: "uuid \<Rightarrow> (string option \<times> string option) option"
  nt_instances :: "uuid \<Rightarrow> string option"
  nt_databases :: "uuid \<Rightarrow> string option"
  nt_backups :: "uuid \<Rightarrow> uuid option"
  nt_schedules :: "uuid \<Rightarrow> uuid option"
  nt_destinations :: "uuid \<Rightarrow> string option"
  nt_channels :: "uuid \<Rightarrow> string option"
  nt_rules :: "uuid \<Rightarrow> string option"
  nt_apiTokens :: "uuid \<Rightarrow> string option"
  nt_agentTokens :: "uuid \<Rightarrow> string option"

definition resourceColumn :: "nameTables \<Rightarrow> string \<Rightarrow> uuid \<Rightarrow> string option" where
  "resourceColumn t rt i =
     (if rt = ''user'' then nt_users t i
      else if rt = ''role'' then nt_roles t i
      else if rt = ''server'' then (case nt_servers t i of None \<Rightarrow> None
        | Some (name, host) \<Rightarrow> (case name of Some n \<Rightarrow> if n = [] then host else Some n | None \<Rightarrow> host))
      else if rt = ''instance'' then nt_instances t i
      else if rt = ''database'' then nt_databases t i
      else if rt = ''backup'' then Option.bind (nt_backups t i) (nt_databases t)
      else if rt = ''backup_schedule'' then Option.bind (nt_schedules t i) (nt_databases t)
      else if rt = ''backup_destination'' then nt_destinations t i
      else if rt = ''notification_channel'' then nt_channels t i
      else if rt = ''alert_rule'' then nt_rules t i
      else if rt = ''api_token'' then nt_apiTokens t i
      else if rt = ''agent_token'' then nt_agentTokens t i
      else None)"

definition resourceName :: "nameTables \<Rightarrow> string \<Rightarrow> uuid \<Rightarrow> string" where
  "resourceName t rt i = (case resourceColumn t rt i of None \<Rightarrow> [] | Some n \<Rightarrow> n)"

subsection \<open>The service\<close>

definition setResource :: "uuid option \<Rightarrow> string \<Rightarrow> auditEntry \<Rightarrow> auditEntry" where
  "setResource i name en = en\<lparr>en_resourceId := (if i = None then en_resourceId en else i),
     en_resourceName := (if name = [] then en_resourceName en else name)\<rparr>"

definition addMeta :: "string \<Rightarrow> metaValue \<Rightarrow> auditEntry \<Rightarrow> auditEntry" where
  "addMeta k v en = en\<lparr>en_meta := fmupd k v (en_meta en)\<rparr>"

definition setActor :: "uuid option \<Rightarrow> string \<Rightarrow> auditEntry \<Rightarrow> auditEntry" where
  "setActor u email en = en\<lparr>en_actor := Some (u, email)\<rparr>"

definition failEntry :: "auditEntry \<Rightarrow> auditEntry" where "failEntry en = en\<lparr>en_failed := True\<rparr>"

definition skipEntry :: "auditEntry \<Rightarrow> auditEntry" where "skipEntry en = en\<lparr>en_skip := True\<rparr>"

definition orElse :: "string \<Rightarrow> string \<Rightarrow> string" where
  "orElse x y = (if x = [] then y else x)"

definition orElseId :: "uuid option \<Rightarrow> uuid option \<Rightarrow> uuid option" where
  "orElseId x y = (if x = None then y else x)"

definition fromRequest :: "auditReq \<Rightarrow> auditEvent \<Rightarrow> auditEvent" where
  "fromRequest r ev = ev\<lparr>av_actorUserId := orElseId (av_actorUserId ev) (aq_userId r),
     av_actorEmail := orElse (av_actorEmail ev) (aq_email r), av_actorKind := orElse (av_actorKind ev) (aq_kind r),
     av_tokenId := orElseId (av_tokenId ev) (aq_tokenId r), av_ip := orElse (av_ip ev) (aq_ip r),
     av_userAgent := orElse (av_userAgent ev) (aq_userAgent r)\<rparr>"

definition filledIn :: "auditReq option \<Rightarrow> auditEvent \<Rightarrow> auditEvent" where
  "filledIn r ev =
     (let ev1 = (case r of None \<Rightarrow> ev | Some q \<Rightarrow> fromRequest q ev)
      in ev1\<lparr>av_actorKind := orElse (av_actorKind ev1) (if av_actorUserId ev1 = None then ''system'' else ''user''),
             av_outcome := orElse (av_outcome ev1) ''success'', av_userAgent := take 512 (av_userAgent ev1)\<rparr>)"

definition appendEvent :: "auditEnv \<Rightarrow> auditReq option \<Rightarrow> auditEvent \<Rightarrow> (string, metaValue) fmap \<Rightarrow> auditStore
    \<Rightarrow> apperr option \<times> auditStore" where
  "appendEvent e r ev meta s =
     auditAppend e ((filledIn r ev)\<lparr>av_id := al_next s, av_metadata := meta\<rparr>) (s\<lparr>al_next := al_next s + 1\<rparr>)"

definition blankEvent :: auditEvent where
  "blankEvent = \<lparr>av_id = 0, av_actorUserId = None, av_actorEmail = [], av_actorKind = [], av_tokenId = None, av_ip = [],
     av_userAgent = [], av_action = [], av_outcome = [], av_resourceType = [], av_resourceId = None, av_resourceName = [],
     av_metadata = fmempty, av_createdAt = 0\<rparr>"

definition recordEvent :: "auditEnv \<Rightarrow> nameTables \<Rightarrow> auditReq option \<Rightarrow> uuid option \<Rightarrow> string \<Rightarrow> string \<Rightarrow> uuid option
    \<Rightarrow> (string, metaValue) fmap \<Rightarrow> auditEntry \<times> auditStore \<Rightarrow> auditEntry \<times> auditStore" where
  "recordEvent e t r actor action rt i meta es =
     ((fst es)\<lparr>en_recorded := True\<rparr>,
      snd (appendEvent e r (blankEvent\<lparr>av_actorUserId := actor, av_action := action, av_outcome := ''success'',
        av_resourceType := rt, av_resourceId := i,
        av_resourceName := (case i of None \<Rightarrow> [] | Some j \<Rightarrow> resourceName t rt j)\<rparr>) meta (snd es)))"

text \<open>\<open>List\<close>: one more row than asked for tells whether there is a next page.  A cursor is the position of the
  last item; its text (\<open>EncodeCursor\<close>, \<open>DecodeCursor\<close>) is the time and the identifier.\<close>

definition pageSize :: "int \<Rightarrow> int" where
  "pageSize n = (let m = (if n \<le> 0 then 50 else n) in if m > 100 then 100 else m)"

definition auditList :: "auditFilter \<Rightarrow> (int \<times> uuid) option \<Rightarrow> auditStore \<Rightarrow> auditEvent list \<times> (int \<times> uuid) option" where
  "auditList f cursor s =
     (let want = pageSize (fi_limit f);
          f' = f\<lparr>fi_after := (if cursor = None then fi_after f else cursor), fi_limit := want + 1\<rparr>;
          items = auditSelect f' s
      in if int (length items) > want
         then (take (nat want) items, Some (position (items ! (nat want - 1))))
         else (items, None))"

definition auditExport :: "auditFilter \<Rightarrow> auditStore \<Rightarrow> auditEvent list" where
  "auditExport f s = auditSelect (f\<lparr>fi_after := None, fi_limit := 10000\<rparr>) s"

definition auditPrune :: "(uuid list \<Rightarrow> uuid list) \<Rightarrow> int \<Rightarrow> int \<Rightarrow> auditStore \<Rightarrow> (nat \<times> auditStore) option" where
  "auditPrune pick retention now s = (if retention \<le> 0 then Some (0, s) else pruneAll pick (now - retention) 0 s)"

subsection \<open>The response as the log sees it\<close>

datatype writerCall = WriteHeader nat | WriteBody string

record auditWriter =
  aw_status :: nat
  aw_capture :: bool
  aw_body :: string

definition maxCaptured :: nat where "maxCaptured = 65536"

definition writerStep :: "writerCall \<Rightarrow> auditWriter \<Rightarrow> auditWriter" where
  "writerStep c w = (case c of
     WriteHeader code \<Rightarrow> w\<lparr>aw_status := code\<rparr>
   | WriteBody p \<Rightarrow> if aw_capture w \<and> length (aw_body w) < maxCaptured
       then w\<lparr>aw_body := aw_body w @ take (min (length p) (maxCaptured - length (aw_body w))) p\<rparr> else w)"

definition written :: "bool \<Rightarrow> writerCall list \<Rightarrow> auditWriter" where
  "written capture cs = fold writerStep cs \<lparr>aw_status = 200, aw_capture = capture, aw_body = []\<rparr>"

subsection \<open>The HTTP layer\<close>

text \<open>What a handler does to its entry, and the events its services record.\<close>

datatype auditOp = OpResource "uuid option" string | OpMeta string metaValue | OpActor "uuid option" string | OpFail | OpSkip
  | OpRecord "uuid option" string string "uuid option" "(string, metaValue) fmap"

definition auditOpStep :: "auditEnv \<Rightarrow> nameTables \<Rightarrow> auditReq option \<Rightarrow> auditOp \<Rightarrow> auditEntry \<times> auditStore
    \<Rightarrow> auditEntry \<times> auditStore" where
  "auditOpStep e t r x es = (case x of
     OpResource i n \<Rightarrow> (setResource i n (fst es), snd es)
   | OpMeta k v \<Rightarrow> (addMeta k v (fst es), snd es)
   | OpActor u m \<Rightarrow> (setActor u m (fst es), snd es)
   | OpFail \<Rightarrow> (failEntry (fst es), snd es)
   | OpSkip \<Rightarrow> (skipEntry (fst es), snd es)
   | OpRecord a ac rt i meta \<Rightarrow> recordEvent e t r a ac rt i meta es)"

definition requestOf :: "principal option \<Rightarrow> string \<Rightarrow> string \<Rightarrow> auditReq" where
  "requestOf p ip agent = (case p of
     None \<Rightarrow> \<lparr>aq_userId = None, aq_email = [], aq_kind = ''anonymous'', aq_tokenId = None, aq_ip = ip, aq_userAgent = agent\<rparr>
   | Some q \<Rightarrow> \<lparr>aq_userId = Some (pp_userId q), aq_email = pp_email q,
       aq_kind = (if pp_tokenId q = None then ''user'' else ''api_token''), aq_tokenId = pp_tokenId q, aq_ip = ip,
       aq_userAgent = agent\<rparr>)"

definition trimSlashes :: "string \<Rightarrow> string" where
  "trimSlashes s = rev (trimLeftSet ''/'' (rev (trimLeftSet ''/'' s)))"

definition pathParams :: "string \<Rightarrow> string \<Rightarrow> (string, string) fmap" where
  "pathParams pattern path =
     (let pat = (if CHR '' '' \<in> set pattern then drop (length (patMethod pattern) + 1) pattern else pattern);
          ps = splitByte (CHR ''/'') (trimSlashes pat);
          segs = splitByte (CHR ''/'') (trimSlashes path)
      in if length ps \<noteq> length segs then fmempty
         else fold (\<lambda>(p, seg) m. if hasPrefix ''{'' p \<and> last p = CHR ''}'' then fmupd (butlast (tl p)) seg m else m)
                (zip ps segs) fmempty)"

definition createdResource :: "auditEnv \<Rightarrow> string \<Rightarrow> uuid option \<times> string" where
  "createdResource e body =
     (case (if body = [] then None else ue_unmarshal e body) of
        None \<Rightarrow> (None, [])
      | Some v \<Rightarrow> (case ue_uuid e (orElse (cb_id v) (cb_operationId v)) of
          None \<Rightarrow> (None, []) | Some i \<Rightarrow> (Some i, orElse (orElse (cb_email v) (cb_name v)) (cb_hostname v))))"

definition auditOutcome :: "bool \<Rightarrow> nat \<Rightarrow> string option" where
  "auditOutcome failed status =
     (if failed \<and> status = 401 then Some ''failure''
      else if 200 \<le> status \<and> status < 300 then Some ''success''
      else if status = 403 then Some ''denied''
      else None)"

text \<open>The event of a request: who, what and to which resource.\<close>

definition attributed :: "auditEntry \<Rightarrow> auditReq \<Rightarrow> auditEvent \<Rightarrow> auditEvent" where
  "attributed en r ev = (case en_actor en of
     None \<Rightarrow> ev\<lparr>av_actorUserId := aq_userId r, av_actorEmail := aq_email r, av_actorKind := aq_kind r\<rparr>
   | Some (u, m) \<Rightarrow> ev\<lparr>av_actorUserId := u, av_actorEmail := m,
       av_actorKind := (if u = None then ''anonymous'' else ''user'')\<rparr>)"

definition onCaller :: "auditRoute \<Rightarrow> bool" where
  "onCaller spec \<longleftrightarrow> at_resourceType spec = ''user'' \<and> at_idParam spec = [] \<and> \<not> at_fromResponse spec"

definition placed :: "auditEnv \<Rightarrow> nameTables \<Rightarrow> auditRoute \<Rightarrow> auditEntry \<Rightarrow> string \<Rightarrow> auditEvent \<Rightarrow> auditEvent" where
  "placed e t spec en body ev =
     (let success = av_outcome ev = ''success'';
          ev1 = (if onCaller spec then ev\<lparr>av_resourceId := av_actorUserId ev, av_resourceName := av_actorEmail ev\<rparr> else ev);
          ev2 = (if success \<and> at_fromResponse spec \<and> av_resourceId ev1 = None
                 then ev1\<lparr>av_resourceId := fst (createdResource e body), av_resourceName := snd (createdResource e body)\<rparr> else ev1);
          ev3 = ev2\<lparr>av_resourceId := orElseId (en_resourceId en) (av_resourceId ev2),
                    av_resourceName := orElse (en_resourceName en) (av_resourceName ev2)\<rparr>
      in case av_resourceId ev3 of
           None \<Rightarrow> ev3
         | Some i \<Rightarrow> if av_resourceName ev3 = [] \<and> success
             then ev3\<lparr>av_resourceName := resourceName t (at_resourceType spec) i\<rparr> else ev3)"

definition auditMeta :: "auditRoute \<Rightarrow> auditEntry \<Rightarrow> (string, string) fmap \<Rightarrow> (string, metaValue) fmap" where
  "auditMeta spec en params = en_meta en ++\<^sub>f fmmap MetaText (fmdrop (at_idParam spec) params)"

record handled =
  hd_ops :: "auditOp list"
  hd_calls :: "writerCall list"

definition eventOf :: "auditEnv \<Rightarrow> nameTables \<Rightarrow> nameTables \<Rightarrow> auditRoute \<Rightarrow> (string, string) fmap \<Rightarrow> auditReq
    \<Rightarrow> auditEntry \<Rightarrow> auditWriter \<Rightarrow> string \<Rightarrow> auditEvent" where
  "eventOf e tb ta spec params r en w outcome =
     (let resId = (if at_idParam spec = [] then None
                   else ue_uuid e (case fmlookup params (at_idParam spec) of None \<Rightarrow> [] | Some v \<Rightarrow> v));
          resName = (case resId of None \<Rightarrow> [] | Some i \<Rightarrow> resourceName tb (at_resourceType spec) i)
      in placed e ta spec en (aw_body w) (attributed en r (blankEvent\<lparr>av_tokenId := aq_tokenId r, av_ip := aq_ip r,
           av_userAgent := aq_userAgent r, av_action := at_action spec, av_outcome := outcome,
           av_resourceType := at_resourceType spec, av_resourceId := resId, av_resourceName := resName\<rparr>)))"

text \<open>\<open>Handler\<close> around one request.  \<open>tb\<close> and \<open>ta\<close> are the names before and after the handler ran; a failure to
  record is logged only.\<close>

definition auditHandler :: "auditEnv \<Rightarrow> nameTables \<Rightarrow> nameTables \<Rightarrow> auditReq \<Rightarrow> string \<Rightarrow> string \<Rightarrow> handled \<Rightarrow> auditStore
    \<Rightarrow> auditStore" where
  "auditHandler e tb ta r pattern path h s =
     (case map_of auditRoutes pattern of
        None \<Rightarrow> snd (fold (auditOpStep e ta None) (hd_ops h) (newEntry, s))
      | Some spec \<Rightarrow>
          (let params = pathParams pattern path;
               es = fold (auditOpStep e ta (Some r)) (hd_ops h) (newEntry, s);
               en = fst es; w = written (at_fromResponse spec) (hd_calls h)
           in if en_recorded en \<or> en_skip en then snd es
              else case auditOutcome (en_failed en) (aw_status w) of
                None \<Rightarrow> snd es
              | Some outcome \<Rightarrow>
                  snd (appendEvent e (Some r) (eventOf e tb ta spec params r en w outcome) (auditMeta spec en params) (snd es))))"

subsection \<open>An example\<close>

definition exAudit :: auditEnv where
  "exAudit = \<lparr>ue_addr = Some, ue_unmarshal = (\<lambda>b. None), ue_uuid = (\<lambda>t. if t = ''u4'' then Some 4 else None)\<rparr>"

definition exNames :: nameTables where
  "exNames = \<lparr>nt_users = (\<lambda>i. None), nt_roles = (\<lambda>i. None), nt_servers = (\<lambda>i. None), nt_instances = (\<lambda>i. None),
     nt_databases = (\<lambda>i. None), nt_backups = (\<lambda>i. None), nt_schedules = (\<lambda>i. None), nt_destinations = (\<lambda>i. None),
     nt_channels = (\<lambda>i. None), nt_rules = (\<lambda>i. None), nt_apiTokens = (\<lambda>i. None), nt_agentTokens = (\<lambda>i. None)\<rparr>"

text \<open>An account asks for the deletion of a user.\<close>

definition exDeleteUser :: route where
  "exDeleteUser = Route ''DELETE /v1/users/{id}'' (GuardPerm ''user:write'') ''Users.Delete''"

definition exDeleteSpec :: auditRoute where
  "exDeleteSpec = \<lparr>at_action = ''user.delete'', at_resourceType = ''user'', at_idParam = ''id'', at_fromResponse = False\<rparr>"

definition exLog :: auditStore where
  "exLog = \<lparr>al_events = [blankEvent, blankEvent\<lparr>av_id := 1\<rparr>], al_users = [(3, ''ann@x'')], al_next = 2, al_now = 50\<rparr>"

lemma exDelete_audited: "map_of auditRoutes ''DELETE /v1/users/{id}'' = Some exDeleteSpec"
  by code_simp

lemma exDelete_fits: "fits (rt_path exDeleteUser) [''v1'', ''users'', ''u4''] [''u4'']"
  by code_simp

subsection \<open>What one request leaves behind\<close>

definition isRecord :: "auditOp \<Rightarrow> bool" where
  "isRecord x \<longleftrightarrow> (case x of OpRecord _ _ _ _ _ \<Rightarrow> True | _ \<Rightarrow> False)"

definition isActor :: "auditOp \<Rightarrow> bool" where
  "isActor x \<longleftrightarrow> (case x of OpActor _ _ \<Rightarrow> True | _ \<Rightarrow> False)"

named_theorems entry_simps \<open>the operations on an entry\<close>

lemmas [entry_simps] = setResource_def addMeta_def setActor_def failEntry_def skipEntry_def recordEvent_def

lemma auditAppend_events:
  "\<exists>new. al_events (snd (auditAppend e ev s)) = al_events s @ new \<and> length new \<le> 1
     \<and> (\<forall>x \<in> set new. \<exists>ip. x = ev\<lparr>av_ip := ip, av_createdAt := al_now s\<rparr>)"
  by (auto simp: auditAppend_def split: option.splits)

lemma auditAppend_users [simp]: "al_users (snd (auditAppend e ev s)) = al_users s" "al_now (snd (auditAppend e ev s)) = al_now s"
  by (simp_all add: auditAppend_def)

lemma appendEvent_events:
  "\<exists>new. al_events (snd (appendEvent e r ev meta s)) = al_events s @ new \<and> length new \<le> 1
     \<and> (\<forall>x \<in> set new. \<exists>ip. x = (filledIn r ev)\<lparr>av_id := al_next s, av_metadata := meta, av_ip := ip, av_createdAt := al_now s\<rparr>)"
  using auditAppend_events [of e "(filledIn r ev)\<lparr>av_id := al_next s, av_metadata := meta\<rparr>" "s\<lparr>al_next := al_next s + 1\<rparr>"]
  by (simp add: appendEvent_def)

lemma auditOps_events:
  "\<exists>svc. al_events (snd (fold (auditOpStep e t r) ops es)) = al_events (snd es) @ svc
     \<and> length svc \<le> length (filter isRecord ops)"
proof (induction ops arbitrary: es)
  case (Cons x ops)
  obtain svc where svc: "al_events (snd (fold (auditOpStep e t r) ops (auditOpStep e t r x es)))
      = al_events (snd (auditOpStep e t r x es)) @ svc" "length svc \<le> length (filter isRecord ops)"
    using Cons.IH by blast
  have "\<exists>one. al_events (snd (auditOpStep e t r x es)) = al_events (snd es) @ one \<and> length one \<le> (if isRecord x then 1 else 0)"
  proof (cases x)
    case (OpRecord a ac rt i meta)
    then show ?thesis using appendEvent_events [of e r _ meta "snd es"]
      by (simp add: auditOpStep_def isRecord_def recordEvent_def) blast
  qed (simp_all add: auditOpStep_def isRecord_def)
  then obtain one where "al_events (snd (auditOpStep e t r x es)) = al_events (snd es) @ one" "length one \<le> (if isRecord x then 1 else 0)"
    by blast
  then show ?case using svc by (intro exI [of _ "one @ svc"]) auto
qed simp

lemma auditOps_entry:
  "en_recorded (fst (fold (auditOpStep e t r) ops es)) \<longleftrightarrow> en_recorded (fst es) \<or> (\<exists>x \<in> set ops. isRecord x)"
  "en_skip (fst (fold (auditOpStep e t r) ops es)) \<longleftrightarrow> en_skip (fst es) \<or> OpSkip \<in> set ops"
  "en_failed (fst (fold (auditOpStep e t r) ops es)) \<longleftrightarrow> en_failed (fst es) \<or> OpFail \<in> set ops"
  "\<forall>x \<in> set ops. \<not> isActor x \<Longrightarrow> en_actor (fst (fold (auditOpStep e t r) ops es)) = en_actor (fst es)"
  by (induction ops arbitrary: es)
    (auto simp: auditOpStep_def isRecord_def isActor_def entry_simps split: auditOp.splits)

lemma placed_fields [simp]:
  "av_action (placed e t spec en body ev) = av_action ev"
  "av_outcome (placed e t spec en body ev) = av_outcome ev"
  "av_resourceType (placed e t spec en body ev) = av_resourceType ev"
  "av_actorUserId (placed e t spec en body ev) = av_actorUserId ev"
  "av_actorEmail (placed e t spec en body ev) = av_actorEmail ev"
  "av_actorKind (placed e t spec en body ev) = av_actorKind ev"
  "av_tokenId (placed e t spec en body ev) = av_tokenId ev"
  by (auto simp: placed_def Let_def split: option.split)

lemma attributed_fields [simp]:
  "av_action (attributed en r ev) = av_action ev" "av_outcome (attributed en r ev) = av_outcome ev"
  "av_resourceType (attributed en r ev) = av_resourceType ev" "av_tokenId (attributed en r ev) = av_tokenId ev"
  "en_actor en = None \<Longrightarrow> av_actorUserId (attributed en r ev) = aq_userId r"
  "en_actor en = None \<Longrightarrow> av_actorKind (attributed en r ev) = aq_kind r"
  by (auto simp: attributed_def split: option.split)

lemma filledIn_fields [simp]:
  "av_action (filledIn r ev) = av_action ev" "av_resourceType (filledIn r ev) = av_resourceType ev"
  "av_outcome ev \<noteq> [] \<Longrightarrow> av_outcome (filledIn r ev) = av_outcome ev"
  "av_resourceId (filledIn r ev) = av_resourceId ev" "av_resourceName (filledIn r ev) = av_resourceName ev"
  by (auto simp: filledIn_def fromRequest_def orElse_def Let_def split: option.splits)

lemma filledIn_actor:
  "av_actorKind ev = k \<Longrightarrow> k \<noteq> [] \<Longrightarrow> av_actorKind (filledIn r ev) = k"
  "av_actorUserId ev = aq_userId q \<Longrightarrow> av_actorUserId (filledIn (Some q) ev) = aq_userId q"
  by (auto simp: filledIn_def fromRequest_def orElse_def orElseId_def Let_def split: option.splits)

lemma auditOutcome_Some: "auditOutcome failed status = Some x \<Longrightarrow> x \<noteq> []"
  by (auto simp: auditOutcome_def split: if_splits)

text \<open>C21. One request leaves at most one event of its own: the log only grows, by the events the services of the
  handler recorded and, when there are none and the request is worth an event, by one event of the
  audited route, with its action, and attributed to the caller of the request unless the handler named another.\<close>

theorem audit_once:
  "\<exists>svc gen. al_events (auditHandler e tb ta r pattern path h s) = al_events s @ svc @ gen
     \<and> length svc \<le> length (filter isRecord (hd_ops h)) \<and> length gen \<le> 1
     \<and> (gen \<noteq> [] \<longrightarrow> (\<forall>x \<in> set (hd_ops h). \<not> isRecord x) \<and> OpSkip \<notin> set (hd_ops h))
     \<and> (\<forall>ev \<in> set gen. \<exists>spec. map_of auditRoutes pattern = Some spec \<and> av_action ev = at_action spec
          \<and> av_resourceType ev = at_resourceType spec
          \<and> Some (av_outcome ev) = auditOutcome (OpFail \<in> set (hd_ops h)) (aw_status (written (at_fromResponse spec) (hd_calls h)))
          \<and> ((\<forall>x \<in> set (hd_ops h). \<not> isActor x) \<and> aq_kind r \<noteq> [] \<longrightarrow>
               av_actorUserId ev = aq_userId r \<and> av_actorKind ev = aq_kind r))"
proof (cases "map_of auditRoutes pattern")
  case None
  then show ?thesis using auditOps_events [of e ta None "hd_ops h" "(newEntry, s)"]
    by (simp add: auditHandler_def)
next
  case (Some spec)
  let ?es = "fold (auditOpStep e ta (Some r)) (hd_ops h) (newEntry, s)"
  let ?w = "written (at_fromResponse spec) (hd_calls h)"
  obtain svc where svc: "al_events (snd ?es) = al_events s @ svc" "length svc \<le> length (filter isRecord (hd_ops h))"
    using auditOps_events [of e ta "Some r" "hd_ops h" "(newEntry, s)"] by auto
  let ?en = "fst ?es"
  have en: "en_recorded ?en \<longleftrightarrow> (\<exists>x \<in> set (hd_ops h). isRecord x)" "en_skip ?en \<longleftrightarrow> OpSkip \<in> set (hd_ops h)"
    "en_failed ?en \<longleftrightarrow> OpFail \<in> set (hd_ops h)"
    "\<forall>x \<in> set (hd_ops h). \<not> isActor x \<Longrightarrow> en_actor ?en = None"
    using auditOps_entry [where e = e and t = ta and r = "Some r" and ops = "hd_ops h" and es = "(newEntry, s)"] by (simp_all add: newEntry_def)
  show ?thesis
  proof (cases "en_recorded ?en \<or> en_skip ?en \<or> auditOutcome (en_failed ?en) (aw_status ?w) = None")
    case True
    then have "auditHandler e tb ta r pattern path h s = snd ?es"
      by (auto simp: auditHandler_def Some Let_def)
    then show ?thesis using svc by (intro exI [of _ svc] exI [of _ "[]"]) simp
  next
    case False
    then obtain x where x: "auditOutcome (en_failed ?en) (aw_status ?w) = Some x" by auto
    define ev where "ev = eventOf e tb ta spec (pathParams pattern path) r ?en ?w x"
    define meta where "meta = auditMeta spec ?en (pathParams pattern path)"
    have "auditHandler e tb ta r pattern path h s = snd (appendEvent e (Some r) ev meta (snd ?es))"
      using False x by (simp add: auditHandler_def Some Let_def ev_def meta_def)
    then obtain gen where gen: "al_events (auditHandler e tb ta r pattern path h s) = al_events (snd ?es) @ gen" "length gen \<le> 1"
      "\<forall>y \<in> set gen. \<exists>ip. y = (filledIn (Some r) ev)\<lparr>av_id := al_next (snd ?es), av_metadata := meta, av_ip := ip,
          av_createdAt := al_now (snd ?es)\<rparr>"
      using appendEvent_events [of e "Some r" ev meta "snd ?es"] by auto
    have f: "av_action ev = at_action spec" "av_resourceType ev = at_resourceType spec" "av_outcome ev = x"
      by (simp_all add: ev_def eventOf_def Let_def)
    have who: "av_actorUserId ev = aq_userId r" "av_actorKind ev = aq_kind r" if "\<forall>x \<in> set (hd_ops h). \<not> isActor x"
      using en(4) [OF that] by (simp_all add: ev_def eventOf_def Let_def)
    have "\<exists>spec. map_of auditRoutes pattern = Some spec \<and> av_action y = at_action spec
          \<and> av_resourceType y = at_resourceType spec
          \<and> Some (av_outcome y) = auditOutcome (OpFail \<in> set (hd_ops h)) (aw_status (written (at_fromResponse spec) (hd_calls h)))
          \<and> ((\<forall>x \<in> set (hd_ops h). \<not> isActor x) \<and> aq_kind r \<noteq> [] \<longrightarrow> av_actorUserId y = aq_userId r \<and> av_actorKind y = aq_kind r)"
      if "y \<in> set gen" for y
      using gen(3) that f who x en(3) auditOutcome_Some [OF x] Some filledIn_actor by fastforce
    then show ?thesis using svc gen(1,2) False en(1,2) by (intro exI [of _ svc] exI [of _ gen]) auto
  qed
qed

theorem audit_once_witness:
  "\<exists>svc gen. al_events (auditHandler exAudit exNames exNames (requestOf (Some exPrincipal) ''10.0.0.1'' ''curl'')
       ''DELETE /v1/users/{id}'' ''/v1/users/u4'' \<lparr>hd_ops = [], hd_calls = [WriteHeader 204]\<rparr> exLog) = al_events exLog @ svc @ gen
     \<and> length svc \<le> 0 \<and> length gen \<le> 1"
  using audit_once [of exAudit exNames exNames "requestOf (Some exPrincipal) ''10.0.0.1'' ''curl''" "''DELETE /v1/users/{id}''"
      "''/v1/users/u4''" "\<lparr>hd_ops = [], hd_calls = [WriteHeader 204]\<rparr>" exLog] by auto

text \<open>A sign-in refused because the account is locked prepares a failure, but its status (429) is not one the log
  records.\<close>

lemma locked_signin_unlogged:
  "auditHandler e tb ta r ''POST /v1/auth/login'' path
     \<lparr>hd_ops = [OpActor None email, OpMeta ''reason'' v, OpFail], hd_calls = [WriteHeader 429, WriteBody body]\<rparr> s = s"
proof -
  have "map_of auditRoutes ''POST /v1/auth/login'' = Some \<lparr>at_action = ''auth.login'', at_resourceType = ''user'', at_idParam = [],
      at_fromResponse = False\<rparr>" by code_simp
  then show ?thesis
    by (simp add: auditHandler_def Let_def auditOpStep_def entry_simps newEntry_def written_def writerStep_def auditOutcome_def)
qed

subsection \<open>The path of a request, read twice\<close>

text \<open>What \<open>pathParams\<close> needs of a pattern, checked for every audited one.\<close>

fun segText :: "patSeg \<Rightarrow> string" where
  "segText (Lit l) = l"
| "segText (Wild n) = ''{'' @ n @ ''}''"

fun plainSeg :: "patSeg \<Rightarrow> bool" where
  "plainSeg (Lit l) = (l \<noteq> [] \<and> CHR ''/'' \<notin> set l \<and> \<not> (hasPrefix ''{'' l \<and> last l = CHR ''}''))"
| "plainSeg (Wild n) = (n \<noteq> [])"

definition plainPattern :: "string \<Rightarrow> bool" where
  "plainPattern p \<longleftrightarrow> CHR '' '' \<in> set p \<and> patPath p \<noteq> [] \<and> list_all plainSeg (patPath p) \<and> distinct (wildNames (patPath p))
     \<and> splitByte (CHR ''/'') (trimSlashes (drop (length (patMethod p) + 1) p)) = map segText (patPath p)"

lemma plain_sections:
  "list_all (\<lambda>a. plainPattern (fst a)) auditSession" "list_all (\<lambda>a. plainPattern (fst a)) auditUsers"
  "list_all (\<lambda>a. plainPattern (fst a)) auditServers" "list_all (\<lambda>a. plainPattern (fst a)) auditDatabases"
  by code_simp+

lemma plain_sections':
  "list_all (\<lambda>a. plainPattern (fst a)) auditData" "list_all (\<lambda>a. plainPattern (fst a)) auditBackups"
  "list_all (\<lambda>a. plainPattern (fst a)) auditNotifications"
  by code_simp+

lemma plain_audited: "map_of auditRoutes p = Some spec \<Longrightarrow> plainPattern p"
  using plain_sections plain_sections' by (auto simp: auditRoutes_def list_all_iff dest!: map_of_SomeD)

lemma fits_segs: "fits p segs vs \<Longrightarrow> list_all plainSeg p \<Longrightarrow> (\<forall>s \<in> set segs. s \<noteq> []) \<and> length segs = length p"
  by (induction p segs vs rule: fits.induct) auto

lemma urlPath_join: "segs \<noteq> [] \<Longrightarrow> urlPath segs = CHR ''/'' # joinStr ''/'' segs"
  by (induction segs) (auto simp: joinStr_Cons)

lemma splitByte_join: "segs \<noteq> [] \<Longrightarrow> \<forall>s \<in> set segs. d \<notin> set s \<Longrightarrow> splitByte d (joinStr [d] segs) = segs"
proof (induction segs)
  case (Cons s segs)
  then show ?case by (cases segs) (simp_all add: joinStr_Cons splitByte_append splitByte_none)
qed simp

lemma trimLeftSet_id: "s \<noteq> [] \<Longrightarrow> hd s \<notin> set cs \<Longrightarrow> trimLeftSet cs s = s"
  by (cases s) (simp_all add: trimLeftSet_def)

lemma join_ends: "segs \<noteq> [] \<Longrightarrow> \<forall>s \<in> set segs. s \<noteq> [] \<Longrightarrow> joinStr d segs \<noteq> [] \<and> hd (joinStr d segs) = hd (hd segs)
    \<and> last (joinStr d segs) = last (last segs)"
  by (induction segs) (auto simp: joinStr_Cons)

lemma split_urlPath:
  assumes "segs \<noteq> []" "\<forall>s \<in> set segs. s \<noteq> [] \<and> CHR ''/'' \<notin> set s"
  shows "splitByte (CHR ''/'') (trimSlashes (urlPath segs)) = segs"
proof -
  let ?j = "joinStr ''/'' segs"
  have j: "?j \<noteq> []" "hd ?j = hd (hd segs)" "last ?j = last (last segs)" using join_ends [of segs "''/''"] assms by auto
  have "hd (hd segs) \<noteq> CHR ''/''" "last (last segs) \<noteq> CHR ''/''"
    using assms by (metis hd_in_set last_in_set)+
  then have "trimLeftSet ''/'' (CHR ''/'' # ?j) = ?j" "trimLeftSet ''/'' (rev ?j) = rev ?j"
    using j trimLeftSet_id [of ?j "''/''"] trimLeftSet_id [of "rev ?j" "''/''"]
    by (simp_all add: hd_rev) (simp add: trimLeftSet_def)
  then have "trimSlashes (urlPath segs) = ?j" using assms(1) by (simp add: trimSlashes_def urlPath_join)
  then show ?thesis using splitByte_join assms by metis
qed

lemma length_splitByte: "length (splitByte d s) = Suc (count_list s d)"
  by (induction s) (auto split: list.split)

lemma count_join: "segs \<noteq> [] \<Longrightarrow> count_list (joinStr [d] segs) d = length segs - 1 + sum_list (map (\<lambda>s. count_list s d) segs)"
  by (induction segs) (auto simp: joinStr_Cons)

lemma segText_wild: "plainSeg sg \<Longrightarrow> (hasPrefix ''{'' (segText sg) \<and> last (segText sg) = CHR ''}'') \<longleftrightarrow> (\<exists>n. sg = Wild n)"
  by (cases sg) (auto simp: hasPrefix_iff)

lemma fold_params:
  assumes "fits p segs vs" "list_all plainSeg p" "distinct (wildNames p)"
  shows "fmlookup (fold (\<lambda>(p, seg) m. if hasPrefix ''{'' p \<and> last p = CHR ''}'' then fmupd (butlast (tl p)) seg m else m)
           (zip (map segText p) segs) m) n
    = (case map_of (zip (wildNames p) vs) n of None \<Rightarrow> fmlookup m n | Some v \<Rightarrow> Some v)"
  using assms
proof (induction p segs vs arbitrary: m rule: fits.induct)
  case (2 l p s ss vs)
  then have "\<not> (hasPrefix ''{'' l \<and> last l = CHR ''}'')" by simp
  then show ?case using 2 by auto
next
  case (3 k p s ss v vs)
  then have "map_of (zip (wildNames p) vs) k = None"
    by (auto simp: map_of_eq_None_iff dest: set_zip_leftD)
  then show ?case using 3 by (auto simp: hasPrefix_iff split: option.splits)
qed auto

lemma log_reads_same_path_params:
  assumes "map_of auditRoutes pattern = Some spec" "fits (patPath pattern) segs vs" "\<forall>s \<in> set segs. CHR ''/'' \<notin> set s"
  shows "fmlookup (pathParams pattern (urlPath segs)) n = map_of (zip (wildNames (patPath pattern)) vs) n"
proof -
  have plain: "plainPattern pattern" by (rule plain_audited [OF assms(1)])
  then have p: "list_all plainSeg (patPath pattern)" "distinct (wildNames (patPath pattern))" "CHR '' '' \<in> set pattern"
    "splitByte (CHR ''/'') (trimSlashes (drop (length (patMethod pattern) + 1) pattern)) = map segText (patPath pattern)"
    by (simp_all add: plainPattern_def)
  from fits_segs [OF assms(2) p(1)] have segs: "\<forall>s \<in> set segs. s \<noteq> []" "length segs = length (patPath pattern)" by simp_all
  then have ne: "segs \<noteq> []" using plain by (auto simp: plainPattern_def)
  have "splitByte (CHR ''/'') (trimSlashes (urlPath segs)) = segs" using split_urlPath [OF ne] segs(1) assms(3) by blast
  then show ?thesis using fold_params [OF assms(2) p(1,2)] segs(2) p(3,4)
    by (simp add: pathParams_def Let_def split: option.split)
qed

text \<open>C23. The log reads the parameters of a route from the decoded path, the mux from the escaped one.  They agree
  as long as no segment holds a slash; one that does (\<open>%2F\<close>, in the name of a table) hides all parameters,
  the identifier of the resource among them, from the log.\<close>

theorem log_reads_same_path:
  assumes "map_of auditRoutes pattern = Some spec" "fits (patPath pattern) segs vs"
  shows "((\<forall>s \<in> set segs. CHR ''/'' \<notin> set s) \<longrightarrow>
      fmlookup (pathParams pattern (urlPath segs)) n = map_of (zip (wildNames (patPath pattern)) vs) n)
    \<and> ((\<forall>s \<in> set segs. s \<noteq> [] \<and> hd s \<noteq> CHR ''/'' \<and> last s \<noteq> CHR ''/'') \<and> (\<exists>s \<in> set segs. CHR ''/'' \<in> set s) \<longrightarrow>
      pathParams pattern (urlPath segs) = fmempty)"
proof (intro conjI impI)
  have plain: "plainPattern pattern" by (rule plain_audited [OF assms(1)])
  then have p: "list_all plainSeg (patPath pattern)" "distinct (wildNames (patPath pattern))" "CHR '' '' \<in> set pattern"
    "splitByte (CHR ''/'') (trimSlashes (drop (length (patMethod pattern) + 1) pattern)) = map segText (patPath pattern)"
    by (simp_all add: plainPattern_def)
  from fits_segs [OF assms(2) p(1)] have segs: "\<forall>s \<in> set segs. s \<noteq> []" "length segs = length (patPath pattern)" by simp_all
  then have ne: "segs \<noteq> []" using plain by (auto simp: plainPattern_def)
  have params: "pathParams pattern (urlPath segs) =
      (let ss = splitByte (CHR ''/'') (trimSlashes (urlPath segs)) in if length (patPath pattern) \<noteq> length ss then fmempty
       else fold (\<lambda>(p, seg) m. if hasPrefix ''{'' p \<and> last p = CHR ''}'' then fmupd (butlast (tl p)) seg m else m)
         (zip (map segText (patPath pattern)) ss) fmempty)"
    using p(3,4) by (simp add: pathParams_def Let_def)
  show "fmlookup (pathParams pattern (urlPath segs)) n = map_of (zip (wildNames (patPath pattern)) vs) n"
    if "\<forall>s \<in> set segs. CHR ''/'' \<notin> set s"
    by (rule log_reads_same_path_params [OF assms that])
  show "pathParams pattern (urlPath segs) = fmempty"
    if "(\<forall>s \<in> set segs. s \<noteq> [] \<and> hd s \<noteq> CHR ''/'' \<and> last s \<noteq> CHR ''/'') \<and> (\<exists>s \<in> set segs. CHR ''/'' \<in> set s)"
  proof -
    let ?j = "joinStr ''/'' segs"
    have j: "?j \<noteq> []" "hd ?j = hd (hd segs)" "last ?j = last (last segs)" using join_ends [of segs "''/''"] ne segs(1) by auto
    then have "hd ?j \<noteq> CHR ''/''" "last ?j \<noteq> CHR ''/''" using that ne by simp_all
    then have trimmed: "trimSlashes (urlPath segs) = ?j"
      using j(1) trimLeftSet_id [of ?j "''/''"] trimLeftSet_id [of "rev ?j" "''/''"] ne
      by (simp add: trimSlashes_def urlPath_join hd_rev trimLeftSet_def)
    from that obtain s where s: "s \<in> set segs" "CHR ''/'' \<in> set s" by blast
    then have "count_list s (CHR ''/'') \<noteq> 0" by (simp add: count_list_0_iff)
    then have "sum_list (map (\<lambda>s. count_list s (CHR ''/'')) segs) \<noteq> 0" using s(1) by auto
    moreover have "length (splitByte (CHR ''/'') (trimSlashes (urlPath segs)))
        = Suc (length segs - 1 + sum_list (map (\<lambda>s. count_list s (CHR ''/'')) segs))"
      unfolding trimmed length_splitByte count_join [OF ne] ..
    ultimately have "length (splitByte (CHR ''/'') (trimSlashes (urlPath segs))) > length segs"
      using ne by linarith
    then show ?thesis using segs(2) by (simp add: params Let_def)
  qed
qed

theorem log_reads_same_path_witness:
  "fmlookup (pathParams ''DELETE /v1/users/{id}'' (urlPath [''v1'', ''users'', ''u4''])) ''id'' = Some ''u4''
    \<and> pathParams ''DELETE /v1/users/{id}'' (urlPath [''v1'', ''users'', ''u/4'']) = fmempty"
proof -
  have p: "patPath ''DELETE /v1/users/{id}'' = [Lit ''v1'', Lit ''users'', Wild ''id'']" by code_simp
  then have "fits (patPath ''DELETE /v1/users/{id}'') [''v1'', ''users'', x] [x]" if "x \<noteq> []" "x \<noteq> ''/''" for x
    using that by simp
  from log_reads_same_path [OF exDelete_audited this, of "''u4''" "''id''"] log_reads_same_path [OF exDelete_audited this, of "''u/4''"]
  show ?thesis by (simp add: p)
qed

subsection \<open>Refusals\<close>

definition errorStatus :: "apperr \<Rightarrow> nat" where
  "errorStatus er = (case kindOf er of KindInvalid \<Rightarrow> 422 | KindNotFound \<Rightarrow> 404 | KindConflict \<Rightarrow> 409
     | KindUnauthorized \<Rightarrow> 401 | KindForbidden \<Rightarrow> 403 | KindInternal \<Rightarrow> 500)"

text \<open>A wrapper that refuses a request writes the error and nothing else.\<close>

definition refusal :: "apperr \<Rightarrow> string \<Rightarrow> handled" where
  "refusal er body = \<lparr>hd_ops = [], hd_calls = [WriteHeader (errorStatus er), WriteBody body]\<rparr>"

lemma written_refusal: "aw_status (written b (hd_calls (refusal er body))) = errorStatus er"
  by (simp add: written_def refusal_def writerStep_def)



subsection \<open>Reading the log page by page\<close>

text \<open>A client that follows the cursors, for at most \<open>n\<close> pages.\<close>

fun auditPages :: "nat \<Rightarrow> auditFilter \<Rightarrow> (int \<times> uuid) option \<Rightarrow> auditStore \<Rightarrow> auditEvent list list option" where
  "auditPages 0 f c s = None"
| "auditPages (Suc n) f c s = (case auditList f c s of
     (items, None) \<Rightarrow> Some [items]
   | (items, Some c') \<Rightarrow> map_option ((#) items) (auditPages n f (Some c') s))"

definition matching :: "auditFilter \<Rightarrow> auditStore \<Rightarrow> auditEvent list" where
  "matching f s = latestFirst (filter (auditMatches f) (al_events s))"

lemma position_withEmail [simp]: "position (withEmail s ev) = position ev"
  by (simp add: withEmail_def position_def split: option.split)

lemma matching_descending:
  assumes "distinct (map av_id (al_events s))"
  shows "sorted_wrt (\<lambda>a b. position b < position a) (matching f s)"
proof -
  let ?xs = "filter (auditMatches f) (al_events s)"
  have "distinct (map av_id ?xs)" by (rule distinct_map_filter [OF assms])
  then have "distinct (map position ?xs)"
    by (auto simp: distinct_map position_def inj_on_def)
  then have "distinct (map position (sort_key position ?xs))"
    by (simp add: distinct_map)
  then have "sorted_wrt (<) (map position (sort_key position ?xs))"
    by (simp add: strict_sorted_iff)
  then show ?thesis by (simp add: matching_def latestFirst_def sorted_wrt_map sorted_wrt_rev)
qed

lemma filter_after:
  "sorted_wrt (\<lambda>a b. f b < (f a :: 'b::linorder)) (xs @ y # ys) \<Longrightarrow> filter (\<lambda>a. f a < f y) (xs @ y # ys) = ys"
  by (auto simp: sorted_wrt_append filter_empty_conv intro: filter_True dest: order.asym)

lemma latestFirst_filter: "latestFirst (filter P xs) = filter P (latestFirst xs)"
  unfolding latestFirst_def filter_sort [symmetric] rev_filter ..

lemma auditMatches_cong [simp]: "auditMatches (f\<lparr>fi_after := c, fi_limit := n\<rparr>) = auditMatches f"
  by (rule ext) (simp add: auditMatches_def)

lemma auditSelect_from:
  assumes "0 < fi_limit f"
  shows "auditSelect f s = map (withEmail s) (take (nat (fi_limit f)) (case fi_after f of None \<Rightarrow> matching f s
    | Some c \<Rightarrow> filter (\<lambda>ev. position ev < c) (matching f s)))"
  using assms by (auto simp: auditSelect_def matching_def latestFirst_filter conj_commute split: option.split)

lemma matching_cong [simp]: "matching (f\<lparr>fi_after := c, fi_limit := n\<rparr>) s = matching f s"
  by (simp add: matching_def)

lemma pageSize_bounds: "1 \<le> pageSize n" "pageSize n \<le> 100"
  by (simp_all add: pageSize_def Let_def)

lemma auditList_from:
  assumes "(case (if c = None then fi_after f else c) of None \<Rightarrow> matching f s
      | Some k \<Rightarrow> filter (\<lambda>ev. position ev < k) (matching f s)) = R"
  shows "auditList f c s = (map (withEmail s) (take (nat (pageSize (fi_limit f))) R),
     if nat (pageSize (fi_limit f)) < length R then Some (position (R ! (nat (pageSize (fi_limit f)) - 1))) else None)"
proof -
  let ?n = "nat (pageSize (fi_limit f))"
  have n: "1 \<le> ?n" "int ?n = pageSize (fi_limit f)" "nat (pageSize (fi_limit f) + 1) = Suc ?n"
    using pageSize_bounds [of "fi_limit f"] by auto
  let ?f = "f\<lparr>fi_after := if c = None then fi_after f else c, fi_limit := pageSize (fi_limit f) + 1\<rparr>"
  have "auditSelect ?f s = map (withEmail s) (take (Suc ?n) R)"
    using auditSelect_from [of ?f s, unfolded matching_cong] assms n(3) pageSize_bounds [of "fi_limit f"] by simp
  then show ?thesis using n by (auto simp: auditList_def Let_def take_map min_def)
qed

text \<open>C24. Following the cursors from the first page to the last shows every event that matches exactly once, newest
  first, whatever the page size and however many events share a time.\<close>

theorem pages_show_everything:
  assumes "distinct (map av_id (al_events s))" "fi_after f = None"
  shows "\<exists>ps. auditPages (Suc (length (al_events s))) f None s = Some ps
    \<and> concat ps = map (withEmail s) (matching f s)
    \<and> (\<forall>p \<in> set ps. length p \<le> nat (pageSize (fi_limit f)))"
proof -
  let ?n = "nat (pageSize (fi_limit f))"
  have n: "1 \<le> ?n" using pageSize_bounds [of "fi_limit f"] by simp
  have step: "\<exists>ps. auditPages k f c s = Some ps \<and> concat ps = map (withEmail s) R \<and> (\<forall>p \<in> set ps. length p \<le> ?n)"
    if "length R < k" "(case c of None \<Rightarrow> matching f s | Some p \<Rightarrow> filter (\<lambda>ev. position ev < p) (matching f s)) = R"
      "\<exists>pre. matching f s = pre @ R" for k c R
    using that
  proof (induction k arbitrary: c R)
    case (Suc k)
    have "(case (if c = None then fi_after f else c) of None \<Rightarrow> matching f s
        | Some p \<Rightarrow> filter (\<lambda>ev. position ev < p) (matching f s)) = R"
      using Suc.prems(2) assms(2) by (auto split: option.splits)
    note page = auditList_from [OF this]
    show ?case
    proof (cases "?n < length R")
      case False
      then show ?thesis by (simp add: page)
    next
      case True
      let ?R = "drop ?n R" and ?y = "R ! (?n - 1)"
      obtain pre where pre: "matching f s = pre @ R" using Suc.prems(3) by blast
      have split: "R = take (?n - 1) R @ ?y # ?R"
        using id_take_nth_drop [of "?n - 1" R] True n by simp
      from this pre have whole: "matching f s = (pre @ take (?n - 1) R) @ ?y # ?R" by (metis append_assoc)
      then have tail: "\<exists>pre. matching f s = pre @ ?R" by (intro exI [of _ "pre @ take (?n - 1) R @ [?y]"]) simp
      have rest: "filter (\<lambda>ev. position ev < position ?y) (matching f s) = ?R"
        using filter_after [of position "pre @ take (?n - 1) R" ?y ?R] matching_descending [OF assms(1), of f] whole by metis
      have "length ?R < k" using Suc.prems(1) True n by simp
      then obtain ps where ps: "auditPages k f (Some (position ?y)) s = Some ps" "concat ps = map (withEmail s) ?R"
        "\<forall>p \<in> set ps. length p \<le> ?n"
        using Suc.IH [of ?R "Some (position ?y)"] rest tail by auto
      have "map (withEmail s) (take ?n R) @ map (withEmail s) ?R = map (withEmail s) R" by (simp flip: map_append)
      with ps True show ?thesis by (simp add: page)
    qed
  qed simp
  have "length (matching f s) < Suc (length (al_events s))"
    by (simp add: matching_def latestFirst_def less_Suc_eq_le)
  from step [OF this, of None] show ?thesis by simp
qed

definition exFilter :: auditFilter where
  "exFilter = \<lparr>fi_actorUserId = None, fi_actionPrefix = [], fi_resourceType = [], fi_resourceId = None, fi_outcome = [],
     fi_since = None, fi_until = None, fi_after = None, fi_limit = 1\<rparr>"

theorem pages_show_everything_witness:
  "\<exists>ps. auditPages 3 exFilter None exLog = Some ps \<and> concat ps = map (withEmail exLog) (matching exFilter exLog)"
proof -
  have "distinct (map av_id (al_events exLog))" "fi_after exFilter = None" by (simp_all add: exLog_def exFilter_def blankEvent_def)
  from pages_show_everything [OF this] show ?thesis by (auto simp: exLog_def numeral_3_eq_3)
qed

subsection \<open>Retention\<close>

text \<open>Whatever rows a batch takes, it takes 5000 of the expired ones, or all.\<close>

definition picksBatch :: "(uuid list \<Rightarrow> uuid list) \<Rightarrow> bool" where
  "picksBatch pick \<longleftrightarrow> (\<forall>ids. distinct ids \<longrightarrow> distinct (pick ids) \<and> set (pick ids) \<subseteq> set ids \<and> length (pick ids) = min 5000 (length ids))"

definition keptEvents :: "int \<Rightarrow> auditStore \<Rightarrow> auditEvent list" where
  "keptEvents cutoff s = filter (\<lambda>ev. \<not> av_createdAt ev < cutoff) (al_events s)"

lemma filter_length_ids:
  assumes "distinct (map f xs)" "distinct ids" "set ids \<subseteq> f ` set xs"
  shows "length (filter (\<lambda>x. f x \<in> set ids) xs) = length ids"
proof -
  let ?g = "filter (\<lambda>x. f x \<in> set ids) xs"
  have "distinct (map f ?g)" by (rule distinct_map_filter [OF assms(1)])
  moreover have "set (map f ?g) = set ids" using assms(3) by auto
  ultimately have "length (map f ?g) = length ids" using assms(2) by (metis distinct_card)
  then show ?thesis by simp
qed

lemma pruneBatch_step:
  assumes "picksBatch pick" "distinct (map av_id (al_events s))"
  shows "fst (pruneBatch pick cutoff s) = min 5000 (length (expiredIds cutoff s))"
    "keptEvents cutoff (snd (pruneBatch pick cutoff s)) = keptEvents cutoff s"
    "length (expiredIds cutoff (snd (pruneBatch pick cutoff s))) + fst (pruneBatch pick cutoff s) = length (expiredIds cutoff s)"
    "distinct (map av_id (al_events (snd (pruneBatch pick cutoff s))))"
    "\<exists>evs. snd (pruneBatch pick cutoff s) = s\<lparr>al_events := evs\<rparr>"
proof -
  let ?x = "filter (\<lambda>ev. av_createdAt ev < cutoff) (al_events s)"
  define ids where "ids = pick (expiredIds cutoff s)"
  have d: "distinct (expiredIds cutoff s)" unfolding expiredIds_def by (rule distinct_map_filter [OF assms(2)])
  then have ids: "distinct ids" "set ids \<subseteq> set (expiredIds cutoff s)" "length ids = min 5000 (length (expiredIds cutoff s))"
    using assms(1) by (simp_all add: picksBatch_def ids_def)
  have old: "av_createdAt ev < cutoff" if "ev \<in> set (al_events s)" "av_id ev \<in> set ids" for ev
  proof -
    from that(2) ids(2) obtain x where x: "x \<in> set (al_events s)" "av_createdAt x < cutoff" "av_id x = av_id ev"
      by (auto simp: expiredIds_def)
    then show ?thesis using distinct_key [OF assms(2) x(1) that(1)] by simp
  qed
  have b: "pruneBatch pick cutoff s = (length (filter (\<lambda>ev. av_id ev \<in> set ids) (al_events s)),
      s\<lparr>al_events := filter (\<lambda>ev. av_id ev \<notin> set ids) (al_events s)\<rparr>)"
    by (simp add: pruneBatch_def Let_def ids_def)
  have "length (filter (\<lambda>ev. av_id ev \<in> set ids) (al_events s)) = length ids"
    using filter_length_ids [OF assms(2) ids(1)] ids(2) by (fastforce simp: expiredIds_def)
  then show n: "fst (pruneBatch pick cutoff s) = min 5000 (length (expiredIds cutoff s))" using b ids(3) by simp
  show "keptEvents cutoff (snd (pruneBatch pick cutoff s)) = keptEvents cutoff s"
    using old by (auto simp: b keptEvents_def intro!: filter_cong)
  have "length (filter (\<lambda>ev. av_id ev \<in> set ids) ?x) = length ids"
    using filter_length_ids [of av_id ?x ids] d ids(1,2) by (simp add: expiredIds_def)
  then have "length (filter (\<lambda>ev. av_id ev \<notin> set ids) ?x) + length ids = length ?x"
    using sum_length_filter_compl [of "\<lambda>ev. av_id ev \<in> set ids" ?x] by simp
  then show "length (expiredIds cutoff (snd (pruneBatch pick cutoff s))) + fst (pruneBatch pick cutoff s) = length (expiredIds cutoff s)"
    using n ids(3) by (simp add: b expiredIds_def conj_commute)
  show "distinct (map av_id (al_events (snd (pruneBatch pick cutoff s))))"
    using distinct_map_filter [OF assms(2)] by (simp add: b)
  show "\<exists>evs. snd (pruneBatch pick cutoff s) = s\<lparr>al_events := evs\<rparr>" by (auto simp: b)
qed

text \<open>C25. The retention job ends, whatever rows each batch takes, and removes exactly the events older than the
  cutoff, of which it returns the number.\<close>

theorem prune_exact:
  assumes "picksBatch pick" "distinct (map av_id (al_events s))"
  shows "pruneAll pick cutoff k s = Some (k + length (expiredIds cutoff s), s\<lparr>al_events := keptEvents cutoff s\<rparr>)"
  using assms(2)
proof (induction "length (expiredIds cutoff s)" arbitrary: s k rule: less_induct)
  case less
  note step = pruneBatch_step [OF assms(1) less.prems, of cutoff]
  obtain n s' where b: "pruneBatch pick cutoff s = (n, s')" by fastforce
  show ?case
  proof (cases "n < 5000")
    case True
    then have "n = length (expiredIds cutoff s)" "expiredIds cutoff s' = []" using step(1,3) b by auto
    moreover from this(2) have "keptEvents cutoff s' = al_events s'"
      by (auto simp: expiredIds_def keptEvents_def filter_empty_conv intro: filter_True)
    ultimately show ?thesis using True step(2,5) b by (subst pruneAll.simps) auto
  next
    case False
    then have "length (expiredIds cutoff s') < length (expiredIds cutoff s)" using step(1,3) b by simp
    from less.hyps [OF this, of "k + n"] step(4) b
    have "pruneAll pick cutoff (k + n) s' = Some (k + n + length (expiredIds cutoff s'), s'\<lparr>al_events := keptEvents cutoff s'\<rparr>)" by simp
    moreover have "n + length (expiredIds cutoff s') = length (expiredIds cutoff s)" "keptEvents cutoff s' = keptEvents cutoff s"
      "\<exists>evs. s' = s\<lparr>al_events := evs\<rparr>" using step(2,3,5) b by auto
    ultimately show ?thesis using False b by (subst pruneAll.simps) auto
  qed
qed

theorem prune_exact_witness: "pruneAll (take 5000) 10 0 exLog = Some (2, exLog\<lparr>al_events := []\<rparr>)"
proof -
  have "picksBatch (take 5000)" by (auto simp: picksBatch_def dest: in_set_takeD)
  moreover have "distinct (map av_id (al_events exLog))" by (simp add: exLog_def blankEvent_def)
  moreover have "length (expiredIds 10 exLog) = 2" "keptEvents 10 exLog = []"
    by (simp_all add: expiredIds_def keptEvents_def exLog_def blankEvent_def)
  ultimately show ?thesis using prune_exact [of "take 5000" exLog 10 0] by simp
qed

subsection \<open>The address of a caller\<close>

lemma trimSpace_space: "trimSpace (CHR '' '' # s) = trimSpace s"
proof -
  have "trimLeftSpace (CHR '' '' # s) = trimLeftSpace s"
    unfolding trimLeftSpace_def by (subst stripSeqs.simps) (simp add: spaceSeqs_def hasPrefix_iff)
  then show ?thesis by (simp add: trimSpace_def)
qed

text \<open>C26. Behind a trusted proxy that appends the peer it saw, whatever the client itself sends in the header: the
  address that is logged and limited is the one the proxy added.\<close>

theorem client_cannot_choose_address:
  assumes "hq_forwarded r = hs @ [sent @ '', '' @ peer] \<or> hq_forwarded r = hs @ [peer]"
    and "CHR '','' \<notin> set peer" "trimSpace peer = peer" "peer \<noteq> []"
  shows "clientIP r True = peer"
proof -
  have "last (splitByte (CHR '','') (sent @ CHR '','' # CHR '' '' # peer)) = CHR '' '' # peer"
    using assms(2) by (simp add: splitByte_append splitByte_none)
  moreover have "last (splitByte (CHR '','') peer) = peer" using assms(2) by (simp add: splitByte_none)
  ultimately show ?thesis using assms by (auto simp: clientIP_def Let_def trimSpace_space)
qed

theorem client_cannot_choose_address_witness:
  "clientIP (exTokenReq\<lparr>hq_forwarded := [''1.2.3.4, 10.9.8.7'']\<rparr>) True = ''10.9.8.7''"
proof (rule client_cannot_choose_address [of _ "[]" "''1.2.3.4''"])
  show "trimSpace ''10.9.8.7'' = ''10.9.8.7''" by code_simp
qed simp_all

end
