(* ===== verification/Spec2Isabelle.thy ===== *)
theory Spec2Isabelle
  imports SqlText Preview Quoting RowData RowImage Inventory Journal FleetRuns Cron SchemaDiff Jobs Backups BackupCopies Moves Operations Reachability Scenarios Authz Accounts Sessions Owners Access SignIn AgentJobs AuditLog
begin

text \<open>
  Fleetdock is a server that manages MariaDB/MySQL and PostgreSQL databases: a Go back end
  (\<open>src/backend\<close>) with a PostgreSQL store, a set of engine drivers, background workers and an HTTP
  interface.  This development models the logic of the back end that decides something (what is run,
  what is written, what is undone, what happens next) and leaves out what only moves bytes.  Paths
  below are relative to \<open>src/backend/internal\<close>.

  \<^bold>\<open>How the model reads.\<close>  A Go string is a byte list (\<^typ>\<open>string\<close>), a struct a record, an enumeration a
  datatype, a map a finite map or a function to an option, an error a value of a sum (\<open>Inl\<close>), a
  panic \<^const>\<open>None\<close>.  SQL tables of the program's own store are lists of records and a transaction is
  one function of the state; what the managed database does is a parameter.  Loops are recursive
  functions, \<open>while\<close> (the statement splitter, whose loop is proved to advance) or
  \<open>partial_function (option)\<close> (the mask loop of \<open>parseField\<close>, whose variable can wrap around); no
  definition uses fuel.  Third-party packages (UUID, drivers, CSV lexing, JSON and SHA-256 of the
  schema hash) are arguments of the definitions that use them.

  \<^bold>\<open>The theories.\<close>
  \<^item> \<open>Prelude\<close>: Go's string functions, errors and results, and the lemmas and collections all share.
  \<^item> \<open>SqlText\<close> (\<open>platform/engine/sqlsplit.go\<close>, \<open>admin_shared.go\<close>): splitting a script into statements
    and the classification of a statement as a read.  Shown: the split is sound and undoes joining,
    \<open>containsWord\<close> is exact, an accepted batch holds only statements classified as reads; the
    comment scanner can be fooled.
  \<^item> \<open>Preview\<close> (\<open>preview.go\<close>): the words of a statement outside quotes, which statements may be
    previewed, and the single-table UPDATE and DELETE whose rows are sampled.
  \<^item> \<open>Quoting\<close>: quoted names, with the contract of a quoting function (locale \<open>quoter\<close>) met by both
    dialects.
  \<^item> \<open>RowData\<close> (\<open>data.go\<close> and the dialects): browse clauses, single-row statements and CSV import.
    Shown: values never reach the text of a statement, keys address exactly the key columns, an
    escaped LIKE pattern is literal, an import is all or nothing.
  \<^item> \<open>RowImage\<close> (\<open>rowimage.go\<close>): one edit in a transaction, its before and after images, and the plan
    that applies an image.  Shown: an edit touches exactly one row or nothing, a guarded image is
    applied only when the guard holds, the plan reaches the image, undoing an update restores the row.
  \<^item> \<open>Journal\<close> (\<open>domain/rowchange\<close>, \<open>infra/postgres/rowchange_repository.go\<close>, \<open>app/dbadmin/changes.go\<close>
    and \<open>scoped\<close> of \<open>app/dbadmin/service.go\<close>): recording edits and undoing them one by one or by batch.
    Shown: a change is undone at most once, a failed undo leaves no trace; two behaviours that
    contradict their documentation.
  \<^item> \<open>FleetRuns\<close> (\<open>domain/fleet\<close>, \<open>infra/postgres/fleet_repository.go\<close>): one script on many databases, as
    a step relation with a reachability invariant.
  \<^item> \<open>Cron\<close> (\<open>platform/cron\<close>, \<open>domain/schedule\<close>, \<open>app/schedule\<close>): cron expressions on 64-bit masks, the
    next run of a schedule and the scheduler tick.
  \<^item> \<open>SchemaDiff\<close> (\<open>platform/schemadiff\<close>, \<open>engine/mariadb_schema.go\<close>): the structure of a database, its
    diff and the migration script of both dialects.  Shown: the diff is empty exactly for the same
    structure, the MySQL script is always produced and its review count is exact, an enum is extended
    correctly; two structures the diff or the script gets wrong.
  \<^item> \<open>Inventory\<close> (\<open>domain/instance\<close>, \<open>domain/database\<close>, their repositories): servers and databases, names,
    and the reconciliation with what a probe saw.  Shown: it deletes nothing and touches one server.
  \<^item> \<open>Jobs\<close> (\<open>domain/job\<close>, \<open>infra/postgres/job_repository.go\<close>, the bookkeeping of
    \<open>app/operation/service.go\<close>): the queue of operations.  Shown: the oldest job is claimed.
  \<^item> \<open>Backups\<close> (\<open>domain/backup\<close>, its repository, \<open>app/backup/service.go\<close>, retention in
    \<open>app/operation/service.go\<close>): taking, restoring, verifying, importing, deleting and expiring backups.
    Shown: keys are distinct, retention only reaches expired backups and their own objects.
  \<^item> \<open>BackupCopies\<close> (\<open>domain/backupcopy\<close>, its repository, \<open>app/backupcopy\<close>): temporary restores.
  \<^item> \<open>Moves\<close> (\<open>app/database/service.go\<close>, \<open>app/move/service.go\<close>): creating, deleting and moving databases.
  \<^item> \<open>Operations\<close> (\<open>app/operation/service.go\<close>): payloads, completion with all its effects, reaping.
  \<^item> \<open>Reachability\<close>: one rule per operation of the five theories before it for what it keeps, the step
    relation \<open>opStep\<close> over all of them, and what holds in every reachable store: a finished operation is
    final, nothing tracked is dropped unasked, names and live copies are unique.
  \<^item> \<open>Scenarios\<close>: a backup is found again by a restore; sequences of operations that go wrong.
  \<^item> \<open>Authz\<close> (\<open>domain/authz\<close>): scopes, the decision on a resource and the scopes a caller may read.
  \<^item> \<open>Accounts\<close> (\<open>domain/user\<close>, \<open>app/user\<close>, their repositories, \<open>platform/auth/password.go\<close>): users, role
    grants and roles.
  \<^item> \<open>Sessions\<close> (\<open>app/auth\<close>, \<open>app/token\<close>, \<open>domain/token\<close>, their repositories): signing in and out, API
    tokens, the principal behind a credential.
  \<^item> \<open>Owners\<close>: the step relation of the account operations.  Shown: an active owner remains as long as
    operations do not overlap (and a race that loses it), an ended session is refused for ever.
  \<^item> \<open>Access\<close> (\<open>app/authz/resolver.go\<close>, \<open>interfaces/httpapi/middleware_auth.go\<close>, the list filters of the
    repositories): who may open what.  Shown: lists show exactly what opens, the wrappers implement a
    policy on the hierarchy of resources, a token is bounded by its account and its scopes (and two
    ways around its limits).
  \<^item> \<open>SignIn\<close> (\<open>interfaces/httpapi/ratelimit.go\<close>, \<open>account_guard.go\<close>, \<open>auth_handler.go\<close>): the limits on
    signing in, shown for every sequence of attempts and sweeps.
  \<^item> \<open>Agents\<close> (\<open>domain/server\<close>, \<open>domain/regtoken\<close>, \<open>app/server\<close>, \<open>app/agent\<close>, their repositories,
    \<open>interfaces/httpapi/agent_handler.go\<close>): hosts, registration tokens, agents and what they may ask.
  \<^item> \<open>Enrolment\<close>, \<open>AgentJobs\<close>: their step relation.  Shown: a registration token is used once, an agent
    that was cut off stays out and can enrol its host again, an agent reaches the jobs of its own host.
  \<^item> \<open>RouteTable\<close> (\<open>interfaces/httpapi/router.go\<close>, \<open>audit_routes.go\<close>): the registered routes with the wrapper of
    each, the audited routes, and the routing of the standard library's \<open>ServeMux\<close> on them.
  \<^item> \<open>HttpStack\<close> (\<open>ui.go\<close>, \<open>cors.go\<close>, \<open>middleware_auth.go\<close>, \<open>session_cookie.go\<close>, \<open>agent_handler.go\<close>): the chain of
    middleware a request passes.  Shown: both tables are well formed.
  \<^item> \<open>Guarded\<close>: a handler runs only for the caller the credential names and with what its guard asks for;
    what is left to a caller without credential; a route the dashboard hides.
  \<^item> \<open>AuditLog\<close> (\<open>interfaces/httpapi/audit.go\<close>, \<open>app/audit\<close>, \<open>domain/audit\<close>, \<open>infra/postgres/audit_repository.go\<close>):
    what is recorded of a request, and the table.  Shown: at most one event per request, with the caller
    and the resource of the request; refusals are recorded; pages show every event once; pruning is exact.

  The store of these theories is one record extended from theory to theory (inventory, jobs, backups,
  copies), so that an operation of an early theory applies to the whole store.  One operation is one
  function; where the code runs two transactions and the gap between them matters (\<open>triggerJob\<close>,
  \<open>verifyJob\<close>) the first has its own definition.  The source of fresh UUIDs is a counter, the clock of
  the database and of the services is one field.

  \<^bold>\<open>How the parts interact.\<close>  The console splits and classifies scripts (\<open>SqlText\<close>) and previews them
  (\<open>Preview\<close>); the data browser builds statements from requests (\<open>RowData\<close> over \<open>Quoting\<close>) and runs
  them in one transaction per edit (\<open>RowImage\<close>), through a scoped connection, and records each edit
  (\<open>Journal\<close>), whose undo is again a row image.  Fleet runs claim targets for workers that run the
  same statements; schedules trigger backups.  Every longer task is a job (\<open>Jobs\<close>): an executor claims it
  with a payload, and its completion (\<open>Operations\<close>) calls back into backups, moves and copies, which
  create further jobs.  A probe reconciles the inventory with the servers.

  The accounts, sessions and grants are a store of their own; a request is checked (\<open>Access\<close>) against
  them and against the inventory before the operation it names runs.  Random values, SHA-256, bcrypt, the
  syntax of mail addresses and of IP addresses, and the signature of a session are fields of \<open>authEnv\<close> and
  \<open>agentEnv\<close>, \<open>uuid.Parse\<close>, the parsing of addresses and of JSON fields of \<open>httpConf\<close> and \<open>auditEnv\<close>;
  \<open>nullId\<close> is what scanning a NULL identifier gives.  Every request runs through \<open>serve\<close>: the path decides
  between dashboard and API, the authenticator names the caller, the route's wrapper decides, the handler
  calls the services, and the audit log records what came of it.

  \<^bold>\<open>Not modelled.\<close>  What an executor runs, the engine drivers, catalogue queries, streaming exports, SSH
  tunnels, storage and notification clients, metrics, the decoding of requests and the encoding of
  responses, and the front end: I/O around the logic above.  Endpoints and credentials of databases are
  asked in the recorded order only.
\<close>

end
